(* ===== verification/Prelude.thy ===== *)
theory Prelude
  imports Main "HOL-Library.Char_ord" "HOL-Library.List_Lexorder" "HOL-Library.Word"
begin

text \<open>
  What the components share: Rust's \<open>Result\<close> as a sum with its \<open>?\<close> operator, the operations of
  \<open>str\<close> and \<open>std::path\<close> that the sources call (strings are byte lists, as Rust's \<open>str\<close> is UTF-8
  bytes and \<open>len\<close> counts them), decimal and hexadecimal printing, and \<open>BTreeMap\<close> as an
  association list in strictly increasing key order, with the interface locale the clients use.
\<close>

unbundle bit_operations_syntax

named_theorems result_simps \<open>equations of the Result combinators\<close>
named_theorems str_simps \<open>equations of the string operations\<close>
named_theorems chars_simps \<open>character class predicates\<close>

section \<open>Result\<close>

text \<open>\<open>Inl\<close> is \<open>Err\<close>, \<open>Inr\<close> is \<open>Ok\<close>; \<open>rbind\<close> is the \<open>?\<close> operator.\<close>

fun rbind :: "'e + 'a \<Rightarrow> ('a \<Rightarrow> 'e + 'b) \<Rightarrow> 'e + 'b" where
  "rbind (Inl e) f = Inl e"
| "rbind (Inr a) f = f a"

definition ok_or :: "'a option \<Rightarrow> 'e \<Rightarrow> 'e + 'a" where
  "ok_or x e = (case x of None \<Rightarrow> Inl e | Some a \<Rightarrow> Inr a)"

text \<open>A guard: \<open>if c { return Err(e) }\<close>.\<close>

definition fail_if :: "bool \<Rightarrow> 'e \<Rightarrow> 'e + unit" where
  "fail_if c e = (if c then Inl e else Inr ())"

text \<open>A \<open>for\<close> loop with early return: the body returns \<open>Err\<close> or the next loop state.\<close>

fun for_each :: "'a list \<Rightarrow> ('s \<Rightarrow> 'a \<Rightarrow> 'e + 's) \<Rightarrow> 's \<Rightarrow> 'e + 's" where
  "for_each [] f s = Inr s"
| "for_each (x # xs) f s = rbind (f s x) (for_each xs f)"

text \<open>A \<open>for\<close> loop that only checks: the first \<open>Err\<close> is returned.\<close>

fun check_all :: "'a list \<Rightarrow> ('a \<Rightarrow> 'e + unit) \<Rightarrow> 'e + unit" where
  "check_all [] f = Inr ()"
| "check_all (x # xs) f = rbind (f x) (\<lambda>_. check_all xs f)"

text \<open>\<open>iter().map(f).collect::<Result<Vec<_>>>()\<close>.\<close>

fun collect :: "('a \<Rightarrow> 'e + 'b) \<Rightarrow> 'a list \<Rightarrow> 'e + 'b list" where
  "collect f [] = Inr []"
| "collect f (x # xs) = rbind (f x) (\<lambda>y. rbind (collect f xs) (\<lambda>ys. Inr (y # ys)))"

text \<open>\<open>Option::map(f).transpose()\<close>.\<close>

definition transpose_opt :: "('a \<Rightarrow> 'e + 'b) \<Rightarrow> 'a option \<Rightarrow> 'e + 'b option" where
  "transpose_opt f x = (case x of None \<Rightarrow> Inr None | Some a \<Rightarrow> rbind (f a) (\<lambda>b. Inr (Some b)))"

definition is_ok :: "'e + 'a \<Rightarrow> bool" where
  "is_ok r = (case r of Inl _ \<Rightarrow> False | Inr _ \<Rightarrow> True)"

lemma is_ok_simps [simp]: "is_ok (Inr a)" "\<not> is_ok (Inl e)"
  by (simp_all add: is_ok_def)

lemma is_ok_iff: "is_ok r \<longleftrightarrow> (\<exists>a. r = Inr a)"
  by (cases r) simp_all

lemma rbind_Inr_iff [result_simps]: "rbind m f = Inr b \<longleftrightarrow> (\<exists>a. m = Inr a \<and> f a = Inr b)"
  by (cases m) auto

lemma rbind_Inl_iff: "rbind m f = Inl e \<longleftrightarrow> m = Inl e \<or> (\<exists>a. m = Inr a \<and> f a = Inl e)"
  by (cases m) auto

lemma ok_or_Inr_iff [result_simps]: "ok_or x e = Inr a \<longleftrightarrow> x = Some a"
  by (auto simp: ok_or_def split: option.splits)

lemma ok_or_simps [simp]: "ok_or None e = Inl e" "ok_or (Some a) e = Inr a"
  by (simp_all add: ok_or_def)

lemma fail_if_Inr_iff [result_simps]: "fail_if c e = Inr u \<longleftrightarrow> \<not> c"
  by (auto simp: fail_if_def)

lemma fail_if_simps [simp]: "fail_if True e = Inl e" "fail_if False e = Inr ()"
  by (simp_all add: fail_if_def)

lemma fail_if_False_iff: "\<not> c \<Longrightarrow> fail_if c e = Inr ()"
  by (simp add: fail_if_def)

lemma transpose_opt_simps [simp]:
  "transpose_opt f None = Inr None"
  "transpose_opt f (Some a) = rbind (f a) (\<lambda>b. Inr (Some b))"
  by (simp_all add: transpose_opt_def)

lemma transpose_opt_Inr_iff [result_simps]:
  "transpose_opt f x = Inr y \<longleftrightarrow>
    (x = None \<and> y = None) \<or> (\<exists>a b. x = Some a \<and> f a = Inr b \<and> y = Some b)"
  by (cases x) (auto simp: rbind_Inr_iff)

lemma check_all_Inr_iff [result_simps]:
  "check_all xs f = Inr u \<longleftrightarrow> (\<forall>x \<in> set xs. f x = Inr ())"
  by (induction xs) (auto simp: rbind_Inr_iff)

lemma check_all_append:
  "check_all (xs @ ys) f = rbind (check_all xs f) (\<lambda>_. check_all ys f)"
proof (induction xs)
  case (Cons x xs)
  then show ?case by (cases "f x") simp_all
qed simp

lemma collect_Inr_length: "collect f xs = Inr ys \<Longrightarrow> length ys = length xs"
  by (induction xs arbitrary: ys) (auto simp: rbind_Inr_iff)

lemma collect_Inr_nth:
  "collect f xs = Inr ys \<Longrightarrow> i < length xs \<Longrightarrow> f (xs ! i) = Inr (ys ! i)"
proof (induction xs arbitrary: ys i)
  case (Cons x xs)
  then show ?case by (cases i) (auto simp: rbind_Inr_iff)
qed simp

lemma collect_Inr_all: "collect f xs = Inr ys \<Longrightarrow> x \<in> set xs \<Longrightarrow> \<exists>y \<in> set ys. f x = Inr y"
  by (induction xs arbitrary: ys) (auto simp: rbind_Inr_iff)

lemma collect_Inr_mem: "collect f xs = Inr ys \<Longrightarrow> y \<in> set ys \<Longrightarrow> \<exists>x \<in> set xs. f x = Inr y"
  by (induction xs arbitrary: ys) (auto simp: rbind_Inr_iff)

text \<open>Invariant rule of the \<open>for\<close> loop.\<close>

lemma for_each_append: "for_each (xs @ ys) f s = rbind (for_each xs f s) (for_each ys f)"
proof (induction xs arbitrary: s)
  case (Cons x xs)
  then show ?case by (cases "f s x") simp_all
qed simp

lemma for_each_steps: "for_each xs f s = Inr t \<Longrightarrow> x \<in> set xs \<Longrightarrow> \<exists>s1 s2. f s1 x = Inr s2"
  by (induction xs arbitrary: s) (auto simp: rbind_Inr_iff)

lemma for_each_invariant:
  assumes "for_each xs f s = Inr t" and "P s"
    and "\<And>s x s'. x \<in> set xs \<Longrightarrow> P s \<Longrightarrow> f s x = Inr s' \<Longrightarrow> P s'"
  shows "P t"
  using assms
proof (induction xs arbitrary: s)
  case (Cons x xs)
  from Cons.prems(1) obtain s' where s': "f s x = Inr s'" "for_each xs f s' = Inr t"
    by (auto simp: rbind_Inr_iff)
  show ?case
    by (rule Cons.IH [OF s'(2)]) (use Cons.prems s'(1) in auto)
qed simp

lemma for_each_upt:
  assumes "for_each [0..<n] f s = Inr t" "P 0 s" "\<And>k s s'. k < n \<Longrightarrow> P k s \<Longrightarrow> f s k = Inr s' \<Longrightarrow> P (Suc k) s'"
  shows "P n t"
proof -
  have "k \<le> n \<Longrightarrow> for_each [0..<k] f s = Inr t \<Longrightarrow> P k t" for k t
  proof (induction k arbitrary: t)
    case (Suc k)
    then obtain u where "for_each [0..<k] f s = Inr u" "f u k = Inr t" by (auto simp: for_each_append rbind_Inr_iff)
    with Suc assms(3) [of k u t] show ?case by simp
  qed (use assms(2) in simp)
  with assms(1) show ?thesis by simp
qed

lemma for_each_upt_total:
  assumes "P s" "\<And>k s. k < n \<Longrightarrow> P s \<Longrightarrow> \<exists>s'. f s k = Inr s' \<and> P s'"
  shows "\<exists>t. for_each [0..<n] f s = Inr t \<and> P t"
proof -
  have "k \<le> n \<Longrightarrow> \<exists>t. for_each [0..<k] f s = Inr t \<and> P t" for k
  proof (induction k)
    case (Suc k)
    then obtain u where "for_each [0..<k] f s = Inr u" "P u" by auto
    moreover from assms(2) [of k u] Suc.prems this(2) obtain t where "f u k = Inr t" "P t" by auto
    ultimately show ?case by (intro exI [of _ t]) (simp add: for_each_append)
  qed (use assms(1) in simp)
  then show ?thesis by simp
qed

section \<open>Characters and strings\<close>

definition is_ascii_lowercase :: "char \<Rightarrow> bool" where
  "is_ascii_lowercase c \<longleftrightarrow> 97 \<le> (of_char c :: nat) \<and> (of_char c :: nat) \<le> 122"

definition is_ascii_uppercase :: "char \<Rightarrow> bool" where
  "is_ascii_uppercase c \<longleftrightarrow> 65 \<le> (of_char c :: nat) \<and> (of_char c :: nat) \<le> 90"

definition is_ascii_digit :: "char \<Rightarrow> bool" where
  "is_ascii_digit c \<longleftrightarrow> 48 \<le> (of_char c :: nat) \<and> (of_char c :: nat) \<le> 57"

definition is_ascii_alphanumeric :: "char \<Rightarrow> bool" where
  "is_ascii_alphanumeric c \<longleftrightarrow> is_ascii_lowercase c \<or> is_ascii_uppercase c \<or> is_ascii_digit c"

definition is_ascii_hexdigit :: "char \<Rightarrow> bool" where
  "is_ascii_hexdigit c \<longleftrightarrow> is_ascii_digit c
     \<or> (97 \<le> (of_char c :: nat) \<and> (of_char c :: nat) \<le> 102)
     \<or> (65 \<le> (of_char c :: nat) \<and> (of_char c :: nat) \<le> 70)"

lemmas [chars_simps] = is_ascii_lowercase_def is_ascii_uppercase_def is_ascii_digit_def
  is_ascii_alphanumeric_def is_ascii_hexdigit_def

definition to_ascii_lowercase_char :: "char \<Rightarrow> char" where
  "to_ascii_lowercase_char c = (if is_ascii_uppercase c then char_of (of_char c + 32 :: nat) else c)"

definition to_ascii_uppercase_char :: "char \<Rightarrow> char" where
  "to_ascii_uppercase_char c = (if is_ascii_lowercase c then char_of (of_char c - 32 :: nat) else c)"

definition to_ascii_lowercase :: "string \<Rightarrow> string" where
  "to_ascii_lowercase s = map to_ascii_lowercase_char s"

definition to_ascii_uppercase :: "string \<Rightarrow> string" where
  "to_ascii_uppercase s = map to_ascii_uppercase_char s"

fun starts_with :: "string \<Rightarrow> string \<Rightarrow> bool" where
  "starts_with s [] = True"
| "starts_with [] (p # ps) = False"
| "starts_with (c # s) (p # ps) = (c = p \<and> starts_with s ps)"

lemma starts_with_iff: "starts_with s p \<longleftrightarrow> (\<exists>t. s = p @ t)"
  by (induction s p rule: starts_with.induct) auto

definition strip_prefix :: "string \<Rightarrow> string \<Rightarrow> string option" where
  "strip_prefix s p = (if starts_with s p then Some (drop (length p) s) else None)"

text \<open>\<open>str::contains(&str)\<close>.\<close>

fun contains_str :: "string \<Rightarrow> string \<Rightarrow> bool" where
  "contains_str [] p = (p = [])"
| "contains_str (c # s) p = (starts_with (c # s) p \<or> contains_str s p)"

lemma contains_str_iff: "contains_str s p \<longleftrightarrow> (\<exists>a b. s = a @ p @ b)"
proof (induction s)
  case (Cons c s)
  show ?case
    unfolding contains_str.simps starts_with_iff Cons.IH
    by (metis append_Cons append_Nil list.exhaust list.inject)
qed auto

text \<open>\<open>str::split(c)\<close>: always at least one piece.\<close>

fun split_on :: "char \<Rightarrow> string \<Rightarrow> string list" where
  "split_on d [] = [[]]"
| "split_on d (c # s) =
     (if c = d then [] # split_on d s
      else case split_on d s of [] \<Rightarrow> [[c]] | p # ps \<Rightarrow> (c # p) # ps)"

text \<open>\<open>[String]::join(sep)\<close>.\<close>

fun join_with :: "string \<Rightarrow> string list \<Rightarrow> string" where
  "join_with sep [] = []"
| "join_with sep [x] = x"
| "join_with sep (x # y # ys) = x @ sep @ join_with sep (y # ys)"

lemma split_on_not_Nil [simp]: "split_on d s \<noteq> []"
  by (induction s) (auto split: list.splits)

lemma join_split_on: "join_with [d] (split_on d s) = s"
proof (induction s)
  case (Cons c s)
  then show ?case
    by (cases "split_on d s"; cases "tl (split_on d s)") (auto split: list.splits)
qed simp

lemma split_on_no_sep: "p \<in> set (split_on d s) \<Longrightarrow> d \<notin> set p"
  by (induction s arbitrary: p) (auto split: if_splits list.splits)

lemma split_on_append: "d \<notin> set p \<Longrightarrow> split_on d (p @ d # s) = p # split_on d s"
  by (induction p) auto

lemma split_on_none: "d \<notin> set p \<Longrightarrow> split_on d p = [p]"
  by (induction p) auto

text \<open>\<open>str::replace(',', ",,")\<close>: QEMU's escape of an option value.\<close>

fun escape_comma :: "string \<Rightarrow> string" where
  "escape_comma [] = []"
| "escape_comma (c # s) =
     (if c = CHR '','' then CHR '','' # CHR '','' # escape_comma s else c # escape_comma s)"

section \<open>Numbers as text\<close>

text \<open>\<open>to_string\<close> of an unsigned and of a signed integer.\<close>

fun show_nat :: "nat \<Rightarrow> string" where
  "show_nat n = (if n < 10 then [char_of (48 + n)] else show_nat (n div 10) @ [char_of (48 + n mod 10)])"

declare show_nat.simps [simp del]

definition show_int :: "int \<Rightarrow> string" where
  "show_int i = (if i < 0 then CHR ''-'' # show_nat (nat (- i)) else show_nat (nat i))"

definition digit_val :: "char \<Rightarrow> nat" where
  "digit_val c = of_char c - 48"

text \<open>The value of a digit string, without the machine bound.\<close>

definition nat_of_digits :: "string \<Rightarrow> nat" where
  "nat_of_digits s = foldl (\<lambda>n c. 10 * n + digit_val c) 0 s"

text \<open>\<open>parse::<u64>()\<close> of a string of ASCII digits; \<open>None\<close> when empty or too large.\<close>

definition parse_u64_digits :: "string \<Rightarrow> nat option" where
  "parse_u64_digits s =
     (if s \<noteq> [] \<and> list_all is_ascii_digit s \<and> int (nat_of_digits s) < 2 ^ 64 then Some (nat_of_digits s)
      else None)"

text \<open>One hexadecimal digit and \<open>{:02x}\<close>, \<open>{:02X}\<close>.\<close>

definition hex_char :: "nat \<Rightarrow> char" where
  "hex_char n = char_of (if n < 10 then 48 + n else 87 + n)"

definition hex_char_upper :: "nat \<Rightarrow> char" where
  "hex_char_upper n = char_of (if n < 10 then 48 + n else 55 + n)"

definition hex2 :: "8 word \<Rightarrow> string" where
  "hex2 b = [hex_char (unat b div 16), hex_char (unat b mod 16)]"

definition hex2_upper :: "8 word \<Rightarrow> string" where
  "hex2_upper b = [hex_char_upper (unat b div 16), hex_char_upper (unat b mod 16)]"

definition hex_bytes :: "8 word list \<Rightarrow> string" where
  "hex_bytes bs = concat (map hex2 bs)"

definition hexdigit_val :: "char \<Rightarrow> nat" where
  "hexdigit_val c =
     (let n = of_char c :: nat in if n \<le> 57 then n - 48 else if n \<le> 70 then n - 55 else n - 87)"

lemma length_hex2 [simp]: "length (hex2 b) = 2"
  by (simp add: hex2_def)

lemma length_hex_bytes: "length (hex_bytes bs) = 2 * length bs"
  by (induction bs) (simp_all add: hex_bytes_def)

lemma of_char_hex_char: "n < 16 \<Longrightarrow> (of_char (hex_char n) :: nat) = (if n < 10 then 48 + n else 87 + n)"
  by (auto simp: hex_char_def)

lemma hex_char_lower_hexdigit:
  "n < 16 \<Longrightarrow> is_ascii_hexdigit (hex_char n) \<and> \<not> is_ascii_uppercase (hex_char n)"
  by (auto simp: chars_simps of_char_hex_char)

lemma hexdigit_val_hex_char: "n < 16 \<Longrightarrow> hexdigit_val (hex_char n) = n"
  by (auto simp: hexdigit_val_def of_char_hex_char Let_def)

lemma unat_byte_div16: "unat (b :: 8 word) div 16 < 16"
proof -
  have "unat b < 2 ^ LENGTH(8)" by (rule unsigned_less)
  then show ?thesis by simp
qed

lemma hex2_inj: "hex2 a = hex2 b \<longleftrightarrow> a = b"
proof
  assume h: "hex2 a = hex2 b"
  have "hexdigit_val (hex_char (unat a div 16)) = hexdigit_val (hex_char (unat b div 16))"
    "hexdigit_val (hex_char (unat a mod 16)) = hexdigit_val (hex_char (unat b mod 16))"
    using h by (simp_all add: hex2_def)
  then have "unat a div 16 = unat b div 16" "unat a mod 16 = unat b mod 16"
    by (simp_all add: hexdigit_val_hex_char unat_byte_div16)
  then have "unat a = unat b" by (metis div_mod_decomp)
  then show "a = b" by (rule word_unat_eq_iff [THEN iffD2])
qed simp

text \<open>A UUIDv4 from the first sixteen bytes of a digest: version and variant bits set, then the dashed form.\<close>

definition uuid_bytes :: "8 word list \<Rightarrow> 8 word list" where
  "uuid_bytes d = (take 16 d)[6 := ((d ! 6) AND 0x0f) OR 0x40, 8 := ((d ! 8) AND 0x3f) OR 0x80]"

definition format_uuid :: "8 word list \<Rightarrow> string" where
  "format_uuid u = hex_bytes (take 4 u) @ ''-'' @ hex_bytes (take 2 (drop 4 u)) @ ''-'' @ hex_bytes (take 2 (drop 6 u))
     @ ''-'' @ hex_bytes (take 2 (drop 8 u)) @ ''-'' @ hex_bytes (drop 10 u)"

section \<open>Paths\<close>

text \<open>
  \<open>std::path\<close> on Unix: a path is its bytes. \<open>join\<close> of an absolute path replaces, and a separator is
  added only when the left side does not already end in one.
\<close>

type_synonym path = string

definition is_absolute :: "path \<Rightarrow> bool" where
  "is_absolute p \<longleftrightarrow> starts_with p ''/''"

definition path_join :: "path \<Rightarrow> path \<Rightarrow> path" where
  "path_join p q =
     (if is_absolute q then q
      else if p = [] \<or> last p = CHR ''/'' then p @ q
      else p @ ''/'' @ q)"

text \<open>\<open>Path::components\<close> contains \<open>ParentDir\<close>.\<close>

definition has_parent_dir :: "path \<Rightarrow> bool" where
  "has_parent_dir p \<longleftrightarrow> ''..'' \<in> set (split_on (CHR ''/'') p)"

section \<open>BTreeMap\<close>

text \<open>The map interface its clients rely on: what a lookup returns after an insert or a remove.\<close>

locale keyed_map =
  fixes get :: "'m \<Rightarrow> 'k \<Rightarrow> 'v option"
    and put :: "'k \<Rightarrow> 'v \<Rightarrow> 'm \<Rightarrow> 'm"
    and del :: "'k \<Rightarrow> 'm \<Rightarrow> 'm"
    and ok :: "'m \<Rightarrow> bool"
  assumes get_put: "ok m \<Longrightarrow> get (put k v m) k' = (if k' = k then Some v else get m k')"
    and get_del: "ok m \<Longrightarrow> get (del k m) k' = (if k' = k then None else get m k')"
    and ok_put: "ok m \<Longrightarrow> ok (put k v m)"
    and ok_del: "ok m \<Longrightarrow> ok (del k m)"
begin

text \<open>\<open>entry(k).or_insert(v)\<close>.\<close>

definition put_new :: "'k \<Rightarrow> 'v \<Rightarrow> 'm \<Rightarrow> 'm" where
  "put_new k v m = (if get m k = None then put k v m else m)"

definition puts :: "('k \<times> 'v) list \<Rightarrow> 'm \<Rightarrow> 'm" where
  "puts kvs m = foldl (\<lambda>m (k, v). put k v m) m kvs"

lemma get_put_same: "ok m \<Longrightarrow> get (put k v m) k = Some v"
  by (simp add: get_put)

lemma get_put_other: "ok m \<Longrightarrow> k' \<noteq> k \<Longrightarrow> get (put k v m) k' = get m k'"
  by (simp add: get_put)

lemma ok_put_new: "ok m \<Longrightarrow> ok (put_new k v m)"
  by (simp add: put_new_def ok_put)

lemma get_put_new:
  "ok m \<Longrightarrow> get (put_new k v m) k' = (if k' = k \<and> get m k = None then Some v else get m k')"
  by (auto simp: put_new_def get_put)

lemma ok_puts: "ok m \<Longrightarrow> ok (puts kvs m)"
  unfolding puts_def by (induction kvs arbitrary: m) (auto simp: ok_put)

lemma get_puts_other:
  "ok m \<Longrightarrow> k \<notin> fst ` set kvs \<Longrightarrow> get (puts kvs m) k = get m k"
  unfolding puts_def by (induction kvs arbitrary: m) (auto simp: ok_put get_put)

text \<open>Inserting every entry of a list with distinct keys: the list's entries win over the map's.\<close>

lemma get_puts:
  "ok m \<Longrightarrow> distinct (map fst kvs) \<Longrightarrow>
   get (puts kvs m) k = (case map_of kvs k of Some v \<Rightarrow> Some v | None \<Rightarrow> get m k)"
proof (induction kvs arbitrary: m)
  case Nil
  then show ?case by (simp add: puts_def)
next
  case (Cons kv kvs)
  obtain k1 v1 where kv: "kv = (k1, v1)" by (cases kv)
  have step: "puts ((k1, v1) # kvs) m = puts kvs (put k1 v1 m)" by (simp add: puts_def)
  from Cons.IH [of "put k1 v1 m"] Cons.prems
  have "get (puts kvs (put k1 v1 m)) k = (case map_of kvs k of Some v \<Rightarrow> Some v | None \<Rightarrow> get (put k1 v1 m) k)"
    by (simp add: ok_put kv)
  moreover have "map_of kvs k1 = None"
    using Cons.prems by (simp add: kv map_of_eq_None_iff)
  ultimately show ?case
    using Cons.prems by (auto simp: step kv get_put split: option.splits)
qed

end

text \<open>The implementation: entries in strictly increasing key order.\<close>

fun oget :: "('k :: linorder \<times> 'v) list \<Rightarrow> 'k \<Rightarrow> 'v option" where
  "oget [] k = None"
| "oget ((a, b) # m) k = (if k = a then Some b else oget m k)"

fun oput :: "'k :: linorder \<Rightarrow> 'v \<Rightarrow> ('k \<times> 'v) list \<Rightarrow> ('k \<times> 'v) list" where
  "oput k v [] = [(k, v)]"
| "oput k v ((a, b) # m) =
     (if k < a then (k, v) # (a, b) # m else if k = a then (k, v) # m else (a, b) # oput k v m)"

fun odel :: "'k :: linorder \<Rightarrow> ('k \<times> 'v) list \<Rightarrow> ('k \<times> 'v) list" where
  "odel k [] = []"
| "odel k ((a, b) # m) = (if k = a then m else (a, b) # odel k m)"

definition ordered :: "('k :: linorder \<times> 'v) list \<Rightarrow> bool" where
  "ordered m \<longleftrightarrow> sorted_wrt (<) (map fst m)"

definition okeys :: "('k \<times> 'v) list \<Rightarrow> 'k list" where
  "okeys m = map fst m"

lemma ordered_Nil [simp]: "ordered []"
  by (simp add: ordered_def)

lemma ordered_Cons: "ordered ((a, b) # m) \<longleftrightarrow> (\<forall>k \<in> fst ` set m. a < k) \<and> ordered m"
  by (simp add: ordered_def)

lemma oget_map_of: "oget m k = map_of m k"
  by (induction m k rule: oget.induct) auto

lemma oget_None_iff: "oget m k = None \<longleftrightarrow> k \<notin> fst ` set m"
  by (simp add: oget_map_of map_of_eq_None_iff)

lemma oget_in_set: "oget m k = Some v \<Longrightarrow> (k, v) \<in> set m"
  by (simp add: oget_map_of map_of_SomeD)

lemma keys_oput: "fst ` set (oput k v m) = insert k (fst ` set m)"
  by (induction k v m rule: oput.induct) auto

lemma keys_odel: "fst ` set (odel k m) \<subseteq> fst ` set m"
  by (induction k m rule: odel.induct) auto

lemma ordered_oput: "ordered m \<Longrightarrow> ordered (oput k v m)"
proof (induction k v m rule: oput.induct)
  case (2 k v a b m)
  then show ?case
    by (auto simp: ordered_Cons keys_oput dest: less_trans)
qed (simp add: ordered_Cons)

lemma ordered_odel: "ordered m \<Longrightarrow> ordered (odel k m)"
proof (induction k m rule: odel.induct)
  case (2 k a b m)
  from "2.prems" have "\<forall>x \<in> fst ` set m. a < x" and "ordered m"
    by (simp_all add: ordered_Cons)
  moreover have "\<forall>x \<in> fst ` set (odel k m). a < x"
    using keys_odel [of k m] \<open>\<forall>x \<in> fst ` set m. a < x\<close> by blast
  ultimately show ?case using "2.IH" by (auto simp only: odel.simps ordered_Cons split: if_split)
qed simp

lemma oget_oput: "oget (oput k v m) k' = (if k' = k then Some v else oget m k')"
  by (induction k v m rule: oput.induct) auto

lemma oget_odel: "ordered m \<Longrightarrow> oget (odel k m) k' = (if k' = k then None else oget m k')"
proof (induction k m rule: odel.induct)
  case (2 k a b m)
  have "k = a \<Longrightarrow> oget m k = None"
    using "2.prems" by (auto simp: ordered_Cons oget_None_iff)
  with 2 show ?case by (auto simp: ordered_Cons)
qed simp

lemma ordered_distinct: "ordered m \<Longrightarrow> distinct (map fst m)"
proof (induction m)
  case (Cons x m)
  then show ?case by (cases x) (auto simp: ordered_Cons)
qed simp

lemma ordered_in_oget: "ordered m \<Longrightarrow> (k, v) \<in> set m \<Longrightarrow> oget m k = Some v"
  by (simp add: oget_map_of ordered_distinct)

interpretation btree: keyed_map oget oput odel "ordered :: ('k :: linorder \<times> 'v) list \<Rightarrow> bool"
proof
  fix m :: "('k \<times> 'v) list" and k k' :: 'k and v :: 'v
  show "oget (oput k v m) k' = (if k' = k then Some v else oget m k')"
    by (rule oget_oput)
  show "ordered m \<Longrightarrow> oget (odel k m) k' = (if k' = k then None else oget m k')"
    by (rule oget_odel)
  show "ordered m \<Longrightarrow> ordered (oput k v m)" by (rule ordered_oput)
  show "ordered m \<Longrightarrow> ordered (odel k m)" by (rule ordered_odel)
qed

text \<open>\<open>entry(k).or_insert(v)\<close> on the map itself.\<close>

definition oput_new :: "'k :: linorder \<Rightarrow> 'v \<Rightarrow> ('k \<times> 'v) list \<Rightarrow> ('k \<times> 'v) list" where
  "oput_new k v m = (if oget m k = None then oput k v m else m)"

lemma oget_oput_new:
  "oget (oput_new k v m) k' = (if k' = k \<and> oget m k = None then Some v else oget m k')"
  by (auto simp: oput_new_def oget_oput)

lemma ordered_oput_new: "ordered m \<Longrightarrow> ordered (oput_new k v m)"
  by (simp add: oput_new_def ordered_oput)

end
