(* ===== verification/Json.thy ===== *)
theory Json
  imports Prelude
begin

text \<open>
  \<open>serde_json::Value\<close> as the crates use it: the crate is built without \<open>preserve_order\<close>, so an
  object is a \<open>BTreeMap\<close> and its entries come in key order. Accessors have the names of the
  \<open>Value\<close> methods. A float is kept as the text it prints as: no component computes with one.
\<close>

datatype num = PosInt nat | NegInt int | Float string

datatype json =
    JNull
  | JBool bool
  | JNum num
  | JStr string
  | JArr "json list"
  | JObj "(string \<times> json) list"

type_synonym obj = "(string \<times> json) list"

named_theorems json_simps \<open>accessors of JSON values\<close>

section \<open>Accessors\<close>

fun as_str :: "json \<Rightarrow> string option" where
  "as_str (JStr s) = Some s"
| "as_str _ = None"

fun as_bool :: "json \<Rightarrow> bool option" where
  "as_bool (JBool b) = Some b"
| "as_bool _ = None"

fun as_array :: "json \<Rightarrow> json list option" where
  "as_array (JArr xs) = Some xs"
| "as_array _ = None"

fun as_object :: "json \<Rightarrow> obj option" where
  "as_object (JObj m) = Some m"
| "as_object _ = None"

fun as_u64 :: "json \<Rightarrow> nat option" where
  "as_u64 (JNum (PosInt n)) = Some n"
| "as_u64 _ = None"

text \<open>\<open>Number::as_i64\<close>: a positive integer above \<open>i64::MAX\<close> has no signed value.\<close>

fun as_i64 :: "json \<Rightarrow> int option" where
  "as_i64 (JNum (PosInt n)) = (if int n < 2 ^ 63 then Some (int n) else None)"
| "as_i64 (JNum (NegInt i)) = Some i"
| "as_i64 _ = None"

fun is_null :: "json \<Rightarrow> bool" where
  "is_null JNull = True"
| "is_null _ = False"

fun is_boolean :: "json \<Rightarrow> bool" where
  "is_boolean (JBool _) = True"
| "is_boolean _ = False"

fun is_string :: "json \<Rightarrow> bool" where
  "is_string (JStr _) = True"
| "is_string _ = False"

fun is_number :: "json \<Rightarrow> bool" where
  "is_number (JNum _) = True"
| "is_number _ = False"

fun is_object :: "json \<Rightarrow> bool" where
  "is_object (JObj _) = True"
| "is_object _ = False"

fun is_array :: "json \<Rightarrow> bool" where
  "is_array (JArr _) = True"
| "is_array _ = False"

text \<open>\<open>Value::get(key)\<close>: \<open>None\<close> on anything that is not an object.\<close>

fun jget :: "json \<Rightarrow> string \<Rightarrow> json option" where
  "jget (JObj m) k = oget m k"
| "jget _ k = None"

text \<open>\<open>value.get(a).and_then(|v| v.get(b))\<close> and its chains with a final accessor.\<close>

definition get_then :: "obj \<Rightarrow> string \<Rightarrow> (json \<Rightarrow> 'a option) \<Rightarrow> 'a option" where
  "get_then m k f = Option.bind (oget m k) f"

definition jget_then :: "json \<Rightarrow> string \<Rightarrow> (json \<Rightarrow> 'a option) \<Rightarrow> 'a option" where
  "jget_then v k f = Option.bind (jget v k) f"

text \<open>\<open>Value::pointer\<close> on a path of plain keys.\<close>

fun jpointer :: "json \<Rightarrow> string list \<Rightarrow> json option" where
  "jpointer v [] = Some v"
| "jpointer v (k # ks) = (case jget v k of None \<Rightarrow> None | Some w \<Rightarrow> jpointer w ks)"

definition unwrap_or :: "'a option \<Rightarrow> 'a \<Rightarrow> 'a" where
  "unwrap_or x d = (case x of None \<Rightarrow> d | Some a \<Rightarrow> a)"

definition contains_key :: "obj \<Rightarrow> string \<Rightarrow> bool" where
  "contains_key m k \<longleftrightarrow> oget m k \<noteq> None"

text \<open>\<open>json!({...})\<close> and \<open>collect::<Map<_, _>>()\<close>: entries inserted one by one.\<close>

definition json_obj :: "(string \<times> json) list \<Rightarrow> json" where
  "json_obj kvs = JObj (foldl (\<lambda>m (k, v). oput k v m) [] kvs)"

text \<open>\<open>Display\<close> of a number.\<close>

fun show_num :: "num \<Rightarrow> string" where
  "show_num (PosInt n) = show_nat n"
| "show_num (NegInt i) = show_int i"
| "show_num (Float t) = t"

lemma unwrap_or_simps [simp]: "unwrap_or None d = d" "unwrap_or (Some a) d = a"
  by (simp_all add: unwrap_or_def)

lemma as_str_Some_iff [json_simps]: "as_str v = Some s \<longleftrightarrow> v = JStr s"
  by (cases v) auto

lemma as_bool_Some_iff [json_simps]: "as_bool v = Some b \<longleftrightarrow> v = JBool b"
  by (cases v) auto

lemma as_array_Some_iff [json_simps]: "as_array v = Some xs \<longleftrightarrow> v = JArr xs"
  by (cases v) auto

lemma as_object_Some_iff [json_simps]: "as_object v = Some m \<longleftrightarrow> v = JObj m"
  by (cases v) auto

lemma is_object_iff [json_simps]: "is_object v \<longleftrightarrow> (\<exists>m. v = JObj m)"
  by (cases v) auto

lemma is_array_iff [json_simps]: "is_array v \<longleftrightarrow> (\<exists>xs. v = JArr xs)"
  by (cases v) auto

lemma jget_Some_iff [json_simps]: "jget v k = Some w \<longleftrightarrow> (\<exists>m. v = JObj m \<and> oget m k = Some w)"
  by (cases v) auto

lemma as_object_None_iff: "as_object v = None \<longleftrightarrow> \<not> is_object v"
  by (cases v) auto

lemma get_then_Some_iff [json_simps]:
  "get_then m k f = Some a \<longleftrightarrow> (\<exists>v. oget m k = Some v \<and> f v = Some a)"
  by (simp add: get_then_def bind_eq_Some_conv)

lemma jget_then_Some_iff [json_simps]:
  "jget_then v k f = Some a \<longleftrightarrow> (\<exists>w. jget v k = Some w \<and> f w = Some a)"
  by (simp add: jget_then_def bind_eq_Some_conv)

section \<open>Well-formed values\<close>

text \<open>
  What the types of the crate guarantee: objects in strict key order at every level, integers within
  their machine type.
\<close>

fun num_ok :: "num \<Rightarrow> bool" where
  "num_ok (PosInt n) = (int n < 2 ^ 64)"
| "num_ok (NegInt i) = (- (2 ^ 63) \<le> i \<and> i < 0)"
| "num_ok (Float t) = True"

fun wf_json :: "json \<Rightarrow> bool" and wf_entries :: "obj \<Rightarrow> bool" and wf_items :: "json list \<Rightarrow> bool" where
  "wf_json (JObj m) = (ordered m \<and> wf_entries m)"
| "wf_json (JArr xs) = wf_items xs"
| "wf_json (JNum n) = num_ok n"
| "wf_json _ = True"
| "wf_entries [] = True"
| "wf_entries ((k, v) # m) = (wf_json v \<and> wf_entries m)"
| "wf_items [] = True"
| "wf_items (x # xs) = (wf_json x \<and> wf_items xs)"

abbreviation wf_obj :: "obj \<Rightarrow> bool" where
  "wf_obj m \<equiv> ordered m \<and> wf_entries m"

lemma wf_entries_iff: "wf_entries m \<longleftrightarrow> (\<forall>(k, v) \<in> set m. wf_json v)"
  by (induction m) auto

lemma wf_items_iff: "wf_items xs \<longleftrightarrow> (\<forall>x \<in> set xs. wf_json x)"
  by (induction xs) auto

lemma wf_entries_oget: "wf_entries m \<Longrightarrow> oget m k = Some v \<Longrightarrow> wf_json v"
  by (auto simp: wf_entries_iff dest: oget_in_set)

lemma set_oput_subset: "set (oput k v m) \<subseteq> insert (k, v) (set m)"
  by (induction k v m rule: oput.induct) auto

lemma set_odel_subset: "set (odel k m) \<subseteq> set m"
  by (induction k m rule: odel.induct) auto

lemma wf_entries_oput: "wf_json v \<Longrightarrow> wf_entries m \<Longrightarrow> wf_entries (oput k v m)"
  using set_oput_subset [of k v m] by (auto simp: wf_entries_iff)

lemma wf_entries_odel: "wf_entries m \<Longrightarrow> wf_entries (odel k m)"
  using set_odel_subset [of k m] by (auto simp: wf_entries_iff)

lemma wf_obj_oput: "wf_json v \<Longrightarrow> wf_obj m \<Longrightarrow> wf_obj (oput k v m)"
  by (simp add: wf_entries_oput ordered_oput)

lemma wf_obj_odel: "wf_obj m \<Longrightarrow> wf_obj (odel k m)"
  by (simp add: wf_entries_odel ordered_odel)

lemma wf_obj_oput_new: "wf_json v \<Longrightarrow> wf_obj m \<Longrightarrow> wf_obj (oput_new k v m)"
  by (simp add: oput_new_def wf_obj_oput)

lemma wf_json_obj: "(\<forall>(k, v) \<in> set kvs. wf_json v) \<Longrightarrow> wf_json (json_obj kvs)"
proof -
  have "wf_obj m \<Longrightarrow> (\<forall>(k, v) \<in> set kvs. wf_json v) \<Longrightarrow> wf_obj (foldl (\<lambda>m (k, v). oput k v m) m kvs)" for m
    by (induction kvs arbitrary: m) (auto simp: wf_entries_oput ordered_oput)
  from this [of "[]"] show "(\<forall>(k, v) \<in> set kvs. wf_json v) \<Longrightarrow> wf_json (json_obj kvs)"
    by (simp add: json_obj_def)
qed

lemma oget_json_obj:
  assumes "distinct (map fst kvs)" and "json_obj kvs = JObj m"
  shows "oget m k = map_of kvs k"
proof -
  have "m = btree.puts kvs []" using assms(2) by (simp add: json_obj_def btree.puts_def)
  with btree.get_puts [of "[]" kvs k] assms(1) show ?thesis
    by (simp split: option.splits)
qed

lemma as_i64_bounds:
  "wf_json v \<Longrightarrow> as_i64 v = Some i \<Longrightarrow> - (2 ^ 63) \<le> i \<and> i < 2 ^ 63"
proof (induction v rule: as_i64.induct)
  case (1 n)
  then have "int n < 2 ^ 63" and "i = int n" by (auto split: if_splits)
  then show ?case by simp
qed auto

lemma as_u64_bounds: "wf_json v \<Longrightarrow> as_u64 v = Some n \<Longrightarrow> int n < 2 ^ 64"
  by (induction v rule: as_u64.induct) auto

end
