(* ===== verification/StreamProtocol.thy ===== *)
theory StreamProtocol
  imports Json
begin

text \<open>
  \<open>crates/display-stream-protocol/src/lib.rs\<close>: record framing of the display stream (a 16-byte
  header, big endian, and a payload of at most 16 MiB), the cursor plane's validity test and the
  viewer's control messages. The codec's contract and what a stream reader gets from it are two
  locales, interpreted at the end on \<open>encode\<close>, \<open>decode\<close> and the read loop.
\<close>

type_synonym byte = "8 word"

definition HEADER_LEN :: nat where "HEADER_LEN = 16"
definition MAX_PAYLOAD :: nat where "MAX_PAYLOAD = 16 * 1024 * 1024"
definition MAX_CLIPBOARD_BYTES :: nat where "MAX_CLIPBOARD_BYTES = 64 * 1024"
definition MAX_CURSOR_DIMENSION :: "32 word" where "MAX_CURSOR_DIMENSION = 256"

datatype record_type = Config | Keyframe | Delta | Resize | Control | AudioConfig | AudioData

datatype video_error = UnknownType byte | PayloadTooLarge | Reserved | Truncated

record stream_record =
  kind :: record_type
  flags :: byte
  pts_us :: "64 word"
  payload :: "byte list"

section \<open>Big-endian integers\<close>

text \<open>\<open>BufMut::put_u16\<close>, \<open>put_u32\<close>, \<open>put_u64\<close> and \<open>Buf::get_*\<close>: the low \<open>n\<close> bytes, high byte first.\<close>

fun be_bytes :: "nat \<Rightarrow> nat \<Rightarrow> byte list" where
  "be_bytes 0 v = []"
| "be_bytes (Suc n) v = be_bytes n (v div 256) @ [word_of_nat v]"

definition be_value :: "byte list \<Rightarrow> nat" where
  "be_value bs = foldl (\<lambda>a b. a * 256 + unat b) 0 bs"

lemma length_be_bytes [simp]: "length (be_bytes n v) = n"
  by (induction n arbitrary: v) auto

lemma be_value_snoc: "be_value (bs @ [b]) = be_value bs * 256 + unat b"
  by (simp add: be_value_def)

lemma be_value_be_bytes: "be_value (be_bytes n v) = v mod 256 ^ n"
proof (induction n arbitrary: v)
  case 0
  then show ?case by (simp add: be_value_def)
next
  case (Suc n)
  have "be_value (be_bytes (Suc n) v) = (v div 256 mod 256 ^ n) * 256 + v mod 256"
    by (simp add: be_value_snoc Suc.IH unat_of_nat)
  also have "\<dots> = v mod 256 ^ Suc n"
    using mod_mult2_eq [of v 256 "256 ^ n"] by (simp add: mult.commute)
  finally show ?case .
qed

lemma be_value_less: "be_value bs < 256 ^ length bs"
proof (induction bs rule: rev_induct)
  case Nil
  then show ?case by (simp add: be_value_def)
next
  case (snoc b bs)
  have "unat b < 2 ^ LENGTH(8)" by (rule unsigned_less)
  then have "unat b < 256" by simp
  moreover have "be_value bs + 1 \<le> 256 ^ length bs" using snoc.IH by simp
  then have "(be_value bs + 1) * 256 \<le> 256 ^ length bs * 256" by (rule mult_le_mono1)
  ultimately show ?case by (simp add: be_value_snoc)
qed

section \<open>Records\<close>

fun kind_byte :: "record_type \<Rightarrow> byte" where
  "kind_byte Config = 0"
| "kind_byte Keyframe = 1"
| "kind_byte Delta = 2"
| "kind_byte Resize = 3"
| "kind_byte Control = 4"
| "kind_byte AudioConfig = 5"
| "kind_byte AudioData = 6"

definition record_type_try_from :: "byte \<Rightarrow> video_error + record_type" where
  "record_type_try_from v =
     (if v = 0 then Inr Config else if v = 1 then Inr Keyframe else if v = 2 then Inr Delta
      else if v = 3 then Inr Resize else if v = 4 then Inr Control else if v = 5 then Inr AudioConfig
      else if v = 6 then Inr AudioData else Inl (UnknownType v))"

text \<open>\<open>Record::encode\<close> appends to the output buffer, which is untouched on error.\<close>

definition encode :: "stream_record \<Rightarrow> byte list \<Rightarrow> video_error + byte list" where
  "encode r output =
     (if length (payload r) > MAX_PAYLOAD then Inl PayloadTooLarge
      else Inr (output @ [kind_byte (kind r)] @ [flags r] @ be_bytes 2 0
        @ be_bytes 4 (length (payload r)) @ be_bytes 8 (unat (pts_us r)) @ payload r))"

text \<open>
  \<open>decode\<close> takes the buffer; \<open>Some (record, rest)\<close> is a record with the buffer advanced past it, \<open>None\<close>
  (more bytes needed) and an error leave the buffer as it was. The header is read field by field, so
  the type byte is checked before the reserved field and that before the length.
\<close>

definition decode :: "byte list \<Rightarrow> video_error + (stream_record \<times> byte list) option" where
  "decode input =
     (if length input < HEADER_LEN then Inr None
      else let header = take HEADER_LEN input
      in rbind (record_type_try_from (header ! 0)) (\<lambda>k.
        let fl = header ! 1;
            reserved = be_value (take 2 (drop 2 header));
            len = be_value (take 4 (drop 4 header));
            pts = word_of_nat (be_value (take 8 (drop 8 header)))
        in if reserved \<noteq> 0 then Inl Reserved
           else if len > MAX_PAYLOAD then Inl PayloadTooLarge
           else if length input < HEADER_LEN + len then Inr None
           else Inr (Some (\<lparr>kind = k, flags = fl, pts_us = pts, payload = take len (drop HEADER_LEN input)\<rparr>,
                           drop (HEADER_LEN + len) input))))"

lemma record_type_roundtrip: "record_type_try_from (kind_byte k) = Inr k"
  by (cases k) (simp_all add: record_type_try_from_def)

lemma record_type_try_from_Inr: "record_type_try_from b = Inr k \<longleftrightarrow> b = kind_byte k"
  by (cases k) (auto simp: record_type_try_from_def split: if_splits)

lemma record_type_try_from_Inl: "record_type_try_from b = Inl e \<longleftrightarrow> e = UnknownType b \<and> 6 < unat b"
  by (auto simp: record_type_try_from_def word_unat_eq_iff)

section \<open>The codec contract and the stream reader\<close>

text \<open>What a reader of a framed stream needs of a codec.\<close>

locale frame_codec =
  fixes wire :: "'r \<Rightarrow> 'b list"
    and dec :: "'b list \<Rightarrow> 'e + ('r \<times> 'b list) option"
    and fits :: "'r \<Rightarrow> bool"
  assumes dec_wire: "fits r \<Longrightarrow> dec (wire r @ rest) = Inr (Some (r, rest))"
    and dec_consumes: "dec bs = Inr (Some (r, rest)) \<Longrightarrow> length rest < length bs"
    and dec_more: "dec bs = Inr (Some (r, rest)) \<Longrightarrow> dec (bs @ xs) = Inr (Some (r, rest @ xs))"
    and dec_error_more: "dec bs = Inl e \<Longrightarrow> dec (bs @ xs) = Inl e"

text \<open>A read loop over the codec, given by the equation of its \<open>while let\<close>.\<close>

locale stream_reader = frame_codec +
  fixes run :: "'b list \<Rightarrow> 'r list \<times> ('e + 'b list)"
  assumes run_eq: "run bs =
    (case dec bs of
       Inl e \<Rightarrow> ([], Inl e)
     | Inr None \<Rightarrow> ([], Inr bs)
     | Inr (Some (r, rest)) \<Rightarrow> (case run rest of (rs, x) \<Rightarrow> (r # rs, x)))"
begin

lemma run_wires:
  assumes "\<forall>r \<in> set rs. fits r"
  shows "run (concat (map wire rs) @ tail) = (case run tail of (qs, x) \<Rightarrow> (rs @ qs, x))"
  using assms
proof (induction rs)
  case (Cons r rs)
  have "dec (concat (map wire (r # rs)) @ tail) = Inr (Some (r, concat (map wire rs) @ tail))"
    using Cons.prems dec_wire [of r "concat (map wire rs) @ tail"] by simp
  with Cons show ?case by (subst run_eq) (simp split: prod.splits)
qed simp

text \<open>What is left over holds no complete record.\<close>

lemma run_leftover: "run bs = (rs, Inr left) \<Longrightarrow> dec left = Inr None"
proof (induction "length bs" arbitrary: bs rs rule: less_induct)
  case less
  show ?case
  proof (cases "dec bs")
    case (Inr o1)
    show ?thesis
    proof (cases o1)
      case None
      with Inr less.prems show ?thesis by (subst (asm) run_eq) simp
    next
      case (Some p)
      obtain r rest where p: "p = (r, rest)" by (cases p)
      with Inr Some have d: "dec bs = Inr (Some (r, rest))" by simp
      then have "run bs = (case run rest of (qs, x) \<Rightarrow> (r # qs, x))" by (subst run_eq) simp
      with less.prems obtain qs where "run rest = (qs, Inr left)" by (cases "run rest") auto
      with less.hyps [OF dec_consumes [OF d]] show ?thesis by blast
    qed
  qed (use less.prems in \<open>subst (asm) run_eq, simp\<close>)
qed

text \<open>Bytes may arrive in any chunks: reading a prefix and then the rest gives the same records.\<close>

lemma run_append:
  "run (bs @ xs) =
    (case run bs of
       (rs, Inl e) \<Rightarrow> (rs, Inl e)
     | (rs, Inr left) \<Rightarrow> (case run (left @ xs) of (qs, x) \<Rightarrow> (rs @ qs, x)))"
proof (induction "length bs" arbitrary: bs rule: less_induct)
  case less
  show ?case
  proof (cases "dec bs")
    case (Inl e)
    then have "run bs = ([], Inl e)" "run (bs @ xs) = ([], Inl e)"
      using dec_error_more [OF Inl] by (simp_all add: run_eq [of bs] run_eq [of "bs @ xs"])
    then show ?thesis by simp
  next
    case (Inr o1)
    show ?thesis
    proof (cases o1)
      case None
      with Inr have "run bs = ([], Inr bs)" by (simp add: run_eq [of bs])
      then show ?thesis by (simp split: prod.splits)
    next
      case (Some p)
      obtain r rest where p: "p = (r, rest)" by (cases p)
      with Inr Some have d: "dec bs = Inr (Some (r, rest))" by simp
      have bs: "run bs = (case run rest of (qs, x) \<Rightarrow> (r # qs, x))"
        using d by (simp add: run_eq [of bs])
      have "run (bs @ xs) = (case run (rest @ xs) of (qs, x) \<Rightarrow> (r # qs, x))"
        using dec_more [OF d, of xs] by (simp add: run_eq [of "bs @ xs"])
      with less.hyps [OF dec_consumes [OF d]] bs show ?thesis
        by (simp split: prod.splits sum.splits)
    qed
  qed
qed

end

section \<open>The read loop\<close>

lemma decode_Some_iff:
  "decode bs = Inr (Some (r, rest)) \<longleftrightarrow>
    16 \<le> length bs \<and> bs ! 0 = kind_byte (kind r) \<and> flags r = bs ! 1
    \<and> be_value (take 2 (drop 2 bs)) = 0
    \<and> length (payload r) = be_value (take 4 (drop 4 bs)) \<and> length (payload r) \<le> MAX_PAYLOAD
    \<and> pts_us r = word_of_nat (be_value (take 8 (drop 8 bs)))
    \<and> 16 + length (payload r) \<le> length bs
    \<and> payload r = take (length (payload r)) (drop 16 bs) \<and> rest = drop (16 + length (payload r)) bs"
  by (cases r)
    (auto simp: decode_def HEADER_LEN_def Let_def rbind_Inr_iff record_type_try_from_Inr take_drop
      split: if_splits)

lemma decode_consumes: "decode bs = Inr (Some (r, rest)) \<Longrightarrow> length rest < length bs"
  by (simp add: decode_Some_iff) linarith

text \<open>\<open>while let Some(record) = decode(&mut input)?\<close>: the records read, then the error or the bytes left.\<close>

function drain :: "byte list \<Rightarrow> stream_record list \<times> (video_error + byte list)" where
  "drain input =
    (case decode input of
       Inl e \<Rightarrow> ([], Inl e)
     | Inr None \<Rightarrow> ([], Inr input)
     | Inr (Some (r, rest)) \<Rightarrow> (case drain rest of (rs, x) \<Rightarrow> (r # rs, x)))"
  by pat_completeness auto
termination
  by (relation "measure length") (auto intro: decode_consumes)

declare drain.simps [simp del]


lemma decode_Inr_None_iff:
  "decode bs = Inr None \<longleftrightarrow>
    length bs < 16 \<or>
    (\<exists>k. bs ! 0 = kind_byte k) \<and> be_value (take 2 (drop 2 bs)) = 0
    \<and> be_value (take 4 (drop 4 bs)) \<le> MAX_PAYLOAD \<and> length bs < 16 + be_value (take 4 (drop 4 bs))"
  by (auto simp: decode_def HEADER_LEN_def Let_def rbind_Inr_iff record_type_try_from_Inr take_drop
      split: if_splits)

lemma decode_error_iff:
  "decode bs = Inl e \<longleftrightarrow> 16 \<le> length bs \<and>
    (if 6 < unat (bs ! 0) then e = UnknownType (bs ! 0)
     else if be_value (take 2 (drop 2 bs)) \<noteq> 0 then e = Reserved
     else be_value (take 4 (drop 4 bs)) > MAX_PAYLOAD \<and> e = PayloadTooLarge)"
proof -
  have "(\<exists>k. record_type_try_from b = Inr k) \<longleftrightarrow> \<not> 6 < unat b" for b
    using record_type_try_from_Inl [of b] by (cases "record_type_try_from b") auto
  then show ?thesis
    by (auto simp: decode_def HEADER_LEN_def Let_def rbind_Inl_iff record_type_try_from_Inl take_drop
        split: if_splits)
qed

lemma decode_more: "decode bs = Inr (Some (r, rest)) \<Longrightarrow> decode (bs @ xs) = Inr (Some (r, rest @ xs))"
  by (auto simp: decode_Some_iff nth_append)

lemma decode_error_more: "decode bs = Inl e \<Longrightarrow> decode (bs @ xs) = Inl e"
  by (auto simp: decode_error_iff nth_append split: if_splits)

text \<open>The bytes of a record, as \<open>encode\<close> appends them.\<close>

definition record_wire :: "stream_record \<Rightarrow> byte list" where
  "record_wire r = [kind_byte (kind r)] @ [flags r] @ be_bytes 2 0
     @ be_bytes 4 (length (payload r)) @ be_bytes 8 (unat (pts_us r)) @ payload r"

definition record_fits :: "stream_record \<Rightarrow> bool" where
  "record_fits r \<longleftrightarrow> length (payload r) \<le> MAX_PAYLOAD"

lemma encode_fits: "record_fits r \<Longrightarrow> encode r output = Inr (output @ record_wire r)"
  by (simp add: encode_def record_fits_def record_wire_def)

lemma encode_Inr_iff: "encode r output = Inr out \<longleftrightarrow> record_fits r \<and> out = output @ record_wire r"
  by (auto simp: encode_def record_fits_def record_wire_def)

lemma decode_record_wire:
  assumes "record_fits r"
  shows "decode (record_wire r @ rest) = Inr (Some (r, rest))"
proof -
  have len: "length (payload r) \<le> 16777216"
    using assms by (simp add: record_fits_def MAX_PAYLOAD_def)
  have pts: "unat (pts_us r) < 2 ^ LENGTH(64)" by (rule unsigned_less)
  obtain a2 b2 where two: "be_bytes 2 0 = [a2, b2]" "be_value [a2, b2] = 0"
    using be_value_be_bytes [of 2 0] by (simp add: numeral_2_eq_2)
  have four: "be_value (be_bytes 4 (length (payload r))) = length (payload r)"
    using len by (simp add: be_value_be_bytes)
  have eight: "be_value (be_bytes 8 (unat (pts_us r))) = unat (pts_us r)"
    using pts by (simp add: be_value_be_bytes)
  show ?thesis
    using len four eight two
    by (simp add: decode_Some_iff record_wire_def MAX_PAYLOAD_def take_Cons' drop_Cons')
qed

interpretation records: frame_codec record_wire decode record_fits
proof
  show "record_fits r \<Longrightarrow> decode (record_wire r @ rest) = Inr (Some (r, rest))" for r rest
    by (rule decode_record_wire)
  show "decode bs = Inr (Some (r, rest)) \<Longrightarrow> length rest < length bs" for bs r rest
    by (rule decode_consumes)
  show "decode bs = Inr (Some (r, rest)) \<Longrightarrow> decode (bs @ xs) = Inr (Some (r, rest @ xs))" for bs r rest xs
    by (rule decode_more)
  show "decode bs = Inl e \<Longrightarrow> decode (bs @ xs) = Inl e" for bs e xs
    by (rule decode_error_more)
qed

interpretation reader: stream_reader record_wire decode record_fits drain
  by unfold_locales (rule drain.simps)

section \<open>Cursor plane and control messages\<close>

record cursor =
  cursor_kind :: string
  cursor_x :: "32 word"
  cursor_y :: "32 word"
  visible :: bool
  width :: "32 word"
  height :: "32 word"
  hot_x :: "32 word"
  hot_y :: "32 word"
  cursor_data :: "byte list"

text \<open>
  \<open>i32\<close> fields are words read with \<open>sint\<close>; \<open>self.width as i32\<close> keeps the bits. The size test is on
  \<open>usize\<close> and its product is only reached for dimensions up to 256.
\<close>

definition cursor_valid :: "cursor \<Rightarrow> bool" where
  "cursor_valid c \<longleftrightarrow>
     cursor_kind c = ''cursor''
     \<and> width c \<le> MAX_CURSOR_DIMENSION
     \<and> height c \<le> MAX_CURSOR_DIMENSION
     \<and> 0 \<le> sint (hot_x c)
     \<and> 0 \<le> sint (hot_y c)
     \<and> (width c = 0 \<or> sint (hot_x c) < sint (width c))
     \<and> (height c = 0 \<or> sint (hot_y c) < sint (height c))
     \<and> length (cursor_data c) = unat (width c) * unat (height c) * 4"

text \<open>The viewer's messages, as the JSON value that \<open>to_string\<close> writes.\<close>

definition request_idr :: json where
  "request_idr = json_obj [(''type'', JStr ''request_idr'')]"

definition key_message :: "nat \<Rightarrow> bool \<Rightarrow> json" where
  "key_message keycode down =
     json_obj [(''type'', JStr (if down then ''key_down'' else ''key_up'')), (''keycode'', JNum (PosInt keycode))]"

definition mouse_abs :: "nat \<Rightarrow> nat \<Rightarrow> json" where
  "mouse_abs x y = json_obj [(''type'', JStr ''mouse_abs''), (''x'', JNum (PosInt x)), (''y'', JNum (PosInt y))]"

definition mouse_button :: "nat \<Rightarrow> bool \<Rightarrow> json" where
  "mouse_button button down =
     json_obj [(''type'', JStr (if down then ''mouse_down'' else ''mouse_up'')), (''button'', JNum (PosInt button))]"

definition json_of_int :: "int \<Rightarrow> json" where
  "json_of_int i = JNum (if i < 0 then NegInt i else PosInt (nat i))"

definition mouse_wheel :: "int \<Rightarrow> json" where
  "mouse_wheel steps =
     json_obj [(''type'', JStr ''mouse_wheel''), (''steps'', json_of_int (max (- 10) (min 10 steps)))]"

definition resize_message :: "nat \<Rightarrow> nat \<Rightarrow> json option" where
  "resize_message w h =
     (if 320 \<le> w \<and> w \<le> 7680 \<and> 200 \<le> h \<and> h \<le> 4320
      then Some (json_obj [(''type'', JStr ''resize''), (''width'', JNum (PosInt w)), (''height'', JNum (PosInt h))])
      else None)"

definition clipboard_set :: "string \<Rightarrow> json option" where
  "clipboard_set text =
     (if length text \<le> MAX_CLIPBOARD_BYTES
      then Some (json_obj [(''type'', JStr ''clipboard_set''), (''text'', JStr text)]) else None)"

section \<open>Canonical form\<close>

lemma be_bytes_be_value: "be_bytes (length bs) (be_value bs) = bs"
proof (induction bs rule: rev_induct)
  case (snoc b bs)
  have "unat b < 2 ^ LENGTH(8)" by (rule unsigned_less)
  then have b: "unat b < 256" by simp
  have z: "(256 :: byte) = 0" by (simp add: word_unat_eq_iff)
  have "word_of_nat (be_value bs * 256 + unat b) = word_of_nat (be_value bs) * (256 :: byte) + b"
    by simp
  then have "word_of_nat (be_value bs * 256 + unat b) = b" by (simp only: z) simp
  with snoc b show ?case by (simp add: be_value_snoc)
qed (simp add: be_value_def)

lemma be_bytes_of_slice: "length bs = n \<Longrightarrow> be_bytes n (be_value bs) = bs"
  using be_bytes_be_value [of bs] by simp

lemma split_header:
  assumes "16 \<le> length bs"
  shows "bs = [bs ! 0] @ [bs ! 1] @ take 2 (drop 2 bs) @ take 4 (drop 4 bs) @ take 8 (drop 8 bs) @ drop 16 bs"
proof -
  have "take 2 bs = [bs ! 0, bs ! 1]"
    using assms by (cases bs; cases "tl bs") auto
  moreover have "bs = take 2 bs @ take 2 (drop 2 bs) @ take 4 (drop 4 bs) @ take 8 (drop 8 bs) @ drop 16 bs"
    by (metis append_take_drop_id drop_drop numeral_Bit0 add.commute
        one_add_one numeral_plus_numeral add_num_simps(2) add_num_simps(1))
  ultimately show ?thesis by simp
qed

lemma decode_wire_of_decode:
  assumes "decode bs = Inr (Some (r, rest))"
  shows "record_fits r \<and> bs = record_wire r @ rest"
proof -
  from assms have h: "16 \<le> length bs" "bs ! 0 = kind_byte (kind r)" "flags r = bs ! 1"
    "be_value (take 2 (drop 2 bs)) = 0"
    "length (payload r) = be_value (take 4 (drop 4 bs))" "length (payload r) \<le> MAX_PAYLOAD"
    "pts_us r = word_of_nat (be_value (take 8 (drop 8 bs)))"
    "payload r = take (length (payload r)) (drop 16 bs)" "rest = drop (16 + length (payload r)) bs"
    unfolding decode_Some_iff by blast+
  have "be_value (take 8 (drop 8 bs)) < 256 ^ length (take 8 (drop 8 bs))" by (rule be_value_less)
  with h(1) have v8: "be_value (take 8 (drop 8 bs)) < 2 ^ 64" by simp
  have p8: "unat (pts_us r) = be_value (take 8 (drop 8 bs))"
    using v8 by (simp add: h(7) unat_of_nat)
  have parts: "take 2 (drop 2 bs) = be_bytes 2 0"
    "take 4 (drop 4 bs) = be_bytes 4 (length (payload r))"
    "take 8 (drop 8 bs) = be_bytes 8 (unat (pts_us r))"
    using h(1) be_bytes_of_slice [of "take 2 (drop 2 bs)" 2] be_bytes_of_slice [of "take 4 (drop 4 bs)" 4]
      be_bytes_of_slice [of "take 8 (drop 8 bs)" 8]
    by (simp_all add: h(4) p8 flip: h(5))
  have "drop 16 bs = payload r @ rest"
    by (subst h(8), subst h(9)) (metis add.commute append_take_drop_id drop_drop)
  with split_header [OF h(1)] have "bs = record_wire r @ rest"
    by (simp add: record_wire_def parts h(2) h(3))
  with h(6) show ?thesis by (simp add: record_fits_def)
qed

section \<open>Properties\<close>

text \<open>
  C1: Decoding is exactly the inverse of encoding. \<open>decode\<close> returns a record and the rest of the buffer if
  and only if the buffer is the bytes \<open>encode\<close> writes for that record followed by that rest: no two records
  share bytes, no other byte sequence is accepted, nothing of the payload is lost.
\<close>

theorem decode_inverts_encode:
  "decode bs = Inr (Some (r, rest)) \<longleftrightarrow> (\<exists>w. encode r [] = Inr w \<and> bs = w @ rest)"
  using decode_wire_of_decode [of bs r rest] decode_record_wire [of r rest]
  by (auto simp: encode_Inr_iff)

text \<open>
  A stream of encoded records reads back in order. Whatever list of records is appended to one
  buffer by \<open>encode\<close>, the read loop returns exactly these records and then goes on with the bytes behind
  them.
\<close>

theorem reading_encoded_records:
  assumes "for_each rs (\<lambda>out r. encode r out) [] = Inr out"
  shows "drain (out @ tail) = (case drain tail of (qs, x) \<Rightarrow> (rs @ qs, x))"
proof -
  have "for_each rs (\<lambda>out r. encode r out) pre = Inr out \<Longrightarrow>
      out = pre @ concat (map record_wire rs) \<and> (\<forall>r \<in> set rs. record_fits r)" for pre
  proof (induction rs arbitrary: pre)
    case (Cons r rs)
    then have "for_each rs (\<lambda>out r. encode r out) (pre @ record_wire r) = Inr out" "record_fits r"
      by (auto simp: rbind_Inr_iff encode_Inr_iff)
    with Cons.IH show ?case by fastforce
  qed simp
  from this [OF assms] reader.run_wires [of rs tail] show ?thesis by simp
qed

theorem reading_encoded_records_witness:
  "drain ((record_wire \<lparr>kind = Keyframe, flags = 1, pts_us = 42, payload = [0, 0, 0, 1, 101]\<rparr>) @ [1, 2])
     = ([\<lparr>kind = Keyframe, flags = 1, pts_us = 42, payload = [0, 0, 0, 1, 101]\<rparr>], Inr [1, 2])"
proof -
  let ?r = "\<lparr>kind = Keyframe, flags = 1, pts_us = 42, payload = [0, 0, 0, 1, 101]\<rparr>"
  have "for_each [?r] (\<lambda>out r. encode r out) [] = Inr (record_wire ?r)"
    by (simp add: encode_Inr_iff encode_fits record_fits_def MAX_PAYLOAD_def)
  from reading_encoded_records [OF this, of "[1, 2]"] show ?thesis
    by (simp add: drain.simps [of "[1, 2]"] decode_def HEADER_LEN_def)
qed

text \<open>
  A record cut anywhere is waited for. On every proper prefix of an encoded record \<open>decode\<close> answers
  that more bytes are needed: it neither fails nor returns a shorter record.
\<close>

theorem decode_waits_for_whole_record:
  assumes "encode r [] = Inr w" and "n < length w"
  shows "decode (take n w) = Inr None"
proof (cases "decode (take n w)")
  case (Inl e)
  from decode_error_more [OF this, of "drop n w"] have "decode w = Inl e" by simp
  with assms(1) decode_record_wire [of r "[]"] show ?thesis by (simp add: encode_Inr_iff)
next
  case (Inr o1)
  show ?thesis
  proof (cases o1)
    case (Some p)
    obtain q rest where p: "p = (q, rest)" by (cases p)
    with Inr Some have d: "decode (take n w) = Inr (Some (q, rest))" by simp
    have "decode w = Inr (Some (q, rest @ drop n w))"
      using decode_more [OF d, of "drop n w"] by simp
    moreover have "decode w = Inr (Some (r, []))"
      using assms(1) decode_record_wire [of r "[]"] by (simp add: encode_Inr_iff)
    ultimately have "drop n w = []" by simp
    with assms(2) show ?thesis by simp
  qed (use Inr in simp)
qed

theorem decode_waits_for_whole_record_witness:
  "decode (take 16 (record_wire \<lparr>kind = Delta, flags = 0, pts_us = 7, payload = [9]\<rparr>)) = Inr None"
proof (rule decode_waits_for_whole_record)
  show "encode \<lparr>kind = Delta, flags = 0, pts_us = 7, payload = [9]\<rparr> []
      = Inr (record_wire \<lparr>kind = Delta, flags = 0, pts_us = 7, payload = [9]\<rparr>)"
    by (simp add: encode_Inr_iff record_fits_def MAX_PAYLOAD_def)
  show "16 < length (record_wire \<lparr>kind = Delta, flags = 0, pts_us = 7, payload = [9]\<rparr>)"
    by (simp add: record_wire_def)
qed

text \<open>
  C2: A valid cursor can be drawn without reading outside its image: each pixel's four bytes lie in the
  data, and the hot spot of a non-empty cursor is one of its pixels.
\<close>

theorem cursor_pixels_in_bounds:
  assumes "cursor_valid c"
  shows "(\<forall>x y. x < unat (width c) \<longrightarrow> y < unat (height c) \<longrightarrow>
            4 * (y * unat (width c) + x) + 3 < length (cursor_data c))
    \<and> (width c \<noteq> 0 \<longrightarrow> 0 \<le> sint (hot_x c) \<and> sint (hot_x c) < int (unat (width c)))
    \<and> (height c \<noteq> 0 \<longrightarrow> 0 \<le> sint (hot_y c) \<and> sint (hot_y c) < int (unat (height c)))"
proof -
  have small: "sint w = int (unat w)" if "w \<le> 256" for w :: "32 word"
  proof -
    have "uint w \<le> 256" using that by (simp add: word_le_def)
    then have "signed_take_bit 31 (uint w) = uint w"
      by (intro signed_take_bit_int_eq_self) (simp_all add: order_trans [OF _ uint_ge_0])
    then show ?thesis by (simp add: sint_uint)
  qed
  have pix: "4 * (y * w) + 4 * x + 3 < w * h * 4" if "x < w" "y < h" for x y w h :: nat
  proof -
    have "Suc y * w \<le> h * w" using that(2) by (intro mult_le_mono1) simp
    with that(1) have "y * w + x < h * w" by simp
    then show ?thesis by (simp add: mult.commute)
  qed
  show ?thesis
    using assms small [of "width c"] small [of "height c"]
    by (auto simp: cursor_valid_def MAX_CURSOR_DIMENSION_def pix)
qed

theorem cursor_pixels_in_bounds_witness:
  "4 * (0 * unat (1 :: 32 word) + 0) + 3 < length [0, 0, 255, 255 :: byte]"
  using cursor_pixels_in_bounds
    [of "\<lparr>cursor_kind = ''cursor'', cursor_x = 12, cursor_y = 8, visible = True, width = 1, height = 1,
          hot_x = 0, hot_y = 0, cursor_data = [0, 0, 255, 255]\<rparr>"]
  by (simp add: cursor_valid_def MAX_CURSOR_DIMENSION_def)

end
