(* ===== verification/ViewerSession.thy ===== *)
theory ViewerSession
  imports StreamProtocol
begin

text \<open>
  \<open>crates/machineemu-viewer/src/net.rs\<close>, the session loop of the native viewer: bytes of WebSocket
  messages are appended to the buffer, every complete record is handled, deltas are dropped until a
  keyframe arrived, and a failed hardware decoder falls back to software. The parsers that serde
  derives and the GStreamer pipeline are parameters; their calls are recorded in the session's trace.
\<close>

record video_config =
  vc_codec :: string
  vc_coded_width :: "32 word"
  vc_coded_height :: "32 word"
  vc_description :: "byte list"
  vc_capture :: string
  vc_encoder :: string
  vc_hardware :: bool

record audio_config =
  ac_id :: "64 word"
  ac_bits :: byte
  ac_signed :: bool
  ac_float :: bool
  ac_frequency :: "32 word"
  ac_channels :: byte
  ac_bytes_per_frame :: "32 word"
  ac_big_endian :: bool
  ac_enabled :: bool
  ac_muted :: bool
  ac_volume :: "byte list"

record control =
  ctl_kind :: string
  ctl_available :: bool
  ctl_text :: "string option"

text \<open>
  The code outside the repository: \<open>serde_json::from_slice\<close> at the four types, \<open>from_value\<close> at two, and
  whether the media pipeline accepts a frame, a pipeline can be rebuilt for a decoder and the socket
  accepts a message.
\<close>

record outside =
  parse_video_config :: "byte list \<Rightarrow> video_config option"
  parse_value :: "byte list \<Rightarrow> json option"
  parse_audio_config :: "byte list \<Rightarrow> audio_config option"
  cursor_from_value :: "json \<Rightarrow> cursor option"
  control_from_value :: "json \<Rightarrow> control option"
  pipeline_accepts :: "byte list \<Rightarrow> 64 word \<Rightarrow> bool"
  rebuild_accepts :: "string \<Rightarrow> bool"
  socket_accepts :: "string \<Rightarrow> bool"

datatype effect =
    EvConfig video_config
  | EvCursor cursor
  | EvClipboard bool "string option"
  | EvDecoder string bool
  | PushVideo bool "byte list" "64 word"   \<comment> \<open>keyframe?, payload, timestamp\<close>
  | ConfigureAudio audio_config
  | PushAudio "byte list"
  | RebuildVideo string
  | SendRequestIdr
  | SendText string

datatype session_error =
    Wire video_error
  | InvalidVideoConfig
  | InvalidControlRecord
  | InvalidAudioConfig
  | PipelineFailed
  | SocketFailed
  | DecodingFailed string

record session =
  buffer :: "byte list"
  awaiting_keyframe :: bool
  first_keyframe :: bool
  n_bytes :: nat
  n_keyframes :: nat
  n_deltas :: nat
  n_skipped :: nat
  n_audio_bytes :: nat
  n_sent :: nat
  trace :: "effect list"

definition session_start :: "string \<Rightarrow> bool \<Rightarrow> session" where
  "session_start decoder hw =
     \<lparr>buffer = [], awaiting_keyframe = True, first_keyframe = True, n_bytes = 0, n_keyframes = 0,
      n_deltas = 0, n_skipped = 0, n_audio_bytes = 0, n_sent = 0,
      trace = [SendRequestIdr, EvDecoder decoder hw]\<rparr>"

definition emit :: "effect \<Rightarrow> session \<Rightarrow> session" where
  "emit e s = s\<lparr>trace := trace s @ [e]\<rparr>"

text \<open>\<open>video.push(record.payload, record.pts_us)?\<close>\<close>

definition push_video :: "outside \<Rightarrow> bool \<Rightarrow> stream_record \<Rightarrow> session \<Rightarrow> session_error + session" where
  "push_video env key r s =
     (if pipeline_accepts env (payload r) (pts_us r)
      then Inr (emit (PushVideo key (payload r) (pts_us r)) s) else Inl PipelineFailed)"

text \<open>The control record: a cursor is handled first, anything else is tried as a clipboard message.\<close>

definition handle_control :: "outside \<Rightarrow> stream_record \<Rightarrow> session \<Rightarrow> session_error + session" where
  "handle_control env r s =
     (case parse_value env (payload r) of
        None \<Rightarrow> Inl InvalidControlRecord
      | Some value \<Rightarrow>
          (if jget value ''type'' = Some (JStr ''cursor'')
           then (case cursor_from_value env value of
                   Some c \<Rightarrow> Inr (if cursor_valid c then emit (EvCursor c) s else s)
                 | None \<Rightarrow> Inr s)
           else (case control_from_value env value of
                   Some c \<Rightarrow> Inr (if ctl_kind c = ''clipboard'' then emit (EvClipboard (ctl_available c) (ctl_text c)) s else s)
                 | None \<Rightarrow> Inr s)))"

definition handle_record :: "outside \<Rightarrow> bool \<Rightarrow> session \<Rightarrow> stream_record \<Rightarrow> session_error + session" where
  "handle_record env audio s r =
     (case kind r of
        Config \<Rightarrow> (case parse_video_config env (payload r) of
                     None \<Rightarrow> Inl InvalidVideoConfig | Some c \<Rightarrow> Inr (emit (EvConfig c) s))
      | Resize \<Rightarrow> (case parse_video_config env (payload r) of
                     None \<Rightarrow> Inl InvalidVideoConfig | Some c \<Rightarrow> Inr (emit (EvConfig c) s))
      | Keyframe \<Rightarrow>
          (let s = (if first_keyframe s \<or> awaiting_keyframe s then s\<lparr>first_keyframe := False\<rparr> else s)
           in push_video env True r (s\<lparr>awaiting_keyframe := False, n_keyframes := n_keyframes s + 1\<rparr>))
      | Delta \<Rightarrow>
          (if \<not> awaiting_keyframe s then push_video env False r (s\<lparr>n_deltas := n_deltas s + 1\<rparr>)
           else Inr (s\<lparr>n_skipped := n_skipped s + 1\<rparr>))
      | Control \<Rightarrow> handle_control env r s
      | AudioConfig \<Rightarrow>
          (if audio then (case parse_audio_config env (payload r) of
                            None \<Rightarrow> Inl InvalidAudioConfig | Some c \<Rightarrow> Inr (emit (ConfigureAudio c) s))
           else Inr s)
      | AudioData \<Rightarrow>
          (if audio then Inr (emit (PushAudio (payload r)) (s\<lparr>n_audio_bytes := n_audio_bytes s + length (payload r)\<rparr>))
           else Inr s))"

text \<open>\<open>while let Some(record) = protocol::decode(&mut buffer)? { ... }\<close>, one record at a time.\<close>

function read_records :: "outside \<Rightarrow> bool \<Rightarrow> byte list \<Rightarrow> session \<Rightarrow> session_error + session" where
  "read_records env audio buf s =
     (case decode buf of
        Inl e \<Rightarrow> Inl (Wire e)
      | Inr None \<Rightarrow> Inr (s\<lparr>buffer := buf\<rparr>)
      | Inr (Some (r, rest)) \<Rightarrow> rbind (handle_record env audio s r) (read_records env audio rest))"
  by pat_completeness auto
termination
  by (relation "measure (\<lambda>(_, _, buf, _). length buf)") (auto intro: decode_consumes)

declare read_records.simps [simp del]

datatype input =
    Binary "byte list"
  | CloseFrame "string option"
  | StreamEnd
  | OtherMessage
  | DecoderFailed nat nat bool bool "(string \<times> bool) option" string
      \<comment> \<open>generation of the error, current generation, Auto?, current plan in hardware?, fallback, message\<close>
  | Outgoing string
  | OutboundClosed
  | StatsTick

datatype outcome = Running session | Done string | Failed session_error

definition viewer_step :: "outside \<Rightarrow> bool \<Rightarrow> session \<Rightarrow> input \<Rightarrow> outcome" where
  "viewer_step env audio s i =
     (case i of
        Binary data \<Rightarrow>
          (case read_records env audio (buffer s @ data) (s\<lparr>n_bytes := n_bytes s + length data\<rparr>) of
             Inl e \<Rightarrow> Failed e | Inr s' \<Rightarrow> Running s')
      | CloseFrame reason \<Rightarrow>
          Done (case reason of Some t \<Rightarrow> ''the daemon closed the stream: '' @ t
                | None \<Rightarrow> ''the daemon closed the stream'')
      | StreamEnd \<Rightarrow> Done ''the daemon closed the stream''
      | OtherMessage \<Rightarrow> Running s
      | DecoderFailed egen gen auto hw fallback msg \<Rightarrow>
          (if egen \<noteq> gen then Running s
           else case (if auto \<and> hw then fallback else None) of
                  None \<Rightarrow> Failed (DecodingFailed msg)
                | Some (name, fhw) \<Rightarrow>
                    if \<not> rebuild_accepts env name then Failed PipelineFailed
                    else if \<not> socket_accepts env ''request_idr'' then Failed SocketFailed
                    else Running ((emit SendRequestIdr
                      (emit (EvDecoder name fhw) (emit (RebuildVideo name) s)))\<lparr>awaiting_keyframe := True\<rparr>))
      | Outgoing text \<Rightarrow>
          (if socket_accepts env text then Running (emit (SendText text) (s\<lparr>n_sent := n_sent s + 1\<rparr>))
           else Failed SocketFailed)
      | OutboundClosed \<Rightarrow> Done ''viewer closed''
      | StatsTick \<Rightarrow>
          Running (s\<lparr>n_bytes := 0, n_keyframes := 0, n_deltas := 0, n_skipped := 0, n_audio_bytes := 0, n_sent := 0\<rparr>))"

fun viewer_run :: "outside \<Rightarrow> bool \<Rightarrow> session \<Rightarrow> input list \<Rightarrow> outcome" where
  "viewer_run env audio s [] = Running s"
| "viewer_run env audio s (i # is) =
     (case viewer_step env audio s i of Running s' \<Rightarrow> viewer_run env audio s' is | x \<Rightarrow> x)"

section \<open>The keyframe gate\<close>

text \<open>
  What the pipeline may be fed: after a start or a rebuild the first frame is a keyframe. The gate runs
  over a trace and ends in whether a keyframe is awaited, or fails.
\<close>

fun gate :: "bool \<Rightarrow> effect list \<Rightarrow> bool option" where
  "gate aw [] = Some aw"
| "gate aw (PushVideo key _ _ # es) = (if key then gate False es else if aw then None else gate False es)"
| "gate aw (RebuildVideo _ # es) = gate True es"
| "gate aw (_ # es) = gate aw es"

lemma gate_append: "gate aw (es @ fs) = (case gate aw es of None \<Rightarrow> None | Some aw' \<Rightarrow> gate aw' fs)"
  by (induction aw es rule: gate.induct) auto

definition gated :: "session \<Rightarrow> bool" where
  "gated s \<longleftrightarrow> gate True (trace s) = Some (awaiting_keyframe s)"

lemma gated_start: "gated (session_start d hw)"
  by (simp add: gated_def session_start_def)

lemma gated_fields [simp]:
  "gated (s\<lparr>buffer := b\<rparr>) = gated s" "gated (s\<lparr>first_keyframe := f\<rparr>) = gated s"
  "gated (s\<lparr>n_bytes := n\<rparr>) = gated s" "gated (s\<lparr>n_keyframes := n\<rparr>) = gated s"
  "gated (s\<lparr>n_deltas := n\<rparr>) = gated s" "gated (s\<lparr>n_skipped := n\<rparr>) = gated s"
  "gated (s\<lparr>n_audio_bytes := n\<rparr>) = gated s" "gated (s\<lparr>n_sent := n\<rparr>) = gated s"
  by (simp_all add: gated_def)

lemma gated_handle_control: "handle_control env r s = Inr s' \<Longrightarrow> gated s \<Longrightarrow> gated s'"
  by (auto simp: handle_control_def gated_def emit_def gate_append split: option.splits if_splits)

lemma gated_handle_record: "handle_record env audio s r = Inr s' \<Longrightarrow> gated s \<Longrightarrow> gated s'"
  by (cases "kind r")
    (auto simp: handle_record_def push_video_def gated_def emit_def gate_append Let_def
      intro: gated_handle_control [unfolded gated_def] split: option.splits if_splits)

lemma gated_read_records: "read_records env audio buf s = Inr s' \<Longrightarrow> gated s \<Longrightarrow> gated s'"
proof (induction "length buf" arbitrary: buf s rule: less_induct)
  case less
  show ?case
  proof (cases "decode buf")
    case (Inr o1)
    show ?thesis
    proof (cases o1)
      case (Some p)
      obtain r rest where p: "p = (r, rest)" by (cases p)
      with Inr Some have d: "decode buf = Inr (Some (r, rest))" by simp
      with less.prems obtain s1 where s1: "handle_record env audio s r = Inr s1"
        and rest: "read_records env audio rest s1 = Inr s'"
        by (auto simp: read_records.simps [of env audio buf] rbind_Inr_iff)
      show ?thesis
        by (rule less.hyps [OF decode_consumes [OF d] rest]) (rule gated_handle_record [OF s1 less.prems(2)])
    qed (use Inr less.prems in \<open>simp add: read_records.simps [of env audio buf], auto\<close>)
  qed (use less.prems in \<open>simp add: read_records.simps [of env audio buf]\<close>)
qed

lemma gated_viewer_step: "viewer_step env audio s i = Running s' \<Longrightarrow> gated s \<Longrightarrow> gated s'"
  by (cases i)
    (auto simp: viewer_step_def gated_def emit_def gate_append
      dest: gated_read_records [unfolded gated_def]
      split: sum.splits option.splits if_splits)

lemma gated_viewer_run: "viewer_run env audio s is = Running s' \<Longrightarrow> gated s \<Longrightarrow> gated s'"
  by (induction "is" arbitrary: s) (auto dest: gated_viewer_step split: outcome.splits)

section \<open>The loop against the reader\<close>

text \<open>Handling record by record is draining the buffer and handling the records in order.\<close>

lemma read_records_drain:
  "read_records env audio buf s =
    (case drain buf of (rs, x) \<Rightarrow>
       rbind (for_each rs (handle_record env audio) s)
         (\<lambda>t. case x of Inl e \<Rightarrow> Inl (Wire e) | Inr left \<Rightarrow> Inr (t\<lparr>buffer := left\<rparr>)))"
proof (induction env audio buf s rule: read_records.induct)
  case (1 env audio buf s)
  show ?case
  proof (cases "decode buf")
    case (Inl e)
    then show ?thesis by (simp add: read_records.simps [of env audio buf] drain.simps [of buf])
  next
    case (Inr o1)
    show ?thesis
    proof (cases o1)
      case None
      with Inr show ?thesis by (simp add: read_records.simps [of env audio buf] drain.simps [of buf])
    next
      case (Some p)
      obtain r rest where p: "p = (r, rest)" by (cases p)
      with Inr Some 1 show ?thesis
        by (cases "handle_record env audio s r")
          (auto simp: read_records.simps [of env audio buf] drain.simps [of buf] split: prod.splits)
    qed
  qed
qed


text \<open>No handler reads the buffer or the byte counter, so setting them commutes with handling.\<close>

definition with_input :: "byte list \<Rightarrow> nat \<Rightarrow> session \<Rightarrow> session" where
  "with_input b n s = s\<lparr>buffer := b, n_bytes := n\<rparr>"

lemma handle_record_with_input:
  "handle_record env audio (with_input b n s) r = map_sum id (with_input b n) (handle_record env audio s r)"
  by (cases "kind r")
    (auto simp: handle_record_def handle_control_def push_video_def emit_def with_input_def Let_def
      split: option.splits)

lemma for_each_with_input:
  "for_each rs (handle_record env audio) (with_input b n s)
     = map_sum id (with_input b n) (for_each rs (handle_record env audio) s)"
proof (induction rs arbitrary: s)
  case (Cons r rs)
  then show ?case
    by (cases "handle_record env audio s r") (auto simp: handle_record_with_input)
qed simp

definition receive :: "outside \<Rightarrow> bool \<Rightarrow> session \<Rightarrow> byte list \<Rightarrow> session_error + session" where
  "receive env audio s data =
     read_records env audio (buffer s @ data) (s\<lparr>n_bytes := n_bytes s + length data\<rparr>)"

lemma receive_eq:
  "receive env audio s data =
    (case drain (buffer s @ data) of (rs, x) \<Rightarrow>
       rbind (for_each rs (handle_record env audio) s)
         (\<lambda>t. case x of Inl e \<Rightarrow> Inl (Wire e)
              | Inr left \<Rightarrow> Inr (with_input left (n_bytes s + length data) t)))"
proof -
  obtain rs x where d: "drain (buffer s @ data) = (rs, x)" by (cases "drain (buffer s @ data)")
  have w: "s\<lparr>n_bytes := n\<rparr> = with_input (buffer s) n s" for n
    by (simp add: with_input_def)
  have b: "(with_input b n t)\<lparr>buffer := left\<rparr> = with_input left n t" for b n t left
    by (simp add: with_input_def)
  show ?thesis
    unfolding receive_def read_records_drain w for_each_with_input
    by (cases "for_each rs (handle_record env audio) s"; cases x) (simp_all add: d b)
qed

lemma with_input_twice [simp]:
  "with_input b n (with_input b' n' s) = with_input b n s"
  "buffer (with_input b n s) = b" "n_bytes (with_input b n s) = n"
  by (simp_all add: with_input_def)

lemma receive_chunks:
  "rbind (receive env audio s xs) (\<lambda>t. receive env audio t ys) = receive env audio s (xs @ ys)"
proof -
  obtain rs x where d: "drain (buffer s @ xs) = (rs, x)" by (cases "drain (buffer s @ xs)")
  show ?thesis
  proof (cases "for_each rs (handle_record env audio) s")
    case (Inl e)
    with d reader.run_append [of "buffer s @ xs" ys] show ?thesis
      by (auto simp: receive_eq for_each_append split: sum.splits prod.splits)
  next
    case (Inr t)
    show ?thesis
    proof (cases x)
      case (Inl e)
      with d Inr reader.run_append [of "buffer s @ xs" ys] show ?thesis
        by (simp add: receive_eq)
    next
      case x: (Inr left)
      obtain qs y where q: "drain (left @ ys) = (qs, y)" by (cases "drain (left @ ys)")
      have both: "drain (buffer s @ xs @ ys) = (rs @ qs, y)"
        using d x q reader.run_append [of "buffer s @ xs" ys] by simp
      show ?thesis
      proof (cases "for_each qs (handle_record env audio) t")
        case (Inl e)
        with d x q both Inr show ?thesis
          by (simp add: receive_eq for_each_append for_each_with_input)
      next
        case (Inr u)
        with d x q both \<open>for_each rs _ s = Inr t\<close> show ?thesis
          by (cases y) (simp_all add: receive_eq for_each_append for_each_with_input add.assoc)
      qed
    qed
  qed
qed

lemma viewer_step_receive:
  "viewer_step env audio s (Binary data) =
     (case receive env audio s data of Inl e \<Rightarrow> Failed e | Inr s' \<Rightarrow> Running s')"
  by (simp add: viewer_step_def receive_def)

section \<open>Properties\<close>

text \<open>
  C3: The decoder is never fed a delta it cannot decode. In every session, whatever messages, decoder
  failures and user input arrive in whatever order, the frames pushed to the pipeline start with a keyframe
  after the start of the session and after each rebuild of the pipeline.
\<close>

theorem pipeline_starts_at_keyframe:
  assumes "viewer_run env audio (session_start decoder hw) is = Running s"
  shows "gate True (trace s) = Some (awaiting_keyframe s)"
  using gated_viewer_run [OF assms gated_start] by (simp add: gated_def)

definition demo_env :: outside where
  "demo_env = \<lparr>parse_video_config = (\<lambda>_. None), parse_value = (\<lambda>_. None), parse_audio_config = (\<lambda>_. None),
     cursor_from_value = (\<lambda>_. None), control_from_value = (\<lambda>_. None), pipeline_accepts = (\<lambda>_ _. True),
     rebuild_accepts = (\<lambda>_. True), socket_accepts = (\<lambda>_. True)\<rparr>"

theorem pipeline_starts_at_keyframe_witness:
  "\<exists>s. viewer_run demo_env False (session_start ''vah264dec'' True)
         [Outgoing ''hello'', DecoderFailed 0 0 True True (Some (''avdec_h264'', False)) ''stall'']
       = Running s \<and> gate True (trace s) = Some True"
proof -
  obtain s where s: "viewer_run demo_env False (session_start ''vah264dec'' True)
       [Outgoing ''hello'', DecoderFailed 0 0 True True (Some (''avdec_h264'', False)) ''stall''] = Running s"
    and aw: "awaiting_keyframe s"
    by (simp add: viewer_step_def demo_env_def)
  from pipeline_starts_at_keyframe [OF s] aw s show ?thesis by auto
qed

text \<open>
  C4: How the network cuts the stream does not matter. Receiving two chunks one after the other ends in
  the same session, or fails with the same error, as receiving their concatenation as one message.
\<close>

theorem chunking_is_irrelevant:
  "viewer_run env audio s [Binary xs, Binary ys] = viewer_run env audio s [Binary (xs @ ys)]"
  using receive_chunks [of env audio s xs ys]
  by (cases "receive env audio s xs") (auto simp: viewer_step_receive split: sum.splits)

end
