(* ===== verification/Domain.thy ===== *)
theory Domain
  imports Json
begin

text \<open>
  \<open>crates/machineemu-core/src/domain\<close> and \<open>error.rs\<close>: identifiers and their validation, the persisted
  records, the lifecycle states with their transition table and text form, and the configuration
  documents. An \<open>Id\<close> is its string: the crate builds one only through \<open>Id::new\<close> or from a stored row.
\<close>

section \<open>Errors\<close>

datatype core_error =
    WorkspaceNotDirectory path
  | WorkspaceLocked path
  | InvalidId string string
  | Sqlite string
  | Io path string
  | ManifestJson string
  | ImageConflict string
  | OperationConflict string
  | InvalidTransition string string
  | NotFound string string
  | RunConflict string
  | ActiveRun string
  | SnapshotConflict string
  | SnapshotRequiresStopped
  | InvalidSnapshotComponent string
  | InvalidBundlePath string
  | BundleExists path
  | DigestMismatch string string
  | ExecutableNotFound string
  | Spawn string string
  | Qmp string
  | Process string

type_synonym 'a core_result = "core_error + 'a"

section \<open>Identifiers\<close>

type_synonym id = string

definition id_byte_ok :: "char \<Rightarrow> bool" where
  "id_byte_ok c \<longleftrightarrow> is_ascii_lowercase c \<or> is_ascii_digit c \<or> c \<in> {CHR ''.'', CHR ''_'', CHR ''-''}"

definition id_valid :: "string \<Rightarrow> bool" where
  "id_valid value \<longleftrightarrow> value \<noteq> [] \<and> length value \<le> 64 \<and> is_ascii_lowercase (value ! 0)
     \<and> list_all id_byte_ok value"

definition id_new :: "string \<Rightarrow> string \<Rightarrow> id core_result" where
  "id_new kind value = (if \<not> id_valid value then Inl (InvalidId kind value) else Inr value)"

section \<open>Lifecycle states\<close>

datatype instance_state = Created | Starting | Running | Paused | Stopping | Stopped | Error

fun state_as_str :: "instance_state \<Rightarrow> string" where
  "state_as_str Created = ''created''"
| "state_as_str Starting = ''starting''"
| "state_as_str Running = ''running''"
| "state_as_str Paused = ''paused''"
| "state_as_str Stopping = ''stopping''"
| "state_as_str Stopped = ''stopped''"
| "state_as_str Error = ''error''"

text \<open>The transition table, with the alternatives in the order of the \<open>matches!\<close>.\<close>

definition allows :: "instance_state \<Rightarrow> instance_state \<Rightarrow> bool" where
  "allows s t \<longleftrightarrow>
     (s \<in> {Created, Stopped, Error} \<and> t = Starting)
   \<or> (s = Starting \<and> t \<in> {Running, Paused, Error})
   \<or> (s = Running \<and> t \<in> {Paused, Stopping, Error})
   \<or> (s = Paused \<and> t \<in> {Running, Stopping, Error})
   \<or> (s = Stopping \<and> t \<in> {Stopped, Error})"

definition from_qmp :: "string \<Rightarrow> instance_state core_result" where
  "from_qmp status =
     (if status = ''running'' then Inr Running
      else if status = ''paused'' \<or> status = ''prelaunch'' then Inr Paused
      else Inl (Qmp (''unsupported QEMU status '' @ status)))"

text \<open>\<open>format!("{value:?}")\<close> of a string occurs in messages only; it is kept as the quoted text.\<close>

definition quoted :: "string \<Rightarrow> string" where
  "quoted s = CHR 0x22 # s @ [CHR 0x22]"

definition state_from_str :: "string \<Rightarrow> instance_state core_result" where
  "state_from_str value =
     (if value = ''created'' then Inr Created
      else if value = ''starting'' then Inr Starting
      else if value = ''running'' then Inr Running
      else if value = ''paused'' then Inr Paused
      else if value = ''stopping'' then Inr Stopping
      else if value = ''stopped'' then Inr Stopped
      else if value = ''error'' then Inr Error
      else Inl (Process (''unknown instance state '' @ quoted value)))"

lemma state_from_as_str [simp]: "state_from_str (state_as_str s) = Inr s"
  by (cases s) (simp_all add: state_from_str_def)

lemma state_from_str_Inr: "state_from_str v = Inr s \<longleftrightarrow> v = state_as_str s"
  by (cases s) (auto simp: state_from_str_def)

lemma state_as_str_inj: "state_as_str s = state_as_str t \<longleftrightarrow> s = t"
  by (cases s; cases t) auto

section \<open>Persisted records\<close>

record instance_row =
  instance_id :: id
  image_id :: id
  profile_id :: id
  state :: instance_state
  revision :: int

record operation_row =
  operation_id :: id
  op_instance :: id
  op_kind :: string
  idempotency_key :: string
  status :: string
  result_json :: "json option"

record run_row =
  run_id :: id
  run_instance :: id
  pid :: nat
  process_start :: nat
  qmp_socket :: path
  run_status :: string

record snapshot_row =
  snapshot_id :: id
  snap_instance :: id
  generation :: int
  files :: "(string \<times> string) list"

record image_component =
  component_path :: path
  component_sha256 :: string

record image_manifest =
  im_image_id :: id
  engine_track :: id
  supported_engine_tracks :: "id list"
  im_target :: string
  im_components :: "(string \<times> image_component) list"
  disk_sha256 :: string
  firmware_sha256 :: "string option"
  tpm_state_sha256 :: "string option"

section \<open>Configuration documents\<close>

record document_metadata =
  name :: string
  doc_revision :: nat
  digest :: "string option"

record profile_document =
  api_version :: string
  doc_kind :: string
  metadata :: document_metadata
  spec :: json

text \<open>\<open>HardwareIdentityDocument\<close> and \<open>ImageDocument\<close> have the same fields as \<open>ProfileDocument\<close>.\<close>

type_synonym hardware_identity_document = profile_document
type_synonym image_document = profile_document

record source_ref =
  ref_id :: string
  ref_revision :: nat
  ref_digest :: "string option"

record source_provenance =
  from_profile :: "source_ref option"
  from_hardware_identity :: "source_ref option"
  from_image :: "source_ref option"
  prov_overrides :: "(string \<times> json) list"

record domain_instance_document = profile_document +
  doc_source :: "source_provenance option"
  doc_status :: "json option"

section \<open>Properties\<close>

text \<open>
  An accepted identifier is a plain path component. It is between 1 and 64 bytes, starts with a
  lowercase letter, and joining it to a directory stays directly below that directory: it holds no
  separator, is neither \<open>.\<close> nor \<open>..\<close>, and is not absolute. Everything else is refused with
  \<open>InvalidId\<close>.
\<close>

theorem id_is_plain_component:
  "(case id_new kind value of
      Inr i \<Rightarrow> i = value \<and> 1 \<le> length i \<and> length i \<le> 64 \<and> CHR ''/'' \<notin> set i \<and> i \<noteq> ''.'' \<and> i \<noteq> ''..''
        \<and> \<not> is_absolute i \<and> (\<forall>d. d \<noteq> [] \<longrightarrow> last d \<noteq> CHR ''/'' \<longrightarrow> path_join d i = d @ ''/'' @ i)
    | Inl e \<Rightarrow> e = InvalidId kind value \<and> \<not> id_valid value)"
proof (cases "id_valid value")
  case True
  then have first: "is_ascii_lowercase (value ! 0)" and ne: "value \<noteq> []"
    and all: "\<forall>c \<in> set value. id_byte_ok c" and len: "length value \<le> 64"
    by (auto simp: id_valid_def list_all_iff)
  have "\<not> id_byte_ok (CHR ''/'')" by (simp add: id_byte_ok_def chars_simps)
  with all have slash: "CHR ''/'' \<notin> set value" by blast
  have "\<not> is_ascii_lowercase (CHR ''.'')" by (simp add: chars_simps)
  with first have dots: "value \<noteq> ''.''" "value \<noteq> ''..''" by auto
  have "\<not> is_absolute value"
    using slash ne by (cases "value") (auto simp: is_absolute_def)
  with slash dots ne len True show ?thesis
    by (auto simp: id_new_def path_join_def Suc_le_eq)
qed (simp add: id_new_def)

theorem id_is_plain_component_witness:
  "id_new ''instance'' ''lab-01'' = Inr ''lab-01'' \<and> path_join ''/w/instances'' ''lab-01'' = ''/w/instances/lab-01''"
proof -
  have ok: "id_new ''instance'' ''lab-01'' = Inr ''lab-01''"
    by (simp add: id_new_def id_valid_def id_byte_ok_def chars_simps)
  show ?thesis
    using id_is_plain_component [of "''instance''" "''lab-01''"] ok by simp
qed

text \<open>
  The lifecycle table is closed under what QEMU reports. Every status \<open>from_qmp\<close> accepts can be
  entered from \<open>Starting\<close>; an instance that is not running can only be started; and only a stop request
  that was issued leads to \<open>Stopped\<close>.
\<close>

theorem lifecycle_table:
  "(from_qmp q = Inr t \<longrightarrow> allows Starting t)
   \<and> (s \<in> {Created, Stopped, Error} \<longrightarrow> (allows s t \<longleftrightarrow> t = Starting))
   \<and> (allows s Stopped \<longrightarrow> s = Stopping)
   \<and> (allows s Created = False) \<and> (allows s s = False)"
  by (cases s) (auto simp: from_qmp_def allows_def split: if_splits)

theorem lifecycle_table_witness: "allows Starting Paused \<and> allows Stopping Stopped"
  using lifecycle_table [of "''prelaunch''" Paused Created]
  by (simp add: from_qmp_def allows_def)

end
