(* ===== verification/Action.thy ===== *)
theory Action
  imports Prelude
begin

text \<open>
  Stateful code as actions: an action takes the state and gives a result, an error or a value, with the state it leaves
  behind. An action that fails keeps what it had changed before the error. The tables of a workspace, the connection to
  a monitor and the request log of a client are states of such actions.
\<close>

type_synonym ('s, 'e, 'a) action = "'s \<Rightarrow> ('e + 'a) \<times> 's"

definition ret :: "'a \<Rightarrow> ('s, 'e, 'a) action" where "ret a s = (Inr a, s)"
definition throw :: "'e \<Rightarrow> ('s, 'e, 'a) action" where "throw e s = (Inl e, s)"

definition andthen :: "('s, 'e, 'a) action \<Rightarrow> ('a \<Rightarrow> ('s, 'e, 'b) action) \<Rightarrow> ('s, 'e, 'b) action" where
  "andthen m f s = (case m s of (Inl e, t) \<Rightarrow> (Inl e, t) | (Inr a, t) \<Rightarrow> f a t)"

definition lift :: "('e + 'a) \<Rightarrow> ('s, 'e, 'a) action" where "lift r s = (r, s)"
definition gets :: "('s \<Rightarrow> 'a) \<Rightarrow> ('s, 'e, 'a) action" where "gets f s = (Inr (f s), s)"
definition modify :: "('s \<Rightarrow> 's) \<Rightarrow> ('s, 'e, unit) action" where "modify f s = (Inr (), f s)"

fun map_act :: "('a \<Rightarrow> ('s, 'e, 'b) action) \<Rightarrow> 'a list \<Rightarrow> ('s, 'e, 'b list) action" where
  "map_act f [] = ret []"
| "map_act f (x # xs) = andthen (f x) (\<lambda>y. andthen (map_act f xs) (\<lambda>ys. ret (y # ys)))"

text \<open>The result of an action as a value: \<open>let result = ...;\<close> without the question mark.\<close>

definition attempt :: "('s, 'e, 'a) action \<Rightarrow> ('s, 'e, 'e + 'a) action" where
  "attempt m s = (case m s of (r, t) \<Rightarrow> (Inr r, t))"

named_theorems act_simps \<open>running an action\<close>

lemma ret_run [simp, act_simps]: "ret a s = (Inr a, s)" by (simp add: ret_def)
lemma throw_run [simp, act_simps]: "throw e s = (Inl e, s)" by (simp add: throw_def)
lemma lift_run [simp, act_simps]: "lift r s = (r, s)" by (simp add: lift_def)
lemma gets_run [simp, act_simps]: "gets f s = (Inr (f s), s)" by (simp add: gets_def)
lemma modify_run [simp, act_simps]: "modify f s = (Inr (), f s)" by (simp add: modify_def)

lemma andthen_ok [simp]: "m s = (Inr a, t) \<Longrightarrow> andthen m f s = f a t"
  by (simp add: andthen_def)

lemma andthen_err [simp]: "m s = (Inl e, t) \<Longrightarrow> andthen m f s = (Inl e, t)"
  by (simp add: andthen_def)

lemma andthen_Inr_iff:
  "andthen m f s = (Inr b, u) \<longleftrightarrow> (\<exists>a t. m s = (Inr a, t) \<and> f a t = (Inr b, u))"
  by (auto simp: andthen_def split: prod.splits sum.splits)

lemma andthen_state:
  "snd (andthen m f s) = (case fst (m s) of Inl e \<Rightarrow> snd (m s) | Inr a \<Rightarrow> snd (f a (snd (m s))))"
  by (auto simp: andthen_def split: prod.splits sum.splits)

lemma attempt_run [simp, act_simps]: "attempt m s = (Inr (fst (m s)), snd (m s))"
  by (simp add: attempt_def split: prod.split)


section \<open>A calculus for actions\<close>

text \<open>\<open>triple P m Q E\<close>: from \<open>P\<close> a success ends in \<open>Q\<close> and a failure in \<open>E\<close>.\<close>

definition triple :: "('s \<Rightarrow> bool) \<Rightarrow> ('s, 'e, 'a) action \<Rightarrow> ('a \<Rightarrow> 's \<Rightarrow> bool) \<Rightarrow> ('s \<Rightarrow> bool) \<Rightarrow> bool" where
  "triple P m Q E \<longleftrightarrow> (\<forall>s. P s \<longrightarrow> (case m s of (Inl e, t) \<Rightarrow> E t | (Inr a, t) \<Rightarrow> Q a t))"

definition keeps :: "('s \<Rightarrow> bool) \<Rightarrow> ('s, 'e, 'a) action \<Rightarrow> bool" where
  "keeps P m \<longleftrightarrow> (\<forall>s. P s \<longrightarrow> P (snd (m s)))"

named_theorems keeps_intros \<open>rules for keeps\<close>

lemma keepsD: "keeps P m \<Longrightarrow> P s \<Longrightarrow> m s = (r, t) \<Longrightarrow> P t"
  by (auto simp: keeps_def dest: spec [of _ s])

lemma keeps_ret [keeps_intros]: "keeps P (ret a)" by (simp add: keeps_def)
lemma keeps_throw [keeps_intros]: "keeps P (throw e)" by (simp add: keeps_def)
lemma keeps_lift [keeps_intros]: "keeps P (lift r)" by (simp add: keeps_def)
lemma keeps_gets [keeps_intros]: "keeps P (gets f)" by (simp add: keeps_def)

lemma keeps_modify: "(\<And>s. P s \<Longrightarrow> P (f s)) \<Longrightarrow> keeps P (modify f)"
  by (simp add: keeps_def)

lemma keeps_andthen [keeps_intros]:
  "keeps P m \<Longrightarrow> (\<And>a. keeps P (f a)) \<Longrightarrow> keeps P (andthen m f)"
  unfolding keeps_def andthen_state by (auto split: sum.splits)

lemma keeps_map_act [keeps_intros]: "(\<And>x. keeps P (f x)) \<Longrightarrow> keeps P (map_act f xs)"
  by (induction xs) (auto intro!: keeps_intros)

lemma keeps_if [keeps_intros]: "keeps P m \<Longrightarrow> keeps P n \<Longrightarrow> keeps P (if c then m else n)"
  by simp

lemma keeps_option [keeps_intros]:
  "keeps P m \<Longrightarrow> (\<And>x. keeps P (f x)) \<Longrightarrow> keeps P (case o1 of None \<Rightarrow> m | Some x \<Rightarrow> f x)"
  by (cases o1) simp_all

lemma keeps_prod [keeps_intros]:
  "(\<And>a b. keeps P (f a b)) \<Longrightarrow> keeps P (case p of (a, b) \<Rightarrow> f a b)"
  by (cases p) simp

lemma keeps_sum [keeps_intros]:
  "(\<And>e. keeps P (f e)) \<Longrightarrow> (\<And>a. keeps P (g a)) \<Longrightarrow> keeps P (case r of Inl e \<Rightarrow> f e | Inr a \<Rightarrow> g a)"
  by (cases r) simp_all

lemma keeps_attempt [keeps_intros]: "keeps P m \<Longrightarrow> keeps P (attempt m)"
  by (simp add: keeps_def)

lemma tripleD: "triple P m Q E \<Longrightarrow> P s \<Longrightarrow> m s = (Inr a, t) \<Longrightarrow> Q a t"
  by (auto simp: triple_def dest: spec [of _ s])

lemma triple_andthen:
  "triple P m R E \<Longrightarrow> (\<And>a. triple (R a) (f a) Q E) \<Longrightarrow> triple P (andthen m f) Q E"
  unfolding triple_def andthen_def by (fastforce split: prod.splits sum.splits)

lemma triple_keeps: "triple P m (\<lambda>_. P) P \<longleftrightarrow> keeps P m"
proof -
  have "(case m s of (Inl e, t) \<Rightarrow> P t | (Inr a, t) \<Rightarrow> P t) = P (snd (m s))" for s
    by (cases "m s"; cases "fst (m s)") auto
  then show ?thesis by (simp add: triple_def keeps_def)
qed

lemma triple_weaken:
  "triple P m Q E \<Longrightarrow> (\<And>s. P' s \<Longrightarrow> P s) \<Longrightarrow> (\<And>a s. Q a s \<Longrightarrow> Q' a s) \<Longrightarrow> (\<And>s. E s \<Longrightarrow> E' s)
   \<Longrightarrow> triple P' m Q' E'"
  unfolding triple_def by (fastforce split: prod.splits sum.splits)

lemma triple_ret: "(\<And>s. P s \<Longrightarrow> Q a s) \<Longrightarrow> triple P (ret a) Q E"
  by (simp add: triple_def)

lemma triple_throw: "(\<And>s. P s \<Longrightarrow> E s) \<Longrightarrow> triple P (throw e) Q E"
  by (simp add: triple_def)

lemma triple_gets: "triple P (gets f) (\<lambda>a s. P s \<and> a = f s) E"
  by (simp add: triple_def)

lemma triple_modify: "(\<And>s. P s \<Longrightarrow> Q (f s)) \<Longrightarrow> triple P (modify f) (\<lambda>_. Q) E"
  by (simp add: triple_def)

lemma triple_lift: "(\<And>s e. P s \<Longrightarrow> E s) \<Longrightarrow> triple P (lift r) (\<lambda>a s. P s \<and> r = Inr a) E"
  by (auto simp: triple_def split: sum.splits)

lemma triple_attempt: "triple P m (\<lambda>a. Q (Inr a)) (\<lambda>s. \<forall>e. Q (Inl e) s) \<Longrightarrow> triple P (attempt m) Q E"
  unfolding triple_def by (fastforce split: prod.splits sum.splits)

lemma triple_if:
  "(c \<Longrightarrow> triple P m Q E) \<Longrightarrow> (\<not> c \<Longrightarrow> triple P n Q E) \<Longrightarrow> triple P (if c then m else n) Q E"
  by simp

end
