(* ===== verification/Store.thy ===== *)
theory Store
  imports Domain Action "HOL-Library.Product_Lexorder"
begin

text \<open>
  \<open>crates/machineemu-core/src/storage\<close>: the SQLite tables of a workspace and the operations on runs
  (\<open>runs.rs\<close>), operations (\<open>operations.rs\<close>), instances and tombstones (\<open>instances.rs\<close>). A table is its
  rows in rowid order; a statement is a list function; \<open>CURRENT_TIMESTAMP\<close> is the clock of the state
  (one tick is one second, so rows can share a timestamp). An operation returns its result and the
  tables, which keep what was committed before an error. Whether a recorded process is still alive is
  part of the environment and read from the state.
\<close>

record helper_row =
  h_run :: id
  h_ordinal :: nat
  h_id :: id
  h_pid :: nat
  h_start :: nat

record tombstone_row =
  t_instance :: id
  t_last_run :: "id option"
  t_reason :: string
  t_removed_at :: nat

text \<open>
  The tree below \<open>instances/\<close>: a regular file with the document \<open>load_document\<close> reads from it (\<open>None\<close> when it
  does not parse), a directory with its entries, or anything else.
\<close>

datatype node = FileNode "json option" | DirNode "(string \<times> node) list" | OtherNode

record store =
  images :: "id list"
  instances :: "instance_row list"
  pending_deletions :: "id list"
  tombstones :: "tombstone_row list"
  operations :: "(operation_row \<times> string \<times> nat) list"   \<comment> \<open>row, input_sha256, created_at\<close>
  runs :: "(run_row \<times> nat) list"                              \<comment> \<open>row, created_at\<close>
  run_helpers :: "helper_row list"
  snapshots :: "snapshot_row list"
  dirs :: "(id \<times> node) list"                                   \<comment> \<open>entries of instances/\<close>
  clock :: nat
  alive :: "nat \<Rightarrow> nat \<Rightarrow> bool"                              \<comment> \<open>process_identity_matches(pid, start)\<close>

type_synonym 'a act = "(store, core_error, 'a) action"

section \<open>Instances\<close>

definition instance_of :: "store \<Rightarrow> id \<Rightarrow> instance_row option" where
  "instance_of s i = find (\<lambda>r. instance_id r = i) (instances s)"

definition get_instance :: "id \<Rightarrow> instance_row act" where
  "get_instance i = andthen (gets (\<lambda>s. instance_of s i)) (\<lambda>r. lift (ok_or r (NotFound ''instance'' i)))"

definition all_instances :: "instance_row list act" where
  "all_instances = gets (\<lambda>s. sort_key instance_id (instances s))"

definition set_lifecycle :: "id \<Rightarrow> instance_state \<Rightarrow> store \<Rightarrow> store" where
  "set_lifecycle i t s = s\<lparr>instances := map (\<lambda>r. if instance_id r = i
      then r\<lparr>state := t, revision := revision r + 1\<rparr> else r) (instances s)\<rparr>"

definition transition_instance :: "id \<Rightarrow> string \<Rightarrow> instance_row act" where
  "transition_instance i next =
     andthen (get_instance i) (\<lambda>current.
     andthen (lift (state_from_str next)) (\<lambda>next.
       if \<not> allows (state current) next
       then throw (InvalidTransition (state_as_str (state current)) (state_as_str next))
       else andthen (modify (set_lifecycle i next)) (\<lambda>_. get_instance i)))"

text \<open>The tombstone table keeps the 1000 most recently removed instances.\<close>

definition newest_tombstones :: "tombstone_row list \<Rightarrow> id list" where
  "newest_tombstones ts = map t_instance (take 1000 (sort_key (\<lambda>t. - int (t_removed_at t)) (rev ts)))"

definition upsert_tombstone :: "tombstone_row \<Rightarrow> tombstone_row list \<Rightarrow> tombstone_row list" where
  "upsert_tombstone row ts =
     (if t_instance row \<in> t_instance ` set ts
      then map (\<lambda>t. if t_instance t = t_instance row then row else t) ts
      else ts @ [row])"

definition record_instance_tombstone :: "id \<Rightarrow> id option \<Rightarrow> string \<Rightarrow> unit act" where
  "record_instance_tombstone i run reason =
     andthen (modify (\<lambda>s. s\<lparr>tombstones := upsert_tombstone
       \<lparr>t_instance = i, t_last_run = run, t_reason = reason, t_removed_at = clock s\<rparr> (tombstones s)\<rparr>)) (\<lambda>_.
     modify (\<lambda>s. s\<lparr>tombstones :=
       filter (\<lambda>t. t_instance t \<in> set (newest_tombstones (tombstones s))) (tombstones s)\<rparr>))"

definition instance_tombstone :: "id \<Rightarrow> (id option \<times> string \<times> nat) option act" where
  "instance_tombstone i = gets (\<lambda>s. map_option (\<lambda>t. (t_last_run t, t_reason t, t_removed_at t))
     (find (\<lambda>t. t_instance t = i) (tombstones s)))"

section \<open>Runs\<close>

definition run_of :: "store \<Rightarrow> id \<Rightarrow> run_row option" where
  "run_of s i = map_option fst (find (\<lambda>(r, _). run_id r = i) (runs s))"

definition get_run :: "id \<Rightarrow> run_row act" where
  "get_run i = andthen (gets (\<lambda>s. run_of s i)) (\<lambda>r. lift (ok_or r (NotFound ''run'' i)))"

definition set_run_status :: "id \<Rightarrow> string \<Rightarrow> store \<Rightarrow> store" where
  "set_run_status i st s = s\<lparr>runs := map (\<lambda>(r, c). if run_id r = i then (r\<lparr>run_status := st\<rparr>, c) else (r, c)) (runs s)\<rparr>"

definition record_run :: "id \<Rightarrow> id \<Rightarrow> nat \<Rightarrow> nat \<Rightarrow> path \<Rightarrow> run_row act" where
  "record_run rid i p start socket =
     andthen (get_instance i) (\<lambda>_.
     andthen (\<lambda>s. if rid \<in> (run_id \<circ> fst) ` set (runs s) then (Inl (RunConflict rid), s)
                else (Inr (), s\<lparr>runs := runs s @ [(\<lparr>run_id = rid, run_instance = i, pid = p, process_start = start,
                       qmp_socket = socket, run_status = ''running''\<rparr>, clock s)]\<rparr>)) (\<lambda>_.
     get_run rid))"

definition process_alive :: "store \<Rightarrow> run_row \<Rightarrow> bool" where
  "process_alive s r = alive s (pid r) (process_start r)"

definition reconcile_run :: "id \<Rightarrow> run_row act" where
  "reconcile_run i =
     andthen (get_run i) (\<lambda>r.
     andthen (gets (\<lambda>s. process_alive s r)) (\<lambda>live.
     andthen (modify (set_run_status i (if live then ''running'' else ''uncertain''))) (\<lambda>_.
     get_run i)))"

definition active_status :: "string \<Rightarrow> bool" where
  "active_status st \<longleftrightarrow> st = ''running'' \<or> st = ''starting'' \<or> st = ''uncertain''"

text \<open>
  \<open>ORDER BY created_at DESC LIMIT 1\<close>: a row with the latest timestamp. SQLite leaves the choice among rows
  of the same second open; the model takes the first one in rowid order, and no property depends on it.
\<close>

fun latest :: "(run_row \<times> nat) list \<Rightarrow> (run_row \<times> nat) option" where
  "latest [] = None"
| "latest (x # xs) = (case latest xs of None \<Rightarrow> Some x | Some y \<Rightarrow> if snd x < snd y then Some y else Some x)"

definition active_runs :: "store \<Rightarrow> id \<Rightarrow> (run_row \<times> nat) list" where
  "active_runs s i = filter (\<lambda>(r, _). run_instance r = i \<and> active_status (run_status r)) (runs s)"

definition active_run_of :: "store \<Rightarrow> id \<Rightarrow> run_row option" where
  "active_run_of s i = map_option fst (latest (active_runs s i))"

definition active_run :: "id \<Rightarrow> run_row option act" where
  "active_run i = gets (\<lambda>s. active_run_of s i)"

definition live_run :: "id \<Rightarrow> run_row option act" where
  "live_run i =
     andthen (active_run i) (\<lambda>o1. case o1 of
       None \<Rightarrow> ret None
     | Some r \<Rightarrow> andthen (reconcile_run (run_id r)) (\<lambda>r. ret (if run_status r = ''running'' then Some r else None)))"

definition finish_run :: "id \<Rightarrow> string \<Rightarrow> run_row act" where
  "finish_run i st =
     (if \<not> (st = ''exited'' \<or> st = ''failed'' \<or> st = ''uncertain'')
      then throw (Process (''invalid terminal run status '' @ quoted st))
      else andthen (modify (set_run_status i st)) (\<lambda>_. get_run i))"

definition observe_run_status :: "run_row \<Rightarrow> string \<Rightarrow> instance_row act" where
  "observe_run_status r st =
     andthen (lift (from_qmp st)) (\<lambda>target.
     andthen (gets (\<lambda>s. \<not> process_alive s r
         \<or> \<not> (case active_run_of s (run_instance r) of None \<Rightarrow> False
               | Some a \<Rightarrow> run_id a = run_id r \<and> pid a = pid r \<and> process_start a = process_start r))) (\<lambda>stale.
       if stale then throw (Process ''QMP observation belongs to a stale or dead run'')
       else andthen (modify (\<lambda>s. s\<lparr>instances := map (\<lambda>x. if instance_id x = run_instance r \<and> state x \<noteq> target
              then x\<lparr>state := target, revision := revision x + 1\<rparr> else x) (instances s)\<rparr>)) (\<lambda>_.
            get_instance (run_instance r))))"

definition error_if_active :: "id \<Rightarrow> unit act" where
  "error_if_active i =
     andthen (get_instance i) (\<lambda>x.
       if state x \<in> {Starting, Running, Paused, Stopping}
       then andthen (transition_instance i ''error'') (\<lambda>_. ret ()) else ret ())"

definition reconcile_active_runs :: "run_row list act" where
  "reconcile_active_runs =
     andthen (gets (\<lambda>s. map (run_id \<circ> fst) (filter (\<lambda>(r, _). active_status (run_status r)) (runs s)))) (\<lambda>ids.
     andthen (map_act reconcile_run ids) (\<lambda>rs.
     andthen (map_act (\<lambda>r. if run_status r = ''uncertain'' then error_if_active (run_instance r) else ret ()) rs) (\<lambda>_.
     ret rs)))"

text \<open>Helpers of a run: the recorded list replaces the old one in one transaction.\<close>

definition save_run_helpers :: "id \<Rightarrow> (id \<times> nat \<times> nat) list \<Rightarrow> unit act" where
  "save_run_helpers rid hs s =
     (if hs \<noteq> [] \<and> rid \<notin> (run_id \<circ> fst) ` set (runs s) then (Inl (Sqlite ''FOREIGN KEY constraint failed''), s)
      else (Inr (), s\<lparr>run_helpers := filter (\<lambda>h. h_run h \<noteq> rid) (run_helpers s)
        @ map (\<lambda>(n, h, p, st). \<lparr>h_run = rid, h_ordinal = n, h_id = h, h_pid = p, h_start = st\<rparr>) (enumerate 0 hs)\<rparr>))"

definition recover_run_helpers :: "id \<Rightarrow> (id \<times> nat \<times> nat) list act" where
  "recover_run_helpers rid s =
     (collect (\<lambda>h. rbind (id_new ''helper'' (h_id h)) (\<lambda>i. Inr (i, h_pid h, h_start h)))
        (filter (\<lambda>h. alive s (h_pid h) (h_start h))
          (sort_key h_ordinal (filter (\<lambda>h. h_run h = rid) (run_helpers s)))), s)"

section \<open>Operations\<close>

definition operation_of :: "store \<Rightarrow> id \<Rightarrow> operation_row option" where
  "operation_of s i = map_option fst (find (\<lambda>(r, _). operation_id r = i) (operations s))"

definition get_operation :: "id \<Rightarrow> operation_row act" where
  "get_operation i = andthen (gets (\<lambda>s. operation_of s i)) (\<lambda>r. lift (ok_or r (NotFound ''operation'' i)))"

text \<open>\<open>hex_digest\<close> over the hash function of the \<open>sha2\<close> crate, which is a parameter.\<close>

definition hex_digest :: "(string \<Rightarrow> 8 word list) \<Rightarrow> string \<Rightarrow> string" where
  "hex_digest sha bytes = hex_bytes (sha bytes)"

definition begin_operation ::
  "(string \<Rightarrow> 8 word list) \<Rightarrow> id \<Rightarrow> id \<Rightarrow> string \<Rightarrow> string \<Rightarrow> string \<Rightarrow> operation_row act" where
  "begin_operation sha oid i opkind key input =
     andthen (get_instance i) (\<lambda>_.
     let input_sha256 = hex_digest sha input in
     andthen (gets (\<lambda>s. find (\<lambda>(r, _). op_instance r = i \<and> idempotency_key r = key) (operations s))) (\<lambda>existing.
       case existing of
         Some (r, hash, _) \<Rightarrow>
           if op_kind r \<noteq> opkind \<or> hash \<noteq> input_sha256 then throw (OperationConflict key)
           else ret (r\<lparr>op_instance := i, idempotency_key := key\<rparr>)
       | None \<Rightarrow>
           (\<lambda>s. let row = \<lparr>operation_id = oid, op_instance = i, op_kind = opkind, idempotency_key = key,
                          status = ''accepted'', result_json = None\<rparr>
              in if oid \<in> (operation_id \<circ> fst) ` set (operations s)
                 then (Inl (Sqlite ''UNIQUE constraint failed: operations.operation_id''), s)
                 else (Inr row, s\<lparr>operations := operations s @ [(row, input_sha256, clock s)]\<rparr>))))"

definition set_operation :: "(operation_row \<Rightarrow> bool) \<Rightarrow> string \<Rightarrow> json \<Rightarrow> store \<Rightarrow> store" where
  "set_operation p st res s = s\<lparr>operations := map (\<lambda>(r, h, c). if p r then (r\<lparr>status := st, result_json := Some res\<rparr>, h, c)
      else (r, h, c)) (operations s)\<rparr>"

definition complete_operation :: "id \<Rightarrow> json \<Rightarrow> operation_row act" where
  "complete_operation i res =
     andthen (gets (\<lambda>s. i \<in> (operation_id \<circ> fst) ` set (operations s))) (\<lambda>changed.
     andthen (modify (set_operation (\<lambda>r. operation_id r = i) ''completed'' res)) (\<lambda>_.
       if \<not> changed then throw (NotFound ''operation'' i) else get_operation i))"

definition fail_operation :: "id \<Rightarrow> string \<Rightarrow> operation_row act" where
  "fail_operation i reason =
     andthen (gets (\<lambda>s. \<exists>(r, _) \<in> set (operations s). operation_id r = i \<and> status r = ''accepted'')) (\<lambda>changed.
     andthen (modify (set_operation (\<lambda>r. operation_id r = i \<and> status r = ''accepted'') ''failed''
                (json_obj [(''error'', JStr reason)]))) (\<lambda>_.
       if \<not> changed then throw (Process (''operation '' @ i @ '' is not accepted'')) else get_operation i))"

definition snapshot_of :: "store \<Rightarrow> id \<Rightarrow> snapshot_row option" where
  "snapshot_of s i = find (\<lambda>r. snapshot_id r = i) (snapshots s)"

text \<open>What an interrupted operation turned out to have done: \<open>Some\<close> result when it took effect.\<close>

definition recovered_result :: "operation_row \<Rightarrow> json option act" where
  "recovered_result r =
     (if op_kind r = ''start'' then
        andthen (get_instance (op_instance r)) (\<lambda>x.
        andthen (active_run (op_instance r)) (\<lambda>a.
          ret (if state x \<in> {Running, Paused} \<and> (case a of None \<Rightarrow> False | Some q \<Rightarrow> run_status q = ''running'')
               then Some (json_obj [(''state'', JStr (state_as_str (state x)))]) else None)))
      else if op_kind r = ''snapshot'' then
        gets (\<lambda>s. Option.bind (strip_prefix (idempotency_key r) ''snapshot:'') (\<lambda>i.
          if is_ok (id_new ''snapshot'' i) \<and> snapshot_of s i \<noteq> None
          then Some (json_obj [(''snapshot_id'', JStr i)]) else None))
      else ret None)"

definition reconcile_operation :: "id \<Rightarrow> operation_row act" where
  "reconcile_operation i =
     andthen (get_operation i) (\<lambda>r.
     andthen (recovered_result r) (\<lambda>completed. case completed of
         Some res \<Rightarrow> complete_operation (operation_id r) res
       | None \<Rightarrow> fail_operation (operation_id r) ''interrupted_by_recovery''))"

definition accepted_ids :: "store \<Rightarrow> id list" where
  "accepted_ids s = map (operation_id \<circ> fst)
     (sort_key (\<lambda>(r, _, c). (c, operation_id r)) (filter (\<lambda>(r, _). status r = ''accepted'') (operations s)))"

definition reconcile_operations :: "operation_row list act" where
  "reconcile_operations = andthen (gets accepted_ids) (map_act reconcile_operation)"

definition active_operations :: "id \<Rightarrow> operation_row list act" where
  "active_operations i =
     andthen (gets (\<lambda>s. take 64 (sort (map (operation_id \<circ> fst) (filter (\<lambda>(r, _). op_instance r = i
        \<and> (status r = ''accepted'' \<or> status r = ''queued'' \<or> status r = ''running'')) (operations s)))))) (\<lambda>ids.
     map_act get_operation ids)"

end
