(* ===== verification/Instances.thy ===== *)
theory Instances
  imports Store
begin

text \<open>
  \<open>storage/instances.rs\<close>: publishing a prepared instance directory together with its row, removing an
  instance, and the two-phase deletion that survives a crash between the commit and the cleanup of the
  directory. Failures of the file system are an argument of the operations.
\<close>

record faults =
  manifest_error :: "id \<Rightarrow> core_error option"   \<comment> \<open>what \<open>Workspace::image\<close> reports for the image\<close>
  remove_fails :: "id \<Rightarrow> bool"                   \<comment> \<open>remove_dir_all of instances/<id>\<close>
  sync_fails :: bool                                \<comment> \<open>fsync of instances/\<close>
  write_fails :: bool                               \<comment> \<open>writing instance.yaml or the marker into staging\<close>
  rename_fails :: bool

record instance_document =
  schema_version :: nat
  d_instance_id :: string
  d_image_id :: string
  d_profile_id :: string
  auto_remove :: bool
  profile :: "json option"
  launch_plan :: "json option"
  domain_document :: "json option"

text \<open>The document as \<open>serde\<close> writes it: \<open>domain_document\<close> is skipped when absent, the other options are null.\<close>

definition opt_json :: "json option \<Rightarrow> json" where
  "opt_json x = unwrap_or x JNull"

definition document_json :: "instance_document \<Rightarrow> json" where
  "document_json d = json_obj
     ([(''schema_version'', JNum (PosInt (schema_version d))), (''instance_id'', JStr (d_instance_id d)),
       (''image_id'', JStr (d_image_id d)), (''profile_id'', JStr (d_profile_id d)),
       (''auto_remove'', JBool (auto_remove d)), (''profile'', opt_json (profile d)),
       (''launch_plan'', opt_json (launch_plan d))]
      @ (case domain_document d of None \<Rightarrow> [] | Some v \<Rightarrow> [(''domain_document'', v)]))"

definition empty_legacy_plan_directory :: "(string \<times> node) list \<Rightarrow> bool" where
  "empty_legacy_plan_directory entries \<longleftrightarrow>
     list_all (\<lambda>(name, node). (name = ''sockets'' \<or> name = ''control'') \<and> node = DirNode []) entries"

definition is_file :: "node option \<Rightarrow> bool" where
  "is_file n = (case n of Some (FileNode _) \<Rightarrow> True | _ \<Rightarrow> False)"

text \<open>Deletion, second phase: remove the directory, sync, then forget the pending mark.\<close>

definition finish_instance_deletion :: "faults \<Rightarrow> id \<Rightarrow> bool act" where
  "finish_instance_deletion fs i s =
     (if i \<notin> set (pending_deletions s) then (Inr False, s)
      else if remove_fails fs i \<and> oget (dirs s) i \<noteq> None then (Inl (Io (''instances/'' @ i) ''remove_dir_all''), s)
      else let s = s\<lparr>dirs := odel i (dirs s)\<rparr>
      in if sync_fails fs then (Inl (Io ''instances'' ''sync_all''), s)
         else (Inr True, s\<lparr>pending_deletions := filter (\<lambda>x. x \<noteq> i) (pending_deletions s)\<rparr>))"

definition reconcile_instance_deletions :: "faults \<Rightarrow> unit act" where
  "reconcile_instance_deletions fs =
     andthen (gets pending_deletions) (\<lambda>ids.
     andthen (map_act (\<lambda>i. andthen (lift (id_new ''instance'' i)) (finish_instance_deletion fs)) ids) (\<lambda>_.
     ret ()))"

definition force_stopped :: "id \<Rightarrow> store \<Rightarrow> store" where
  "force_stopped i = set_lifecycle i Stopped"

text \<open>Deletion, first phase: one transaction moves the ID to the pending table and drops its rows.\<close>

definition commit_deletion :: "id \<Rightarrow> store \<Rightarrow> store" where
  "commit_deletion i s = s\<lparr>
     pending_deletions := pending_deletions s @ [i],
     operations := filter (\<lambda>(r, _). op_instance r \<noteq> i) (operations s),
     runs := filter (\<lambda>(r, _). run_instance r \<noteq> i) (runs s),
     run_helpers := filter (\<lambda>h. h_run h \<notin> (run_id \<circ> fst) ` set (filter (\<lambda>(r, _). run_instance r = i) (runs s)))
       (run_helpers s),
     instances := filter (\<lambda>r. instance_id r \<noteq> i) (instances s)\<rparr>"

text \<open>A recorded run that is still active: refuse while its process lives, otherwise close it.\<close>

definition close_dead_run :: "id \<Rightarrow> instance_row \<Rightarrow> instance_row act" where
  "close_dead_run i x =
     andthen (active_run i) (\<lambda>o1. case o1 of
       None \<Rightarrow> ret x
     | Some a \<Rightarrow>
         andthen (reconcile_run (run_id a)) (\<lambda>r.
           if run_status r = ''running'' then throw (ActiveRun i)
           else andthen (finish_run (run_id a) ''failed'') (\<lambda>_.
                andthen (modify (force_stopped i)) (\<lambda>_. get_instance i))))"

definition remove_instance :: "faults \<Rightarrow> id \<Rightarrow> unit act" where
  "remove_instance fs i =
     andthen (finish_instance_deletion fs i) (\<lambda>done. if done then ret () else
     andthen (get_instance i) (\<lambda>x.
     andthen (close_dead_run i x) (\<lambda>x.
       if state x \<noteq> Created \<and> state x \<noteq> Stopped \<and> state x \<noteq> Error
       then throw (Process (''instance '' @ quoted i @ '' must be stopped before removal (state '' @ state_as_str (state x) @ '')''))
       else andthen (gets (\<lambda>s. length (filter (\<lambda>r. snap_instance r = i) (snapshots s)))) (\<lambda>n.
         if n \<noteq> 0 then throw (Process (''instance '' @ quoted i @ '' still has '' @ show_nat n @ '' snapshot(s)''))
         else andthen (modify (commit_deletion i)) (\<lambda>_.
              andthen (finish_instance_deletion fs i) (\<lambda>_. ret ()))))))"

text \<open>
  Publication. The staged directory is the argument; its \<open>profile.yaml\<close> and \<open>domain_document.yaml\<close> are read into
  the instance document, and the marker file is what tells a later call that a crash happened between the
  rename and the commit.
\<close>

definition read_staged :: "(string \<times> node) list \<Rightarrow> string \<Rightarrow> json option core_result" where
  "read_staged staged nm =
     (case oget staged nm of
        None \<Rightarrow> Inr None
      | Some (FileNode (Some v)) \<Rightarrow> Inr (Some v)
      | Some _ \<Rightarrow> Inl (Process (''cannot parse '' @ nm)))"

definition clear_destination :: "faults \<Rightarrow> id \<Rightarrow> unit act" where
  "clear_destination fs i s =
     (case oget (dirs s) i of
        None \<Rightarrow> (Inr (), s)
      | Some node \<Rightarrow>
          (case node of
             DirNode entries \<Rightarrow>
               if instance_of s i = None
                  \<and> (is_file (oget entries ''.machineemu-create'') \<or> empty_legacy_plan_directory entries)
               then if remove_fails fs i then (Inl (Io (''instances/'' @ i) ''remove_dir_all''), s)
                    else (Inr (), s\<lparr>dirs := odel i (dirs s)\<rparr>)
               else (Inl (Process (''instance directory already exists: instances/'' @ i)), s)
           | _ \<Rightarrow> (Inl (Process (''instance directory already exists: instances/'' @ i)), s)))"

definition insert_instance :: "id \<Rightarrow> id \<Rightarrow> id \<Rightarrow> unit act" where
  "insert_instance i img prof s =
     (if i \<in> instance_id ` set (instances s) then (Inl (Sqlite ''UNIQUE constraint failed: instances.instance_id''), s)
      else (Inr (), s\<lparr>
        images := (if img \<in> set (images s) then images s else images s @ [img]),
        instances := instances s @ [\<lparr>instance_id = i, image_id = img, profile_id = prof, state = Created, revision = 1\<rparr>],
        tombstones := filter (\<lambda>t. t_instance t \<noteq> i) (tombstones s)\<rparr>))"

definition publish_prepared_instance ::
  "faults \<Rightarrow> id \<Rightarrow> id \<Rightarrow> id \<Rightarrow> (string \<times> node) list \<Rightarrow> json option \<Rightarrow> bool \<Rightarrow> instance_row act" where
  "publish_prepared_instance fs i img prof staged plan auto =
     andthen (finish_instance_deletion fs i) (\<lambda>_.
     andthen (lift (case manifest_error fs img of Some e \<Rightarrow> Inl e | None \<Rightarrow> Inr ())) (\<lambda>_.
     andthen (clear_destination fs i) (\<lambda>_.
     andthen (lift (read_staged staged ''profile.yaml'')) (\<lambda>prof_doc.
     andthen (lift (read_staged staged ''domain_document.yaml'')) (\<lambda>dom_doc.
     andthen (lift (ok_or plan (ManifestJson ''launch plan''))) (\<lambda>plan_value.
     let doc = \<lparr>schema_version = 1, d_instance_id = i, d_image_id = img, d_profile_id = prof, auto_remove = auto,
                profile = prof_doc, launch_plan = (if is_null plan_value then None else Some plan_value),
                domain_document = dom_doc\<rparr>;
         dir = oput ''.machineemu-create'' (FileNode None) (oput ''instance.yaml'' (FileNode (Some (document_json doc))) staged)
     in
     andthen (lift (if write_fails fs then Inl (Io ''staging'' ''write'') else Inr ())) (\<lambda>_.
     andthen (lift (if rename_fails fs then Inl (Io (''instances/'' @ i) ''rename'') else Inr ())) (\<lambda>_.
     andthen (modify (\<lambda>s. s\<lparr>dirs := oput i (DirNode dir) (dirs s)\<rparr>)) (\<lambda>_.
     andthen (\<lambda>s. case insert_instance i img prof s of
                (Inl e, t) \<Rightarrow> (Inl e, t\<lparr>dirs := odel i (dirs t)\<rparr>)
              | (Inr u, t) \<Rightarrow> (Inr u, t\<lparr>dirs := oput i (DirNode (odel ''.machineemu-create'' dir)) (dirs t)\<rparr>)) (\<lambda>_.
     get_instance i))))))))))"

definition create_instance :: "faults \<Rightarrow> id \<Rightarrow> id \<Rightarrow> id \<Rightarrow> instance_row act" where
  "create_instance fs i img prof = publish_prepared_instance fs i img prof [] (Some JNull) False"

end
