(* ===== verification/StoreInvariant.thy ===== *)
theory StoreInvariant
  imports Instances
begin

text \<open>
  The integrity of the workspace tables: primary keys, foreign keys and the separation of live and
  pending-deletion identifiers are kept by every operation, in the Hoare calculus for actions.
\<close>

section \<open>Integrity\<close>

abbreviation ids_of :: "store \<Rightarrow> id set" where
  "ids_of s \<equiv> instance_id ` set (instances s)"

definition run_rows :: "store \<Rightarrow> run_row list" where "run_rows s = map fst (runs s)"
definition op_rows :: "store \<Rightarrow> operation_row list" where "op_rows s = map fst (operations s)"

definition keys_ok :: "store \<Rightarrow> bool" where
  "keys_ok s \<longleftrightarrow> distinct (map instance_id (instances s)) \<and> distinct (map run_id (run_rows s))
     \<and> distinct (map operation_id (op_rows s))
     \<and> distinct (map (\<lambda>r. (op_instance r, idempotency_key r)) (op_rows s))
     \<and> distinct (pending_deletions s) \<and> distinct (map t_instance (tombstones s))"

definition refs_ok :: "store \<Rightarrow> bool" where
  "refs_ok s \<longleftrightarrow> run_instance ` set (run_rows s) \<subseteq> ids_of s \<and> op_instance ` set (op_rows s) \<subseteq> ids_of s
     \<and> snap_instance ` set (snapshots s) \<subseteq> ids_of s \<and> image_id ` set (instances s) \<subseteq> set (images s)
     \<and> h_run ` set (run_helpers s) \<subseteq> run_id ` set (run_rows s)
     \<and> ids_of s \<inter> set (pending_deletions s) = {}"

definition status_ok :: "store \<Rightarrow> bool" where
  "status_ok s \<longleftrightarrow> run_status ` set (run_rows s) \<subseteq> {''running'', ''uncertain'', ''exited'', ''failed''}
     \<and> status ` set (op_rows s) \<subseteq> {''accepted'', ''completed'', ''failed''}
     \<and> (\<forall>r \<in> set (instances s). 1 \<le> revision r)"

definition store_ok :: "store \<Rightarrow> bool" where
  "store_ok s \<longleftrightarrow> keys_ok s \<and> refs_ok s \<and> status_ok s"

lemmas store_ok_defs = store_ok_def keys_ok_def refs_ok_def status_ok_def

text \<open>Rewriting the non-key columns of a table keeps everything that is about keys.\<close>

lemma map_key_update:
  "(\<And>r. k (f r) = k r) \<Longrightarrow> map k (map f rs) = map k rs"
  by simp

lemma image_map_same: "(\<And>r. r \<in> A \<Longrightarrow> k (f r) = k r) \<Longrightarrow> k ` f ` A = k ` A"
  by (force simp: image_iff)

definition upd_instances :: "(instance_row \<Rightarrow> instance_row) \<Rightarrow> store \<Rightarrow> store" where
  "upd_instances f s = s\<lparr>instances := map f (instances s)\<rparr>"

lemma store_ok_upd_instances:
  assumes "store_ok s"
    and f: "\<And>r. instance_id (f r) = instance_id r" "\<And>r. image_id (f r) = image_id r" "\<And>r. revision r \<le> revision (f r)"
  shows "store_ok (upd_instances f s)"
proof -
  have m: "map instance_id (map f (instances s)) = map instance_id (instances s)"
    by (simp add: f(1))
  have ids: "instance_id ` f ` set (instances s) = ids_of s" "image_id ` f ` set (instances s) = image_id ` set (instances s)"
    by (simp_all add: image_image f)
  have "\<forall>r \<in> set (instances s). 1 \<le> revision (f r)"
    using assms(1) f(3) by (force simp: store_ok_defs intro: order_trans)
  then show ?thesis
    using assms(1) by (simp add: store_ok_defs upd_instances_def run_rows_def op_rows_def m ids comp_def f)
qed

lemma set_lifecycle_upd:
  "set_lifecycle i t = upd_instances (\<lambda>r. if instance_id r = i then r\<lparr>state := t, revision := revision r + 1\<rparr> else r)"
  by (simp add: fun_eq_iff set_lifecycle_def upd_instances_def)

lemma store_ok_set_lifecycle: "store_ok s \<Longrightarrow> store_ok (set_lifecycle i t s)"
  unfolding set_lifecycle_upd by (rule store_ok_upd_instances) auto

lemma run_rows_set_run_status:
  "run_rows (set_run_status i st s) = map (\<lambda>r. if run_id r = i then r\<lparr>run_status := st\<rparr> else r) (run_rows s)"
  by (auto simp: run_rows_def set_run_status_def)

lemma store_ok_set_run_status:
  assumes "store_ok s" and "st \<in> {''running'', ''uncertain'', ''exited'', ''failed''}"
  shows "store_ok (set_run_status i st s)"
proof -
  have other: "instances (set_run_status i st s) = instances s" "op_rows (set_run_status i st s) = op_rows s"
    "snapshots (set_run_status i st s) = snapshots s" "images (set_run_status i st s) = images s"
    "run_helpers (set_run_status i st s) = run_helpers s" "tombstones (set_run_status i st s) = tombstones s"
    "pending_deletions (set_run_status i st s) = pending_deletions s"
    by (simp_all add: set_run_status_def op_rows_def)
  let ?f = "\<lambda>r. if run_id r = i then r\<lparr>run_status := st\<rparr> else r"
  have keys: "map run_id (map ?f (run_rows s)) = map run_id (run_rows s)" by simp
  have sets: "run_id ` ?f ` set (run_rows s) = run_id ` set (run_rows s)"
    "run_instance ` ?f ` set (run_rows s) = run_instance ` set (run_rows s)"
    by (rule image_map_same; simp)+
  have "run_status ` ?f ` set (run_rows s) \<subseteq> {''running'', ''uncertain'', ''exited'', ''failed''}"
    using assms by (auto simp: store_ok_defs)
  with assms(1) show ?thesis
    by (simp only: store_ok_defs other run_rows_set_run_status set_map keys sets) blast
qed

lemma op_rows_set_operation:
  "op_rows (set_operation p st res s) = map (\<lambda>r. if p r then r\<lparr>status := st, result_json := Some res\<rparr> else r) (op_rows s)"
  by (auto simp: op_rows_def set_operation_def)

lemma store_ok_set_operation:
  assumes "store_ok s" and "st \<in> {''accepted'', ''completed'', ''failed''}"
  shows "store_ok (set_operation p st res s)"
proof -
  let ?s = "set_operation p st res s"
  have other: "instances ?s = instances s" "run_rows ?s = run_rows s"
    "snapshots ?s = snapshots s" "images ?s = images s" "run_helpers ?s = run_helpers s"
    "tombstones ?s = tombstones s" "pending_deletions ?s = pending_deletions s"
    by (simp_all add: set_operation_def run_rows_def)
  let ?f = "\<lambda>r. if p r then r\<lparr>status := st, result_json := Some res\<rparr> else r"
  have keys: "map operation_id (map ?f (op_rows s)) = map operation_id (op_rows s)"
    "map (\<lambda>r. (op_instance r, idempotency_key r)) (map ?f (op_rows s)) = map (\<lambda>r. (op_instance r, idempotency_key r)) (op_rows s)"
    by simp_all
  have sets: "op_instance ` ?f ` set (op_rows s) = op_instance ` set (op_rows s)"
    by (rule image_map_same) simp
  have "status ` ?f ` set (op_rows s) \<subseteq> {''accepted'', ''completed'', ''failed''}"
    using assms by (auto simp: store_ok_defs)
  with assms(1) show ?thesis
    by (simp only: store_ok_defs other op_rows_set_operation set_map keys sets) blast
qed

section \<open>Every operation keeps the integrity\<close>

abbreviation sound :: "'a act \<Rightarrow> bool" where
  "sound m \<equiv> keeps store_ok m"

lemma find_Some_in: "find P xs = Some x \<Longrightarrow> x \<in> set xs \<and> P x"
  by (auto simp: find_Some_iff)

lemma instance_of_Some: "instance_of s i = Some r \<Longrightarrow> r \<in> set (instances s) \<and> instance_id r = i"
  unfolding instance_of_def by (drule find_Some_in) simp

lemma instance_of_None_iff: "instance_of s i = None \<longleftrightarrow> i \<notin> ids_of s"
  by (auto simp: instance_of_def find_None_iff)

lemma get_instance_run:
  "get_instance i s = (case instance_of s i of None \<Rightarrow> Inl (NotFound ''instance'' i) | Some r \<Rightarrow> Inr r, s)"
  by (simp add: get_instance_def andthen_def ok_or_def split: option.splits)

lemma get_run_run: "get_run i s = (case run_of s i of None \<Rightarrow> Inl (NotFound ''run'' i) | Some r \<Rightarrow> Inr r, s)"
  by (simp add: get_run_def andthen_def ok_or_def split: option.splits)

lemma get_operation_run:
  "get_operation i s = (case operation_of s i of None \<Rightarrow> Inl (NotFound ''operation'' i) | Some r \<Rightarrow> Inr r, s)"
  by (simp add: get_operation_def andthen_def ok_or_def split: option.splits)

lemma keeps_read [keeps_intros]: "keeps P (get_instance i)" "keeps P (get_run i)" "keeps P (get_operation i)"
  "keeps P (active_run i)" "keeps P all_instances" "keeps P (instance_tombstone i)"
  by (auto simp: keeps_def get_instance_run get_run_run get_operation_run active_run_def all_instances_def
      instance_tombstone_def)

lemma sound_transition_instance [keeps_intros]: "sound (transition_instance i next)"
  unfolding transition_instance_def
  by (intro keeps_intros keeps_modify store_ok_set_lifecycle)

lemma sound_reconcile_run [keeps_intros]: "sound (reconcile_run i)"
  unfolding reconcile_run_def by (intro keeps_intros keeps_modify store_ok_set_run_status) auto

lemma sound_finish_run [keeps_intros]: "sound (finish_run i st)"
proof (cases "st \<in> {''exited'', ''failed'', ''uncertain''}")
  case True
  then have ok: "st \<in> {''running'', ''uncertain'', ''exited'', ''failed''}" by auto
  show ?thesis
    unfolding finish_run_def by (intro keeps_intros keeps_modify store_ok_set_run_status ok)
next
  case False
  then have "finish_run i st = throw (Process (''invalid terminal run status '' @ quoted st))"
    by (simp add: finish_run_def)
  then show ?thesis by (simp add: keeps_throw)
qed

lemma sound_live_run [keeps_intros]: "sound (live_run i)"
  unfolding live_run_def by (intro keeps_intros)

lemma observe_upd:
  "s\<lparr>instances := map (\<lambda>x. if instance_id x = i \<and> state x \<noteq> t then x\<lparr>state := t, revision := revision x + 1\<rparr> else x)
      (instances s)\<rparr>
   = upd_instances (\<lambda>x. if instance_id x = i \<and> state x \<noteq> t then x\<lparr>state := t, revision := revision x + 1\<rparr> else x) s"
  by (simp add: upd_instances_def)

lemma sound_observe_run_status [keeps_intros]: "sound (observe_run_status r st)"
  unfolding observe_run_status_def observe_upd
  by (intro keeps_intros keeps_modify store_ok_upd_instances) auto

lemma sound_error_if_active [keeps_intros]: "sound (error_if_active i)"
  unfolding error_if_active_def by (intro keeps_intros)

lemma sound_reconcile_active_runs [keeps_intros]: "sound reconcile_active_runs"
  unfolding reconcile_active_runs_def by (intro keeps_intros)

lemma sound_complete_operation [keeps_intros]: "sound (complete_operation i res)"
  unfolding complete_operation_def by (intro keeps_intros keeps_modify store_ok_set_operation) auto

lemma sound_fail_operation [keeps_intros]: "sound (fail_operation i reason)"
  unfolding fail_operation_def by (intro keeps_intros keeps_modify store_ok_set_operation) auto

lemma sound_recovered_result [keeps_intros]: "sound (recovered_result r)"
  unfolding recovered_result_def by (intro keeps_intros)

lemma sound_reconcile_operations [keeps_intros]: "sound reconcile_operations"
  unfolding reconcile_operations_def reconcile_operation_def by (intro keeps_intros)

lemma sound_record_run [keeps_intros]: "sound (record_run rid i p start socket)"
proof -
  have "store_ok s \<Longrightarrow> store_ok (snd (record_run rid i p start socket s))" for s
    by (cases "instance_of s i")
      (auto simp: record_run_def andthen_def get_instance_run get_run_run instance_of_None_iff
        store_ok_defs run_rows_def op_rows_def comp_def image_image
        dest!: instance_of_Some split: option.splits)
  then show ?thesis by (simp add: keeps_def)
qed

lemma find_None_notin: "find P xs = None \<Longrightarrow> \<forall>x \<in> set xs. \<not> P x"
  by (simp add: find_None_iff)

lemma sound_begin_operation [keeps_intros]: "sound (begin_operation sha oid i k key input)"
proof -
  have "store_ok (snd (begin_operation sha oid i k key input s))" if ok: "store_ok s" for s
  proof (cases "instance_of s i")
    case (Some x)
    let ?p = "\<lambda>(r, _). op_instance r = i \<and> idempotency_key r = key"
    show ?thesis
    proof (cases "find ?p (operations s)")
      case None
      from find_None_notin [OF this]
      have "(i, key) \<notin> (\<lambda>r. (op_instance r, idempotency_key r)) ` set (op_rows s)"
        by (force simp: op_rows_def)
      with ok Some None show ?thesis
        by (auto simp: begin_operation_def andthen_def get_instance_run Let_def store_ok_defs run_rows_def
            op_rows_def comp_def image_image dest!: instance_of_Some)
    qed (use ok Some in \<open>auto simp: begin_operation_def andthen_def get_instance_run Let_def split: prod.splits\<close>)
  qed (use ok in \<open>simp add: begin_operation_def andthen_def get_instance_run\<close>)
  then show ?thesis by (simp add: keeps_def)
qed

lemma image_fst_intro: "(a, b) \<in> set xs \<Longrightarrow> f a \<in> (\<lambda>x. f (fst x)) ` set xs"
  by force

lemma sound_save_run_helpers [keeps_intros]: "sound (save_run_helpers rid hs)"
  by (auto simp: keeps_def save_run_helpers_def store_ok_defs run_rows_def op_rows_def image_image
      intro: image_fst_intro dest!: set_zip_leftD)

lemma store_ok_tombstones: "store_ok s \<Longrightarrow> distinct (map t_instance ts) \<Longrightarrow> store_ok (s\<lparr>tombstones := ts\<rparr>)"
  by (simp add: store_ok_defs run_rows_def op_rows_def)

lemma store_ok_distinct_tombstones: "store_ok s \<Longrightarrow> distinct (map t_instance (tombstones s))"
  by (simp add: store_ok_defs)

lemma distinct_upsert_tombstone:
  assumes "distinct (map t_instance ts)"
  shows "distinct (map t_instance (upsert_tombstone row ts))"
proof -
  have "map t_instance (map (\<lambda>t. if t_instance t = t_instance row then row else t) ts) = map t_instance ts"
    by (rule map_key_update) simp
  with assms show ?thesis by (auto simp: upsert_tombstone_def simp del: map_map)
qed

lemma sound_record_instance_tombstone [keeps_intros]: "sound (record_instance_tombstone i run reason)"
  unfolding record_instance_tombstone_def
  by (intro keeps_intros keeps_modify store_ok_tombstones distinct_upsert_tombstone
      distinct_map_filter store_ok_distinct_tombstones)

lemma sound_dirs [simp]: "store_ok (s\<lparr>dirs := d\<rparr>) = store_ok s"
  by (simp add: store_ok_defs run_rows_def op_rows_def)

lemma sound_finish_instance_deletion [keeps_intros]: "sound (finish_instance_deletion fs i)"
  by (auto simp: keeps_def finish_instance_deletion_def Let_def store_ok_defs run_rows_def op_rows_def)

lemma sound_reconcile_instance_deletions [keeps_intros]: "sound (reconcile_instance_deletions fs)"
  unfolding reconcile_instance_deletions_def by (intro keeps_intros)

section \<open>Deletion and publication\<close>

abbreviation deletable :: "id \<Rightarrow> store \<Rightarrow> bool" where
  "deletable i s \<equiv> store_ok s \<and> i \<notin> set (pending_deletions s)"

lemma triple_finish_deletion: "triple store_ok (finish_instance_deletion fs i) (\<lambda>_. deletable i) store_ok"
  by (auto simp: triple_def finish_instance_deletion_def Let_def store_ok_defs run_rows_def op_rows_def)

lemma keeps_conj: "keeps P m \<Longrightarrow> keeps Q m \<Longrightarrow> keeps (\<lambda>s. P s \<and> Q s) m"
  by (simp add: keeps_def)

definition same_frame :: "id list \<Rightarrow> snapshot_row list \<Rightarrow> (id \<times> node) list \<Rightarrow> store \<Rightarrow> bool" where
  "same_frame pd sn ds s \<longleftrightarrow> pending_deletions s = pd \<and> snapshots s = sn \<and> dirs s = ds"

lemma frame_updates [simp]:
  "same_frame pd sn ds (set_lifecycle i t s) = same_frame pd sn ds s"
  "same_frame pd sn ds (set_run_status i st s) = same_frame pd sn ds s"
  by (simp_all add: same_frame_def set_lifecycle_def set_run_status_def)

lemma frame_reconcile_run [keeps_intros]: "keeps (same_frame pd sn ds) (reconcile_run i)"
  unfolding reconcile_run_def by (intro keeps_intros keeps_modify) simp

lemma frame_finish_run [keeps_intros]: "keeps (same_frame pd sn ds) (finish_run i st)"
  unfolding finish_run_def by (intro keeps_intros keeps_modify) simp

lemma frame_close_dead_run: "keeps (same_frame pd sn ds) (close_dead_run i x)"
  unfolding close_dead_run_def force_stopped_def by (intro keeps_intros keeps_modify) simp

lemma sound_close_dead_run: "sound (close_dead_run i x)"
  unfolding close_dead_run_def force_stopped_def
  by (intro keeps_intros keeps_modify store_ok_set_lifecycle)

lemma store_ok_commit_deletion:
  assumes ok: "store_ok s" and pend: "i \<notin> set (pending_deletions s)"
    and snaps: "\<forall>r \<in> set (snapshots s). snap_instance r \<noteq> i"
  shows "store_ok (commit_deletion i s)"
proof -
  let ?t = "commit_deletion i s"
  have rows: "run_rows ?t = filter (\<lambda>r. run_instance r \<noteq> i) (run_rows s)"
    "op_rows ?t = filter (\<lambda>r. op_instance r \<noteq> i) (op_rows s)"
    by (simp_all add: commit_deletion_def run_rows_def op_rows_def filter_map comp_def split_def)
  have "(run_id \<circ> fst) ` set (filter (\<lambda>(r, _). run_instance r = i) (runs s))
      = run_id ` set (filter (\<lambda>r. run_instance r = i) (run_rows s))"
    by (force simp: run_rows_def image_iff)
  moreover have "run_helpers ?t = filter (\<lambda>h. h_run h \<notin>
      (run_id \<circ> fst) ` set (filter (\<lambda>(r, _). run_instance r = i) (runs s))) (run_helpers s)"
    by (simp add: commit_deletion_def)
  ultimately have hs: "run_helpers ?t = filter (\<lambda>h. h_run h \<notin> run_id ` set (filter (\<lambda>r. run_instance r = i) (run_rows s))) (run_helpers s)"
    by (simp only:)
  have helpers: "h_run ` set (run_helpers ?t) \<subseteq> run_id ` set (run_rows ?t)"
  proof
    fix k assume "k \<in> h_run ` set (run_helpers ?t)"
    then obtain h where h: "h \<in> set (run_helpers s)" "k = h_run h"
      and gone: "h_run h \<notin> run_id ` set (filter (\<lambda>r. run_instance r = i) (run_rows s))"
      by (auto simp: hs)
    from ok h have "h_run h \<in> run_id ` set (run_rows s)"
      unfolding store_ok_def refs_ok_def by blast
    with gone show "k \<in> run_id ` set (run_rows ?t)" by (auto simp: rows h(2))
  qed
  have rest: "instances ?t = filter (\<lambda>r. instance_id r \<noteq> i) (instances s)" "snapshots ?t = snapshots s"
    "images ?t = images s" "tombstones ?t = tombstones s" "pending_deletions ?t = pending_deletions s @ [i]"
    by (simp_all add: commit_deletion_def)
  have keys: "keys_ok ?t"
    using ok pend unfolding store_ok_def keys_ok_def rows rest by (simp add: distinct_map_filter)
  have "instance_id ` set (instances ?t) = ids_of s - {i}" by (auto simp: rest)
  then have "refs_ok ?t"
    using ok snaps helpers unfolding store_ok_def refs_ok_def rest rows by auto
  moreover have "status_ok ?t"
    using ok unfolding store_ok_def status_ok_def rest rows by auto
  ultimately show ?thesis using keys by (simp add: store_ok_def)
qed

lemma triple_commit_deletion:
  assumes "n = 0"
  shows "triple (\<lambda>s. deletable i s \<and> n = length (filter (\<lambda>r. snap_instance r = i) (snapshots s)))
    (modify (commit_deletion i)) (\<lambda>_. store_ok) store_ok"
  using assms store_ok_commit_deletion [of _ i] by (auto intro!: triple_modify simp: filter_empty_conv)

lemma triple_close_dead_run: "triple (deletable i) (close_dead_run i x) (\<lambda>_. deletable i) store_ok"
proof -
  have "keeps (deletable i) (close_dead_run i x)"
    using sound_close_dead_run [of i x] frame_close_dead_run [of _ _ _ i x]
    by (auto simp: keeps_def same_frame_def)
  then show ?thesis unfolding triple_keeps [symmetric] by (rule triple_weaken) auto
qed

lemma triple_get_instance: "triple (deletable i) (get_instance j) (\<lambda>_. deletable i) store_ok"
  by (auto simp: triple_def get_instance_run split: option.splits)

lemma triple_cleanup: "triple store_ok (andthen (finish_instance_deletion fs i) (\<lambda>_. ret ())) (\<lambda>_. store_ok) store_ok"
  unfolding triple_keeps by (intro keeps_intros)

lemma sound_remove_instance [keeps_intros]: "sound (remove_instance fs i)"
  unfolding triple_keeps [symmetric] remove_instance_def
  by (intro triple_andthen [OF triple_finish_deletion] triple_if triple_ret triple_andthen [OF triple_get_instance]
      triple_andthen [OF triple_close_dead_run] triple_throw triple_andthen [OF triple_gets]
      triple_andthen [OF triple_commit_deletion] triple_cleanup) auto

lemma store_ok_insert_instance:
  assumes "deletable i s" and "insert_instance i img prof s = (r, t)"
  shows "store_ok t"
proof (cases "i \<in> ids_of s")
  case False
  let ?row = "\<lparr>instance_id = i, image_id = img, profile_id = prof, state = Created, revision = 1\<rparr>"
  have t: "instances t = instances s @ [?row]" "set (images t) = insert img (set (images s))"
    "run_rows t = run_rows s" "op_rows t = op_rows s" "snapshots t = snapshots s"
    "run_helpers t = run_helpers s" "pending_deletions t = pending_deletions s"
    "tombstones t = filter (\<lambda>t. t_instance t \<noteq> i) (tombstones s)"
    using assms(2) False by (auto simp: insert_instance_def run_rows_def op_rows_def split: if_splits)
  have "keys_ok t"
    using assms(1) False unfolding store_ok_def keys_ok_def t by (simp add: distinct_map_filter)
  moreover have "refs_ok t"
    using assms(1) unfolding store_ok_def refs_ok_def t by auto
  moreover have "status_ok t"
    using assms(1) unfolding store_ok_def status_ok_def t by auto
  ultimately show ?thesis by (simp add: store_ok_def)
qed (use assms in \<open>auto simp: insert_instance_def\<close>)

lemma triple_insert_instance:
  "triple (deletable i) (\<lambda>s. case insert_instance i img prof s of
       (Inl e, t) \<Rightarrow> (Inl e, t\<lparr>dirs := f t\<rparr>) | (Inr u, t) \<Rightarrow> (Inr u, t\<lparr>dirs := g t\<rparr>)) (\<lambda>_. store_ok) store_ok"
  using store_ok_insert_instance [where i = i and img = img and prof = prof]
  by (auto simp: triple_def split: prod.splits sum.splits)

lemma triple_clear_destination: "triple (deletable i) (clear_destination fs j) (\<lambda>_. deletable i) store_ok"
  by (auto simp: triple_def clear_destination_def split: option.splits node.splits)

lemma triple_lift_deletable: "triple (deletable i) (lift r) (\<lambda>_. deletable i) store_ok"
  by (auto simp: triple_def split: sum.splits)

lemma triple_publish_dirs: "triple (deletable i) (modify (\<lambda>s. s\<lparr>dirs := f s\<rparr>)) (\<lambda>_. deletable i) store_ok"
  by (auto simp: triple_def)

lemma sound_publish [keeps_intros]: "sound (publish_prepared_instance fs i img prof staged plan auto)"
proof -
  have get: "triple store_ok (get_instance i) (\<lambda>_. store_ok) store_ok"
    unfolding triple_keeps by (rule keeps_intros)
  show ?thesis
    unfolding triple_keeps [symmetric] publish_prepared_instance_def Let_def
    by (intro triple_andthen [OF triple_finish_deletion] triple_andthen [OF triple_lift_deletable]
        triple_andthen [OF triple_clear_destination] triple_andthen [OF triple_publish_dirs]
        triple_andthen [OF triple_insert_instance] get)
qed

section \<open>Reachable workspaces\<close>

text \<open>
  A step of a workspace is one operation, whatever its result, or a change of the environment: time
  passes and processes die or appear.
\<close>

inductive store_step :: "store \<Rightarrow> store \<Rightarrow> bool" where
  transition: "store_step s (snd (transition_instance i next s))"
| record_new: "store_step s (snd (record_run rid i p start socket s))"
| reconcile: "store_step s (snd (reconcile_run rid s))"
| reconcile_active: "store_step s (snd (reconcile_active_runs s))"
| live: "store_step s (snd (live_run i s))"
| finish: "store_step s (snd (finish_run rid st s))"
| observe: "store_step s (snd (observe_run_status r st s))"
| save_helpers: "store_step s (snd (save_run_helpers rid hs s))"
| begin_op: "store_step s (snd (begin_operation sha oid i k key inp s))"
| complete_op: "store_step s (snd (complete_operation oid res s))"
| fail_op: "store_step s (snd (fail_operation oid reason s))"
| reconcile_ops: "store_step s (snd (reconcile_operations s))"
| tombstone: "store_step s (snd (record_instance_tombstone i ro reason s))"
| remove: "store_step s (snd (remove_instance fs i s))"
| reopen: "store_step s (snd (reconcile_instance_deletions fs s))"
| publish: "store_step s (snd (publish_prepared_instance fs i img prof staged plan auto s))"
| environment: "clock s \<le> c \<Longrightarrow> store_step s (s\<lparr>clock := c, alive := a\<rparr>)"

definition store_init :: store where
  "store_init = \<lparr>images = [], instances = [], pending_deletions = [], tombstones = [], operations = [], runs = [],
     run_helpers = [], snapshots = [], dirs = [], clock = 0, alive = (\<lambda>_ _. False)\<rparr>"

text \<open>A state machine with an invariant: what every client of an invariant gets.\<close>

locale invariant_system =
  fixes init :: 's
    and step :: "'s \<Rightarrow> 's \<Rightarrow> bool"
    and inv :: "'s \<Rightarrow> bool"
  assumes inv_init: "inv init"
    and inv_step: "step s t \<Longrightarrow> inv s \<Longrightarrow> inv t"
begin

lemma inv_steps: "step\<^sup>*\<^sup>* s t \<Longrightarrow> inv s \<Longrightarrow> inv t"
  by (induction rule: rtranclp_induct) (auto intro: inv_step)

lemma inv_reachable: "step\<^sup>*\<^sup>* init t \<Longrightarrow> inv t"
  by (rule inv_steps [OF _ inv_init])

end

lemma store_ok_step: "store_step s t \<Longrightarrow> store_ok s \<Longrightarrow> store_ok t"
proof (induction rule: store_step.induct)
  case (environment s c a)
  then show ?case by (simp add: store_ok_defs run_rows_def op_rows_def)
qed (blast intro: keepsD [OF _ _ surjective_pairing] keeps_intros)+

lemma store_ok_init: "store_ok store_init"
  by (simp add: store_ok_defs store_init_def run_rows_def op_rows_def)

interpretation tables: invariant_system store_init store_step store_ok
  by unfold_locales (rule store_ok_init, rule store_ok_step)

end
