(* ===== verification/StoreProperties.thy ===== *)
theory StoreProperties
  imports StoreInvariant
begin

text \<open>
  What the workspace tables promise their callers: integrity in every reachable state, monotone
  revisions, idempotent operations, recovery of interrupted operations, and deletion.
\<close>

section \<open>Rows over time\<close>

definition progress :: "instance_row \<Rightarrow> instance_row \<Rightarrow> bool" where
  "progress x y \<longleftrightarrow> revision x \<le> revision y \<and> (state x \<noteq> state y \<longrightarrow> revision x < revision y)
     \<and> image_id x = image_id y \<and> profile_id x = profile_id y"

lemma progress_refl [simp]: "progress x x"
  by (simp add: progress_def)

lemma progress_trans: "progress x y \<Longrightarrow> progress y z \<Longrightarrow> progress x z"
  by (auto simp: progress_def)

lemma find_map_list: "find P (map f xs) = map_option f (find (P \<circ> f) xs)"
  by (induction xs) auto

lemma find_append_list: "find P (xs @ ys) = (case find P xs of None \<Rightarrow> find P ys | Some x \<Rightarrow> Some x)"
  by (induction xs) auto

lemma find_other_rows: "find (\<lambda>r. k r = i) (filter (\<lambda>r. k r \<noteq> j) rs) = (if i = j then None else find (\<lambda>r. k r = i) rs)"
  by (induction rs) auto

definition row_progress :: "id \<Rightarrow> instance_row \<Rightarrow> store \<Rightarrow> bool" where
  "row_progress i x s \<longleftrightarrow> (case instance_of s i of None \<Rightarrow> True | Some y \<Rightarrow> progress x y)"

lemma instance_of_upd_instances:
  "(\<And>r. instance_id (f r) = instance_id r) \<Longrightarrow> instance_of (upd_instances f s) i = map_option f (instance_of s i)"
  by (simp add: instance_of_def upd_instances_def find_map_list comp_def)

lemma row_progress_upd:
  assumes "row_progress i x s" "\<And>r. instance_id (f r) = instance_id r" "\<And>r. progress r (f r)"
  shows "row_progress i x (upd_instances f s)"
  using assms by (auto simp: row_progress_def instance_of_upd_instances split: option.splits intro: progress_trans)

lemma row_progress_set_lifecycle: "row_progress i x s \<Longrightarrow> row_progress i x (set_lifecycle j t s)"
  unfolding set_lifecycle_upd by (erule row_progress_upd) (auto simp: progress_def)

lemma row_progress_other_tables [simp]:
  "row_progress i x (set_run_status j st s) = row_progress i x s"
  "row_progress i x (set_operation p st res s) = row_progress i x s"
  "row_progress i x (s\<lparr>tombstones := ts\<rparr>) = row_progress i x s"
  "row_progress i x (s\<lparr>dirs := ds\<rparr>) = row_progress i x s"
  by (simp_all add: row_progress_def instance_of_def set_run_status_def set_operation_def)

lemma instance_of_commit: "instance_of (commit_deletion j s) i = (if i = j then None else instance_of s i)"
  by (simp add: instance_of_def commit_deletion_def find_other_rows)

lemma row_progress_commit: "row_progress i x s \<Longrightarrow> row_progress i x (commit_deletion j s)"
  by (simp add: row_progress_def instance_of_commit)

abbreviation tracks :: "id \<Rightarrow> instance_row \<Rightarrow> 'a act \<Rightarrow> bool" where
  "tracks i x m \<equiv> keeps (row_progress i x) m"

lemma tracks_transition [keeps_intros]: "tracks i x (transition_instance j next)"
  unfolding transition_instance_def by (intro keeps_intros keeps_modify row_progress_set_lifecycle)

lemma tracks_reconcile_run [keeps_intros]: "tracks i x (reconcile_run j)"
  unfolding reconcile_run_def by (intro keeps_intros keeps_modify) simp

lemma tracks_finish_run [keeps_intros]: "tracks i x (finish_run j st)"
  unfolding finish_run_def by (intro keeps_intros keeps_modify) simp

lemma tracks_live_run [keeps_intros]: "tracks i x (live_run j)"
  unfolding live_run_def by (intro keeps_intros)

lemma tracks_observe [keeps_intros]: "tracks i x (observe_run_status r st)"
  unfolding observe_run_status_def observe_upd
  by (intro keeps_intros keeps_modify, erule row_progress_upd) (auto simp: progress_def)

lemma tracks_reconcile_active [keeps_intros]: "tracks i x reconcile_active_runs"
  unfolding reconcile_active_runs_def error_if_active_def by (intro keeps_intros)

lemma tracks_operations [keeps_intros]:
  "tracks i x (complete_operation j res)" "tracks i x (fail_operation j reason)"
  unfolding complete_operation_def fail_operation_def by (intro keeps_intros keeps_modify, simp)+

lemma tracks_reconcile_operations [keeps_intros]: "tracks i x reconcile_operations"
  unfolding reconcile_operations_def reconcile_operation_def recovered_result_def by (intro keeps_intros)

lemma tracks_inserts [keeps_intros]:
  "tracks i x (record_run rid j p start socket)" "tracks i x (begin_operation sha oid j k key input)"
  "tracks i x (save_run_helpers rid hs)"
  by (auto simp: keeps_def record_run_def begin_operation_def save_run_helpers_def andthen_def get_instance_run
      get_run_run Let_def row_progress_def instance_of_def split: option.splits prod.splits)

lemma tracks_tombstone [keeps_intros]: "tracks i x (record_instance_tombstone j ro reason)"
  unfolding record_instance_tombstone_def by (intro keeps_intros keeps_modify) simp_all

lemma tracks_finish_deletion [keeps_intros]: "tracks i x (finish_instance_deletion fs j)"
  by (auto simp: keeps_def finish_instance_deletion_def Let_def row_progress_def instance_of_def)

lemma tracks_reconcile_deletions [keeps_intros]: "tracks i x (reconcile_instance_deletions fs)"
  unfolding reconcile_instance_deletions_def by (intro keeps_intros)

lemma tracks_remove [keeps_intros]: "tracks i x (remove_instance fs j)"
  unfolding remove_instance_def close_dead_run_def force_stopped_def
  by (intro keeps_intros keeps_modify row_progress_commit row_progress_set_lifecycle)

text \<open>Publication only appends a row, so a row that was there stays as it is.\<close>

lemma keeps_present_publish:
  "keeps (\<lambda>s. instance_of s i = Some x) (publish_prepared_instance fs j img prof staged plan auto)"
proof -
  have insert: "keeps (\<lambda>s. instance_of s i = Some x) (\<lambda>s. case insert_instance j img prof s of
      (Inl e, t) \<Rightarrow> (Inl e, t\<lparr>dirs := f t\<rparr>) | (Inr u, t) \<Rightarrow> (Inr u, t\<lparr>dirs := g t\<rparr>))" for f g
    by (auto simp: keeps_def insert_instance_def instance_of_def find_append_list split: option.splits)
  have clear: "keeps (\<lambda>s. instance_of s i = Some x) (clear_destination fs j)"
    by (auto simp: keeps_def clear_destination_def instance_of_def split: option.splits node.splits)
  have finish: "keeps (\<lambda>s. instance_of s i = Some x) (finish_instance_deletion fs j)"
    by (auto simp: keeps_def finish_instance_deletion_def instance_of_def Let_def)
  show ?thesis
    unfolding publish_prepared_instance_def Let_def
    by (intro keeps_intros insert clear finish keeps_modify) (simp_all add: instance_of_def)
qed

lemma step_row_progress:
  "store_step s t \<Longrightarrow> instance_of s i = Some x \<Longrightarrow> row_progress i x t"
proof (induction rule: store_step.induct)
  case (publish s fs j img prof staged plan auto)
  from keepsD [OF keeps_present_publish publish surjective_pairing] show ?case
    by (simp add: row_progress_def)
next
  case (environment s c a)
  then show ?case by (simp add: row_progress_def instance_of_def)
qed (rule keepsD [OF _ _ surjective_pairing], intro keeps_intros, simp add: row_progress_def)+

section \<open>Recovery of interrupted operations\<close>

definition accepted_set :: "store \<Rightarrow> id set" where
  "accepted_set s = operation_id ` {r \<in> set (op_rows s). status r = ''accepted''}"

lemma set_accepted_ids: "set (accepted_ids s) = accepted_set s"
  by (force simp: accepted_ids_def accepted_set_def op_rows_def)

lemma distinct_accepted_ids: "store_ok s \<Longrightarrow> distinct (accepted_ids s)"
proof -
  assume "store_ok s"
  then have "distinct (map (operation_id \<circ> fst) (operations s))"
    by (simp add: store_ok_defs op_rows_def)
  then have "distinct (map (operation_id \<circ> fst) (filter p (operations s)))" for p
    by (rule distinct_map_filter)
  then have "distinct (map (operation_id \<circ> fst) (sort_key k (filter p (operations s))))" for k :: "_ \<Rightarrow> nat \<times> string" and p
    by (simp add: distinct_map)
  then show "distinct (accepted_ids s)" by (simp add: accepted_ids_def)
qed

lemma find_distinct_key:
  "distinct (map k rs) \<Longrightarrow> r \<in> set rs \<Longrightarrow> find (\<lambda>x. k x = k r) rs = Some r"
proof (induction rs)
  case (Cons a rs)
  then show ?case by (cases "a = r") (auto simp: image_iff)
qed simp

lemma operation_of_op_rows: "operation_of s i = find (\<lambda>r. operation_id r = i) (op_rows s)"
  by (simp add: operation_of_def op_rows_def find_map_list split_def comp_def)

lemma operation_of_in:
  "store_ok s \<Longrightarrow> r \<in> set (op_rows s) \<Longrightarrow> operation_of s (operation_id r) = Some r"
  by (auto simp: operation_of_op_rows store_ok_defs intro: find_distinct_key)

lemma unique_op: "store_ok s \<Longrightarrow> r \<in> set (op_rows s) \<Longrightarrow> q \<in> set (op_rows s) \<Longrightarrow> operation_id r = operation_id q \<Longrightarrow> r = q"
  unfolding store_ok_def keys_ok_def distinct_map by (blast dest: inj_onD)

lemma accepted_set_set_operation:
  assumes "st \<noteq> ''accepted''"
  shows "accepted_set (set_operation (\<lambda>r. operation_id r = i) st res s) = accepted_set s - {i}"
proof -
  have other: "{r \<in> (\<lambda>r. if operation_id r = i then r\<lparr>status := st, result_json := Some res\<rparr> else r) ` R. status r = a}
      = {r \<in> R. status r = a \<and> operation_id r \<noteq> i}" if "st \<noteq> a" for R a
    using that by (auto split: if_splits)
  have ids: "operation_id ` {r \<in> R. status r = a \<and> operation_id r \<noteq> i} = operation_id ` {r \<in> R. status r = a} - {i}" for R a
    by blast
  show ?thesis
    unfolding accepted_set_def op_rows_set_operation set_map other [OF assms(1)] ids ..
qed

lemma recovered_result_ok:
  assumes ok: "store_ok s" and r: "r \<in> set (op_rows s)"
  shows "\<exists>c. recovered_result r s = (Inr c, s)"
proof -
  from ok r have "op_instance r \<in> ids_of s" by (auto simp: store_ok_defs)
  then obtain x where "instance_of s (op_instance r) = Some x"
    using instance_of_None_iff [of s "op_instance r"] by (cases "instance_of s (op_instance r)") auto
  then show ?thesis
    by (auto simp: recovered_result_def andthen_def get_instance_run active_run_def)
qed

lemma complete_operation_run:
  assumes "store_ok s" and "r \<in> set (op_rows s)"
  shows "complete_operation (operation_id r) res s
    = (Inr (r\<lparr>status := ''completed'', result_json := Some res\<rparr>),
       set_operation (\<lambda>q. operation_id q = operation_id r) ''completed'' res s)"
proof -
  let ?t = "set_operation (\<lambda>q. operation_id q = operation_id r) ''completed'' res s"
  have present: "operation_id r \<in> (operation_id \<circ> fst) ` set (operations s)"
    using assms(2) by (force simp: op_rows_def)
  have t: "store_ok ?t" by (rule store_ok_set_operation [OF assms(1)]) simp
  have "r\<lparr>status := ''completed'', result_json := Some res\<rparr> \<in> set (op_rows ?t)"
    using assms(2) by (force simp: op_rows_set_operation)
  from operation_of_in [OF t this] have "operation_of ?t (operation_id r) = Some (r\<lparr>status := ''completed'', result_json := Some res\<rparr>)"
    by simp
  with present show ?thesis
    by (simp add: complete_operation_def andthen_def get_operation_run)
qed

lemma fail_operation_run:
  assumes ok: "store_ok s" and r: "r \<in> set (op_rows s)" and acc: "status r = ''accepted''"
  shows "fail_operation (operation_id r) reason s
    = (Inr (r\<lparr>status := ''failed'', result_json := Some (json_obj [(''error'', JStr reason)])\<rparr>),
       set_operation (\<lambda>q. operation_id q = operation_id r) ''failed'' (json_obj [(''error'', JStr reason)]) s)"
proof -
  let ?res = "json_obj [(''error'', JStr reason)]"
  let ?t = "set_operation (\<lambda>q. operation_id q = operation_id r) ''failed'' ?res s"
  have same: "set_operation (\<lambda>q. operation_id q = operation_id r \<and> status q = ''accepted'') ''failed'' ?res s = ?t"
  proof -
    have "(operation_id q = operation_id r \<and> status q = ''accepted'') = (operation_id q = operation_id r)"
      if "(q, h, c) \<in> set (operations s)" for q h c
    proof -
      have "q \<in> set (op_rows s)" using that by (force simp: op_rows_def)
      with unique_op [OF ok r, of q] acc show ?thesis by auto
    qed
    then show ?thesis unfolding set_operation_def by (auto intro!: arg_cong [where f = "\<lambda>x. s\<lparr>operations := x\<rparr>"] map_cong)
  qed
  have present: "\<exists>(q, _) \<in> set (operations s). operation_id q = operation_id r \<and> status q = ''accepted''"
    using r acc by (force simp: op_rows_def)
  have t: "store_ok ?t" by (rule store_ok_set_operation [OF ok]) simp
  have "r\<lparr>status := ''failed'', result_json := Some ?res\<rparr> \<in> set (op_rows ?t)"
    using r by (force simp: op_rows_set_operation)
  from operation_of_in [OF t this] have "operation_of ?t (operation_id r) = Some (r\<lparr>status := ''failed'', result_json := Some ?res\<rparr>)"
    by simp
  with present show ?thesis
    by (simp add: fail_operation_def andthen_def get_operation_run same split_def)
qed

lemma reconcile_operation_run:
  assumes ok: "store_ok s" and i: "i \<in> accepted_set s"
  shows "\<exists>r st res. reconcile_operation i s = (Inr r, set_operation (\<lambda>q. operation_id q = i) st res s)
    \<and> operation_id r = i \<and> status r = st \<and> st \<in> {''completed'', ''failed''}"
proof -
  from i obtain r where r: "r \<in> set (op_rows s)" "operation_id r = i" "status r = ''accepted''"
    by (auto simp: accepted_set_def)
  obtain c where c: "recovered_result r s = (Inr c, s)" using recovered_result_ok [OF ok r(1)] by blast
  have "operation_of s i = Some r" using operation_of_in [OF ok r(1)] r(2) by simp
  then have run: "reconcile_operation i s = (case c of Some res \<Rightarrow> complete_operation (operation_id r) res s
      | None \<Rightarrow> fail_operation (operation_id r) ''interrupted_by_recovery'' s)"
    by (simp add: reconcile_operation_def andthen_def get_operation_run c split: option.splits)
  show ?thesis
  proof (cases c)
    case None
    with run fail_operation_run [OF ok r(1,3)] r(2) show ?thesis by auto
  next
    case (Some res)
    with run complete_operation_run [OF ok r(1)] r(2) show ?thesis by auto
  qed
qed

lemma reconcile_operations_run:
  "store_ok s \<Longrightarrow> distinct ids \<Longrightarrow> set ids \<subseteq> accepted_set s \<Longrightarrow>
   \<exists>rs t. map_act reconcile_operation ids s = (Inr rs, t) \<and> store_ok t \<and> accepted_set t = accepted_set s - set ids
     \<and> map operation_id rs = ids \<and> (\<forall>r \<in> set rs. status r \<in> {''completed'', ''failed''})
     \<and> instances t = instances s \<and> runs t = runs s"
proof (induction ids arbitrary: s)
  case (Cons i ids)
  obtain r st res where r: "reconcile_operation i s = (Inr r, set_operation (\<lambda>q. operation_id q = i) st res s)"
    "operation_id r = i" "status r = st" "st \<in> {''completed'', ''failed''}"
    using reconcile_operation_run [OF Cons.prems(1), of i] Cons.prems(3) by auto
  let ?s1 = "set_operation (\<lambda>q. operation_id q = i) st res s"
  have ok1: "store_ok ?s1" by (rule store_ok_set_operation [OF Cons.prems(1)]) (use r(4) in auto)
  have acc1: "accepted_set ?s1 = accepted_set s - {i}"
    by (rule accepted_set_set_operation) (use r(4) in auto)
  have "distinct ids" "set ids \<subseteq> accepted_set ?s1" using Cons.prems acc1 by auto
  from Cons.IH [OF ok1 this] obtain rs t where t: "map_act reconcile_operation ids ?s1 = (Inr rs, t)"
    "store_ok t" "accepted_set t = accepted_set ?s1 - set ids" "map operation_id rs = ids"
    "\<forall>r \<in> set rs. status r \<in> {''completed'', ''failed''}" "instances t = instances ?s1" "runs t = runs ?s1"
    by blast
  then show ?case
    using r acc1 by (auto simp: andthen_def set_operation_def)
qed simp

section \<open>Properties of the tables\<close>

text \<open>
  Every workspace reachable from an empty one by any sequence of operations, process deaths and
  crashes has sound tables: unique keys, no dangling reference between instances, runs, helpers,
  operations, snapshots and images, no identifier both live and pending deletion, and only the statuses
  the code writes.
\<close>

theorem workspace_integrity:
  "store_step\<^sup>*\<^sup>* store_init s \<Longrightarrow> store_ok s"
  by (rule tables.inv_reachable)

definition no_faults :: faults where
  "no_faults = \<lparr>manifest_error = (\<lambda>_. None), remove_fails = (\<lambda>_. False), sync_fails = False,
     write_fails = False, rename_fails = False\<rparr>"

definition one_instance :: store where
  "one_instance = snd (create_instance no_faults ''lab'' ''win'' ''base'' store_init)"

lemma one_instance_row:
  "instance_of one_instance ''lab'' = Some \<lparr>instance_id = ''lab'', image_id = ''win'', profile_id = ''base'', state = Created, revision = 1\<rparr>"
  by code_simp

theorem workspace_integrity_witness:
  "store_ok one_instance \<and> ids_of one_instance = {''lab''}"
proof -
  have "store_step\<^sup>*\<^sup>* store_init one_instance"
    unfolding one_instance_def create_instance_def by (rule r_into_rtranclp) (rule publish)
  moreover have "map instance_id (instances one_instance) = [''lab'']" by code_simp
  then have "ids_of one_instance = {''lab''}" by (simp flip: set_map)
  ultimately show ?thesis using workspace_integrity by simp
qed

text \<open>
  Between two steps an instance that exists either keeps its revision and its state, or its revision
  grows; its image and profile never change. A state change always comes with a larger revision, so a
  reader that compares revisions misses no transition.
\<close>

theorem revision_orders_states:
  assumes "store_step s t" "instance_of s i = Some x" "instance_of t i = Some y"
  shows "revision x \<le> revision y \<and> (state x \<noteq> state y \<longrightarrow> revision x < revision y)
    \<and> image_id x = image_id y \<and> profile_id x = profile_id y"
  using step_row_progress [OF assms(1,2)] assms(3) by (simp add: row_progress_def progress_def)

theorem revision_orders_states_witness:
  "\<exists>y. instance_of (snd (transition_instance ''lab'' ''starting'' one_instance)) ''lab'' = Some y \<and> 1 < revision y"
proof -
  let ?t = "snd (transition_instance ''lab'' ''starting'' one_instance)"
  let ?y = "\<lparr>instance_id = ''lab'', image_id = ''win'', profile_id = ''base'', state = Starting, revision = 2\<rparr>"
  have t: "instance_of ?t ''lab'' = Some ?y" by code_simp
  from revision_orders_states [OF transition one_instance_row t] have "1 < revision ?y" by simp
  with t show ?thesis by blast
qed

text \<open>
  Starting an operation is idempotent. Once \<open>begin_operation\<close> has accepted a key for an instance,
  asking again with the same kind and input returns the same operation and changes nothing, whatever new
  identifier the caller offers; a different kind or a different input hash is refused.
\<close>

theorem begin_operation_idempotent:
  assumes "begin_operation sha oid i k key input s = (Inr r, t)"
  shows "begin_operation sha oid' i k key input t = (Inr r, t)
    \<and> (k' \<noteq> k \<or> hex_digest sha input' \<noteq> hex_digest sha input
        \<longrightarrow> begin_operation sha oid' i k' key input' t = (Inl (OperationConflict key), t))"
proof -
  let ?p = "\<lambda>(r, _). op_instance r = i \<and> idempotency_key r = key"
  from assms obtain x where x: "instance_of s i = Some x"
    by (auto simp: begin_operation_def andthen_def get_instance_run split: option.splits)
  obtain c q where found: "find ?p (operations t) = Some (q, hex_digest sha input, c)" "op_kind q = k"
    "r = q\<lparr>op_instance := i, idempotency_key := key\<rparr>" "instance_of t i = Some x"
  proof (cases "find ?p (operations s)")
    case None
    with assms x that show ?thesis
      by (auto simp: begin_operation_def andthen_def get_instance_run Let_def find_append_list instance_of_def split: if_splits)
  next
    case (Some e)
    with assms x that show ?thesis
      by (cases e) (auto simp: begin_operation_def andthen_def get_instance_run Let_def split: if_splits)
  qed
  from found show ?thesis
    by (auto simp: begin_operation_def andthen_def get_instance_run Let_def)
qed

definition toy_hash :: "string \<Rightarrow> 8 word list" where "toy_hash s = map of_char s"

theorem begin_operation_idempotent_witness:
  "begin_operation toy_hash ''op-b'' ''lab'' ''start'' ''k1'' ''body''
     (snd (begin_operation toy_hash ''op-a'' ''lab'' ''start'' ''k1'' ''body'' one_instance))
   = (begin_operation toy_hash ''op-a'' ''lab'' ''start'' ''k1'' ''body'' one_instance)"
proof -
  obtain t where t: "begin_operation toy_hash ''op-a'' ''lab'' ''start'' ''k1'' ''body'' one_instance
      = (Inr \<lparr>operation_id = ''op-a'', op_instance = ''lab'', op_kind = ''start'', idempotency_key = ''k1'',
              status = ''accepted'', result_json = None\<rparr>, t)"
  proof -
    have "operations one_instance = []" by code_simp
    then show ?thesis
      using that by (simp add: begin_operation_def andthen_def get_instance_run one_instance_row Let_def)
  qed
  show ?thesis using begin_operation_idempotent [OF t] t by simp
qed

text \<open>
  C7: Recovery settles every interrupted operation. On sound tables \<open>reconcile_operations\<close> never fails, it
  visits exactly the accepted operations in creation order, each ends completed or failed, no operation
  is left accepted, instances and runs are untouched, and a second recovery finds nothing to do.
\<close>

theorem reconcile_operations_settles:
  assumes "store_ok s"
  shows "\<exists>rs t. reconcile_operations s = (Inr rs, t) \<and> map operation_id rs = accepted_ids s
    \<and> (\<forall>r \<in> set rs. status r \<in> {''completed'', ''failed''}) \<and> accepted_ids t = []
    \<and> instances t = instances s \<and> runs t = runs s \<and> reconcile_operations t = (Inr [], t)"
proof -
  obtain rs t where t: "map_act reconcile_operation (accepted_ids s) s = (Inr rs, t)" "store_ok t"
    "accepted_set t = accepted_set s - set (accepted_ids s)" "map operation_id rs = accepted_ids s"
    "\<forall>r \<in> set rs. status r \<in> {''completed'', ''failed''}" "instances t = instances s" "runs t = runs s"
    using reconcile_operations_run [OF assms distinct_accepted_ids [OF assms]] set_accepted_ids [of s] by blast
  have none: "accepted_ids t = []"
    using set_accepted_ids [of t] set_accepted_ids [of s] t(3) by simp
  then have "reconcile_operations t = (Inr [], t)"
    by (simp add: reconcile_operations_def andthen_def)
  with t none show ?thesis
    by (intro exI [of _ rs] exI [of _ t]) (simp add: reconcile_operations_def andthen_def)
qed

theorem reconcile_operations_settles_witness:
  "\<exists>rs t. reconcile_operations (snd (begin_operation toy_hash ''op-a'' ''lab'' ''start'' ''k1'' ''body'' one_instance)) = (Inr rs, t)
    \<and> map operation_id rs = [''op-a''] \<and> accepted_ids t = []"
proof -
  let ?s = "snd (begin_operation toy_hash ''op-a'' ''lab'' ''start'' ''k1'' ''body'' one_instance)"
  have "store_step\<^sup>*\<^sup>* store_init one_instance"
    unfolding one_instance_def create_instance_def by (rule r_into_rtranclp) (rule publish)
  then have "store_step\<^sup>*\<^sup>* store_init ?s" by (rule rtranclp.rtrancl_into_rtrancl) (rule begin_op)
  then have "store_ok ?s" by (rule tables.inv_reachable)
  moreover have "accepted_ids ?s = [''op-a'']" by code_simp
  ultimately show ?thesis using reconcile_operations_settles [of ?s] by metis
qed

end
