(* ===== verification/RunProperties.thy ===== *)
theory RunProperties
  imports StoreProperties
begin

text \<open>
  What the run table promises: a run is reported live only when its process is, an observation of QEMU
  counts only for the live active run, and recovery after a crash leaves no instance claiming to run
  without a process.
\<close>

section \<open>Looking up runs\<close>

lemma run_of_run_rows: "run_of s i = find (\<lambda>r. run_id r = i) (run_rows s)"
  by (simp add: run_of_def run_rows_def find_map_list split_def comp_def)

lemma run_of_in: "store_ok s \<Longrightarrow> r \<in> set (run_rows s) \<Longrightarrow> run_of s (run_id r) = Some r"
  unfolding run_of_run_rows by (rule find_distinct_key) (simp_all add: store_ok_defs)

lemma latest_in: "latest xs = Some q \<Longrightarrow> q \<in> set xs"
  by (induction xs arbitrary: q) (auto split: option.splits if_splits)

lemma latest_None_iff: "latest xs = None \<longleftrightarrow> xs = []"
  by (cases xs) (auto split: option.splits)

lemma active_run_of_in:
  "active_run_of s i = Some r \<Longrightarrow> r \<in> set (run_rows s) \<and> run_instance r = i \<and> active_status (run_status r)"
  unfolding active_run_of_def active_runs_def run_rows_def by (force dest: latest_in)

definition observed_status :: "store \<Rightarrow> run_row \<Rightarrow> string" where
  "observed_status s r = (if process_alive s r then ''running'' else ''uncertain'')"

lemma process_alive_set_run_status [simp]: "process_alive (set_run_status i st s) r = process_alive s r"
  by (simp add: process_alive_def set_run_status_def)

lemma process_alive_upd [simp]: "process_alive s (r\<lparr>run_status := st\<rparr>) = process_alive s r"
  by (simp add: process_alive_def)

lemma reconcile_run_run:
  assumes "store_ok s" "r \<in> set (run_rows s)"
  shows "reconcile_run (run_id r) s
    = (Inr (r\<lparr>run_status := observed_status s r\<rparr>), set_run_status (run_id r) (observed_status s r) s)"
proof -
  let ?st = "observed_status s r"
  let ?t = "set_run_status (run_id r) ?st s"
  have ok: "store_ok ?t"
    by (rule store_ok_set_run_status [OF assms(1)]) (simp add: observed_status_def)
  have "r\<lparr>run_status := ?st\<rparr> \<in> set (run_rows ?t)"
    using assms(2) by (force simp: run_rows_set_run_status)
  from run_of_in [OF ok this] have "run_of ?t (run_id r) = Some (r\<lparr>run_status := ?st\<rparr>)" by simp
  with run_of_in [OF assms] show ?thesis
    by (simp add: reconcile_run_def andthen_def get_run_run observed_status_def)
qed

section \<open>Live runs\<close>

text \<open>
  \<open>live_run\<close> reports a run exactly when the latest active run of the instance belongs to a living
  process. It never fails on sound tables; the run it returns is that run, marked running; and an active
  run whose process is gone is marked uncertain and not reported.
\<close>

theorem live_run_iff_alive:
  assumes "store_ok s"
  shows "live_run i s = (case active_run_of s i of
      None \<Rightarrow> (Inr None, s)
    | Some r \<Rightarrow> if process_alive s r
        then (Inr (Some (r\<lparr>run_status := ''running''\<rparr>)), set_run_status (run_id r) ''running'' s)
        else (Inr None, set_run_status (run_id r) ''uncertain'' s))"
proof (cases "active_run_of s i")
  case (Some r)
  with reconcile_run_run [OF assms, of r] active_run_of_in [OF Some] show ?thesis
    by (simp add: live_run_def andthen_def active_run_def observed_status_def)
qed (simp add: live_run_def andthen_def active_run_def)

definition lab_run :: run_row where
  "lab_run = \<lparr>run_id = ''run-1'', run_instance = ''lab'', pid = 42, process_start = 7,
     qmp_socket = ''/run/q.sock'', run_status = ''running''\<rparr>"

definition live_lab :: store where
  "live_lab = snd (record_run ''run-1'' ''lab'' 42 7 ''/run/q.sock'' (one_instance\<lparr>alive := (\<lambda>p st. p = 42 \<and> st = 7)\<rparr>))"

definition dead_lab :: store where
  "dead_lab = snd (transition_instance ''lab'' ''starting'' live_lab)\<lparr>alive := (\<lambda>_ _. False)\<rparr>"

lemma one_instance_ok: "store_ok one_instance"
  unfolding one_instance_def create_instance_def
  by (rule keepsD [OF sound_publish store_ok_init surjective_pairing])

lemma store_ok_alive: "store_ok s \<Longrightarrow> store_ok (s\<lparr>alive := a\<rparr>)"
  by (simp add: store_ok_defs run_rows_def op_rows_def)

lemma live_lab_ok: "store_ok live_lab"
  unfolding live_lab_def
  by (rule keepsD [OF sound_record_run store_ok_alive [OF one_instance_ok] surjective_pairing])

lemma dead_lab_ok: "store_ok dead_lab"
  unfolding dead_lab_def
  by (intro store_ok_alive keepsD [OF sound_transition_instance live_lab_ok surjective_pairing])

lemma lab_active: "active_run_of live_lab ''lab'' = Some lab_run" "active_run_of dead_lab ''lab'' = Some lab_run"
  "process_alive live_lab lab_run" "\<not> process_alive dead_lab lab_run"
  by code_simp+

theorem live_run_iff_alive_witness:
  "fst (live_run ''lab'' live_lab) = Inr (Some lab_run) \<and> fst (live_run ''lab'' dead_lab) = Inr None"
  using live_run_iff_alive [OF live_lab_ok, of "''lab''"] live_run_iff_alive [OF dead_lab_ok, of "''lab''"] lab_active
  by (simp add: lab_run_def)

text \<open>
  A status that QEMU reports changes the instance only through its live active run. When
  \<open>observe_run_status\<close> succeeds, the process of the run is alive, the active run of the instance has the
  same identifier, process and start time, and the instance is in the reported state, with its revision
  one larger exactly when the state changed. Otherwise it is an error and nothing changes.
\<close>

theorem observe_needs_live_run:
  assumes "observe_run_status r st s = (res, t)" "store_ok s"
  shows "case res of
      Inr y \<Rightarrow> process_alive s r
        \<and> (\<exists>a. active_run_of s (run_instance r) = Some a \<and> run_id a = run_id r \<and> pid a = pid r \<and> process_start a = process_start r)
        \<and> (\<exists>x. instance_of s (run_instance r) = Some x \<and> from_qmp st = Inr (state y)
             \<and> revision y = revision x + (if state x = state y then 0 else 1) \<and> instance_of t (run_instance r) = Some y)
    | Inl _ \<Rightarrow> t = s"
proof (cases "from_qmp st")
  case (Inl e)
  with assms(1) show ?thesis by (auto simp: observe_run_status_def andthen_def)
next
  case (Inr target)
  let ?i = "run_instance r"
  let ?stale = "\<not> process_alive s r \<or> \<not> (case active_run_of s ?i of None \<Rightarrow> False
     | Some a \<Rightarrow> run_id a = run_id r \<and> pid a = pid r \<and> process_start a = process_start r)"
  show ?thesis
  proof (cases ?stale)
    case True
    with assms(1) Inr show ?thesis by (auto simp: observe_run_status_def andthen_def)
  next
    case False
    then obtain a where a: "active_run_of s ?i = Some a" "run_id a = run_id r" "pid a = pid r" "process_start a = process_start r"
      by (auto split: option.splits)
    let ?f = "\<lambda>x. if instance_id x = ?i \<and> state x \<noteq> target then x\<lparr>state := target, revision := revision x + 1\<rparr> else x"
    have "run_instance ` set (run_rows s) \<subseteq> ids_of s"
      using assms(2) by (simp add: store_ok_defs)
    with active_run_of_in [OF a(1)] have "run_instance r \<in> ids_of s" by (metis image_subset_iff)
    then obtain x where x: "instance_of s ?i = Some x"
      using instance_of_None_iff [of s ?i] by auto
    have up: "instance_of (upd_instances ?f s) ?i = Some (?f x)"
      using x by (subst instance_of_upd_instances) auto
    have run: "observe_run_status r st s = (Inr (?f x), upd_instances ?f s)"
      using Inr False up by (simp add: observe_run_status_def andthen_def observe_upd get_instance_run)
    have "state (?f x) = target" "revision (?f x) = revision x + (if state x = target then 0 else 1)"
      using instance_of_Some [OF x] by auto
    with run assms(1) x up a Inr False show ?thesis by auto
  qed
qed

theorem observe_needs_live_run_witness:
  "(case observe_run_status lab_run ''running'' live_lab of (Inr y, _) \<Rightarrow> state y = Running \<and> revision y = 2 | _ \<Rightarrow> False)
   \<and> snd (observe_run_status lab_run ''running'' dead_lab) = dead_lab"
proof -
  have live: "fst (observe_run_status lab_run ''running'' live_lab) = Inr (\<lparr>instance_id = ''lab'', image_id = ''win'',
      profile_id = ''base'', state = Running, revision = 2\<rparr>)" by code_simp
  have dead: "is_ok (fst (observe_run_status lab_run ''running'' dead_lab)) = False" by code_simp
  then obtain e where e: "observe_run_status lab_run ''running'' dead_lab = (Inl e, snd (observe_run_status lab_run ''running'' dead_lab))"
    by (cases "observe_run_status lab_run ''running'' dead_lab"; cases "fst (observe_run_status lab_run ''running'' dead_lab)") auto
  from observe_needs_live_run [OF e dead_lab_ok] have "snd (observe_run_status lab_run ''running'' dead_lab) = dead_lab" by simp
  with live show ?thesis by (auto split: prod.splits)
qed

section \<open>Recovery of runs\<close>

abbreviation inactive :: "instance_state \<Rightarrow> bool" where
  "inactive st \<equiv> st \<notin> {Starting, Running, Paused, Stopping}"

definition set_statuses :: "id list \<Rightarrow> store \<Rightarrow> store" where
  "set_statuses ids s = foldl (\<lambda>t i. set_run_status i
     (case run_of s i of None \<Rightarrow> '''' | Some r \<Rightarrow> observed_status s r) t) s ids"

lemma reconcile_runs_loop:
  "store_ok s \<Longrightarrow> distinct ids \<Longrightarrow> set ids \<subseteq> run_id ` set (run_rows s) \<Longrightarrow>
   \<exists>rs t. map_act reconcile_run ids s = (Inr rs, t) \<and> store_ok t \<and> instances t = instances s \<and> alive t = alive s
     \<and> set rs = (\<lambda>r. r\<lparr>run_status := observed_status s r\<rparr>) ` {r \<in> set (run_rows s). run_id r \<in> set ids}
     \<and> run_rows t = map (\<lambda>r. if run_id r \<in> set ids then r\<lparr>run_status := observed_status s r\<rparr> else r) (run_rows s)"
proof (induction ids arbitrary: s)
  case (Cons i ids)
  obtain r where r: "r \<in> set (run_rows s)" "run_id r = i" using Cons.prems(3) by auto
  let ?u = "set_run_status i (observed_status s r) s"
  have step: "reconcile_run i s = (Inr (r\<lparr>run_status := observed_status s r\<rparr>), ?u)"
    using reconcile_run_run [OF Cons.prems(1) r(1)] r(2) by simp
  have ok: "store_ok ?u"
    by (rule store_ok_set_run_status [OF Cons.prems(1)]) (simp add: observed_status_def)
  have same: "instances ?u = instances s" "alive ?u = alive s" by (simp_all add: set_run_status_def)
  have obs: "observed_status ?u q = observed_status s q" for q by (simp add: observed_status_def)
  have only: "q = r" if "q \<in> set (run_rows s)" "run_id q = i" for q
    using run_of_in [OF Cons.prems(1) that(1)] run_of_in [OF Cons.prems(1) r(1)] that(2) r(2) by (metis option.inject)
  have rows: "run_rows ?u = map (\<lambda>q. if run_id q = i then q\<lparr>run_status := observed_status s q\<rparr> else q) (run_rows s)"
    unfolding run_rows_set_run_status by (rule map_cong) (use only in auto)
  have "run_id ` set (run_rows ?u) = run_id ` set (run_rows s)"
    unfolding rows set_map by (rule image_map_same) simp
  with Cons.prems have "distinct ids" "set ids \<subseteq> run_id ` set (run_rows ?u)" by auto
  from Cons.IH [OF ok this] obtain rs t where t: "map_act reconcile_run ids ?u = (Inr rs, t)" "store_ok t"
    "instances t = instances ?u" "alive t = alive ?u" "set rs = (\<lambda>r. r\<lparr>run_status := observed_status ?u r\<rparr>) ` {r \<in> set (run_rows ?u). run_id r \<in> set ids}"
    "run_rows t = map (\<lambda>r. if run_id r \<in> set ids then r\<lparr>run_status := observed_status ?u r\<rparr> else r) (run_rows ?u)"
    by blast
  have "run_rows t = map (\<lambda>r. if run_id r \<in> set (i # ids) then r\<lparr>run_status := observed_status s r\<rparr> else r) (run_rows s)"
    unfolding t(6) rows obs using Cons.prems(2) by (auto simp: observed_status_def)
  moreover have "{q \<in> set (run_rows ?u). run_id q \<in> set ids} = {q \<in> set (run_rows s). run_id q \<in> set ids}"
    unfolding rows using Cons.prems(2) by (auto split: if_splits)
  then have "set (r\<lparr>run_status := observed_status s r\<rparr> # rs)
      = (\<lambda>r. r\<lparr>run_status := observed_status s r\<rparr>) ` {r \<in> set (run_rows s). run_id r \<in> set (i # ids)}"
  proof -
    have "{q \<in> set (run_rows s). run_id q \<in> set (i # ids)} = insert r {q \<in> set (run_rows s). run_id q \<in> set ids}"
      using only r unfolding list.set by blast
    moreover assume "{q \<in> set (run_rows ?u). run_id q \<in> set ids} = {q \<in> set (run_rows s). run_id q \<in> set ids}"
    ultimately show ?thesis using t(5) unfolding obs by (simp only: list.set image_insert)
  qed
  ultimately show ?case
    using step t(1-4) same by (intro exI [of _ "r\<lparr>run_status := observed_status s r\<rparr> # rs"] exI [of _ t]) (simp add: andthen_def)
qed simp

text \<open>Marking the instances of uncertain runs: an active state becomes \<open>Error\<close>, the others stay.\<close>

definition demote :: "id set \<Rightarrow> instance_row \<Rightarrow> instance_row" where
  "demote A x = (if instance_id x \<in> A \<and> \<not> inactive (state x) then x\<lparr>state := Error, revision := revision x + 1\<rparr> else x)"

lemma instance_id_demote [simp]: "instance_id (demote A x) = instance_id x"
  by (simp add: demote_def)

lemma demote_inactive: "instance_id x \<in> A \<Longrightarrow> inactive (state (demote A x))"
  by (auto simp: demote_def)

lemma demote_other: "instance_id x \<notin> A \<Longrightarrow> demote A x = x"
  by (simp add: demote_def)

lemma demote_demote: "demote A (demote B x) = demote (A \<union> B) x"
  by (auto simp: demote_def)

lemma error_if_active_run:
  assumes "store_ok s" "i \<in> ids_of s"
  shows "error_if_active i s = (Inr (), upd_instances (demote {i}) s)"
proof -
  obtain x where x: "instance_of s i = Some x"
    using assms(2) instance_of_None_iff [of s i] by (cases "instance_of s i") auto
  have only: "y = x" if "y \<in> set (instances s)" "instance_id y = i" for y
  proof -
    have "instance_of s (instance_id y) = Some y"
      unfolding instance_of_def by (rule find_distinct_key) (use assms(1) that(1) in \<open>simp_all add: store_ok_defs\<close>)
    with x that(2) show ?thesis by simp
  qed
  show ?thesis
  proof (cases "inactive (state x)")
    case True
    have "map (demote {i}) (instances s) = instances s"
      by (rule map_idI) (use only True in \<open>auto simp: demote_def\<close>)
    then have "upd_instances (demote {i}) s = s" by (simp add: upd_instances_def)
    with True x show ?thesis by (auto simp: error_if_active_def andthen_def get_instance_run)
  next
    case False
    then have allowed: "allows (state x) Error" by (auto simp: allows_def)
    have eq: "set_lifecycle i Error s = upd_instances (demote {i}) s"
      unfolding set_lifecycle_upd upd_instances_def
      by (rule arg_cong [where f = "\<lambda>is. s\<lparr>instances := is\<rparr>"], rule map_cong) (use only False in \<open>auto simp: demote_def\<close>)
    have after: "instance_of (upd_instances (demote {i}) s) i = Some (demote {i} x)"
      using x by (subst instance_of_upd_instances) auto
    have "state_from_str ''error'' = Inr Error" using state_from_as_str [of Error] by simp
    with False x allowed eq after show ?thesis
      by (auto simp: error_if_active_def transition_instance_def andthen_def get_instance_run)
  qed
qed

lemma demote_loop:
  "store_ok s \<Longrightarrow> run_instance ` set rs \<subseteq> ids_of s \<Longrightarrow>
   \<exists>us. map_act (\<lambda>r. if run_status r = ''uncertain'' then error_if_active (run_instance r) else ret ()) rs s
     = (Inr us, upd_instances (demote (run_instance ` {r \<in> set rs. run_status r = ''uncertain''})) s)"
proof (induction rs arbitrary: s)
  case Nil
  have "demote {} = id" by (simp add: fun_eq_iff demote_def)
  then show ?case by (simp add: upd_instances_def)
next
  case (Cons r rs)
  let ?U = "\<lambda>rs. run_instance ` {r \<in> set rs. run_status r = ''uncertain''}"
  show ?case
  proof (cases "run_status r = ''uncertain''")
    case True
    let ?u = "upd_instances (demote {run_instance r}) s"
    have step: "error_if_active (run_instance r) s = (Inr (), ?u)"
      using Cons.prems by (intro error_if_active_run) auto
    have ids: "ids_of ?u = ids_of s" by (simp add: upd_instances_def image_image)
    have ok: "store_ok ?u" by (rule store_ok_upd_instances [OF Cons.prems(1)]) (auto simp: demote_def)
    obtain us where us: "map_act (\<lambda>r. if run_status r = ''uncertain'' then error_if_active (run_instance r) else ret ()) rs ?u
        = (Inr us, upd_instances (demote (?U rs)) ?u)"
      using Cons.IH [OF ok] Cons.prems(2) ids by auto
    have "?U (r # rs) = ?U rs \<union> {run_instance r}" using True by auto
    then have "upd_instances (demote (?U rs)) ?u = upd_instances (demote (?U (r # rs))) s"
      by (simp add: upd_instances_def comp_def demote_demote)
    with step us True show ?thesis by (simp add: andthen_def)
  next
    case False
    then have "?U (r # rs) = ?U rs" by auto
    moreover have "store_ok s" "run_instance ` set rs \<subseteq> ids_of s" using Cons.prems by auto
    then obtain us where "map_act (\<lambda>r. if run_status r = ''uncertain'' then error_if_active (run_instance r) else ret ()) rs s
        = (Inr us, upd_instances (demote (?U rs)) s)"
      using Cons.IH by blast
    ultimately show ?thesis using False by (simp add: andthen_def)
  qed
qed

text \<open>
  C6: After a crash, recovery restores the agreement of the tables with the processes. On sound tables
  \<open>reconcile_active_runs\<close> never fails; afterwards a run is recorded as running only if its process is
  alive, every instance with a run that lost its process has left the active states, and an instance
  without such a run keeps its row.
\<close>

theorem recovery_matches_processes:
  assumes "store_ok s"
  shows "\<exists>rs t. reconcile_active_runs s = (Inr rs, t)
    \<and> (\<forall>r \<in> set (run_rows t). run_status r = ''running'' \<longrightarrow> process_alive s r)
    \<and> (\<forall>r \<in> set (run_rows s). active_status (run_status r) \<and> \<not> process_alive s r \<longrightarrow>
         (\<forall>x. instance_of t (run_instance r) = Some x \<longrightarrow> inactive (state x)))
    \<and> (\<forall>i. (\<forall>r \<in> set (run_rows s). active_status (run_status r) \<and> run_instance r = i \<longrightarrow> process_alive s r) \<longrightarrow>
         instance_of t i = instance_of s i)"
proof -
  let ?ids = "map (run_id \<circ> fst) (filter (\<lambda>(r, _). active_status (run_status r)) (runs s))"
  have ids_rows: "?ids = map run_id (filter (\<lambda>r. active_status (run_status r)) (run_rows s))"
    by (simp add: run_rows_def filter_map comp_def split_def)
  have "distinct ?ids"
    unfolding ids_rows by (rule distinct_map_filter) (use assms in \<open>simp add: store_ok_defs\<close>)
  moreover have "set ?ids \<subseteq> run_id ` set (run_rows s)" unfolding ids_rows by auto
  ultimately obtain rs u where u: "map_act reconcile_run ?ids s = (Inr rs, u)" "store_ok u" "instances u = instances s"
    "set rs = (\<lambda>r. r\<lparr>run_status := observed_status s r\<rparr>) ` {r \<in> set (run_rows s). run_id r \<in> set ?ids}"
    "run_rows u = map (\<lambda>r. if run_id r \<in> set ?ids then r\<lparr>run_status := observed_status s r\<rparr> else r) (run_rows s)"
    using reconcile_runs_loop [OF assms] by blast
  have active: "run_id r \<in> set ?ids \<longleftrightarrow> active_status (run_status r)" if "r \<in> set (run_rows s)" for r
  proof -
    have same: "q = r" if "q \<in> set (run_rows s)" "run_id q = run_id r" for q
    proof -
      have "run_of s (run_id q) = Some q" "run_of s (run_id r) = Some r"
        by (rule run_of_in [OF assms], fact)+
      then show ?thesis unfolding that(2) by (metis option.inject)
    qed
    have "set ?ids = run_id ` {q \<in> set (run_rows s). active_status (run_status q)}"
      unfolding ids_rows by simp
    moreover have "run_id r \<in> run_id ` {q \<in> set (run_rows s). active_status (run_status q)} \<longleftrightarrow> active_status (run_status r)"
    proof
      assume "run_id r \<in> run_id ` {q \<in> set (run_rows s). active_status (run_status q)}"
      then obtain q where "q \<in> set (run_rows s)" "active_status (run_status q)" "run_id q = run_id r" by force
      with same [of q] show "active_status (run_status r)" by simp
    qed (use that in blast)
    ultimately show ?thesis by (rule ssubst)
  qed
  let ?dead = "run_instance ` {r \<in> set rs. run_status r = ''uncertain''}"
  let ?t = "upd_instances (demote ?dead) u"
  obtain us where us: "map_act (\<lambda>r. if run_status r = ''uncertain'' then error_if_active (run_instance r) else ret ()) rs u = (Inr us, ?t)"
  proof -
    have "run_instance ` set (run_rows s) \<subseteq> ids_of s" using assms by (simp add: store_ok_defs)
    then have "run_instance ` set rs \<subseteq> ids_of u" unfolding u(3,4) by auto
    from demote_loop [OF u(2) this] that show thesis by blast
  qed
  have run: "reconcile_active_runs s = (Inr rs, ?t)"
    using u(1) us by (simp add: reconcile_active_runs_def andthen_def)
  have dead: "?dead = run_instance ` {r \<in> set (run_rows s). active_status (run_status r) \<and> \<not> process_alive s r}"
  proof -
    have "{r \<in> set (run_rows s). run_id r \<in> set ?ids} = {r \<in> set (run_rows s). active_status (run_status r)}"
      using active by (intro Collect_cong conj_cong refl)
    then have rs: "set rs = (\<lambda>r. r\<lparr>run_status := observed_status s r\<rparr>) ` {r \<in> set (run_rows s). active_status (run_status r)}"
      using u(4) by (simp only:)
    have "{r \<in> (\<lambda>r. r\<lparr>run_status := observed_status s r\<rparr>) ` A. run_status r = ''uncertain''}
        = (\<lambda>r. r\<lparr>run_status := observed_status s r\<rparr>) ` {r \<in> A. \<not> process_alive s r}" for A
      by (auto simp: observed_status_def)
    then show ?thesis unfolding rs by (simp add: image_image)
  qed
  have rows: "instance_of ?t i = map_option (demote ?dead) (instance_of s i)" for i
    using instance_of_upd_instances [of "demote ?dead" u i] u(3) by (simp add: instance_of_def)
  have "\<forall>r \<in> set (run_rows ?t). run_status r = ''running'' \<longrightarrow> process_alive s r"
  proof -
    let ?g = "\<lambda>r. if active_status (run_status r) then r\<lparr>run_status := observed_status s r\<rparr> else r"
    have "run_rows ?t = run_rows u" by (simp add: upd_instances_def run_rows_def)
    moreover have "run_rows u = map ?g (run_rows s)"
      unfolding u(5) by (rule map_cong [OF refl]) (simp only: active)
    moreover have "process_alive s (?g q)" if "run_status (?g q) = ''running''" for q
      using that by (simp add: observed_status_def active_status_def split: if_splits)
    ultimately show ?thesis by (simp only: set_map) blast
  qed
  moreover have "inactive (state x)" if "i \<in> ?dead" "instance_of ?t i = Some x" for i x
  proof -
    from that(2) obtain y where y: "instance_of s i = Some y" "x = demote ?dead y"
      unfolding rows by (cases "instance_of s i") auto
    then have "instance_id y \<in> ?dead" using that(1) instance_of_Some [OF y(1)] by metis
    from demote_inactive [OF this] show ?thesis unfolding y(2) .
  qed
  moreover have "instance_of ?t i = instance_of s i" if "i \<notin> ?dead" for i
  proof (cases "instance_of s i")
    case (Some y)
    then have "instance_id y \<notin> ?dead" using that instance_of_Some [OF Some] by metis
    from demote_other [OF this] show ?thesis unfolding rows Some option.map by (rule arg_cong)
  qed (simp add: rows)
  moreover have "run_instance r \<in> ?dead"
    if "r \<in> set (run_rows s)" "active_status (run_status r) \<and> \<not> process_alive s r" for r
    unfolding dead using that by blast
  moreover have "i \<notin> ?dead"
    if "\<forall>r \<in> set (run_rows s). active_status (run_status r) \<and> run_instance r = i \<longrightarrow> process_alive s r" for i
    unfolding dead using that by blast
  ultimately show ?thesis
    by (intro exI [of _ rs] exI [of _ ?t] conjI run) meson+
qed

theorem recovery_matches_processes_witness:
  "\<exists>rs t x. reconcile_active_runs dead_lab = (Inr rs, t) \<and> instance_of t ''lab'' = Some x \<and> inactive (state x)"
proof -
  have x: "\<exists>x. instance_of (snd (reconcile_active_runs dead_lab)) ''lab'' = Some x"
  proof -
    have "instance_of (snd (reconcile_active_runs dead_lab)) ''lab'' = Some \<lparr>instance_id = ''lab'', image_id = ''win'',
      profile_id = ''base'', state = Error, revision = 3\<rparr>" by code_simp
    then show ?thesis by blast
  qed
  from recovery_matches_processes [OF dead_lab_ok] obtain rs t where t: "reconcile_active_runs dead_lab = (Inr rs, t)"
    "\<forall>r \<in> set (run_rows dead_lab). active_status (run_status r) \<and> \<not> process_alive dead_lab r \<longrightarrow>
       (\<forall>x. instance_of t (run_instance r) = Some x \<longrightarrow> inactive (state x))" by blast
  have "lab_run \<in> set (run_rows dead_lab)" "run_instance lab_run = ''lab''" "active_status (run_status lab_run)"
    by code_simp+
  with t x lab_active(4) show ?thesis by auto
qed

end
