(* ===== verification/InstanceProperties.thy ===== *)
theory InstanceProperties
  imports RunProperties
begin

text \<open>
  What removal and publication of an instance promise, on every outcome: the tables and the directory
  tree below \<open>instances/\<close> after a success, and what a failure leaves behind. The proofs use the calculus of
  StoreInvariant with the starting state fixed in the assertions.
\<close>

section \<open>Other instances\<close>

definition others_kept :: "id \<Rightarrow> store \<Rightarrow> store \<Rightarrow> bool" where
  "others_kept i s t \<longleftrightarrow> ordered (dirs t)
     \<and> (\<forall>j. j \<noteq> i \<longrightarrow> instance_of t j = instance_of s j \<and> oget (dirs t) j = oget (dirs s) j)"


lemma others_set_lifecycle: "others_kept i s t \<Longrightarrow> others_kept i s (set_lifecycle i st t)"
proof -
  have "instance_of (set_lifecycle i st t) j = instance_of t j" if "j \<noteq> i" for j
  proof -
    have "instance_of (set_lifecycle i st t) j = map_option (\<lambda>r. if instance_id r = i
        then r\<lparr>state := st, revision := revision r + 1\<rparr> else r) (instance_of t j)"
      unfolding set_lifecycle_upd by (rule instance_of_upd_instances) simp
    with that show ?thesis by (cases "instance_of t j") (auto dest: instance_of_Some)
  qed
  then show "others_kept i s t \<Longrightarrow> others_kept i s (set_lifecycle i st t)"
    by (simp add: others_kept_def) (simp add: set_lifecycle_def)
qed

lemma others_set_run_status: "others_kept i s t \<Longrightarrow> others_kept i s (set_run_status rid st t)"
  by (simp add: others_kept_def instance_of_def set_run_status_def)


lemma others_finish_deletion [keeps_intros]: "keeps (others_kept i s) (finish_instance_deletion fs i)"
  by (auto simp: keeps_def finish_instance_deletion_def Let_def others_kept_def instance_of_def oget_odel ordered_odel)

lemma others_runs [keeps_intros]:
  "keeps (others_kept i s) (reconcile_run rid)" "keeps (others_kept i s) (finish_run rid st)"
  unfolding reconcile_run_def finish_run_def by (intro keeps_intros keeps_modify others_set_run_status, assumption)+

lemma others_close_dead_run [keeps_intros]: "keeps (others_kept i s) (close_dead_run i x)"
  unfolding close_dead_run_def force_stopped_def
  by (intro keeps_intros keeps_modify others_set_lifecycle)


section \<open>Removal\<close>






lemma finish_deletion_absent: "i \<notin> set (pending_deletions s) \<Longrightarrow> finish_instance_deletion fs i s = (Inr False, s)"
  by (simp add: finish_instance_deletion_def)











lemma one_instance_dirs: "ordered (dirs one_instance)"
  by code_simp


text \<open>
  A live instance is never removed. When the latest active run of the instance belongs to a process
  that is still alive, the request is refused with \<open>ActiveRun\<close> and the only change is that the run is
  recorded as running.
\<close>

theorem remove_refuses_live_run:
  assumes "store_ok s" "instance_of s i = Some x" "active_run_of s i = Some r" "process_alive s r"
  shows "remove_instance fs i s = (Inl (ActiveRun i), set_run_status (run_id r) ''running'' s)"
proof -
  have pend: "i \<notin> set (pending_deletions s)"
    using assms(1,2) instance_of_None_iff [of s i] by (auto simp: store_ok_defs)
  from reconcile_run_run [OF assms(1), of r] active_run_of_in [OF assms(3)] assms(4)
  have "reconcile_run (run_id r) s = (Inr (r\<lparr>run_status := ''running''\<rparr>), set_run_status (run_id r) ''running'' s)"
    by (simp add: observed_status_def)
  with assms(2,3) pend show ?thesis
    by (simp add: remove_instance_def close_dead_run_def andthen_def finish_deletion_absent get_instance_run active_run_def)
qed

theorem remove_refuses_live_run_witness:
  "fst (remove_instance no_faults ''lab'' live_lab) = Inl (ActiveRun ''lab'')"
proof -
  have row: "instance_of live_lab ''lab'' = instance_of one_instance ''lab''" by code_simp
  show ?thesis
    using remove_refuses_live_run [OF live_lab_ok row [unfolded one_instance_row] lab_active(1,3), of no_faults] by simp
qed

text \<open>
  C8: Opening a workspace finishes what a crash interrupted. When the file system works, every committed
  deletion is completed: its directory is gone and its identifier is free again, all other directories
  stay, and no instance row is touched.
\<close>

theorem reopen_finishes_deletions:
  assumes "store_ok s" "ordered (dirs s)" "\<forall>i \<in> set (pending_deletions s). id_valid i"
    "\<not> sync_fails fs" "\<forall>i \<in> set (pending_deletions s). \<not> remove_fails fs i"
  shows "\<exists>t. reconcile_instance_deletions fs s = (Inr (), t) \<and> pending_deletions t = []
    \<and> (\<forall>i. oget (dirs t) i = (if i \<in> set (pending_deletions s) then None else oget (dirs s) i))
    \<and> instances t = instances s"
proof -
  let ?f = "\<lambda>i. andthen (lift (id_new ''instance'' i)) (finish_instance_deletion fs)"
  have loop: "ordered (dirs u) \<Longrightarrow> distinct ids \<Longrightarrow> set ids \<subseteq> set (pending_deletions u) \<Longrightarrow>
     \<forall>i \<in> set ids. id_valid i \<and> \<not> remove_fails fs i \<Longrightarrow>
     \<exists>t bs. map_act ?f ids u = (Inr bs, t) \<and> pending_deletions t = filter (\<lambda>x. x \<notin> set ids) (pending_deletions u)
       \<and> (\<forall>i. oget (dirs t) i = (if i \<in> set ids then None else oget (dirs u) i)) \<and> instances t = instances u" for ids u
  proof (induction ids arbitrary: u)
    case (Cons i ids)
    let ?u = "u\<lparr>dirs := odel i (dirs u), pending_deletions := filter (\<lambda>x. x \<noteq> i) (pending_deletions u)\<rparr>"
    have step: "?f i u = (Inr True, ?u)"
      using Cons.prems assms(4) by (simp add: andthen_def finish_instance_deletion_def id_new_def Let_def)
    have "ordered (dirs ?u)" "distinct ids" "set ids \<subseteq> set (pending_deletions ?u)"
      using Cons.prems by (auto simp: ordered_odel)
    moreover have "\<forall>i \<in> set ids. id_valid i \<and> \<not> remove_fails fs i" using Cons.prems(4) by simp
    ultimately obtain t bs where "map_act ?f ids ?u = (Inr bs, t)"
      "pending_deletions t = filter (\<lambda>x. x \<notin> set ids) (pending_deletions ?u)"
      "\<forall>i. oget (dirs t) i = (if i \<in> set ids then None else oget (dirs ?u) i)" "instances t = instances ?u"
      using Cons.IH [of ?u] by blast
    with Cons.prems(1) show ?case unfolding map_act.simps
      by (intro exI [of _ t] exI [of _ "True # bs"]) (simp add: oget_odel andthen_ok [where m = "?f i", OF step])
  qed simp
  have "distinct (pending_deletions s)" using assms(1) by (simp add: store_ok_defs)
  with loop [of s "pending_deletions s"] assms obtain t bs where "map_act ?f (pending_deletions s) s = (Inr bs, t)"
    "pending_deletions t = []" "\<forall>i. oget (dirs t) i = (if i \<in> set (pending_deletions s) then None else oget (dirs s) i)"
    "instances t = instances s" by auto
  then show ?thesis
    by (simp add: reconcile_instance_deletions_def)
qed

definition sync_fault :: faults where "sync_fault = no_faults\<lparr>sync_fails := True\<rparr>"

definition interrupted :: store where
  "interrupted = snd (remove_instance sync_fault ''lab'' one_instance)"

theorem reopen_finishes_deletions_witness:
  "pending_deletions interrupted = [''lab'']
   \<and> (\<exists>t. reconcile_instance_deletions no_faults interrupted = (Inr (), t) \<and> pending_deletions t = [])"
proof -
  have p: "pending_deletions interrupted = [''lab'']" by code_simp
  have o: "ordered (dirs interrupted)" by code_simp
  have "store_ok interrupted"
    unfolding interrupted_def by (rule keepsD [OF sound_remove_instance one_instance_ok surjective_pairing])
  moreover have "id_valid ''lab''" by code_simp
  ultimately show ?thesis
    using reopen_finishes_deletions [of interrupted no_faults] p o by (simp add: no_faults_def) metis
qed

section \<open>Publication\<close>

definition published :: "id \<Rightarrow> id \<Rightarrow> id \<Rightarrow> instance_row" where
  "published i img prof = \<lparr>instance_id = i, image_id = img, profile_id = prof, state = Created, revision = 1\<rparr>"

text \<open>Up to the rename: other entries untouched, the table of instances unchanged, and the directory of an existing instance in place.\<close>

definition unpublished :: "id \<Rightarrow> store \<Rightarrow> store \<Rightarrow> bool" where
  "unpublished i s t \<longleftrightarrow> others_kept i s t \<and> instances t = instances s \<and> i \<notin> set (pending_deletions t)
     \<and> (i \<in> ids_of s \<longrightarrow> oget (dirs t) i = oget (dirs s) i)"

definition publish_failed :: "id \<Rightarrow> store \<Rightarrow> store \<Rightarrow> bool" where
  "publish_failed i s t \<longleftrightarrow> others_kept i s t \<and> instances t = instances s
     \<and> (i \<in> ids_of s \<longrightarrow> oget (dirs t) i = oget (dirs s) i)"

definition publish_done :: "id \<Rightarrow> id \<Rightarrow> id \<Rightarrow> store \<Rightarrow> store \<Rightarrow> bool" where
  "publish_done i img prof s t \<longleftrightarrow> others_kept i s t \<and> i \<notin> ids_of s \<and> i \<notin> set (pending_deletions t)
     \<and> instance_of t i = Some (published i img prof) \<and> instances t = instances s @ [published i img prof]
     \<and> (\<exists>d. oget (dirs t) i = Some (DirNode d) \<and> oget d ''.machineemu-create'' = None)"

lemma unpublished_failed: "unpublished i s t \<Longrightarrow> publish_failed i s t"
  by (simp add: unpublished_def publish_failed_def)

lemma triple_publish_finish:
  assumes "store_ok s" "ordered (dirs s)"
  shows "triple (\<lambda>t. t = s) (finish_instance_deletion fs i) (\<lambda>_. unpublished i s) (publish_failed i s)"
proof -
  have "i \<in> set (pending_deletions s) \<Longrightarrow> i \<notin> ids_of s" using assms(1) by (auto simp: store_ok_defs)
  with assms(2) show ?thesis
    by (auto simp: triple_def finish_instance_deletion_def Let_def unpublished_def publish_failed_def
        others_kept_def instance_of_def oget_odel ordered_odel)
qed

lemma triple_unpublished_lift: "triple (unpublished i s) (lift r) (\<lambda>_. unpublished i s) (publish_failed i s)"
  by (auto simp: triple_def intro: unpublished_failed split: sum.splits)

text \<open>After the destination has been cleared the identifier has no directory.\<close>

definition clear_at :: "id \<Rightarrow> store \<Rightarrow> store \<Rightarrow> bool" where
  "clear_at i s t \<longleftrightarrow> unpublished i s t \<and> oget (dirs t) i = None"

lemma triple_clear: "triple (unpublished i s) (clear_destination fs i) (\<lambda>_. clear_at i s) (publish_failed i s)"
proof -
  have clear: "clear_at i s (t\<lparr>dirs := odel i (dirs t)\<rparr>)" if "unpublished i s t" "instance_of t i = None" for t
  proof -
    have "i \<notin> ids_of s" using that by (simp add: instance_of_None_iff unpublished_def)
    with that show ?thesis
      by (simp add: clear_at_def unpublished_def others_kept_def instance_of_def oget_odel ordered_odel)
  qed
  then show ?thesis
    by (auto simp: triple_def clear_destination_def clear_at_def intro: unpublished_failed split: option.splits node.splits)
qed

lemma triple_clear_lift: "triple (clear_at i s) (lift r) (\<lambda>_. clear_at i s) (publish_failed i s)"
  by (auto simp: triple_def clear_at_def intro: unpublished_failed split: sum.splits)

definition renamed :: "id \<Rightarrow> store \<Rightarrow> store \<Rightarrow> bool" where
  "renamed i s t \<longleftrightarrow> others_kept i s t \<and> instances t = instances s \<and> i \<notin> set (pending_deletions t)
     \<and> (i \<in> ids_of s \<longrightarrow> oget (dirs s) i = None)"

lemma triple_rename: "triple (clear_at i s) (modify (\<lambda>t. t\<lparr>dirs := oput i d (dirs t)\<rparr>)) (\<lambda>_. renamed i s) E"
  by (auto simp: triple_def clear_at_def unpublished_def renamed_def others_kept_def instance_of_def oget_oput ordered_oput)

lemma insert_present:
  "renamed i s t \<Longrightarrow> i \<in> ids_of t \<Longrightarrow> publish_failed i s (t\<lparr>dirs := odel i (dirs t)\<rparr>)"
  by (auto simp: renamed_def publish_failed_def others_kept_def instance_of_def oget_odel ordered_odel)

lemma insert_absent:
  assumes t: "renamed i s t" "i \<notin> ids_of t" and u: "instances u = instances t @ [published i img prof]"
    "pending_deletions u = pending_deletions t" "dirs u = oput i (DirNode d) (dirs t)" "oget d ''.machineemu-create'' = None"
  shows "publish_done i img prof s u"
proof -
  have "find (\<lambda>r. instance_id r = i) (instances s) = None"
    using t by (auto simp: renamed_def find_None_iff)
  with t u show ?thesis
    by (auto simp: publish_done_def renamed_def published_def others_kept_def instance_of_def find_append_list
        oget_oput ordered_oput split: option.splits)
qed

lemma triple_insert:
  assumes "ordered d"
  shows "triple (renamed i s) (\<lambda>t. case insert_instance i img prof t of
      (Inl e, u) \<Rightarrow> (Inl e, u\<lparr>dirs := odel i (dirs u)\<rparr>)
    | (Inr x, u) \<Rightarrow> (Inr x, u\<lparr>dirs := oput i (DirNode (odel ''.machineemu-create'' (oput ''.machineemu-create'' m d))) (dirs u)\<rparr>))
   (\<lambda>_. publish_done i img prof s) (publish_failed i s)"
proof -
  have marker: "oget (odel ''.machineemu-create'' (oput ''.machineemu-create'' m d)) ''.machineemu-create'' = None"
    using assms by (simp add: oget_odel ordered_oput)
  show ?thesis
    using insert_present [of i s] insert_absent [of i s _ _ img prof, OF _ _ _ _ _ marker]
    by (auto simp: triple_def insert_instance_def published_def)
qed

lemma triple_publish_get:
  "triple (publish_done i img prof s) (get_instance i)
     (\<lambda>x t. x = published i img prof \<and> publish_done i img prof s t) E"
  by (auto simp: triple_def get_instance_run publish_done_def)

lemma triple_publish:
  assumes "store_ok s" "ordered (dirs s)" "ordered staged"
  shows "triple (\<lambda>t. t = s) (publish_prepared_instance fs i img prof staged plan auto)
    (\<lambda>x t. x = published i img prof \<and> publish_done i img prof s t) (publish_failed i s)"
  unfolding publish_prepared_instance_def Let_def
  by (intro triple_andthen [OF triple_publish_finish [OF assms(1,2)]] triple_andthen [OF triple_unpublished_lift]
      triple_andthen [OF triple_clear] triple_andthen [OF triple_clear_lift] triple_andthen [OF triple_rename]
      triple_andthen [OF triple_insert] triple_publish_get ordered_oput assms(3))

text \<open>
  Publishing an instance never overwrites one. On success the identifier was free, the row is
  \<open>Created\<close> with revision 1 and stands last in the table, the identifier is not pending deletion, and its
  directory is in place without the creation marker. On failure no row changes and the directory of an
  existing instance of that name stays. In both cases every other instance keeps its row and directory.
\<close>

theorem publish_outcome:
  assumes "store_ok s" "ordered (dirs s)" "ordered staged"
    and "publish_prepared_instance fs i img prof staged plan auto s = (r, t)"
  shows "case r of
      Inr x \<Rightarrow> x = published i img prof \<and> publish_done i img prof s t
    | Inl _ \<Rightarrow> publish_failed i s t"
  using triple_publish [OF assms(1-3), of fs i img prof plan auto] assms(4)
  by (auto simp: triple_def split: sum.splits)

theorem publish_outcome_witness:
  "(case publish_prepared_instance no_faults ''lab'' ''win'' ''base'' [] (Some JNull) False one_instance of
     (Inl _, t) \<Rightarrow> publish_failed ''lab'' one_instance t | (Inr _, _) \<Rightarrow> False)
   \<and> publish_done ''lab'' ''win'' ''base'' store_init one_instance"
proof -
  have "fst (publish_prepared_instance no_faults ''lab'' ''win'' ''base'' [] (Some JNull) False one_instance)
      = Inl (Process (''instance directory already exists: instances/lab''))" by code_simp
  then obtain t where t: "publish_prepared_instance no_faults ''lab'' ''win'' ''base'' [] (Some JNull) False one_instance
      = (Inl (Process (''instance directory already exists: instances/lab'')), t)"
    by (cases "publish_prepared_instance no_faults ''lab'' ''win'' ''base'' [] (Some JNull) False one_instance") simp
  have "fst (create_instance no_faults ''lab'' ''win'' ''base'' store_init) = Inr (published ''lab'' ''win'' ''base'')"
    by code_simp
  then have c: "publish_prepared_instance no_faults ''lab'' ''win'' ''base'' [] (Some JNull) False store_init
      = (Inr (published ''lab'' ''win'' ''base''), one_instance)"
    by (simp add: create_instance_def one_instance_def prod_eq_iff)
  have "ordered (dirs store_init)" by (simp add: store_init_def)
  from publish_outcome [OF one_instance_ok one_instance_dirs _ t] publish_outcome [OF store_ok_init this _ c] t
  show ?thesis by simp
qed

end
