(* ===== verification/Merge.thy ===== *)
theory Merge
  imports Domain
begin

text \<open>
  \<open>crates/machineemu-core/src/resolution/mod.rs\<close>, first part: layering of configuration documents. A higher
  layer is merged key by key; objects merge recursively, device collections merge by device ID, and
  anything else replaces. A Rust panic is a value of its own next to the crate's error.
\<close>

datatype fault = Err core_error | Panic

type_synonym 'a outcome = "fault + 'a"

definition err :: "string \<Rightarrow> 'a outcome" where
  "err msg = Inl (Err (Process msg))"

lemma err_simps [simp]: "err m \<noteq> Inr a" "Inr a \<noteq> err m" "err m \<noteq> Inl Panic" "rbind (err m) f = err m"
  by (simp_all add: err_def)

lemma is_ok_err [simp]: "\<not> is_ok (err m)"
  by (simp add: err_def)

definition require :: "'a option \<Rightarrow> string \<Rightarrow> 'a outcome" where
  "require x msg = (case x of None \<Rightarrow> err msg | Some a \<Rightarrow> Inr a)"

lemma require_simps [simp]: "require None m = err m" "require (Some a) m = Inr a"
  by (simp_all add: require_def)

lemma require_Inr_iff [result_simps]: "require x m = Inr a \<longleftrightarrow> x = Some a"
  by (cases x) simp_all

definition object_or_empty :: "json \<Rightarrow> obj" where
  "object_or_empty v = unwrap_or (as_object v) []"

definition is_device_collection :: "string \<Rightarrow> bool" where
  "is_device_collection k \<longleftrightarrow>
     k \<in> {''disks'', ''interfaces'', ''controllers'', ''graphics'', ''video'', ''serial'', ''channels''}"

definition id_of :: "json \<Rightarrow> string option" where
  "id_of v = jget_then v ''id'' as_str"

text \<open>\<open>iter().position(|v| v.get("id").and_then(Value::as_str) == Some(id))\<close>.\<close>

fun position_of :: "string \<Rightarrow> json list \<Rightarrow> nat option" where
  "position_of i [] = None"
| "position_of i (v # vs) = (if id_of v = Some i then Some 0 else map_option Suc (position_of i vs))"

text \<open>\<open>Vec::remove\<close>.\<close>

definition remove_at :: "nat \<Rightarrow> 'a list \<Rightarrow> 'a list" where
  "remove_at n xs = take n xs @ drop (Suc n) xs"

fun merge_object :: "obj \<Rightarrow> obj \<Rightarrow> obj outcome"
  and merge_items :: "json list \<Rightarrow> string list \<Rightarrow> json list \<Rightarrow> string \<Rightarrow> json list outcome" where
  "merge_object base [] = Inr base"
| "merge_object base ((key, value) # high) =
     (if is_null value then err (''null is not valid at '' @ key)
      else if is_device_collection key \<and> is_array value then
        (case value of
           JArr items \<Rightarrow>
             rbind (merge_items (unwrap_or (Option.bind (oget base key) as_array) []) [] items key) (\<lambda>out.
             merge_object (oput key (JArr out) base) high)
         | _ \<Rightarrow> Inl Panic)
      else (case (oget base key, value) of
           (Some (JObj old), JObj new) \<Rightarrow>
             rbind (merge_object old new) (\<lambda>n. merge_object (oput key (JObj n) base) high)
         | _ \<Rightarrow> merge_object (oput key value base) high))"
| "merge_items out seen [] key = Inr out"
| "merge_items out seen (item # items) key =
     (case item of
        JObj m \<Rightarrow>
          (case get_then m ''id'' as_str of
             None \<Rightarrow> err (key @ '' entries require id'')
           | Some i \<Rightarrow>
               if i \<in> set seen then err (''duplicate device id '' @ i)
               else if get_then m ''remove'' as_bool = Some True then
                 (if length m \<noteq> 2 then err (''removal for '' @ i @ '' has extra fields'')
                  else case position_of i out of
                      None \<Rightarrow> err (''cannot remove unknown device '' @ i)
                    | Some pos \<Rightarrow> merge_items (remove_at pos out) (i # seen) items key)
               else (case position_of i out of
                   Some pos \<Rightarrow>
                     rbind (merge_object (object_or_empty (out ! pos)) m) (\<lambda>n.
                     merge_items (out[pos := JObj n]) (i # seen) items key)
                 | None \<Rightarrow> merge_items (out @ [item]) (i # seen) items key))
      | _ \<Rightarrow> err (key @ '' entries must be objects''))"

declare merge_object.simps(2) [simp del] merge_items.simps(2) [simp del]

definition merge_devices :: "json option \<Rightarrow> json list \<Rightarrow> string \<Rightarrow> json outcome" where
  "merge_devices old high key = rbind (merge_items (unwrap_or (Option.bind old as_array) []) [] high key) (\<lambda>out. Inr (JArr out))"

definition merge_values :: "json \<Rightarrow> json \<Rightarrow> json outcome" where
  "merge_values base higher = rbind (merge_object (object_or_empty base) (object_or_empty higher)) (\<lambda>b. Inr (JObj b))"

text \<open>Only device collections reach \<open>merge_devices\<close>, and only as arrays: the \<open>unwrap\<close> there cannot fail.\<close>

lemma merge_object_Cons:
  "merge_object base ((key, value) # high) =
     rbind (if is_null value then err (''null is not valid at '' @ key)
            else if is_device_collection key \<and> is_array value
            then merge_devices (oget base key) (unwrap_or (as_array value) []) key
            else case (oget base key, value) of
                (Some (JObj old), JObj new) \<Rightarrow> rbind (merge_object old new) (\<lambda>n. Inr (JObj n))
              | _ \<Rightarrow> Inr value) (\<lambda>v. merge_object (oput key v base) high)"
proof -
  have assoc: "rbind (rbind a f) g = rbind a (\<lambda>x. rbind (f x) g)" for a :: "fault + 'x" and f :: "'x \<Rightarrow> fault + 'y" and g :: "'y \<Rightarrow> fault + 'z"
    by (cases a) simp_all
  show ?thesis
    by (simp add: merge_object.simps(2) merge_devices_def assoc split: json.splits option.splits)
qed

section \<open>Which layer wins\<close>

definition merged_value :: "obj \<Rightarrow> string \<Rightarrow> json \<Rightarrow> json outcome" where
  "merged_value base key value =
     (if is_null value then err (''null is not valid at '' @ key)
      else if is_device_collection key \<and> is_array value
      then merge_devices (oget base key) (unwrap_or (as_array value) []) key
      else case (oget base key, value) of
          (Some (JObj old), JObj new) \<Rightarrow> rbind (merge_object old new) (\<lambda>n. Inr (JObj n))
        | _ \<Rightarrow> Inr value)"

lemma merge_object_step:
  "merge_object base ((key, value) # high) = rbind (merged_value base key value) (\<lambda>v. merge_object (oput key v base) high)"
  unfolding merge_object_Cons merged_value_def ..

lemma merged_value_cong: "oget b k = oget b' k \<Longrightarrow> merged_value b k v = merged_value b' k v"
  by (simp add: merged_value_def)

lemma merge_object_ordered: "merge_object base high = Inr out \<Longrightarrow> ordered base \<Longrightarrow> ordered out"
  by (induction high arbitrary: base) (auto simp: merge_object_step result_simps ordered_oput)

lemma merge_object_lookup:
  "merge_object base high = Inr out \<Longrightarrow> distinct (map fst high) \<Longrightarrow>
   (case map_of high k of
      None \<Rightarrow> oget out k = oget base k
    | Some v \<Rightarrow> \<exists>w. merged_value base k v = Inr w \<and> oget out k = Some w)"
proof (induction high arbitrary: base)
  case (Cons e high)
  obtain key v where e: "e = (key, v)" by (cases e)
  from Cons.prems obtain w where w: "merged_value base key v = Inr w"
    and rest: "merge_object (oput key w base) high = Inr out"
    by (auto simp: e merge_object_step result_simps)
  note IH = Cons.IH [OF rest]
  show ?case
  proof (cases "k = key")
    case True
    with Cons.prems(2) have "map_of high k = None" by (simp add: e map_of_eq_None_iff)
    with IH Cons.prems(2) True w show ?thesis by (simp add: e oget_oput)
  next
    case False
    then have "oget (oput key w base) k = oget base k" by (simp add: oget_oput)
    moreover have "distinct (map fst high)" using Cons.prems(2) by (simp add: e)
    note IH [OF this]
    ultimately show ?thesis
      using False merged_value_cong [OF \<open>oget (oput key w base) k = oget base k\<close>] by (simp add: e cong: option.case_cong)
  qed
qed simp

lemma merge_object_layers:
  assumes "ordered high" "merge_object base high = Inr out"
  shows "case oget high k of
      None \<Rightarrow> oget out k = oget base k
    | Some v \<Rightarrow> \<not> is_null v
        \<and> (case (oget base k, v) of
             (Some (JObj old), JObj new) \<Rightarrow> \<exists>n. merge_object old new = Inr n \<and> oget out k = Some (JObj n)
           | (_, JArr items) \<Rightarrow> if is_device_collection k
               then \<exists>d. merge_devices (oget base k) items k = Inr d \<and> oget out k = Some d
               else oget out k = Some v
           | _ \<Rightarrow> oget out k = Some v)"
proof -
  have "case oget high k of None \<Rightarrow> oget out k = oget base k
      | Some v \<Rightarrow> \<exists>w. merged_value base k v = Inr w \<and> oget out k = Some w"
    using merge_object_lookup [OF assms(2) ordered_distinct [OF assms(1)], of k] by (simp add: oget_map_of)
  then show ?thesis
    by (auto simp: merged_value_def result_simps split: option.splits json.splits if_splits)
qed

text \<open>
  C10: Layering is decided key by key. In a successful merge a key the higher layer does not mention keeps
  its value; a scalar or an object over a non-object is taken from the higher layer; two objects are
  merged recursively by the same rule; an array of a device collection is merged by device ID; and a null
  at the top level of the higher layer is never accepted.
\<close>

theorem merge_layers:
  assumes "ordered high" "merge_object base high = Inr out"
  shows "case oget high k of
      None \<Rightarrow> oget out k = oget base k
    | Some v \<Rightarrow> \<not> is_null v
        \<and> (case (oget base k, v) of
             (Some (JObj old), JObj new) \<Rightarrow> \<exists>n. merge_object old new = Inr n \<and> oget out k = Some (JObj n)
           | (_, JArr items) \<Rightarrow> if is_device_collection k
               then \<exists>d. merge_devices (oget base k) items k = Inr d \<and> oget out k = Some d
               else oget out k = Some v
           | _ \<Rightarrow> oget out k = Some v)"
  by (rule merge_object_layers [OF assms])

theorem merge_layers_witness:
  "merge_object [(''cpu'', JStr ''host''), (''resources'', JObj [(''memory'', JStr ''4G'')])]
     [(''resources'', JObj [(''vcpus'', JNum (PosInt 2))])]
   = Inr [(''cpu'', JStr ''host''), (''resources'', JObj [(''memory'', JStr ''4G''), (''vcpus'', JNum (PosInt 2))])]
   \<and> oget [(''cpu'', JStr ''host''), (''resources'', JObj [(''memory'', JStr ''4G''), (''vcpus'', JNum (PosInt 2))])] ''cpu'' = Some (JStr ''host'')"
proof -
  let ?b = "[(''cpu'', JStr ''host''), (''resources'', JObj [(''memory'', JStr ''4G'')])]"
  let ?h = "[(''resources'', JObj [(''vcpus'', JNum (PosInt 2))])]"
  have m: "merge_object ?b ?h = Inr [(''cpu'', JStr ''host''), (''resources'', JObj [(''memory'', JStr ''4G''), (''vcpus'', JNum (PosInt 2))])]"
    by code_simp
  have o: "ordered ?h" by (simp add: ordered_def)
  from merge_layers [OF o m, of "''cpu''"] m show ?thesis by simp
qed

section \<open>Device identifiers\<close>

lemma position_of_Some:
  "position_of i vs = Some p \<Longrightarrow> p < length vs \<and> id_of (vs ! p) = Some i"
  by (induction vs arbitrary: p) (auto split: if_splits)

lemma position_of_None: "position_of i vs = None \<longleftrightarrow> Some i \<notin> id_of ` set vs"
  by (induction vs) (auto split: if_splits)

lemma map_remove_at: "map f (remove_at n xs) = remove_at n (map f xs)"
  by (simp add: remove_at_def take_map drop_map)

lemma distinct_remove_at: "distinct xs \<Longrightarrow> distinct (remove_at n xs)"
  unfolding remove_at_def
  by (metis append_take_drop_id distinct_append distinct_drop distinct_take inf.coboundedI1 le_SucI nat_le_linear set_drop_subset_set_drop set_take_disj_set_drop_if_distinct)

lemma id_kept_by_merge:
  assumes "merge_object base m = Inr n" "ordered m" "get_then m ''id'' as_str = Some i"
  shows "get_then n ''id'' as_str = Some i"
proof -
  have "\<not> is_device_collection ''id''" by (simp add: is_device_collection_def)
  with merge_object_layers [OF assms(2,1), of "''id''"] assms(3) show ?thesis
    by (auto simp: get_then_Some_iff as_str_Some_iff split: option.splits json.splits)
qed

text \<open>Identifiers of a collection: those of the base without the removed ones, then the new ones.\<close>

definition removes :: "json \<Rightarrow> bool" where
  "removes v \<longleftrightarrow> jget_then v ''remove'' as_bool = Some True"

lemma set_remove_at:
  assumes "distinct xs" "p < length xs"
  shows "set (remove_at p xs) = set xs - {xs ! p}"
proof -
  have xs: "xs = take p xs @ xs ! p # drop (Suc p) xs" using assms(2) by (rule id_take_nth_drop)
  with assms(1) have "xs ! p \<notin> set (take p xs) \<union> set (drop (Suc p) xs)"
    by (metis Un_iff distinct.simps(2) distinct_append disjoint_iff list.set_intros(1))
  moreover have "set xs = set (take p xs) \<union> insert (xs ! p) (set (drop (Suc p) xs))"
    using arg_cong [OF xs, of set] by simp
  ultimately show ?thesis by (auto simp: remove_at_def)
qed

lemma ids_remove_at:
  assumes "distinct (map id_of out)" "position_of i out = Some p"
  shows "distinct (map id_of (remove_at p out)) \<and> id_of ` set (remove_at p out) = id_of ` set out - {Some i}"
proof -
  from position_of_Some [OF assms(2)] have p: "p < length out" "id_of (out ! p) = Some i" by simp_all
  have "set (remove_at p (map id_of out)) = set (map id_of out) - {map id_of out ! p}"
    using assms(1) p(1) by (intro set_remove_at) simp_all
  with assms(1) p distinct_remove_at [of "map id_of out" p] show ?thesis
    by (simp add: map_remove_at [symmetric])
qed

lemma ids_update_at:
  assumes "position_of i out = Some p" "id_of v = Some i"
  shows "map id_of (out[p := v]) = map id_of out"
  using position_of_Some [OF assms(1)] assms(2) by (metis list_update_id map_update nth_map)

lemma merge_item_step:
  assumes run: "merge_items out seen (JObj m # items) key = Inr res" and id: "get_then m ''id'' as_str = Some i"
    and ord: "ordered m" and dist: "distinct (map id_of out)"
  shows "\<exists>out'. merge_items out' (i # seen) items key = Inr res \<and> distinct (map id_of out')
     \<and> id_of ` set out' = (if removes (JObj m) then id_of ` set out - {Some i} else id_of ` set out \<union> {Some i})"
proof (cases "removes (JObj m)")
  case True
  then have "get_then m ''remove'' as_bool = Some True" by (simp add: removes_def jget_then_def get_then_def)
  with run id obtain p where p: "position_of i out = Some p" "merge_items (remove_at p out) (i # seen) items key = Inr res"
    by (auto simp: merge_items.simps(2) split: option.splits if_splits)
  from ids_remove_at [OF dist p(1)] p(2) True show ?thesis
    by (intro exI [of _ "remove_at p out"]) simp
next
  case False
  then have keep: "get_then m ''remove'' as_bool \<noteq> Some True" by (simp add: removes_def jget_then_def get_then_def)
  have idm: "id_of (JObj m) = Some i" using id by (simp add: id_of_def jget_then_def get_then_def)
  show ?thesis
  proof (cases "position_of i out")
    case None
    with run id keep have "merge_items (out @ [JObj m]) (i # seen) items key = Inr res"
      by (auto simp: merge_items.simps(2) split: if_splits)
    with None dist idm False show ?thesis
      by (intro exI [of _ "out @ [JObj m]"]) (auto simp: position_of_None)
  next
    case (Some p)
    with run id keep obtain n where n: "merge_object (object_or_empty (out ! p)) m = Inr n"
      "merge_items (out[p := JObj n]) (i # seen) items key = Inr res"
      by (auto simp: merge_items.simps(2) result_simps split: if_splits)
    have "id_of (JObj n) = Some i"
      using id_kept_by_merge [OF n(1) ord id] by (simp add: id_of_def jget_then_def get_then_def)
    from ids_update_at [OF Some this] have same: "map id_of (out[p := JObj n]) = map id_of out" .
    then have "id_of ` set (out[p := JObj n]) = id_of ` set out" by (metis set_map)
    moreover have "Some i \<in> id_of ` set out" using position_of_None [of i out] Some by auto
    ultimately show ?thesis using n(2) same dist False by (intro exI [of _ "out[p := JObj n]"]) auto
  qed
qed

lemma merge_items_ids:
  "merge_items out seen items key = Inr res \<Longrightarrow> distinct (map id_of out) \<Longrightarrow> \<forall>v \<in> set items. \<forall>m. v = JObj m \<longrightarrow> ordered m
   \<Longrightarrow> distinct (map id_of res) \<and> distinct (map id_of items) \<and> (\<forall>v \<in> set items. \<exists>i. id_of v = Some i \<and> i \<notin> set seen)
     \<and> id_of ` set res = (id_of ` set out - id_of ` {v \<in> set items. removes v}) \<union> id_of ` {v \<in> set items. \<not> removes v}"
proof (induction items arbitrary: out seen)
  case (Cons item items)
  from Cons.prems(1) obtain m i where item: "item = JObj m" "get_then m ''id'' as_str = Some i" "i \<notin> set seen"
    by (auto simp: merge_items.simps(2) split: json.splits option.splits if_splits)
  then have id: "id_of item = Some i" by (simp add: id_of_def jget_then_def get_then_def)
  have ord: "ordered m" and rest_ord: "\<forall>v \<in> set items. \<forall>m. v = JObj m \<longrightarrow> ordered m"
    using Cons.prems(3) item(1) by auto
  have rm: "removes item \<longleftrightarrow> get_then m ''remove'' as_bool = Some True"
    by (simp add: removes_def item(1) jget_then_def get_then_def)
  have *: "\<exists>out'. merge_items out' (i # seen) items key = Inr res \<and> distinct (map id_of out')
     \<and> id_of ` set out' = (if removes item then id_of ` set out - {Some i} else id_of ` set out \<union> {Some i})"
    using merge_item_step [of out seen m items key res i] Cons.prems(1,2) item(1,2) ord by simp
  then obtain out' where o: "merge_items out' (i # seen) items key = Inr res" "distinct (map id_of out')"
     "id_of ` set out' = (if removes item then id_of ` set out - {Some i} else id_of ` set out \<union> {Some i})" by blast
  from Cons.IH [OF o(1,2) rest_ord] have IH: "distinct (map id_of res)" "distinct (map id_of items)"
    "\<forall>v \<in> set items. \<exists>j. id_of v = Some j \<and> j \<notin> set (i # seen)"
    "id_of ` set res = (id_of ` set out' - id_of ` {v \<in> set items. removes v}) \<union> id_of ` {v \<in> set items. \<not> removes v}"
    by blast+
  have fresh: "Some i \<notin> id_of ` set items" using IH(3) by force
  have "id_of ` set res = (id_of ` set out - id_of ` {v \<in> set (item # items). removes v}) \<union> id_of ` {v \<in> set (item # items). \<not> removes v}"
  proof (cases "removes item")
    case True
    then have "{v \<in> set (item # items). removes v} = insert item {v \<in> set items. removes v}"
      "{v \<in> set (item # items). \<not> removes v} = {v \<in> set items. \<not> removes v}" by auto
    then show ?thesis unfolding IH(4) o(3) using True id by auto
  next
    case False
    then have "{v \<in> set (item # items). removes v} = {v \<in> set items. removes v}"
      "{v \<in> set (item # items). \<not> removes v} = insert item {v \<in> set items. \<not> removes v}" by auto
    then show ?thesis unfolding IH(4) o(3) using False id fresh by auto
  qed
  with IH(1-3) fresh id item(3) show ?case by auto
qed simp

text \<open>
  Merging a device collection keeps device identifiers unique. If the lower layer's devices have
  distinct identifiers, a successful merge leaves distinct identifiers, every entry of the higher layer
  names its device once, and the result holds exactly the lower devices that were not removed and the
  higher devices that are no removals.
\<close>

theorem merge_devices_ids:
  assumes "merge_devices (Some (JArr out)) items key = Inr (JArr res)" "distinct (map id_of out)" "wf_items items"
  shows "distinct (map id_of res) \<and> distinct (map id_of items) \<and> None \<notin> id_of ` set items
    \<and> id_of ` set res = (id_of ` set out - id_of ` {v \<in> set items. removes v}) \<union> id_of ` {v \<in> set items. \<not> removes v}"
proof -
  have "merge_items out [] items key = Inr res"
    using assms(1) by (auto simp: merge_devices_def result_simps)
  moreover have "\<forall>v \<in> set items. \<forall>m. v = JObj m \<longrightarrow> ordered m"
    using assms(3) by (auto simp: wf_items_iff)
  ultimately show ?thesis
    using merge_items_ids [of out "[]" items key res] assms(2) by force
qed

theorem merge_devices_ids_witness:
  "merge_devices (Some (JArr [JObj [(''id'', JStr ''root'')], JObj [(''id'', JStr ''cd'')]]))
     [JObj [(''id'', JStr ''cd''), (''remove'', JBool True)], JObj [(''id'', JStr ''data'')]] ''disks''
   = Inr (JArr [JObj [(''id'', JStr ''root'')], JObj [(''id'', JStr ''data'')]])
   \<and> distinct (map id_of [JObj [(''id'', JStr ''root'')], JObj [(''id'', JStr ''data'')]])"
proof -
  let ?out = "[JObj [(''id'', JStr ''root'')], JObj [(''id'', JStr ''cd'')]]"
  let ?items = "[JObj [(''id'', JStr ''cd''), (''remove'', JBool True)], JObj [(''id'', JStr ''data'')]]"
  have m: "merge_devices (Some (JArr ?out)) ?items ''disks'' = Inr (JArr [JObj [(''id'', JStr ''root'')], JObj [(''id'', JStr ''data'')]])"
    by code_simp
  have d: "distinct (map id_of ?out)" "wf_items ?items" by code_simp+
  from merge_devices_ids [OF m d] m show ?thesis by blast
qed

text \<open>
  The rule against null holds only where two layers meet. An object that the lower layer does not have is
  inserted as it is, with any null inside it, although the same null is refused when the lower layer has
  the object.
\<close>

theorem nested_null_is_accepted:
  "merge_object [] [(''boot'', JObj [(''order'', JNull)])] = Inr [(''boot'', JObj [(''order'', JNull)])]
   \<and> merge_object [(''boot'', JObj [])] [(''boot'', JObj [(''order'', JNull)])] = err ''null is not valid at order''"
  by code_simp

end
