(* ===== verification/Resolve.thy ===== *)
theory Resolve
  imports Merge
begin

text \<open>
  \<open>resolution/mod.rs\<close>, the operations of the resolver: source vocabulary, compact devices, choice of the
  engine, defaults and generated identities. Validation is in ResolveValidate.
\<close>

section \<open>Context\<close>

record engine_capability =
  cap_track :: string
  cap_build_digest :: "string option"
  cap_executable :: "string option"
  cap_patch_revision :: "string option"
  cap_machines :: "string list"

record resolution_context =
  ctx_instance_id :: string
  ctx_engines :: "engine_capability list"
  default_network :: "string option"
  defaults :: json

section \<open>Source vocabulary\<close>

definition require_kind :: "string \<Rightarrow> string \<Rightarrow> unit outcome" where
  "require_kind actual expected =
     (if actual = expected then Inr () else err (''expected kind '' @ expected @ '', got '' @ actual))"

definition validate_object_keys :: "json \<Rightarrow> string \<Rightarrow> string list \<Rightarrow> unit outcome" where
  "validate_object_keys v path allowed =
     (if is_null v then Inr ()
      else rbind (require (as_object v) (path @ '' must be an object'')) (\<lambda>m.
        check_all (okeys m) (\<lambda>key. if key \<in> set allowed then Inr () else err (''unknown field '' @ path @ ''.'' @ key))))"

definition profile_fields :: "string list" where
  "profile_fields = [''architecture'', ''machine'', ''firmware'', ''resources'', ''devices'', ''boot'', ''lifecycle'',
     ''hardware_identity'', ''engine'', ''image'', ''network'', ''policy'', ''storage'', ''target'', ''domain'', ''cpu'',
     ''smm'', ''tpm'', ''state'', ''analysis'']"

definition validate_profile_fields :: "json \<Rightarrow> string \<Rightarrow> unit outcome" where
  "validate_profile_fields v path = validate_object_keys v path profile_fields"

definition image_fields :: "string list" where
  "image_fields = [''architecture'', ''compatible_machines'', ''components'', ''compatible_engines'', ''engine_track'',
     ''supported_engine_tracks'', ''target'', ''image_id'', ''schema_version'', ''firmware'', ''disk_sha256'',
     ''firmware_sha256'', ''tpm_state_sha256'']"

definition validate_image_fields :: "json \<Rightarrow> string \<Rightarrow> unit outcome" where
  "validate_image_fields v path = validate_object_keys v path image_fields"

text \<open>The obsolete flags are searched at every depth, each level before its children.\<close>

fun reject_obsolete_identity_flags :: "json \<Rightarrow> string \<Rightarrow> unit outcome"
  and reject_entries :: "obj \<Rightarrow> string \<Rightarrow> unit outcome"
  and reject_items :: "json list \<Rightarrow> nat \<Rightarrow> string \<Rightarrow> unit outcome" where
  "reject_obsolete_identity_flags (JObj m) path =
     (case find (contains_key m) [''telemetry'', ''overlay''] of
        Some key \<Rightarrow> err (''unknown field '' @ path @ ''.'' @ key @ ''; telemetry and overlay are not supported'')
      | None \<Rightarrow> reject_entries m path)"
| "reject_obsolete_identity_flags (JArr xs) path = reject_items xs 0 path"
| "reject_obsolete_identity_flags _ path = Inr ()"
| "reject_entries [] path = Inr ()"
| "reject_entries ((key, v) # m) path =
     rbind (reject_obsolete_identity_flags v (path @ ''.'' @ key)) (\<lambda>_. reject_entries m path)"
| "reject_items [] n path = Inr ()"
| "reject_items (v # vs) n path =
     rbind (reject_obsolete_identity_flags v (path @ ''['' @ show_nat n @ '']'')) (\<lambda>_. reject_items vs (Suc n) path)"

definition identity_fields :: "string list" where
  "identity_fields = [''compatibility'', ''identity'', ''pci'', ''descriptors'', ''smbios'', ''acpi'', ''sensors'', ''analysis'']"

definition validate_identity_fields :: "json \<Rightarrow> string \<Rightarrow> unit outcome" where
  "validate_identity_fields v path =
     rbind (validate_object_keys v path identity_fields) (\<lambda>_.
     case jget v ''analysis'' of
       None \<Rightarrow> Inr ()
     | Some analysis \<Rightarrow> reject_obsolete_identity_flags analysis (path @ ''.analysis''))"

definition source_ref_of :: "document_metadata \<Rightarrow> source_ref" where
  "source_ref_of m = \<lparr>ref_id = name m, ref_revision = doc_revision m, ref_digest = digest m\<rparr>"

section \<open>Compact devices\<close>

definition normalize_device :: "string \<times> string \<times> string \<Rightarrow> obj \<Rightarrow> obj" where
  "normalize_device = (\<lambda>(compact, collection, i) devices.
     let (v, devices) =
       (if compact = collection then
          (case oget devices collection of
             Some (JObj m) \<Rightarrow> (Some (JObj m), odel collection devices)
           | _ \<Rightarrow> (None, devices))
        else if contains_key devices collection then (None, devices)
        else (oget devices compact, odel compact devices))
     in case v of
          None \<Rightarrow> devices
        | Some v \<Rightarrow>
            (case as_object v of
               Some item \<Rightarrow> oput collection (JArr [JObj (oput ''id'' (JStr i) item)]) devices
             | None \<Rightarrow> oput compact v devices))"

definition normalize_nic :: "obj \<Rightarrow> obj" where
  "normalize_nic devices =
     (if contains_key devices ''interfaces'' then devices
      else case oget devices ''nic'' of
          None \<Rightarrow> devices
        | Some nic \<Rightarrow>
            let devices = odel ''nic'' devices in
            case as_str nic of
              None \<Rightarrow> devices
            | Some model \<Rightarrow> oput ''interfaces'' (JArr [json_obj [(''id'', JStr ''net0''), (''model'', JStr model)]]) devices)"

definition normalize_compact_devices :: "obj \<Rightarrow> obj" where
  "normalize_compact_devices spc =
     (case get_then spc ''devices'' as_object of
        None \<Rightarrow> spc
      | Some devices \<Rightarrow>
          let devices = fold normalize_device
                [(''console'', ''graphics'', ''graphics0''), (''video'', ''video'', ''video0''), (''serial'', ''serial'', ''serial0'')]
                devices
          in oput ''devices'' (JObj (normalize_nic devices)) spc)"

section \<open>Engine\<close>

definition first_str :: "json list \<Rightarrow> string option" where
  "first_str vs = (case List.map_filter as_str vs of [] \<Rightarrow> None | s # _ \<Rightarrow> Some s)"

definition or_else :: "'a option \<Rightarrow> 'a option \<Rightarrow> 'a option" where
  "or_else x y = (case x of None \<Rightarrow> y | Some a \<Rightarrow> Some a)"

lemma or_else_simps [simp]: "or_else None y = y" "or_else (Some a) y = Some a"
  by (simp_all add: or_else_def)

definition opt_str :: "string option \<Rightarrow> json" where
  "opt_str x = (case x of None \<Rightarrow> JNull | Some s \<Rightarrow> JStr s)"

definition preferred_track :: "json \<Rightarrow> string option" where
  "preferred_track profile_spec =
     Option.bind (jget profile_spec ''engine'') (\<lambda>v.
       or_else (Option.bind (jget_then v ''tracks'' as_array) first_str)
         (or_else (jget_then v ''track'' as_str) (as_str v)))"

definition engine_matches :: "string option \<Rightarrow> string list option \<Rightarrow> engine_capability \<Rightarrow> bool" where
  "engine_matches preferred tracks e \<longleftrightarrow>
     (case preferred of None \<Rightarrow> True | Some p \<Rightarrow> p = cap_track e)
     \<and> (case tracks of None \<Rightarrow> True | Some s \<Rightarrow> cap_track e \<in> set s)"

definition engine_json :: "engine_capability \<Rightarrow> json \<Rightarrow> json \<Rightarrow> json" where
  "engine_json e image_tracks profile_tracks = json_obj
     [(''track'', JStr (cap_track e)), (''build_digest'', opt_str (cap_build_digest e)),
      (''executable'', opt_str (cap_executable e)), (''patch_revision'', opt_str (cap_patch_revision e)),
      (''compatibility'', json_obj [(''image_tracks'', image_tracks), (''profile_tracks'', profile_tracks)])]"

definition choose_engine :: "obj \<Rightarrow> profile_document \<Rightarrow> image_document \<Rightarrow> resolution_context \<Rightarrow> obj outcome" where
  "choose_engine spc prof img ctx =
     (if ctx_engines ctx = [] then err ''resolution context has no available engine builds''
      else
        let preferred = preferred_track (spec prof);
            tracks = map_option (List.map_filter as_str) (jget_then (spec img) ''compatible_engines'' as_array)
        in rbind (require (find (engine_matches preferred tracks) (ctx_engines ctx)) ''no compatible engine build'') (\<lambda>e.
           if cap_build_digest e = None \<or> cap_executable e = None
           then err (''engine build '' @ cap_track e @ '' is not pinned to a digest and executable'')
           else
             let profile_tracks = unwrap_or (Option.bind (jget (spec prof) ''engine'') (\<lambda>v. or_else (jget v ''tracks'') (Some v))) (JArr []);
                 image_tracks = unwrap_or (jget (spec img) ''compatible_engines'') (JArr [])
             in Inr (oput ''engine'' (engine_json e image_tracks profile_tracks) spc)))"

section \<open>Defaults\<close>

text \<open>\<open>(b'a' + n) as char\<close> in a \<open>format!\<close>: one byte below 128, the two-byte UTF-8 form above.\<close>

definition latin1_utf8 :: "8 word \<Rightarrow> string" where
  "latin1_utf8 b = (if unat b < 128 then [char_of (unat b)]
     else [char_of (192 + unat b div 64), char_of (128 + unat b mod 64)])"

definition dev_name :: "string \<Rightarrow> 8 word \<Rightarrow> string" where
  "dev_name prefix n = prefix @ latin1_utf8 (97 + n)"

definition disk_source :: "obj \<Rightarrow> (obj \<times> string) outcome" where
  "disk_source d =
     rbind (require (as_object (unwrap_or (oget d ''source'') (JObj []))) ''disk source must be object'') (\<lambda>src.
     let component = unwrap_or (or_else (get_then src ''component'' as_str) (get_then src ''image_component'' as_str)) ''root_disk''
     in Inr (oput ''source'' (JObj (oput_new ''component'' (JStr component) src)) d, component))"

text \<open>The component's format becomes the driver type; a driver that is no object panics here.\<close>

definition disk_format :: "obj option \<Rightarrow> string \<Rightarrow> obj \<Rightarrow> obj outcome" where
  "disk_format comps component d =
     (case Option.bind (Option.bind comps (\<lambda>m. oget m component)) (\<lambda>c. jget c ''format'') of
        None \<Rightarrow> Inr d
      | Some format \<Rightarrow>
          let d = oput_new ''driver'' (JObj []) d in
          case get_then d ''driver'' as_object of
            None \<Rightarrow> Inl Panic
          | Some driver \<Rightarrow> Inr (oput ''driver'' (JObj (oput_new ''type'' format driver)) d))"

definition disk_driver :: "obj \<Rightarrow> obj outcome" where
  "disk_driver d =
     rbind (require (as_object (unwrap_or (oget d ''driver'') (json_obj [(''name'', JStr ''qemu'')]))) ''disk driver must be object'') (\<lambda>driver.
     let driver = oput_new ''cache'' (JStr ''none'') (oput_new ''name'' (JStr ''qemu'') driver);
         driver = (if get_then driver ''type'' as_str = Some ''qcow2'' then oput_new ''discard'' (JStr ''unmap'') driver else driver)
     in Inr (oput ''driver'' (JObj driver) d))"

definition disk_target :: "8 word \<Rightarrow> 8 word \<Rightarrow> obj \<Rightarrow> (8 word \<times> 8 word \<times> obj) outcome" where
  "disk_target next_virtio next_sd d =
     rbind (require (as_object (unwrap_or (oget d ''target'') (JObj []))) ''disk target must be object'') (\<lambda>target.
     let target = oput_new ''bus'' (JStr ''virtio'') target in
     rbind (require (get_then target ''bus'' as_str) ''disk target.bus must be string'') (\<lambda>bus.
       if contains_key target ''dev'' then Inr (next_virtio, next_sd, oput ''target'' (JObj target) d)
       else if bus = ''virtio''
       then Inr (next_virtio + 1, next_sd, oput ''target'' (JObj (oput ''dev'' (JStr (dev_name ''vd'' next_virtio)) target)) d)
       else if bus = ''sata'' \<or> bus = ''scsi''
       then Inr (next_virtio, next_sd + 1, oput ''target'' (JObj (oput ''dev'' (JStr (dev_name ''sd'' next_sd)) target)) d)
       else err (''unsupported disk bus '' @ bus)))"

definition default_disk :: "obj option \<Rightarrow> 8 word \<Rightarrow> 8 word \<Rightarrow> json \<Rightarrow> (8 word \<times> 8 word \<times> obj) outcome" where
  "default_disk comps next_virtio next_sd disk =
     rbind (require (as_object disk) ''disk entries must be objects'') (\<lambda>d.
     rbind (disk_source d) (\<lambda>(d, component).
     rbind (disk_format comps component d) (\<lambda>d.
     rbind (disk_driver d) (disk_target next_virtio next_sd))))"

fun default_disk_loop :: "obj option \<Rightarrow> 8 word \<Rightarrow> 8 word \<Rightarrow> json list \<Rightarrow> json list outcome" where
  "default_disk_loop comps nv ns [] = Inr []"
| "default_disk_loop comps nv ns (disk # disks) =
     rbind (default_disk comps nv ns disk) (\<lambda>(nv, ns, d).
     rbind (default_disk_loop comps nv ns disks) (\<lambda>ds. Inr (JObj d # ds)))"

definition default_disks :: "obj \<Rightarrow> obj option \<Rightarrow> obj outcome" where
  "default_disks devices comps =
     (case get_then devices ''disks'' as_array of
        None \<Rightarrow> Inr devices
      | Some disks \<Rightarrow> rbind (default_disk_loop comps 0 0 disks) (\<lambda>ds. Inr (oput ''disks'' (JArr ds) devices)))"

definition default_interfaces :: "obj \<Rightarrow> obj outcome" where
  "default_interfaces devices =
     (case get_then devices ''interfaces'' as_array of
        None \<Rightarrow> Inr devices
      | Some xs \<Rightarrow> rbind (collect (\<lambda>x. rbind (require (as_object x) ''interface entries must be objects'')
            (\<lambda>i. Inr (JObj (oput_new ''model'' (JStr ''virtio-net-pci'') i)))) xs) (\<lambda>xs.
          Inr (oput ''interfaces'' (JArr xs) devices)))"

text \<open>\<open>iter_mut().filter_map(Value::as_object_mut)\<close>: objects are updated, other items stay.\<close>

fun update_object :: "(obj \<Rightarrow> obj) \<Rightarrow> json \<Rightarrow> json" where
  "update_object f (JObj m) = JObj (f m)"
| "update_object f v = v"

definition update_objects :: "string \<Rightarrow> (obj \<Rightarrow> obj) \<Rightarrow> obj \<Rightarrow> obj" where
  "update_objects key f devices =
     (case get_then devices key as_array of
        None \<Rightarrow> devices
      | Some xs \<Rightarrow> oput key (JArr (map (update_object f) xs)) devices)"

definition default_graphics :: "obj \<Rightarrow> obj" where
  "default_graphics = update_objects ''graphics''
     (\<lambda>g. oput_new ''port'' (JStr ''auto'') (oput_new ''listen'' (JStr ''127.0.0.1'') g))"

definition default_video :: "json option \<Rightarrow> json option \<Rightarrow> obj \<Rightarrow> obj" where
  "default_video architecture machine devices =
     (let is_x86_q35 = (case Option.bind architecture as_str of None \<Rightarrow> True | Some a \<Rightarrow> a = ''x86_64'')
            \<and> (case Option.bind machine (\<lambda>m. jget_then m ''type'' as_str) of None \<Rightarrow> True | Some m \<Rightarrow> contains_str m ''q35'')
      in if is_x86_q35 \<and> \<not> contains_key devices ''video''
         then oput ''video'' (JArr [json_obj [(''id'', JStr ''video0''), (''model'', JStr ''virtio-vga''),
                (''primary'', JBool True), (''heads'', JNum (PosInt 1))]]) devices
         else update_objects ''video'' (oput_new ''model'' (JStr ''virtio-vga'')) devices)"

definition default_serial :: "obj \<Rightarrow> obj" where
  "default_serial = update_objects ''serial'' (oput_new ''path'' (JStr ''sockets/serial.sock''))"

definition default_channels :: "obj \<Rightarrow> obj" where
  "default_channels = update_objects ''channels''
     (\<lambda>c. if get_then c ''id'' as_str = Some ''qmp'' then oput_new ''path'' (JStr ''sockets/qmp.sock'') c else c)"

definition default_architecture :: "image_document \<Rightarrow> obj \<Rightarrow> obj" where
  "default_architecture img spc =
     (if contains_key spc ''architecture'' then spc
      else case jget (spec img) ''architecture'' of None \<Rightarrow> spc | Some a \<Rightarrow> oput ''architecture'' a spc)"

definition default_machine :: "obj \<Rightarrow> obj" where
  "default_machine spc =
     (case oget spc ''machine'' of
        None \<Rightarrow> oput ''machine'' (json_obj [(''type'', JStr ''q35'')]) spc
      | Some (JStr m) \<Rightarrow> oput ''machine'' (json_obj [(''type'', JStr m)]) (odel ''machine'' spc)
      | Some _ \<Rightarrow> spc)"

definition default_resources :: "json option \<Rightarrow> obj outcome" where
  "default_resources resources =
     rbind (require (as_object (unwrap_or resources (JObj []))) ''resources must be object'') (\<lambda>r.
     let count = unwrap_or (or_else (get_then r ''vcpus'' as_u64) (get_then r ''vcpus'' (\<lambda>v. jget_then v ''count'' as_u64))) 1;
         r = (if (case oget r ''vcpus'' of None \<Rightarrow> True | Some v \<Rightarrow> is_number v)
              then oput ''vcpus'' (json_obj [(''count'', JNum (PosInt count)), (''sockets'', JNum (PosInt 1)),
                     (''cores'', JNum (PosInt count)), (''threads'', JNum (PosInt 1))]) r
              else r)
     in Inr r)"

definition default_vcpus :: "obj \<Rightarrow> obj outcome" where
  "default_vcpus spc = rbind (default_resources (oget spc ''resources'')) (\<lambda>r. Inr (oput ''resources'' (JObj r) spc))"

definition default_root_disk :: "obj option \<Rightarrow> obj \<Rightarrow> obj" where
  "default_root_disk comps devices =
     (if contains_key devices ''disks'' then devices
      else case comps of
          None \<Rightarrow> devices
        | Some cs \<Rightarrow>
            (case find (contains_key cs) [''root_disk'', ''disk''] of
               None \<Rightarrow> devices
             | Some component \<Rightarrow>
                 let format = unwrap_or (Option.bind (oget cs component) (\<lambda>c. jget c ''format'')) (JStr ''qcow2'')
                 in oput ''disks'' (JArr [json_obj [(''id'', JStr ''root''), (''role'', JStr ''root''),
                      (''source'', json_obj [(''image_component'', JStr component)]),
                      (''driver'', json_obj [(''name'', JStr ''qemu''), (''type'', format)]),
                      (''target'', json_obj [(''bus'', JStr ''virtio''), (''dev'', JStr ''vda'')])]]) devices))"

definition default_nic :: "resolution_context \<Rightarrow> obj \<Rightarrow> obj" where
  "default_nic ctx devices =
     (if contains_key devices ''interfaces'' then devices
      else oput ''interfaces'' (JArr [json_obj [(''id'', JStr ''net0''),
             (''network'', JStr (unwrap_or (default_network ctx) ''default'')), (''model'', JStr ''virtio-net-pci'')]]) devices)"

definition expand_defaults :: "obj \<Rightarrow> image_document \<Rightarrow> resolution_context \<Rightarrow> obj outcome" where
  "expand_defaults spc img ctx =
     rbind (default_vcpus (default_machine (default_architecture img spc))) (\<lambda>spc.
     let comps = get_then (object_or_empty (spec img)) ''components'' as_object;
         spc = oput_new ''devices'' (JObj []) spc
     in case get_then spc ''devices'' as_object of
          None \<Rightarrow> Inr spc
        | Some devices \<Rightarrow>
            rbind (default_disks (default_nic ctx (default_root_disk comps devices)) comps) (\<lambda>devices.
            rbind (default_interfaces devices) (\<lambda>devices.
            let devices = default_channels (default_serial
                  (default_video (oget spc ''architecture'') (oget spc ''machine'') (default_graphics devices)))
            in Inr (oput ''devices'' (JObj devices) spc))))"

section \<open>Generated identities\<close>

text \<open>\<open>d\<close> is the SHA-256 of the instance identifier. \<close>

definition system_serial :: "8 word list \<Rightarrow> string" where
  "system_serial d = ''ME-'' @ hex2_upper (d ! 0) @ hex2_upper (d ! 1) @ hex2_upper (d ! 2) @ hex2_upper (d ! 3)"

definition generated_mac :: "8 word list \<Rightarrow> nat \<Rightarrow> string" where
  "generated_mac d i = ''52:54:00:'' @ hex2 (d ! 0) @ '':'' @ hex2 (d ! 1) @ '':'' @ hex2 (d ! 2 + word_of_nat i)"

definition fill_identity :: "8 word list \<Rightarrow> obj \<Rightarrow> obj" where
  "fill_identity d values =
     oput_new ''system_serial'' (JStr (system_serial d)) (oput_new ''uuid'' (JStr (format_uuid (uuid_bytes d))) values)"

definition generate_hardware_identity :: "8 word list \<Rightarrow> obj \<Rightarrow> obj" where
  "generate_hardware_identity d spc =
     (let spc = oput_new ''hardware_identity'' (JObj []) spc in
      case get_then spc ''hardware_identity'' as_object of
        None \<Rightarrow> spc
      | Some identity \<Rightarrow>
          let identity = oput_new ''identity'' (JObj []) identity;
              identity = (case get_then identity ''identity'' as_object of
                  None \<Rightarrow> identity
                | Some values \<Rightarrow> oput ''identity'' (JObj (fill_identity d values)) identity)
          in oput ''hardware_identity'' (JObj identity) spc)"

fun generate_macs :: "8 word list \<Rightarrow> nat \<Rightarrow> json list \<Rightarrow> json list outcome" where
  "generate_macs d i [] = Inr []"
| "generate_macs d i (nic # nics) =
     rbind (if jget nic ''mac'' \<noteq> None then Inr nic
            else case nic of
                JObj n \<Rightarrow> Inr (JObj (oput ''mac'' (JStr (generated_mac d i)) n))
              | _ \<Rightarrow> Inl Panic) (\<lambda>nic.
     rbind (generate_macs d (Suc i) nics) (\<lambda>nics. Inr (nic # nics)))"

definition generate_identities :: "(string \<Rightarrow> 8 word list) \<Rightarrow> obj \<Rightarrow> string \<Rightarrow> obj outcome" where
  "generate_identities sha spc i =
     (let d = sha i; spc = generate_hardware_identity d spc in
      case oget spc ''devices'' of
        Some (JObj devices) \<Rightarrow>
          (case get_then devices ''interfaces'' as_array of
             None \<Rightarrow> Inr spc
           | Some xs \<Rightarrow> rbind (generate_macs d 0 xs) (\<lambda>xs.
               Inr (oput ''devices'' (JObj (oput ''interfaces'' (JArr xs) devices)) spc)))
      | _ \<Rightarrow> Inr spc)"

end
