(* ===== verification/ResolveValidate.thy ===== *)
theory ResolveValidate
  imports Resolve
begin

text \<open>
  \<open>resolution/mod.rs\<close>, validation of a resolved specification: resources, devices, image bindings, state
  paths and the compatibility of a hardware identity; then \<open>resolve_instance\<close>, which composes every stage.
\<close>

section \<open>Validation\<close>

definition opt_is :: "'a option \<Rightarrow> ('a \<Rightarrow> bool) \<Rightarrow> bool" where
  "opt_is x p = (case x of None \<Rightarrow> False | Some a \<Rightarrow> p a)"

lemma opt_is_simps [simp]: "opt_is None p = False" "opt_is (Some a) p = p a"
  by (simp_all add: opt_is_def)

abbreviation u64_max :: nat where "u64_max \<equiv> nat (2 ^ 64 - 1)"

definition saturating_mul :: "nat \<Rightarrow> nat \<Rightarrow> nat" where
  "saturating_mul a b = (if int (a * b) < 2 ^ 64 then a * b else u64_max)"

definition vcpu_topology :: "json \<Rightarrow> (nat \<times> nat \<times> nat \<times> nat) outcome" where
  "vcpu_topology vcpus =
     (case as_u64 vcpus of
        Some n \<Rightarrow> Inr (n, 1, n, 1)
      | None \<Rightarrow>
          rbind (require (as_object vcpus) ''resources.vcpus must be number or object'') (\<lambda>m.
          rbind (require (get_then m ''count'' as_u64) ''resources.vcpus.count is required'') (\<lambda>count.
          Inr (count, unwrap_or (get_then m ''sockets'' as_u64) 1, unwrap_or (get_then m ''cores'' as_u64) 1,
               unwrap_or (get_then m ''threads'' as_u64) 1))))"

definition validate_resources :: "obj \<Rightarrow> unit outcome" where
  "validate_resources spc =
     (case oget spc ''resources'' of
        None \<Rightarrow> Inr ()
      | Some resources \<Rightarrow>
          rbind (require (as_object resources) ''resources must be object'') (\<lambda>resources.
          rbind (require (oget resources ''vcpus'') ''resources.vcpus is required'') (\<lambda>vcpus.
          rbind (vcpu_topology vcpus) (\<lambda>(count, sockets, cores, threads).
          if count = 0 \<or> sockets = 0 \<or> cores = 0 \<or> threads = 0
             \<or> saturating_mul (saturating_mul sockets cores) threads \<noteq> count
          then err (''vCPU topology does not match count '' @ show_nat count) else Inr ()))))"

text \<open>\<open>u8::from_str_radix(part, 16)\<close>: a leading \<open>+\<close> is accepted.\<close>

definition u8_radix16_ok :: "string \<Rightarrow> bool" where
  "u8_radix16_ok s =
     (let digits = (if starts_with s ''+'' then tl s else s)
      in digits \<noteq> [] \<and> list_all is_ascii_hexdigit digits \<and> foldl (\<lambda>n c. 16 * n + hexdigit_val c) 0 digits < 256)"

definition validate_mac :: "string \<Rightarrow> unit outcome" where
  "validate_mac mac =
     (let octets = split_on (CHR '':'') mac in
      if length octets \<noteq> 6 \<or> list_ex (\<lambda>part. length part \<noteq> 2 \<or> \<not> u8_radix16_ok part) octets
      then err (''invalid MAC address '' @ mac) else Inr ())"

definition device_collections :: "string list" where
  "device_collections = [''disks'', ''interfaces'', ''controllers'', ''graphics'', ''video'', ''serial'', ''channels'']"

definition nonempty_id :: "obj \<Rightarrow> string option" where
  "nonempty_id m = Option.bind (get_then m ''id'' as_str) (\<lambda>v. if v = [] then None else Some v)"

definition validate_device :: "string \<Rightarrow> string list \<Rightarrow> json \<Rightarrow> string list outcome" where
  "validate_device collection all_ids item =
     rbind (require (as_object item) (''devices.'' @ collection @ '' entries must be objects'')) (\<lambda>item.
     rbind (require (nonempty_id item) (''devices.'' @ collection @ '' entries require id'')) (\<lambda>i.
       if contains_key item ''remove'' then err (''merge directive remains for device '' @ i)
       else if i \<in> set all_ids then err (''duplicate device id '' @ i)
       else rbind (case (if collection = ''interfaces'' then get_then item ''mac'' as_str else None) of
                None \<Rightarrow> Inr () | Some mac \<Rightarrow> validate_mac mac) (\<lambda>_.
            if get_then item ''address'' as_str = Some [] then err (''device '' @ i @ '' has empty PCI address'')
            else Inr (i # all_ids))))"

definition validate_collection :: "obj \<Rightarrow> string list \<Rightarrow> string \<Rightarrow> string list outcome" where
  "validate_collection devices all_ids collection =
     (case oget devices collection of
        None \<Rightarrow> Inr all_ids
      | Some items \<Rightarrow>
          rbind (require (as_array items) (''devices.'' @ collection @ '' must be array'')) (\<lambda>items.
          for_each items (validate_device collection) all_ids))"

definition disk_dev :: "json \<Rightarrow> string option" where
  "disk_dev disk = Option.bind (jget disk ''target'') (\<lambda>t. jget_then t ''dev'' as_str)"

definition validate_disk_targets :: "obj \<Rightarrow> string list outcome" where
  "validate_disk_targets devices =
     (case get_then devices ''disks'' as_array of
        None \<Rightarrow> Inr []
      | Some disks \<Rightarrow> for_each disks (\<lambda>targets disk. case disk_dev disk of
            None \<Rightarrow> Inr targets
          | Some dev \<Rightarrow> if dev \<in> set targets then err (''duplicate disk target '' @ dev) else Inr (dev # targets)) [])"

definition all_device_ids :: "obj \<Rightarrow> string list" where
  "all_device_ids devices = List.map_filter id_of (concat (List.map_filter (\<lambda>(_, v). as_array v) devices))"

definition boot_order :: "obj \<Rightarrow> json list option" where
  "boot_order spc = Option.bind (oget spc ''boot'') (\<lambda>b. jget_then b ''order'' as_array)"

definition validate_boot :: "obj \<Rightarrow> obj \<Rightarrow> unit outcome" where
  "validate_boot spc devices =
     (case boot_order spc of
        None \<Rightarrow> Inr ()
      | Some boot \<Rightarrow> check_all boot (\<lambda>entry.
          rbind (require (as_str entry) ''boot.order entries must be strings'') (\<lambda>i.
          if i \<in> set (all_device_ids devices) then Inr () else err (''boot references unknown device '' @ i))))"

definition validate_devices :: "obj \<Rightarrow> unit outcome" where
  "validate_devices spc =
     (case oget spc ''devices'' of
        None \<Rightarrow> Inr ()
      | Some devices \<Rightarrow>
          rbind (require (as_object devices) ''devices must be object'') (\<lambda>devices.
          rbind (for_each device_collections (validate_collection devices) []) (\<lambda>_.
          rbind (validate_disk_targets devices) (\<lambda>_. validate_boot spc devices))))"

definition validate_artifact :: "obj \<Rightarrow> string \<Rightarrow> unit outcome" where
  "validate_artifact artifact nm =
     rbind (require (get_then artifact ''digest'' as_str) (''artifact for '' @ nm @ '' has no digest'')) (\<lambda>dig.
     let hex = unwrap_or (strip_prefix dig ''sha256:'') dig in
     if length hex \<noteq> 64 \<or> \<not> list_all is_ascii_hexdigit hex
     then err (''artifact for '' @ nm @ '' has invalid SHA-256 digest'')
     else rbind (require (get_then artifact ''path'' as_str) (''artifact for '' @ nm @ '' has no path'')) (\<lambda>path.
       if path \<noteq> ''objects/sha256/'' @ hex
       then err (''artifact for '' @ nm @ '' is not bound to its immutable object'') else Inr ()))"

definition disk_component :: "json \<Rightarrow> string option" where
  "disk_component disk = or_else (Option.bind (jpointer disk [''source'', ''component'']) as_str)
     (Option.bind (jpointer disk [''source'', ''image_component'']) as_str)"

definition validate_disk_binding :: "obj \<Rightarrow> json \<Rightarrow> unit outcome" where
  "validate_disk_binding comps disk =
     (case disk_component disk of
        None \<Rightarrow> Inr ()
      | Some component \<Rightarrow>
          rbind (require (get_then comps component as_object) (''disk references missing image component '' @ component)) (\<lambda>documented.
          case oget documented ''artifact'' of
            None \<Rightarrow> err (''image component '' @ component @ '' has no immutable artifact'')
          | Some artifact \<Rightarrow>
              rbind (require (as_object artifact) (''image component '' @ component @ ''.artifact must be an object'')) (\<lambda>artifact.
              validate_artifact artifact component)))"

definition validate_firmware_part :: "obj \<Rightarrow> string \<Rightarrow> unit outcome" where
  "validate_firmware_part firmware part =
     (case get_then firmware part as_object of
        None \<Rightarrow> Inr ()
      | Some sec \<Rightarrow>
          rbind (case oget sec ''artifact'' of
              None \<Rightarrow> Inr ()
            | Some artifact \<Rightarrow> rbind (require (as_object artifact) (''firmware.'' @ part @ ''.artifact must be an object''))
                (\<lambda>artifact. validate_artifact artifact part)) (\<lambda>_.
          case Option.bind (get_then sec ''template'' as_object) (\<lambda>t. get_then t ''artifact'' as_object) of
            None \<Rightarrow> Inr () | Some artifact \<Rightarrow> validate_artifact artifact part))"

definition validate_image_bindings :: "obj \<Rightarrow> image_document \<Rightarrow> unit outcome" where
  "validate_image_bindings spc img =
     (let comps = unwrap_or (jget_then (spec img) ''components'' as_object) [] in
      case get_then spc ''devices'' as_object of
        None \<Rightarrow> Inr ()
      | Some devices \<Rightarrow>
          rbind (case get_then devices ''disks'' as_array of
              None \<Rightarrow> Inr () | Some disks \<Rightarrow> check_all disks (validate_disk_binding comps)) (\<lambda>_.
          case get_then spc ''firmware'' as_object of
            None \<Rightarrow> Inr ()
          | Some firmware \<Rightarrow> check_all [''loader'', ''nvram''] (validate_firmware_part firmware)))"

definition state_paths :: "obj \<Rightarrow> (string \<times> path) list" where
  "state_paths spc =
     (case Option.bind (get_then spc ''firmware'' as_object) (\<lambda>f. Option.bind (oget f ''nvram'') (\<lambda>v. jget_then v ''path'' as_str)) of
        None \<Rightarrow> [] | Some p \<Rightarrow> [(''firmware.nvram.path'', p)])
     @ (case get_then spc ''devices'' as_object of
          None \<Rightarrow> []
        | Some devices \<Rightarrow> concat (map (\<lambda>c. map (\<lambda>p. (c, p))
            (List.map_filter (\<lambda>item. jget_then item ''path'' as_str) (unwrap_or (get_then devices c as_array) [])))
            [''serial'', ''channels'']))"

definition validate_state_paths :: "obj \<Rightarrow> unit outcome" where
  "validate_state_paths spc = check_all (state_paths spc) (\<lambda>(field, p).
     if is_absolute p \<or> has_parent_dir p then err (field @ '' must remain inside the instance directory'') else Inr ())"

definition machine_of :: "obj \<Rightarrow> string option" where
  "machine_of spc = Option.bind (oget spc ''machine'') (\<lambda>v. or_else (jget_then v ''type'' as_str) (as_str v))"

definition machine_allowed :: "string \<Rightarrow> json list \<Rightarrow> bool" where
  "machine_allowed machine allowed =
     list_ex (\<lambda>a. machine = a \<or> starts_with machine a \<or> starts_with a machine) (List.map_filter as_str allowed)"

definition validate :: "obj \<Rightarrow> image_document \<Rightarrow> unit outcome" where
  "validate spc img =
     (let arch = get_then spc ''architecture'' as_str; image_arch = jget_then (spec img) ''architecture'' as_str in
      if arch = Some [] then err ''architecture cannot be empty''
      else if arch \<noteq> None \<and> image_arch \<noteq> None \<and> arch \<noteq> image_arch
      then err (''image architecture '' @ the image_arch @ '' is incompatible with instance architecture '' @ the arch)
      else if (case (jget_then (spec img) ''compatible_machines'' as_array, machine_of spc) of
                 (Some machines, Some machine) \<Rightarrow> \<not> machine_allowed machine machines | _ \<Rightarrow> False)
      then err (''machine '' @ the (machine_of spc) @ '' is incompatible with image'')
      else rbind (validate_resources spc) (\<lambda>_.
           rbind (validate_devices spc) (\<lambda>_.
           rbind (validate_image_bindings spc img) (\<lambda>_. validate_state_paths spc))))"

definition engine_field :: "obj \<Rightarrow> string \<Rightarrow> string option" where
  "engine_field spc key = Option.bind (oget spc ''engine'') (\<lambda>v. jget_then v key as_str)"

definition validate_identity_source_compatibility :: "obj \<Rightarrow> hardware_identity_document \<Rightarrow> unit outcome" where
  "validate_identity_source_compatibility spc identity =
     (case jget_then (spec identity) ''compatibility'' as_object of
        None \<Rightarrow> Inr ()
      | Some compatibility \<Rightarrow>
          let required = get_then compatibility ''architecture'' as_str; actual = get_then spc ''architecture'' as_str;
              rev_required = get_then compatibility ''patch_revision'' as_str; rev_actual = engine_field spc ''patch_revision''
          in
          if required \<noteq> None \<and> actual \<noteq> None \<and> required \<noteq> actual
          then err (''hardware identity architecture '' @ the required @ '' is incompatible with instance architecture '' @ the actual)
          else if (case (get_then compatibility ''machines'' as_array, machine_of spc) of
                     (Some machines, Some machine) \<Rightarrow> \<not> machine_allowed machine machines | _ \<Rightarrow> False)
          then err (''hardware identity machine '' @ the (machine_of spc) @ '' is incompatible'')
          else if (case (get_then compatibility ''engine_tracks'' as_array, engine_field spc ''track'') of
                     (Some tracks, Some track) \<Rightarrow> track \<notin> set (List.map_filter as_str tracks) | _ \<Rightarrow> False)
          then err (''hardware identity engine track '' @ the (engine_field spc ''track'') @ '' is incompatible'')
          else if rev_required \<noteq> None \<and> rev_actual \<noteq> None \<and> rev_required \<noteq> rev_actual
          then err (''hardware identity patch revision '' @ the rev_required @ '' is incompatible'')
          else Inr ())"

section \<open>Resolution\<close>

definition owned_keys :: "string list" where
  "owned_keys = [''identity'', ''pci'', ''descriptors'', ''smbios'', ''acpi'', ''sensors'', ''compatibility'']"

text \<open>The entries of \<open>source\<close> under the given keys, inserted one by one.\<close>

definition pick :: "string list \<Rightarrow> obj \<Rightarrow> obj \<Rightarrow> obj" where
  "pick keys source target = fold (\<lambda>k m. case oget source k of None \<Rightarrow> m | Some v \<Rightarrow> oput k v m) keys target"

definition apply_identity :: "obj \<Rightarrow> hardware_identity_document \<Rightarrow> obj outcome" where
  "apply_identity spc identity =
     (let source = object_or_empty (spec identity); spc = oput_new ''hardware_identity'' (JObj []) spc in
      rbind (require (get_then spc ''hardware_identity'' as_object) ''hardware_identity must be object'') (\<lambda>target.
      rbind (merge_object target (pick owned_keys source [])) (\<lambda>target.
      let spc = oput ''hardware_identity'' (JObj target) spc in
      case oget source ''analysis'' of
        None \<Rightarrow> Inr spc
      | Some analysis \<Rightarrow>
          (case (unwrap_or (oget spc ''analysis'') (JObj []), analysis) of
             (JObj current, JObj a) \<Rightarrow> rbind (merge_object current a) (\<lambda>merged. Inr (oput ''analysis'' (JObj merged) spc))
           | _ \<Rightarrow> Inr (oput ''analysis'' analysis spc)))))"

definition image_binding :: "image_document \<Rightarrow> obj" where
  "image_binding img = pick [''components'', ''compatible_engines'', ''target'', ''architecture'', ''compatible_machines'']
     (object_or_empty (spec img)) (oput ''name'' (JStr (name (metadata img))) [])"

definition layered_spec ::
  "profile_document \<Rightarrow> hardware_identity_document option \<Rightarrow> image_document \<Rightarrow> json \<Rightarrow> resolution_context \<Rightarrow> obj outcome" where
  "layered_spec prof identity img ovr ctx =
     rbind (merge_object (object_or_empty (defaults ctx)) (object_or_empty (spec prof))) (\<lambda>spc.
     let spc = normalize_compact_devices spc in
     rbind (case identity of None \<Rightarrow> Inr spc | Some hw \<Rightarrow> apply_identity spc hw) (\<lambda>spc.
     merge_object (oput ''image'' (JObj (image_binding img)) spc) (object_or_empty ovr)))"

definition check_sources :: "profile_document \<Rightarrow> hardware_identity_document option \<Rightarrow> image_document \<Rightarrow> json \<Rightarrow> unit outcome" where
  "check_sources prof identity img ovr =
     rbind (require_kind (doc_kind prof) ''Profile'') (\<lambda>_.
     rbind (require_kind (doc_kind img) ''Image'') (\<lambda>_.
     rbind (case identity of None \<Rightarrow> Inr () | Some hw \<Rightarrow> require_kind (doc_kind hw) ''HardwareIdentity'') (\<lambda>_.
     rbind (validate_profile_fields (spec prof) ''profile.spec'') (\<lambda>_.
     rbind (validate_image_fields (spec img) ''image.spec'') (\<lambda>_.
     rbind (case identity of None \<Rightarrow> Inr () | Some hw \<Rightarrow> validate_identity_fields (spec hw) ''hardware_identity.spec'') (\<lambda>_.
     validate_profile_fields ovr ''overrides.spec''))))))"

definition finished_document ::
  "obj \<Rightarrow> string \<Rightarrow> profile_document \<Rightarrow> hardware_identity_document option \<Rightarrow> image_document \<Rightarrow> domain_instance_document" where
  "finished_document spc i prof identity img =
     \<lparr>api_version = ''machineemu.io/v1'', doc_kind = ''Instance'',
      metadata = \<lparr>name = i, doc_revision = 1, digest = None\<rparr>, spec = JObj spc,
      doc_source = Some \<lparr>from_profile = Some (source_ref_of (metadata prof)),
        from_hardware_identity = map_option (\<lambda>v. source_ref_of (metadata v)) identity,
        from_image = Some (source_ref_of (metadata img)), prov_overrides = []\<rparr>,
      doc_status = Some (json_obj [(''state'', JStr ''created'')])\<rparr>"

definition resolve_instance ::
  "(string \<Rightarrow> 8 word list) \<Rightarrow> profile_document \<Rightarrow> hardware_identity_document option \<Rightarrow> image_document
   \<Rightarrow> json \<Rightarrow> resolution_context \<Rightarrow> domain_instance_document outcome" where
  "resolve_instance sha prof identity img ovr ctx =
     rbind (check_sources prof identity img ovr) (\<lambda>_.
     rbind (layered_spec prof identity img ovr ctx) (\<lambda>spc.
     rbind (choose_engine spc prof img ctx) (\<lambda>spc.
     rbind (expand_defaults spc img ctx) (\<lambda>spc.
     rbind (validate spc img) (\<lambda>_.
     rbind (case identity of None \<Rightarrow> Inr () | Some hw \<Rightarrow> validate_identity_source_compatibility spc hw) (\<lambda>_.
     let i = (if ctx_instance_id ctx = [] then name (metadata prof) else ctx_instance_id ctx) in
     rbind (generate_identities sha spc i) (\<lambda>spc. Inr (finished_document spc i prof identity img))))))))"

end
