(* ===== verification/ResolveProperties.thy ===== *)
theory ResolveProperties
  imports ResolveValidate
begin

text \<open>
  What a resolved instance document promises: consistent vCPU topology, unique devices, a MAC address on
  every interface, confined state paths, a pinned engine, and settings an image cannot replace.
\<close>

section \<open>Stages of a successful resolution\<close>

lemma resolve_stages:
  assumes "resolve_instance sha prof identity img ovr ctx = Inr doc"
  obtains layered chosen expanded m where
    "layered_spec prof identity img ovr ctx = Inr layered" "choose_engine layered prof img ctx = Inr chosen"
    "expand_defaults chosen img ctx = Inr expanded" "validate expanded img = Inr ()"
    "generate_identities sha expanded (if ctx_instance_id ctx = [] then name (metadata prof) else ctx_instance_id ctx) = Inr m"
    "spec doc = JObj m"
  using assms that by (auto simp: resolve_instance_def result_simps Let_def finished_document_def)

lemma validate_parts:
  assumes "validate spc img = Inr ()"
  shows "validate_resources spc = Inr ()" "validate_devices spc = Inr ()" "validate_state_paths spc = Inr ()"
    "validate_image_bindings spc img = Inr ()"
  using assms by (auto simp: validate_def Let_def result_simps split: if_splits)

lemma generate_hardware_identity_other:
  "k \<noteq> ''hardware_identity'' \<Longrightarrow> oget (generate_hardware_identity d spc) k = oget spc k"
  by (auto simp: generate_hardware_identity_def Let_def oget_oput oget_oput_new split: option.splits)

lemma generate_identities_other:
  assumes "generate_identities sha spc i = Inr m" "k \<noteq> ''hardware_identity''" "k \<noteq> ''devices''"
  shows "oget m k = oget spc k"
  using assms generate_hardware_identity_other [OF assms(2)]
  by (auto simp: generate_identities_def Let_def oget_oput result_simps split: option.splits json.splits)

section \<open>A sample resolution\<close>

definition sample_sha :: "string \<Rightarrow> 8 word list" where
  "sample_sha s = replicate 32 (word_of_nat (length s))"

definition sample_digest :: string where "sample_digest = replicate 64 (CHR ''0'')"

definition sample_profile :: profile_document where
  "sample_profile = \<lparr>api_version = ''machineemu.io/v1'', doc_kind = ''Profile'',
     metadata = \<lparr>name = ''lab'', doc_revision = 1, digest = None\<rparr>,
     spec = JObj [(''engine'', JStr ''stable''), (''resources'', JObj [(''vcpus'', JNum (PosInt 4))])]\<rparr>"

definition sample_image :: "string \<Rightarrow> string \<Rightarrow> image_document" where
  "sample_image nm format = \<lparr>api_version = ''machineemu.io/v1'', doc_kind = ''Image'',
     metadata = \<lparr>name = nm, doc_revision = 1, digest = None\<rparr>,
     spec = JObj [(''components'', JObj [(''root_disk'', JObj
       [(''artifact'', JObj [(''digest'', JStr sample_digest), (''path'', JStr (''objects/sha256/'' @ sample_digest))]),
        (''format'', JStr format)])])]\<rparr>"

definition sample_context :: resolution_context where
  "sample_context = \<lparr>ctx_instance_id = [], ctx_engines = [\<lparr>cap_track = ''stable'', cap_build_digest = Some ''d'',
     cap_executable = Some ''qemu'', cap_patch_revision = None, cap_machines = []\<rparr>], default_network = None, defaults = JNull\<rparr>"

definition sample_resolution :: "string \<Rightarrow> string \<Rightarrow> domain_instance_document outcome" where
  "sample_resolution nm format = resolve_instance sample_sha sample_profile None (sample_image nm format) JNull sample_context"

definition sample_spec :: "string \<Rightarrow> string \<Rightarrow> obj" where
  "sample_spec nm format = (case sample_resolution nm format of Inr doc \<Rightarrow> object_or_empty (spec doc) | Inl _ \<Rightarrow> [])"

lemma sample_ok: "is_ok (sample_resolution ''win'' ''qcow2'')" "is_ok (sample_resolution ''linux'' ''raw'')"
  by code_simp+

lemma sample_doc:
  assumes "is_ok (sample_resolution nm format)"
  obtains doc where "resolve_instance sample_sha sample_profile None (sample_image nm format) JNull sample_context = Inr doc"
    "spec doc = JObj (sample_spec nm format)"
proof -
  obtain doc where doc: "sample_resolution nm format = Inr doc" using assms by (auto simp: is_ok_iff)
  then obtain m where "spec doc = JObj m" unfolding sample_resolution_def by (elim resolve_stages) auto
  with doc that show thesis by (simp add: sample_spec_def sample_resolution_def object_or_empty_def)
qed

section \<open>Topology\<close>

lemma saturating_mul_min: "saturating_mul a b = min (a * b) u64_max"
proof -
  have bound: "int n < 2 ^ 64 \<longleftrightarrow> n \<le> u64_max" for n by (subst le_nat_iff) auto
  show ?thesis unfolding saturating_mul_def bound min_def ..
qed


text \<open>
  A resolved instance has a vCPU topology that multiplies out. \<open>count\<close>, \<open>sockets\<close>, \<open>cores\<close> and \<open>threads\<close> are
  positive and their product is \<open>count\<close>, unless the product exceeds the range of \<open>u64\<close> and \<open>count\<close> is
  \<open>u64::MAX\<close>.
\<close>

theorem resolved_topology:
  assumes "resolve_instance sha prof identity img ovr ctx = Inr doc" "spec doc = JObj m"
    and "oget m ''resources'' = Some r" "jget r ''vcpus'' = Some v"
  shows "\<exists>count sockets cores threads. vcpu_topology v = Inr (count, sockets, cores, threads)
    \<and> 0 < count \<and> 0 < sockets \<and> 0 < cores \<and> 0 < threads
    \<and> (sockets * cores * threads = count \<or> u64_max < sockets * cores * threads \<and> count = u64_max
       \<or> u64_max < sockets * cores \<and> count = u64_max)"
proof -
  from assms(1) obtain expanded i where e: "validate expanded img = Inr ()" "generate_identities sha expanded i = Inr m"
    using assms(2) by (elim resolve_stages) auto
  have "oget expanded ''resources'' = Some r"
    using generate_identities_other [OF e(2), of "''resources''"] assms(3) by simp
  moreover obtain rm where "r = JObj rm" "oget rm ''vcpus'' = Some v"
    using assms(4) by (auto simp: jget_Some_iff)
  ultimately obtain count sockets cores threads where t: "vcpu_topology v = Inr (count, sockets, cores, threads)"
    "count \<noteq> 0" "sockets \<noteq> 0" "cores \<noteq> 0" "threads \<noteq> 0" "saturating_mul (saturating_mul sockets cores) threads = count"
    using validate_parts(1) [OF e(1)] by (auto simp: validate_resources_def result_simps split: if_splits)
  have "sockets * cores * threads = count \<or> u64_max < sockets * cores * threads \<and> count = u64_max
       \<or> u64_max < sockets * cores \<and> count = u64_max"
  proof (cases "sockets * cores \<le> u64_max")
    case True
    then have "saturating_mul sockets cores = sockets * cores" by (simp add: saturating_mul_min)
    with t(6) show ?thesis by (auto simp: saturating_mul_min min_def split: if_splits)
  next
    case False
    then have "saturating_mul sockets cores = u64_max" by (simp add: saturating_mul_min)
    with t(5,6) have "count = u64_max" by (auto simp: saturating_mul_min min_def split: if_splits)
    with False show ?thesis by simp
  qed
  with t show ?thesis by auto
qed

theorem resolved_topology_witness:
  "\<exists>v count. jget (the (oget (sample_spec ''win'' ''qcow2'') ''resources'')) ''vcpus'' = Some v
     \<and> vcpu_topology v = Inr (count, 1, 4, 1) \<and> 0 < count"
proof -
  let ?r = "JObj [(''vcpus'', JObj [(''cores'', JNum (PosInt 4)), (''count'', JNum (PosInt 4)),
      (''sockets'', JNum (PosInt 1)), (''threads'', JNum (PosInt 1))])]"
  have r: "oget (sample_spec ''win'' ''qcow2'') ''resources'' = Some ?r" by code_simp
  obtain v where v: "jget ?r ''vcpus'' = Some v" "v = JObj [(''cores'', JNum (PosInt 4)), (''count'', JNum (PosInt 4)),
      (''sockets'', JNum (PosInt 1)), (''threads'', JNum (PosInt 1))]" by simp
  have t: "vcpu_topology v = Inr (4, 1, 4, 1)" unfolding v(2) by code_simp
  obtain doc where "resolve_instance sample_sha sample_profile None (sample_image ''win'' ''qcow2'') JNull sample_context = Inr doc"
    "spec doc = JObj (sample_spec ''win'' ''qcow2'')" by (rule sample_doc [OF sample_ok(1)])
  from resolved_topology [OF this r v(1)] r v(1) t show ?thesis by auto
qed

section \<open>Devices\<close>

definition collection_items :: "obj \<Rightarrow> string \<Rightarrow> json list" where
  "collection_items devices c = unwrap_or (get_then devices c as_array) []"

definition all_items :: "obj \<Rightarrow> json list" where
  "all_items devices = concat (map (collection_items devices) device_collections)"

lemma validate_device_Inr:
  "validate_device c ids item = Inr ids' \<Longrightarrow>
   \<exists>i. id_of item = Some i \<and> i \<noteq> [] \<and> i \<notin> set ids \<and> ids' = i # ids \<and> is_object item"
  by (auto simp: validate_device_def result_simps nonempty_id_def id_of_def jget_then_def get_then_def as_object_Some_iff
      bind_eq_Some_conv split: if_splits)

lemma validate_items_Inr:
  "for_each items (validate_device c) ids = Inr ids' \<Longrightarrow> distinct ids \<Longrightarrow>
   map Some ids' = rev (map id_of items) @ map Some ids \<and> distinct ids' \<and> list_all is_object items
     \<and> Some [] \<notin> set (map id_of items)"
proof (induction items arbitrary: ids)
  case (Cons item items)
  from Cons.prems(1) obtain ids1 where step: "validate_device c ids item = Inr ids1"
    "for_each items (validate_device c) ids1 = Inr ids'" by (auto simp: result_simps)
  from validate_device_Inr [OF step(1)] obtain i where i: "id_of item = Some i" "i \<noteq> []" "i \<notin> set ids"
    "ids1 = i # ids" "is_object item" by blast
  with Cons.IH [OF step(2)] Cons.prems(2) show ?case by auto
qed simp

lemma validate_collection_Inr:
  assumes "validate_collection devices ids c = Inr ids'" "distinct ids"
  shows "map Some ids' = rev (map id_of (collection_items devices c)) @ map Some ids \<and> distinct ids'
    \<and> list_all is_object (collection_items devices c) \<and> Some [] \<notin> set (map id_of (collection_items devices c))"
  using assms validate_items_Inr
  by (force simp: validate_collection_def collection_items_def get_then_def result_simps split: option.splits)

lemma validate_collections_Inr:
  "for_each cs (validate_collection devices) ids = Inr ids' \<Longrightarrow> distinct ids \<Longrightarrow>
   map Some ids' = rev (map id_of (concat (map (collection_items devices) cs))) @ map Some ids \<and> distinct ids'
     \<and> list_all is_object (concat (map (collection_items devices) cs))
     \<and> Some [] \<notin> set (map id_of (concat (map (collection_items devices) cs)))"
proof (induction cs arbitrary: ids)
  case (Cons c cs)
  from Cons.prems(1) obtain ids1 where step: "validate_collection devices ids c = Inr ids1"
    "for_each cs (validate_collection devices) ids1 = Inr ids'" by (auto simp: result_simps)
  from validate_collection_Inr [OF step(1) Cons.prems(2)] Cons.IH [OF step(2)] show ?case
    by auto
qed simp

lemma distinct_map_Some: "distinct (map Some xs) = distinct xs"
  by (simp add: distinct_map)

lemma validated_items:
  assumes "validate_devices spc = Inr ()" "oget spc ''devices'' = Some (JObj devices)"
  shows "distinct (map id_of (all_items devices)) \<and> list_all is_object (all_items devices)
    \<and> None \<notin> set (map id_of (all_items devices)) \<and> Some [] \<notin> set (map id_of (all_items devices))"
proof -
  from assms obtain ids where "for_each device_collections (validate_collection devices) [] = Inr ids"
    by (auto simp: validate_devices_def result_simps)
  from validate_collections_Inr [OF this] have "map Some ids = rev (map id_of (all_items devices))" "distinct ids"
    "list_all is_object (all_items devices)" "Some [] \<notin> set (map id_of (all_items devices))"
    by (simp_all add: all_items_def)
  moreover from this(1) have "set (map id_of (all_items devices)) = set (map Some ids)" by simp
  moreover have "distinct (rev (map id_of (all_items devices)))"
    using calculation(1,2) by (metis distinct_map_Some)
  ultimately show ?thesis by (metis (no_types) ex_map_conv distinct_rev option.distinct(1))
qed

lemma id_of_oput_mac: "id_of (JObj (oput ''mac'' v n)) = id_of (JObj n)"
  by (simp add: id_of_def jget_then_def oget_oput)

lemma generate_macs_Inr:
  "generate_macs d i nics = Inr out \<Longrightarrow> map id_of out = map id_of nics \<and> (\<forall>nic \<in> set out. jget nic ''mac'' \<noteq> None)
    \<and> length out = length nics"
proof (induction nics arbitrary: i out)
  case (Cons nic nics)
  then show ?case
    by (auto simp: result_simps id_of_oput_mac oget_oput split: if_splits json.splits)
qed simp

lemma generate_macs_total: "list_all is_object nics \<Longrightarrow> \<exists>out. generate_macs d i nics = Inr out"
proof (induction nics arbitrary: i)
  case (Cons nic nics)
  then obtain n where "nic = JObj n" by (auto simp: is_object_iff)
  with Cons.IH [of "Suc i"] Cons.prems show ?case by auto
qed simp

lemma generate_identities_devices:
  assumes "generate_identities sha spc i = Inr m" "oget m ''devices'' = Some (JObj devices)"
  shows "\<exists>devices0. oget spc ''devices'' = Some (JObj devices0) \<and> map id_of (all_items devices) = map id_of (all_items devices0)
    \<and> (\<forall>nic \<in> set (collection_items devices ''interfaces''). jget nic ''mac'' \<noteq> None)"
proof -
  have same: "oget (generate_hardware_identity d spc) ''devices'' = oget spc ''devices''" for d
    by (rule generate_hardware_identity_other) simp
  from assms(1) obtain devices0 where d0: "oget spc ''devices'' = Some (JObj devices0)"
    using assms(2) by (auto simp: generate_identities_def Let_def same split: option.splits json.splits)
  show ?thesis
  proof (cases "get_then devices0 ''interfaces'' as_array")
    case None
    with assms d0 have "devices = devices0"
      by (auto simp: generate_identities_def Let_def same)
    with d0 None show ?thesis by (simp add: collection_items_def)
  next
    case (Some xs)
    with assms d0 obtain ys where ys: "generate_macs (sha i) 0 xs = Inr ys" "devices = oput ''interfaces'' (JArr ys) devices0"
      by (auto simp: generate_identities_def Let_def same result_simps oget_oput)
    have "collection_items devices c = (if c = ''interfaces'' then ys else collection_items devices0 c)" for c
      by (simp add: ys(2) collection_items_def get_then_def oget_oput)
    moreover have "collection_items devices0 ''interfaces'' = xs" using Some by (simp add: collection_items_def)
    ultimately have "map id_of (collection_items devices c) = map id_of (collection_items devices0 c)" for c
      using generate_macs_Inr [OF ys(1)] by auto
    then have "map id_of (all_items devices) = map id_of (all_items devices0)"
      by (simp add: all_items_def map_concat comp_def)
    moreover have "collection_items devices ''interfaces'' = ys"
      by (simp add: ys(2) collection_items_def get_then_def oget_oput)
    ultimately show ?thesis using d0 generate_macs_Inr [OF ys(1)] by auto
  qed
qed

text \<open>
  C9: In a resolved instance every device of the seven collections has a nonempty identifier, no two
  devices share one, and every network interface has a MAC address.
\<close>

theorem resolved_devices:
  assumes "resolve_instance sha prof identity img ovr ctx = Inr doc" "spec doc = JObj m"
    and "oget m ''devices'' = Some (JObj devices)"
  shows "distinct (map id_of (all_items devices)) \<and> None \<notin> set (map id_of (all_items devices))
    \<and> Some [] \<notin> set (map id_of (all_items devices))
    \<and> (\<forall>nic \<in> set (collection_items devices ''interfaces''). jget nic ''mac'' \<noteq> None)"
proof -
  from assms(1) obtain expanded i where e: "validate expanded img = Inr ()" "generate_identities sha expanded i = Inr m"
    using assms(2) by (elim resolve_stages) auto
  from generate_identities_devices [OF e(2) assms(3)] obtain devices0 where d:
    "oget expanded ''devices'' = Some (JObj devices0)" "map id_of (all_items devices) = map id_of (all_items devices0)"
    "\<forall>nic \<in> set (collection_items devices ''interfaces''). jget nic ''mac'' \<noteq> None" by blast
  from validated_items [OF validate_parts(2) [OF e(1)] d(1)] d(2,3) show ?thesis by metis
qed

theorem resolved_devices_witness:
  "\<exists>devices. oget (sample_spec ''win'' ''qcow2'') ''devices'' = Some (JObj devices)
     \<and> map id_of (all_items devices) = [Some ''root'', Some ''net0'', Some ''video0''] \<and> distinct (map id_of (all_items devices))"
proof -
  have "\<exists>devices. oget (sample_spec ''win'' ''qcow2'') ''devices'' = Some (JObj devices)"
  proof -
    have "opt_is (oget (sample_spec ''win'' ''qcow2'') ''devices'') is_object" by code_simp
    then show ?thesis by (cases "oget (sample_spec ''win'' ''qcow2'') ''devices''") (auto simp: is_object_iff)
  qed
  then obtain devices where d: "oget (sample_spec ''win'' ''qcow2'') ''devices'' = Some (JObj devices)" by blast
  have "map_option (\<lambda>v. map id_of (all_items (object_or_empty v))) (oget (sample_spec ''win'' ''qcow2'') ''devices'')
      = Some [Some ''root'', Some ''net0'', Some ''video0'']" by code_simp
  with d have ids: "map id_of (all_items devices) = [Some ''root'', Some ''net0'', Some ''video0'']"
    by (simp add: object_or_empty_def)
  obtain doc where "resolve_instance sample_sha sample_profile None (sample_image ''win'' ''qcow2'') JNull sample_context = Inr doc"
    "spec doc = JObj (sample_spec ''win'' ''qcow2'')" by (rule sample_doc [OF sample_ok(1)])
  from resolved_devices [OF this d] have "distinct (map id_of (all_items devices))" by (rule conjunct1)
  with d ids show ?thesis by (intro exI conjI)
qed

section \<open>Generated addresses\<close>

lemma generate_macs_nth:
  "generate_macs d i nics = Inr out \<Longrightarrow> k < length nics \<Longrightarrow> jget (nics ! k) ''mac'' = None \<Longrightarrow>
   jget (out ! k) ''mac'' = Some (JStr (generated_mac d (i + k)))"
proof (induction nics arbitrary: i out k)
  case (Cons nic nics)
  then show ?case
    by (cases k) (auto simp: result_simps oget_oput split: if_splits json.splits)
qed simp

lemma word8_of_nat_inj:
  assumes "m < 256" "n < 256" "(word_of_nat m :: 8 word) = word_of_nat n"
  shows "m = n"
proof -
  have "unat (word_of_nat m :: 8 word) = unat (word_of_nat n :: 8 word)" using assms(3) by (rule arg_cong)
  with assms(1,2) show ?thesis by (simp add: unat_of_nat)
qed

lemma generated_mac_inj:
  assumes "m < 256" "n < 256" "generated_mac d m = generated_mac d n"
  shows "m = n"
proof -
  have "hex2 (d ! 2 + word_of_nat m) = hex2 (d ! 2 + word_of_nat n)"
    using assms(3) by (simp add: generated_mac_def)
  then have "(word_of_nat m :: 8 word) = word_of_nat n" by (simp add: hex2_inj)
  with assms(1,2) show ?thesis by (rule word8_of_nat_inj)
qed

text \<open>
  Up to 256 interfaces, the MAC addresses the resolver generates for one instance are pairwise
  different, and an address that the documents give is never changed.
\<close>

theorem generated_macs_distinct:
  assumes "generate_macs d 0 nics = Inr out" "length nics \<le> 256" "i < j" "j < length nics"
    and "jget (nics ! i) ''mac'' = None" "jget (nics ! j) ''mac'' = None"
  shows "jget (out ! i) ''mac'' = Some (JStr (generated_mac d i)) \<and> jget (out ! j) ''mac'' = Some (JStr (generated_mac d j))
    \<and> generated_mac d i \<noteq> generated_mac d j"
proof -
  have "i < length nics" using assms(3,4) by simp
  with generate_macs_nth [OF assms(1) _ assms(5)] generate_macs_nth [OF assms(1) assms(4,6)]
    generated_mac_inj [of i j d] assms(2-4)
  show ?thesis by auto
qed

theorem generated_macs_distinct_witness:
  "\<exists>out. generate_macs (sample_sha ''lab'') 0 [JObj [], JObj []] = Inr out
     \<and> jget (out ! 0) ''mac'' = Some (JStr ''52:54:00:03:03:03'') \<and> jget (out ! 1) ''mac'' = Some (JStr ''52:54:00:03:03:04'')"
proof -
  let ?d = "sample_sha ''lab''" and ?nics = "[JObj [], JObj []]"
  obtain out where out: "generate_macs ?d 0 ?nics = Inr out"
    using generate_macs_total [of ?nics ?d 0] by auto
  have "jget (?nics ! 0) ''mac'' = None" "jget (?nics ! 1) ''mac'' = None" by simp_all
  from generated_macs_distinct [OF out _ _ _ this] have
    "jget (out ! 0) ''mac'' = Some (JStr (generated_mac ?d 0)) \<and> jget (out ! 1) ''mac'' = Some (JStr (generated_mac ?d 1))"
    by simp
  moreover have "generated_mac ?d 0 = ''52:54:00:03:03:03''" "generated_mac ?d 1 = ''52:54:00:03:03:04''" by code_simp+
  ultimately show ?thesis using out by auto
qed

section \<open>State paths\<close>

lemma check_all_Inr: "check_all xs f = Inr u \<longleftrightarrow> (\<forall>x \<in> set xs. f x = Inr ())"
  by (induction xs) (auto simp: result_simps)

text \<open>
  Validation confines every state path of an instance. A firmware variable store, serial socket or
  channel socket of a validated specification is a relative path without a parent component, so joining
  it to the instance directory cannot leave it.
\<close>

theorem validated_paths_confined:
  assumes "validate spc img = Inr ()" "(field, p) \<in> set (state_paths spc)"
  shows "\<not> is_absolute p \<and> ''..'' \<notin> set (split_on (CHR ''/'') p)
    \<and> (dir \<noteq> [] \<longrightarrow> (\<exists>sep. path_join dir p = dir @ sep @ p))"
proof -
  have "\<not> is_absolute p \<and> \<not> has_parent_dir p"
    using validate_parts(3) [OF assms(1)] assms(2) by (auto simp: validate_state_paths_def check_all_Inr split: if_splits)
  then show ?thesis by (auto simp: has_parent_dir_def path_join_def intro: exI [of _ "[]"])
qed

theorem validated_paths_confined_witness:
  "let spc = [(''devices'', JObj [(''serial'', JArr [JObj [(''id'', JStr ''serial0''), (''path'', JStr ''sockets/serial.sock'')]])]),
     (''resources'', JObj [(''vcpus'', JNum (PosInt 1))])]
   in state_paths spc = [(''serial'', ''sockets/serial.sock'')] \<and> \<not> is_absolute ''sockets/serial.sock''"
proof -
  let ?spc = "[(''devices'', JObj [(''serial'', JArr [JObj [(''id'', JStr ''serial0''), (''path'', JStr ''sockets/serial.sock'')]])]),
     (''resources'', JObj [(''vcpus'', JNum (PosInt 1))])]"
  have v: "validate ?spc (sample_image ''win'' ''qcow2'') = Inr ()" by code_simp
  have p: "state_paths ?spc = [(''serial'', ''sockets/serial.sock'')]" by code_simp
  then have "(''serial'', ''sockets/serial.sock'') \<in> set (state_paths ?spc)" by simp
  from validated_paths_confined [OF v this, of "''/w''"] p show ?thesis by (simp add: Let_def)
qed

section \<open>Engine\<close>

lemma oget_odel_other: "k' \<noteq> k \<Longrightarrow> oget (odel k m) k' = oget m k'"
  by (induction k m rule: odel.induct) auto

lemma default_architecture_other: "k \<noteq> ''architecture'' \<Longrightarrow> oget (default_architecture img s) k = oget s k"
  by (auto simp: default_architecture_def oget_oput split: option.splits)

lemma default_machine_get:
  "oget (default_machine s) k = (if k = ''machine'' then
     (case oget s ''machine'' of None \<Rightarrow> Some (json_obj [(''type'', JStr ''q35'')])
      | Some (JStr m) \<Rightarrow> Some (json_obj [(''type'', JStr m)]) | Some v \<Rightarrow> Some v) else oget s k)"
  by (simp add: default_machine_def oget_oput oget_odel_other split: option.splits json.splits)

lemma default_vcpus_get:
  assumes "default_vcpus s = Inr t"
  shows "\<exists>r. default_resources (oget s ''resources'') = Inr r
    \<and> oget t k = (if k = ''resources'' then Some (JObj r) else oget s k)"
  using assms by (auto simp: default_vcpus_def result_simps oget_oput)

lemma expand_defaults_get:
  assumes "expand_defaults spc img ctx = Inr m" "k \<noteq> ''architecture''" "k \<noteq> ''devices''"
  shows "\<exists>t. default_vcpus (default_machine (default_architecture img spc)) = Inr t \<and> oget m k = oget t k"
  using assms by (auto simp: expand_defaults_def Let_def result_simps oget_oput oget_oput_new split: option.splits)

lemma expand_defaults_other:
  assumes "expand_defaults spc img ctx = Inr m" "k \<notin> {''architecture'', ''machine'', ''resources'', ''devices''}"
  shows "oget m k = oget spc k"
  using expand_defaults_get [OF assms(1), of k] assms(2)
  by (auto simp: default_machine_get default_architecture_other dest: default_vcpus_get [of _ _ k])

text \<open>
  The engine of a resolved instance is a pinned build from the context, whatever the overrides say. Its
  track is the one the profile prefers when it names one and is among the image's compatible tracks when
  the image lists them, and it carries a build digest and an executable.
\<close>

theorem resolved_engine_pinned:
  assumes "resolve_instance sha prof identity img ovr ctx = Inr doc" "spec doc = JObj m"
  shows "\<exists>e \<in> set (ctx_engines ctx). cap_build_digest e \<noteq> None \<and> cap_executable e \<noteq> None
    \<and> (\<forall>p. preferred_track (spec prof) = Some p \<longrightarrow> cap_track e = p)
    \<and> (\<forall>ts. jget_then (spec img) ''compatible_engines'' as_array = Some ts \<longrightarrow> JStr (cap_track e) \<in> set ts)
    \<and> engine_field m ''track'' = Some (cap_track e) \<and> engine_field m ''executable'' = cap_executable e
    \<and> engine_field m ''build_digest'' = cap_build_digest e"
proof -
  from assms obtain layered chosen expanded i where st: "choose_engine layered prof img ctx = Inr chosen"
    "expand_defaults chosen img ctx = Inr expanded" "generate_identities sha expanded i = Inr m"
    by (elim resolve_stages) auto
  have same: "oget m ''engine'' = oget chosen ''engine''"
    using generate_identities_other [OF st(3), of "''engine''"] expand_defaults_other [OF st(2), of "''engine''"] by simp
  let ?p = "engine_matches (preferred_track (spec prof))
        (map_option (List.map_filter as_str) (jget_then (spec img) ''compatible_engines'' as_array))"
  from st(1) obtain e v w where e: "find ?p (ctx_engines ctx) = Some e" "cap_build_digest e \<noteq> None" "cap_executable e \<noteq> None"
    "oget chosen ''engine'' = Some (engine_json e v w)"
    by (auto simp: choose_engine_def Let_def result_simps oget_oput split: if_splits)
  then have "e \<in> set (ctx_engines ctx)" "?p e" by (auto simp: find_Some_iff)
  moreover have "x \<in> set (List.map_filter as_str ts) \<Longrightarrow> JStr x \<in> set ts" for x ts
    by (induction ts) (auto simp: List.map_filter_simps as_str_Some_iff split: option.splits)
  with \<open>?p e\<close> have "(\<forall>p. preferred_track (spec prof) = Some p \<longrightarrow> cap_track e = p)
      \<and> (\<forall>ts. jget_then (spec img) ''compatible_engines'' as_array = Some ts \<longrightarrow> JStr (cap_track e) \<in> set ts)"
    by (auto simp: engine_matches_def)
  ultimately show ?thesis using e same
    by (auto simp: engine_field_def engine_json_def jget_then_def json_obj_def opt_str_def intro!: bexI [of _ e])
qed

theorem resolved_engine_pinned_witness:
  "engine_field (sample_spec ''win'' ''qcow2'') ''track'' = Some ''stable''"
proof -
  obtain doc where "resolve_instance sample_sha sample_profile None (sample_image ''win'' ''qcow2'') JNull sample_context = Inr doc"
    "spec doc = JObj (sample_spec ''win'' ''qcow2'')" by (rule sample_doc [OF sample_ok(1)])
  from resolved_engine_pinned [OF this] show ?thesis by (auto simp: sample_context_def)
qed

section \<open>Image isolation\<close>

definition agree :: "obj \<Rightarrow> obj \<Rightarrow> bool" where
  "agree s t \<longleftrightarrow> (\<forall>k. k \<notin> {''image'', ''engine'', ''architecture'', ''devices''} \<longrightarrow> oget s k = oget t k)"

lemma agree_merge:
  assumes "merge_object b1 h = Inr o1" "merge_object b2 h = Inr o2" "agree b1 b2" "distinct (map fst h)"
  shows "agree o1 o2"
  unfolding agree_def
proof (intro allI impI)
  fix k :: string assume "k \<notin> {''image'', ''engine'', ''architecture'', ''devices''}"
  with assms(3) have "oget b1 k = oget b2 k" by (simp add: agree_def)
  with merge_object_lookup [OF assms(1,4), of k] merge_object_lookup [OF assms(2,4), of k]
    merged_value_cong [OF this]
  show "oget o1 k = oget o2 k" by (cases "map_of h k") auto
qed

lemma agree_layered:
  assumes "layered_spec prof identity img1 ovr ctx = Inr s1" "layered_spec prof identity img2 ovr ctx = Inr s2" "wf_json ovr"
  shows "agree s1 s2"
proof -
  have "ordered (object_or_empty ovr)"
    using assms(3) by (cases ovr) (auto simp: object_or_empty_def)
  then have d: "distinct (map fst (object_or_empty ovr))" by (rule ordered_distinct)
  from assms(1,2) obtain s where
    "merge_object (oput ''image'' (JObj (image_binding img1)) s) (object_or_empty ovr) = Inr s1"
    "merge_object (oput ''image'' (JObj (image_binding img2)) s) (object_or_empty ovr) = Inr s2"
    by (auto simp: layered_spec_def result_simps Let_def)
  then show ?thesis by (rule agree_merge) (simp_all add: d agree_def oget_oput)
qed

lemma choose_engine_other: "choose_engine s prof img ctx = Inr t \<Longrightarrow> k \<noteq> ''engine'' \<Longrightarrow> oget t k = oget s k"
  by (auto simp: choose_engine_def Let_def result_simps oget_oput split: if_splits)

lemma agree_choose_engine:
  assumes "choose_engine s1 prof img1 ctx = Inr t1" "choose_engine s2 prof img2 ctx = Inr t2" "agree s1 s2"
  shows "agree t1 t2"
  using assms(3) choose_engine_other [OF assms(1)] choose_engine_other [OF assms(2)] by (simp add: agree_def)

lemma agree_expand:
  assumes "expand_defaults s1 img1 ctx = Inr t1" "expand_defaults s2 img2 ctx = Inr t2" "agree s1 s2"
  shows "agree t1 t2"
  unfolding agree_def
proof (intro allI impI)
  fix k :: string assume k: "k \<notin> {''image'', ''engine'', ''architecture'', ''devices''}"
  obtain u1 where u1: "default_vcpus (default_machine (default_architecture img1 s1)) = Inr u1" "oget t1 k = oget u1 k"
    using expand_defaults_get [OF assms(1), of k] k by auto
  obtain u2 where u2: "default_vcpus (default_machine (default_architecture img2 s2)) = Inr u2" "oget t2 k = oget u2 k"
    using expand_defaults_get [OF assms(2), of k] k by auto
  have same: "oget (default_machine (default_architecture img1 s1)) j = oget (default_machine (default_architecture img2 s2)) j"
    if "j \<notin> {''image'', ''engine'', ''architecture'', ''devices''}" for j
    using assms(3) that by (simp add: default_machine_get default_architecture_other agree_def)
  obtain r1 where r1: "default_resources (oget (default_machine (default_architecture img1 s1)) ''resources'') = Inr r1"
    "oget u1 k = (if k = ''resources'' then Some (JObj r1) else oget (default_machine (default_architecture img1 s1)) k)"
    using default_vcpus_get [OF u1(1)] by blast
  obtain r2 where r2: "default_resources (oget (default_machine (default_architecture img2 s2)) ''resources'') = Inr r2"
    "oget u2 k = (if k = ''resources'' then Some (JObj r2) else oget (default_machine (default_architecture img2 s2)) k)"
    using default_vcpus_get [OF u2(1)] by blast
  have "r1 = r2" using r1(1) r2(1) same [of "''resources''"] by simp
  then show "oget t1 k = oget t2 k" unfolding u1(2) u2(2) r1(2) r2(2) same [OF k] by simp
qed

lemma agree_generate:
  assumes "generate_identities sha s1 i = Inr t1" "generate_identities sha s2 i = Inr t2" "agree s1 s2"
  shows "agree t1 t2"
  unfolding agree_def
proof (intro allI impI)
  fix k :: string assume k: "k \<notin> {''image'', ''engine'', ''architecture'', ''devices''}"
  have hw: "oget t ''hardware_identity'' = oget (generate_hardware_identity (sha i) s) ''hardware_identity''"
    if "generate_identities sha s i = Inr t" for s t
    using that by (auto simp: generate_identities_def Let_def oget_oput result_simps split: option.splits json.splits)
  have "oget (generate_hardware_identity d s1) ''hardware_identity'' = oget (generate_hardware_identity d s2) ''hardware_identity''" for d
    using assms(3) by (simp add: agree_def generate_hardware_identity_def Let_def get_then_def oget_oput oget_oput_new split: option.splits)
  with k hw [OF assms(1)] hw [OF assms(2)] generate_identities_other [OF assms(1), of k] generate_identities_other [OF assms(2), of k] assms(3)
  show "oget t1 k = oget t2 k" by (cases "k = ''hardware_identity''") (auto simp: agree_def)
qed

text \<open>
  An image cannot replace profile settings. Resolving the same profile, identity, overrides and context
  with two different images gives specifications that differ at most in the \<open>image\<close> binding, the chosen
  \<open>engine\<close>, the \<open>architecture\<close> and the \<open>devices\<close>; machine, firmware, resources, identity, boot, policy and every
  other field are the same.
\<close>

theorem image_is_isolated:
  assumes "resolve_instance sha prof identity img1 ovr ctx = Inr doc1" "spec doc1 = JObj m1"
    and "resolve_instance sha prof identity img2 ovr ctx = Inr doc2" "spec doc2 = JObj m2" "wf_json ovr"
    and "k \<notin> {''image'', ''engine'', ''architecture'', ''devices''}"
  shows "oget m1 k = oget m2 k"
proof -
  let ?i = "if ctx_instance_id ctx = [] then name (metadata prof) else ctx_instance_id ctx"
  from assms(1,2) obtain l1 c1 e1 where 1: "layered_spec prof identity img1 ovr ctx = Inr l1"
    "choose_engine l1 prof img1 ctx = Inr c1" "expand_defaults c1 img1 ctx = Inr e1" "generate_identities sha e1 ?i = Inr m1"
    by (elim resolve_stages) auto
  from assms(3,4) obtain l2 c2 e2 where 2: "layered_spec prof identity img2 ovr ctx = Inr l2"
    "choose_engine l2 prof img2 ctx = Inr c2" "expand_defaults c2 img2 ctx = Inr e2" "generate_identities sha e2 ?i = Inr m2"
    by (elim resolve_stages) auto
  have "agree m1 m2"
    by (rule agree_generate [OF 1(4) 2(4) agree_expand [OF 1(3) 2(3) agree_choose_engine [OF 1(2) 2(2) agree_layered [OF 1(1) 2(1) assms(5)]]]])
  with assms(6) show ?thesis by (simp add: agree_def)
qed

theorem image_is_isolated_witness:
  "oget (sample_spec ''win'' ''qcow2'') ''hardware_identity'' = oget (sample_spec ''linux'' ''raw'') ''hardware_identity''
   \<and> oget (sample_spec ''win'' ''qcow2'') ''image'' \<noteq> oget (sample_spec ''linux'' ''raw'') ''image''"
proof -
  obtain doc1 where 1: "resolve_instance sample_sha sample_profile None (sample_image ''win'' ''qcow2'') JNull sample_context = Inr doc1"
    "spec doc1 = JObj (sample_spec ''win'' ''qcow2'')" by (rule sample_doc [OF sample_ok(1)])
  obtain doc2 where 2: "resolve_instance sample_sha sample_profile None (sample_image ''linux'' ''raw'') JNull sample_context = Inr doc2"
    "spec doc2 = JObj (sample_spec ''linux'' ''raw'')" by (rule sample_doc [OF sample_ok(2)])
  have "oget (sample_spec ''win'' ''qcow2'') ''image'' \<noteq> oget (sample_spec ''linux'' ''raw'') ''image''" by code_simp
  with image_is_isolated [OF 1 2, of "''hardware_identity''"] show ?thesis by simp
qed

section \<open>A panic\<close>

text \<open>
  A disk override whose \<open>driver\<close> is a string makes the resolver panic instead of reporting an error, when
  the image component of the disk declares a format; the same driver is an error when it does not.
\<close>

theorem driver_string_panics:
  "resolve_instance sample_sha sample_profile None (sample_image ''win'' ''qcow2'')
     (JObj [(''devices'', JObj [(''disks'', JArr [JObj [(''driver'', JStr ''qemu''), (''id'', JStr ''root'')]])])])
     sample_context = Inl Panic
   \<and> default_disk None 0 0 (JObj [(''driver'', JStr ''qemu''), (''id'', JStr ''root'')]) = err ''disk driver must be object''"
  by code_simp

end
