(* ===== verification/Text.thy ===== *)
theory Text
  imports Prelude
begin

text \<open>
  The text functions of Rust's \<open>str\<close> that several components use: trimming, splitting at white space and at a
  separator, lines. A string is its UTF-8 bytes.
\<close>

section \<open>Trimming\<close>

text \<open>\<open>str::trim\<close>: the UTF-8 forms of the Unicode \<open>White_Space\<close> characters.\<close>

definition white_space :: "string list" where
  "white_space = map (map char_of) ([[9], [10], [11], [12], [13], [32], [0xC2, 0x85], [0xC2, 0xA0], [0xE1, 0x9A, 0x80]]
     @ map (\<lambda>b. [0xE2, 0x80, b]) ([0x80..<0x8B] @ [0xA8, 0xA9, 0xAF]) @ [[0xE2, 0x81, 0x9F], [0xE3, 0x80, 0x80 :: nat]])"

text \<open>The same list with its characters written out, for evaluation.\<close>

lemma white_space_chars [code]:
  "white_space = [[CHR 0x09], [CHR 0x0A], [CHR 0x0B], [CHR 0x0C], [CHR 0x0D], [CHR 0x20], [CHR 0xC2, CHR 0x85], [CHR 0xC2, CHR 0xA0],
   [CHR 0xE1, CHR 0x9A, CHR 0x80], [CHR 0xE2, CHR 0x80, CHR 0x80], [CHR 0xE2, CHR 0x80, CHR 0x81], [CHR 0xE2, CHR 0x80, CHR 0x82], [CHR 0xE2, CHR 0x80, CHR 0x83],
   [CHR 0xE2, CHR 0x80, CHR 0x84], [CHR 0xE2, CHR 0x80, CHR 0x85], [CHR 0xE2, CHR 0x80, CHR 0x86], [CHR 0xE2, CHR 0x80, CHR 0x87], [CHR 0xE2, CHR 0x80, CHR 0x88],
   [CHR 0xE2, CHR 0x80, CHR 0x89], [CHR 0xE2, CHR 0x80, CHR 0x8A], [CHR 0xE2, CHR 0x80, CHR 0xA8], [CHR 0xE2, CHR 0x80, CHR 0xA9], [CHR 0xE2, CHR 0x80, CHR 0xAF],
   [CHR 0xE2, CHR 0x81, CHR 0x9F], [CHR 0xE3, CHR 0x80, CHR 0x80]]"
  by (simp add: white_space_def upt_conv_Cons char_of_def bit_Suc_0_iff)

function trim_prefixes :: "string list \<Rightarrow> string \<Rightarrow> string" where
  "trim_prefixes ws s =
     (case find (\<lambda>w. w \<noteq> [] \<and> starts_with s w) ws of None \<Rightarrow> s | Some w \<Rightarrow> trim_prefixes ws (drop (length w) s))"
  by pat_completeness auto
termination
proof (relation "measure (\<lambda>(ws, s). length s)", simp)
  fix ws and s w :: string
  assume "find (\<lambda>w. w \<noteq> [] \<and> starts_with s w) ws = Some w"
  then have "w \<noteq> []" "starts_with s w" by (auto simp: find_Some_iff)
  then have "w \<noteq> []" "s \<noteq> []" by (auto simp: starts_with_iff)
  then show "((ws, drop (length w) s), ws, s) \<in> measure (\<lambda>(ws, s). length s)" by (cases w; cases s) auto
qed

declare trim_prefixes.simps [simp del]

definition trim :: "string \<Rightarrow> string" where
  "trim s = rev (trim_prefixes (map rev white_space) (rev (trim_prefixes white_space s)))"

lemma trim_prefixes_id: "list_all (\<lambda>w. w = [] \<or> \<not> starts_with s w) ws \<Longrightarrow> trim_prefixes ws s = s"
  by (subst trim_prefixes.simps) (auto simp: list_all_iff find_None_iff split: option.splits dest!: find_Some_iff [THEN iffD1] nth_mem)

definition white_lead :: "nat list" where
  "white_lead = [9, 10, 11, 12, 13, 32, 0x80, 0x81, 0x82, 0x83, 0x84, 0x85, 0x86, 0x87, 0x88, 0x89, 0x8A, 0x9F, 0xA0, 0xA8, 0xA9, 0xAF, 0xC2, 0xE1, 0xE2, 0xE3]"

lemma white_space_ends: "list_all (\<lambda>w. w \<noteq> [] \<and> of_char (hd w) \<in> set white_lead \<and> of_char (last w) \<in> set white_lead) white_space"
  by code_simp

lemma trim_plain:
  assumes "s \<noteq> []" "of_char (hd s) \<notin> set white_lead" "of_char (last s) \<notin> set white_lead"
  shows "trim s = s"
proof -
  have lead: "trim_prefixes ws t = t" if "t \<noteq> []" "of_char (hd t) \<notin> set white_lead"
    "list_all (\<lambda>w. w \<noteq> [] \<and> of_char (hd w) \<in> set white_lead) ws" for ws t
  proof (rule trim_prefixes_id)
    show "list_all (\<lambda>w. w = [] \<or> \<not> starts_with t w) ws"
      using that by (auto simp: list_all_iff starts_with_iff)
  qed
  have "trim_prefixes white_space s = s"
    using assms white_space_ends by (intro lead) (auto simp: list_all_iff)
  moreover have "trim_prefixes (map rev white_space) (rev s) = rev s"
    using assms white_space_ends by (intro lead) (auto simp: list_all_iff hd_rev)
  ultimately show ?thesis by (simp add: trim_def)
qed

section \<open>Splitting\<close>

definition starts_white :: "string \<Rightarrow> bool" where
  "starts_white s \<longleftrightarrow> list_ex (starts_with s) white_space"

text \<open>The bytes before the next white space, and the rest.\<close>

fun until_white :: "string \<Rightarrow> string \<times> string" where
  "until_white [] = ([], [])"
| "until_white (c # s) = (if starts_white (c # s) then ([], c # s) else (case until_white s of (a, b) \<Rightarrow> (c # a, b)))"

lemma until_white_append: "until_white s = (a, b) \<Longrightarrow> s = a @ b"
  by (induction s arbitrary: a) (auto split: if_splits prod.splits)

lemma trim_prefixes_suffix: "\<exists>a. s = a @ trim_prefixes ws s"
proof (induction ws s rule: trim_prefixes.induct)
  case (1 ws s)
  show ?case
  proof (cases "find (\<lambda>w. w \<noteq> [] \<and> starts_with s w) ws")
    case None
    then show ?thesis by (subst trim_prefixes.simps) simp
  next
    case (Some w)
    then have "starts_with s w" by (auto simp: find_Some_iff)
    then have "s = w @ drop (length w) s" by (auto simp: starts_with_iff)
    with 1 [OF Some] show ?thesis by (subst trim_prefixes.simps) (metis Some append.assoc option.simps(5))
  qed
qed

text \<open>\<open>str::split_whitespace\<close>: the words between runs of white space.\<close>

function split_whitespace :: "string \<Rightarrow> string list" where
  "split_whitespace s = (case trim_prefixes white_space s of
       [] \<Rightarrow> []
     | c # t \<Rightarrow> (case until_white t of (a, b) \<Rightarrow> (c # a) # split_whitespace b))"
  by pat_completeness auto
termination
proof (relation "measure length", simp)
  fix s c t a b
  assume "trim_prefixes white_space s = c # t" "(a, b) = until_white t"
  then have "length (c # t) \<le> length s" "length b \<le> length t"
    using trim_prefixes_suffix [of s white_space] until_white_append [of t a b] by (auto simp: length_append dest!: arg_cong [of _ _ length])
  then show "(b, s) \<in> measure length" by simp
qed

declare split_whitespace.simps [simp del]

text \<open>\<open>split_once\<close> and \<open>rsplit_once\<close> at a separator that is not empty.\<close>

fun split_once :: "string \<Rightarrow> string \<Rightarrow> (string \<times> string) option" where
  "split_once sep [] = None"
| "split_once sep (c # s) =
     (if starts_with (c # s) sep then Some ([], drop (length sep) (c # s))
      else map_option (\<lambda>(a, b). (c # a, b)) (split_once sep s))"

definition rsplit_once :: "string \<Rightarrow> string \<Rightarrow> (string \<times> string) option" where
  "rsplit_once sep s = map_option (\<lambda>(a, b). (rev b, rev a)) (split_once (rev sep) (rev s))"

text \<open>\<open>str::lines\<close>: the last line may end without a newline, a carriage return before a newline is dropped.\<close>

definition strip_cr :: "string \<Rightarrow> string" where
  "strip_cr s = (if s \<noteq> [] \<and> last s = CHR 0x0D then butlast s else s)"

definition lines :: "string \<Rightarrow> string list" where
  "lines s = (let parts = split_on (CHR 0x0A) s in map strip_cr (butlast parts) @ (if last parts = [] then [] else [last parts]))"

text \<open>\<open>str::parse::<u64>\<close>: digits with an optional plus sign.\<close>

definition parse_u64 :: "string \<Rightarrow> nat option" where
  "parse_u64 s = parse_u64_digits (case strip_prefix s ''+'' of None \<Rightarrow> s | Some t \<Rightarrow> t)"

text \<open>A number is read back from its text.\<close>

lemma show_nat_digits: "show_nat n \<noteq> [] \<and> list_all is_ascii_digit (show_nat n)"
proof (induction n rule: show_nat.induct)
  case (1 n)
  have digit: "is_ascii_digit (char_of (48 + m))" if "m < 10" for m :: nat
    using that by (simp add: is_ascii_digit_def of_char_mod_256)
  show ?case
  proof (cases "n < 10")
    case True
    with digit [of n] show ?thesis by (subst (1 2) show_nat.simps) simp
  next
    case False
    with 1 digit [of "n mod 10"] show ?thesis by (subst (1 2) show_nat.simps) simp
  qed
qed

lemma nat_of_digits_snoc: "nat_of_digits (s @ [c]) = 10 * nat_of_digits s + digit_val c"
  by (simp add: nat_of_digits_def)

lemma nat_of_show_nat: "nat_of_digits (show_nat n) = n"
proof (induction n rule: show_nat.induct)
  case (1 n)
  have digit: "digit_val (char_of (48 + m)) = m" if "m < 10" for m :: nat
    using that by (simp add: digit_val_def)
  show ?case
  proof (cases "n < 10")
    case True
    with digit [of n] show ?thesis by (subst show_nat.simps) (simp add: nat_of_digits_def)
  next
    case False
    with 1 digit [of "n mod 10"] show ?thesis by (subst show_nat.simps) (simp add: nat_of_digits_snoc)
  qed
qed

lemma parse_show_nat: "int n < 2 ^ 64 \<Longrightarrow> parse_u64 (show_nat n) = Some n"
proof -
  assume n: "int n < 2 ^ 64"
  have "\<not> starts_with (show_nat n) ''+''"
    using show_nat_digits [of n] by (auto simp: starts_with_iff is_ascii_digit_def)
  then show ?thesis
    using n show_nat_digits [of n] by (simp add: parse_u64_def strip_prefix_def parse_u64_digits_def nat_of_show_nat)
qed

end
