(* ===== verification/LaunchText.thy ===== *)
theory LaunchText
  imports Json Text
begin

text \<open>
  \<open>crates/machineemu-core/src/engine/plan.rs\<close>, the text level: errors, typed access to a profile, sizes,
  topology, MAC addresses, CIDs and option escaping. The launch plan itself is built in LaunchArgs and
  LaunchPlan.
\<close>

section \<open>Errors\<close>

text \<open>\<open>engine::Error\<close>; the source of an I/O error is its text.\<close>

datatype engine_error = EngineIo path string | EngineParse path string | Invalid string | Runtime string

type_synonym 'a plan_result = "engine_error + 'a"

definition invalid :: "string \<Rightarrow> 'a plan_result" where
  "invalid s = Inl (Invalid s)"

lemma invalid_simps [simp]: "invalid m \<noteq> Inr a" "Inr a \<noteq> invalid m" "rbind (invalid m) f = invalid m" "\<not> is_ok (invalid m)"
  by (simp_all add: invalid_def)

definition needs :: "'a option \<Rightarrow> string \<Rightarrow> 'a plan_result" where
  "needs x m = (case x of None \<Rightarrow> invalid m | Some a \<Rightarrow> Inr a)"

lemma needs_simps [simp]: "needs None m = invalid m" "needs (Some a) m = Inr a"
  by (simp_all add: needs_def)

lemma needs_Inr_iff [result_simps]: "needs x m = Inr a \<longleftrightarrow> x = Some a"
  by (cases x) simp_all

text \<open>\<open>{value:?}\<close> of a string in a message: quoted, escapes omitted.\<close>

definition debug_str :: "string \<Rightarrow> string" where
  "debug_str s = CHR 0x22 # s @ [CHR 0x22]"

section \<open>Typed access\<close>

definition object :: "json \<Rightarrow> string \<Rightarrow> obj plan_result" where
  "object v nm = needs (as_object v) (nm @ '' must be a mapping'')"

definition nonempty :: "string \<Rightarrow> string option" where
  "nonempty s = (if s = [] then None else Some s)"

definition string_field :: "obj \<Rightarrow> string \<Rightarrow> string plan_result" where
  "string_field v key = needs (Option.bind (get_then v key as_str) nonempty) (key @ '' must be a non-empty string'')"

definition number_field :: "obj \<Rightarrow> string \<Rightarrow> int plan_result" where
  "number_field v key = needs (get_then v key as_i64) (key @ '' must be an integer'')"

definition positive_int :: "json \<Rightarrow> string \<Rightarrow> int plan_result" where
  "positive_int v key =
     rbind (needs (as_i64 v) (key @ '' must be a positive integer'')) (\<lambda>n.
     if n < 1 then invalid (key @ '' must be a positive integer'') else Inr n)"

lemma object_Inr_iff [result_simps]: "object v nm = Inr m \<longleftrightarrow> v = JObj m"
  by (simp add: object_def result_simps as_object_Some_iff)

lemma positive_int_Inr: "positive_int v key = Inr n \<Longrightarrow> 1 \<le> n \<and> as_i64 v = Some n"
  by (auto simp: positive_int_def result_simps split: if_splits)

section \<open>Sizes\<close>

definition memory_suffix :: "string \<Rightarrow> string option" where
  "memory_suffix s =
     (if s \<in> {'''', ''M'', ''MiB''} then Some ''M'' else if s \<in> {''K'', ''KiB''} then Some ''K''
      else if s \<in> {''G'', ''GiB''} then Some ''G'' else if s = ''T'' then Some ''T'' else if s = ''B'' then Some ''B'' else None)"

text \<open>\<open>chars().partition\<close> sends every digit of the text, wherever it stands, to the number.\<close>

definition memory_text :: "json \<Rightarrow> string option" where
  "memory_text v = (case as_str v of Some s \<Rightarrow> Some s | None \<Rightarrow> map_option show_int (as_i64 v))"

definition memory :: "json \<Rightarrow> string plan_result" where
  "memory v =
     rbind (needs (memory_text v) ''profile.resources.memory must be a non-empty size'') (\<lambda>raw.
     let raw = trim raw; digits = filter is_ascii_digit raw; suffix = filter (\<lambda>c. \<not> is_ascii_digit c) raw in
     if digits = [] \<or> unwrap_or (parse_u64_digits digits) 0 = 0
     then invalid ''profile.resources.memory is not a supported size''
     else rbind (needs (memory_suffix suffix) ''profile.resources.memory is not a supported size'') (\<lambda>suffix. Inr (digits @ suffix)))"

text \<open>\<open>parse::<f64>()\<close> of a text of digits and dots.\<close>

definition decimal_ok :: "string \<Rightarrow> bool" where
  "decimal_ok s \<longleftrightarrow> length (filter (\<lambda>c. c = CHR ''.'') s) \<le> 1 \<and> list_ex is_ascii_digit s"

definition disk_size :: "string \<Rightarrow> string plan_result" where
  "disk_size v =
     (let v = trim v;
          nm = takeWhile (\<lambda>c. is_ascii_digit c \<or> c = CHR ''.'') v;
          suffix = dropWhile (\<lambda>c. is_ascii_digit c \<or> c = CHR ''.'') v
      in if suffix = [] then invalid ''profile.storage.disk.size must include a unit''
         else if nm = [] \<or> \<not> decimal_ok nm \<or> suffix \<notin> {''M'', ''G'', ''T'', ''MiB'', ''GiB'', ''TiB''}
         then invalid ''profile.storage.disk.size must use M, G, T, MiB, GiB, or TiB''
         else Inr (nm @ (if suffix = ''MiB'' then ''M'' else if suffix = ''GiB'' then ''G''
                         else if suffix = ''TiB'' then ''T'' else suffix)))"

definition smp :: "obj \<Rightarrow> int \<Rightarrow> string plan_result" where
  "smp r v =
     (case oget r ''topology'' of
        None \<Rightarrow> Inr (show_int v)
      | Some t \<Rightarrow>
          rbind (object t ''profile.resources.topology'') (\<lambda>t.
          rbind (for_each [''sockets'', ''dies'', ''clusters'', ''cores'', ''threads''] (\<lambda>out k.
              case oget t k of
                None \<Rightarrow> Inr out
              | Some x \<Rightarrow> rbind (positive_int x (''profile.resources.topology.'' @ k)) (\<lambda>n. Inr (out @ [k @ ''='' @ show_int n])))
            [show_int v]) (\<lambda>out. Inr (join_with '','' out))))"

definition accelerator :: "string \<Rightarrow> json option \<Rightarrow> string list plan_result" where
  "accelerator a thread =
     (if a = ''kvm'' then Inr [''-accel'', ''kvm'']
      else if a = ''tcg'' then
        let t = unwrap_or (Option.bind thread as_str) ''multi'' in
        if t \<notin> {''single'', ''multi''} then invalid ''profile.resources.accelerator_thread must be single or multi''
        else Inr [''-accel'', ''tcg,thread='' @ t]
      else invalid ''profile.resources.accelerator must be kvm or tcg'')"

definition machine_value :: "string \<Rightarrow> json option \<Rightarrow> json option \<Rightarrow> string plan_result" where
  "machine_value machine smm analysis =
     (let m = (if unwrap_or (Option.bind smm as_bool) False then machine @ '',smm=on'' else machine) in
      if analysis \<noteq> None then invalid ''analysis must be planned with its profile context'' else Inr m)"

section \<open>Addresses\<close>

definition derive_mac :: "(string \<Rightarrow> 8 word list) \<Rightarrow> string \<Rightarrow> string" where
  "derive_mac sha i =
     (let d = sha i in ''52:54:00:'' @ hex2 (d ! 0) @ '':'' @ hex2 (d ! 1) @ '':'' @ hex2 (d ! 2))"

text \<open>\<open>u32::from_be_bytes\<close> and the reduction into the CIDs Linux does not reserve.\<close>

definition u32_be :: "8 word list \<Rightarrow> nat" where
  "u32_be bs = foldl (\<lambda>n b. 256 * n + unat b) 0 bs"

definition cid_of_candidate :: "nat \<Rightarrow> 32 word" where
  "cid_of_candidate candidate = 3 + word_of_nat (candidate mod (2 ^ 32 - 1 - 2))"

definition derive_vsock_cid :: "(string \<Rightarrow> 8 word list) \<Rightarrow> path \<Rightarrow> string option \<Rightarrow> 32 word" where
  "derive_vsock_cid sha runtime i =
     cid_of_candidate (u32_be (take 4 (sha (''machineemu-vsock-cid-v1'' @ [CHR 0x00] @ runtime @ [CHR 0x00] @ unwrap_or i []))))"

definition hex_byte :: "string \<Rightarrow> nat" where
  "hex_byte s = foldl (\<lambda>n c. 16 * n + hexdigit_val c) 0 s"

definition mac :: "string \<Rightarrow> string plan_result" where
  "mac v =
     (let octets = split_on (CHR '':'') v in
      if \<not> (length octets = 6 \<and> list_all (\<lambda>octet. length octet = 2 \<and> list_all is_ascii_hexdigit octet) octets)
      then invalid (''mac address must be six colon-separated hex octets: '' @ debug_str v)
      else if hex_byte (octets ! 0) mod 2 = 1
      then invalid (''mac address '' @ debug_str v @ '' is multicast; the low bit of the first octet must be clear'')
      else Inr (to_ascii_lowercase v))"

text \<open>\<open>escape_prop\<close> and every \<open>replace(',', ",,")\<close> of the planner.\<close>

definition escape_prop :: "string \<Rightarrow> string" where
  "escape_prop v = escape_comma v"

text \<open>\<open>[',', '\n', '\r']\<close> in a plain option value.\<close>

definition plain_option :: "string \<Rightarrow> bool" where
  "plain_option v \<longleftrightarrow> v \<noteq> [] \<and> list_all (\<lambda>c. c \<noteq> CHR '','' \<and> c \<noteq> CHR 0x0A \<and> c \<noteq> CHR 0x0D) v"

end
