(* ===== verification/LaunchArgs.thy ===== *)
theory LaunchArgs
  imports LaunchText
begin

text \<open>
  \<open>engine/plan.rs\<close>, the argument groups: each \<open>append_*\<close> function of the source takes the argument vector built
  so far and returns the longer one or the first error. What the code asks of the file system is an
  environment record.
\<close>

section \<open>Environment and input\<close>

record plan_env =
  is_file :: "path \<Rightarrow> bool"
  canonicalize :: "path \<Rightarrow> string + path"          \<comment> \<open>the error text, or the absolute path\<close>
  load_document :: "path \<Rightarrow> json plan_result"
  read_file :: "path \<Rightarrow> string plan_result"
  sha256 :: "string \<Rightarrow> 8 word list"

record preparation_file = pf_path :: path  pf_seed :: path

record disk_preparation =
  dp_path :: path
  dp_backing :: path
  backing_format :: string
  dp_size :: "string option"

record preparation =
  prep_nvram :: "preparation_file option"
  disk_overlay :: "disk_preparation option"
  tpm_state :: "path option"

definition empty_preparation :: preparation where
  "empty_preparation = \<lparr>prep_nvram = None, disk_overlay = None, tpm_state = None\<rparr>"

definition opt_get :: "json option \<Rightarrow> string \<Rightarrow> json option" where
  "opt_get v k = Option.bind v (\<lambda>x. jget x k)"

definition opt_get_str :: "json option \<Rightarrow> string \<Rightarrow> string option" where
  "opt_get_str v k = Option.bind (opt_get v k) as_str"

text \<open>A key check: the first key (in key order) outside the list is the error.\<close>

definition known_keys :: "obj \<Rightarrow> string list \<Rightarrow> (string \<Rightarrow> string) \<Rightarrow> unit plan_result" where
  "known_keys m keys message = check_all (okeys m) (\<lambda>k. if k \<in> set keys then Inr () else invalid (message k))"

section \<open>Launch settings\<close>

definition validate_boot_settings :: "obj \<Rightarrow> unit plan_result" where
  "validate_boot_settings prof =
     (case oget prof ''boot'' of
        None \<Rightarrow> Inr ()
      | Some boot \<Rightarrow>
          rbind (object boot ''profile.boot'') (\<lambda>boot.
          rbind (known_keys boot [''kernel'', ''initrd'', ''dtb'', ''append'', ''menu'', ''from'', ''once'', ''strict'',
              ''reboot_timeout'', ''splash'', ''timeout''] (\<lambda>k. ''profile.boot.'' @ k @ '' is not supported by the launch planner'')) (\<lambda>_.
          if get_then boot ''from'' as_str = Some ''disk'' \<and> opt_get (oget prof ''storage'') ''disk'' = None
          then invalid ''profile.boot.from=disk requires profile.storage.disk'' else Inr ())))"

definition device_keys :: "string list" where
  "device_keys = [''nic'', ''mac'', ''console'', ''video'', ''audio'', ''usb_tablet'', ''usb_mouse'', ''guest_agent'', ''serial'',
     ''vsock'', ''snapshots'', ''usb'', ''lcd'', ''bluetooth'']"

definition gl_model :: "string \<Rightarrow> bool" where
  "gl_model model \<longleftrightarrow> model = ''virtio-vga-gl'' \<or> model = ''virtio-gpu-gl''"

definition validate_video :: "string \<Rightarrow> obj \<Rightarrow> unit plan_result" where
  "validate_video console_type video =
     rbind (known_keys video [''model'', ''heads'', ''primary''] (\<lambda>k. ''profile.devices.video.'' @ k @ '' is not supported'')) (\<lambda>_.
     if (case oget video ''heads'' of None \<Rightarrow> False | Some v \<Rightarrow> as_u64 v \<noteq> Some 1)
     then invalid ''profile.devices.video.heads only supports 1''
     else if (case oget video ''primary'' of None \<Rightarrow> False | Some v \<Rightarrow> as_bool v \<noteq> Some True)
     then invalid ''profile.devices.video.primary only supports true''
     else rbind (needs (get_then video ''model'' as_str) ''profile.devices.video.model is required'') (\<lambda>model.
       if console_type = ''vnc'' \<and> gl_model model
       then invalid ''profile.devices.console=vnc conflicts with GL video''
       else if \<not> (model = ''vga'' \<or> model = ''virtio-vga'' \<or> gl_model model)
       then invalid (''profile.devices.video.model '' @ debug_str model @ '' is not supported by the launch planner; supported models: vga, virtio-vga, virtio-vga-gl, virtio-gpu-gl'')
       else if gl_model model \<and> console_type \<noteq> ''h264''
       then invalid ''GL video requires profile.devices.console.type=h264'' else Inr ()))"

definition opt_object :: "json option \<Rightarrow> string \<Rightarrow> obj option plan_result" where
  "opt_object v nm = transpose_opt (\<lambda>v. object v nm) v"

definition console_type_of :: "obj option \<Rightarrow> string" where
  "console_type_of console = unwrap_or (Option.bind console (\<lambda>c. get_then c ''type'' as_str)) ''none''"

definition validate_devices_settings :: "obj \<Rightarrow> unit plan_result" where
  "validate_devices_settings devices =
     rbind (known_keys devices device_keys (\<lambda>k. ''profile.devices.'' @ k @ '' is not supported by the launch planner'')) (\<lambda>_.
     if (case oget devices ''vsock'' of None \<Rightarrow> False | Some v \<Rightarrow> \<not> is_boolean v)
     then invalid ''profile.devices.vsock must be a boolean'' else
     rbind (opt_object (oget devices ''console'') ''profile.devices.console'') (\<lambda>console.
     let console_type = console_type_of console in
     if console_type \<notin> {''none'', ''vnc'', ''h264'', ''serial''}
     then invalid ''profile.devices.console.type must be none, vnc, h264, or serial''
     else if (case oget devices ''guest_agent'' of None \<Rightarrow> False | Some v \<Rightarrow> \<not> is_boolean v)
     then invalid ''profile.devices.guest_agent must be a boolean'' else
     rbind (opt_object (oget devices ''serial'') ''profile.devices.serial'') (\<lambda>serial.
     if (case serial of None \<Rightarrow> False
         | Some s \<Rightarrow> unwrap_or (get_then s ''type'' as_str) ''none'' \<notin> {''none'', ''file'', ''socket'', ''stdout''})
     then invalid ''profile.devices.serial.type must be none, file, socket, or stdout''
     else if (case oget devices ''nic'' of None \<Rightarrow> False
         | Some v \<Rightarrow> (case as_str v of None \<Rightarrow> True | Some s \<Rightarrow> s = [] \<or> CHR '','' \<in> set s))
     then invalid ''profile.devices.nic must be a QEMU device name'' else
     rbind (case oget devices ''mac'' of None \<Rightarrow> Inr ()
         | Some address \<Rightarrow> rbind (needs (as_str address) ''profile.devices.mac must be a string'') (\<lambda>a. rbind (mac a) (\<lambda>_. Inr ()))) (\<lambda>_.
     rbind (opt_object (oget devices ''video'') ''profile.devices.video'') (\<lambda>video.
     case video of None \<Rightarrow> Inr () | Some video \<Rightarrow> validate_video console_type video)))))"

definition validate_launch_settings :: "obj \<Rightarrow> unit plan_result" where
  "validate_launch_settings prof =
     rbind (validate_boot_settings prof) (\<lambda>_.
     case oget prof ''devices'' of
       None \<Rightarrow> Inr ()
     | Some devices \<Rightarrow> rbind (object devices ''profile.devices'') validate_devices_settings)"

section \<open>Network\<close>

definition append_network ::
  "string list \<Rightarrow> json option \<Rightarrow> string option \<Rightarrow> path option \<Rightarrow> string option \<Rightarrow> string list plan_result" where
  "append_network argv v nic bridge_helper address =
     rbind (case address of None \<Rightarrow> Inr [] | Some a \<Rightarrow> rbind (mac a) (\<lambda>m. Inr ('',mac='' @ m))) (\<lambda>mac.
     let t = unwrap_or (opt_get_str v ''type'') ''user''; model = unwrap_or nic ''virtio-net-pci'' in
     if t = ''disabled'' then Inr (argv @ [''-nic'', ''none''])
     else if t = ''user'' then Inr (argv @ [''-netdev'', ''user,id=net0'', ''-device'', model @ '',netdev=net0'' @ mac])
     else if t = ''bridge'' then
       rbind (needs (opt_get_str v ''bridge'') ''profile.network.bridge is required for bridge networking'') (\<lambda>b.
       let helper = (case bridge_helper of None \<Rightarrow> [] | Some p \<Rightarrow> '',helper='' @ p) in
       Inr (argv @ [''-netdev'', ''bridge,id=net0,br='' @ b @ helper, ''-device'', model @ '',netdev=net0'' @ mac]))
     else invalid ''profile.network.type must be disabled, user, or bridge'')"

text \<open>The four ports of the UDM Pro: addresses adjacent to the instance's, in the low 24 bits.\<close>

definition bridge_name_ok :: "string \<Rightarrow> bool" where
  "bridge_name_ok b \<longleftrightarrow> length b \<le> 15 \<and> list_all (\<lambda>c. is_ascii_alphanumeric c \<or> c \<in> {CHR ''_'', CHR ''.'', CHR ''-''}) b"

definition port_address :: "string \<Rightarrow> nat \<Rightarrow> string" where
  "port_address base index =
     (let bytes = map (\<lambda>v. word_of_nat (hex_byte v) :: 8 word) (split_on (CHR '':'') base);
          suffix = (push_bit 16 (ucast (bytes ! 3)) OR push_bit 8 (ucast (bytes ! 4)) OR ucast (bytes ! 5)) + (word_of_nat index :: 32 word);
          bytes = bytes[3 := ucast (drop_bit 16 suffix), 4 := ucast (drop_bit 8 suffix), 5 := ucast suffix]
      in join_with '':'' (map hex2 bytes))"

definition udm_backend :: "path option \<Rightarrow> nat \<Rightarrow> obj \<Rightarrow> string plan_result" where
  "udm_backend helper index port =
     rbind (string_field port ''type'') (\<lambda>kind.
     let i = ''udm-port'' @ show_nat index in
     if kind = ''disabled'' then Inr (''hubport,id='' @ i @ '',hubid='' @ show_nat index)
     else if kind = ''user'' then Inr (''user,id='' @ i)
     else if kind = ''bridge'' then
       rbind (string_field port ''bridge'') (\<lambda>bridge.
       if \<not> bridge_name_ok bridge then invalid ''invalid UDM Pro bridge name''
       else Inr (''bridge,id='' @ i @ '',br='' @ bridge
         @ (case helper of None \<Rightarrow> [] | Some p \<Rightarrow> '',helper='' @ escape_comma p)))
     else invalid ''UDM Pro port type must be disabled, user, or bridge'')"

definition udm_port_mac :: "string option \<Rightarrow> nat \<Rightarrow> obj \<Rightarrow> string plan_result" where
  "udm_port_mac address index port =
     (case oget port ''mac'' of
        Some v \<Rightarrow> rbind (needs (as_str v) ''port.mac must be a string'') mac
      | None \<Rightarrow>
          (case address of
             Some base \<Rightarrow> rbind (mac base) (\<lambda>base. Inr (port_address base index))
           | None \<Rightarrow> invalid ''UDM Pro multi-port networking requires an instance identity or a MAC for every port''))"

fun append_udm_ports :: "string list \<Rightarrow> path option \<Rightarrow> string option \<Rightarrow> nat \<Rightarrow> json list \<Rightarrow> string list plan_result" where
  "append_udm_ports argv helper address index [] = Inr argv"
| "append_udm_ports argv helper address index (port # ports) =
     rbind (object port ''UDM Pro network port'') (\<lambda>port.
     rbind (udm_backend helper index port) (\<lambda>backend.
     rbind (udm_port_mac address index port) (\<lambda>m.
     append_udm_ports (argv @ [''-netdev'', backend, ''-net'',
         ''nic,model=alpine-eth-pci,netdev=udm-port'' @ show_nat index @ '',macaddr='' @ m]) helper address (Suc index) ports)))"

definition append_udm_network ::
  "string list \<Rightarrow> json option \<Rightarrow> path option \<Rightarrow> string option \<Rightarrow> string list plan_result" where
  "append_udm_network argv network helper address =
     (case opt_get network ''ports'' of
        Some ports \<Rightarrow>
          rbind (needs (Option.bind (as_array ports) (\<lambda>ps. if length ps = 4 then Some ps else None))
            ''UDM Pro network.ports must contain eth9, eth8, eth10, switch0 (four ports)'') (\<lambda>ports.
          append_udm_ports (argv @ [''-net'', ''none'']) helper address 0 ports)
      | None \<Rightarrow>
          let kind = unwrap_or (opt_get_str network ''type'') ''disabled''; argv = argv @ [''-net'', ''none''] in
          if kind = ''disabled'' then Inr argv
          else rbind (if kind = ''user'' then Inr ''user''
              else if kind = ''bridge'' then
                rbind (needs (opt_get_str network ''bridge'') ''profile.network.bridge is required'') (\<lambda>bridge.
                Inr (''bridge,br='' @ bridge @ (case helper of None \<Rightarrow> [] | Some p \<Rightarrow> '',helper='' @ p)))
              else invalid ''unsupported UDM Pro network type'') (\<lambda>backend.
            rbind (case address of None \<Rightarrow> Inr [] | Some a \<Rightarrow> rbind (mac a) (\<lambda>m. Inr ('',mac='' @ m))) (\<lambda>m.
            Inr (argv @ [''-nic'', backend @ '',model=alpine-eth-pci'' @ m]))))"

section \<open>Devices\<close>

definition socket_chardev :: "string \<Rightarrow> path \<Rightarrow> string" where
  "socket_chardev i p = ''socket,id='' @ i @ '',path='' @ p @ '',server=on,wait=off''"

definition guest_agent_args :: "obj \<Rightarrow> path \<Rightarrow> string list" where
  "guest_agent_args devices runtime =
     (if unwrap_or (get_then devices ''guest_agent'' as_bool) False
      then [''-chardev'', socket_chardev ''qga0'' (path_join runtime ''qga.sock''),
            ''-device'', ''virtio-serial-pci,id=virtio-serial0'',
            ''-device'', ''virtserialport,chardev=qga0,name=org.qemu.guest_agent.0'']
      else [])"

definition serial_args :: "obj \<Rightarrow> path \<Rightarrow> string list" where
  "serial_args devices runtime =
     (case opt_get_str (oget devices ''serial'') ''type'' of
        Some t \<Rightarrow>
          if t = ''socket'' then
            [''-chardev'', socket_chardev ''uart0'' (escape_comma (path_join runtime ''serial.sock''))
               @ '',logfile='' @ escape_comma (path_join runtime ''serial.log'') @ '',logappend=off'',
             ''-serial'', ''chardev:uart0'']
          else if t = ''file'' then [''-serial'', ''file:'' @ path_join runtime ''serial.log'']
          else if t = ''stdout'' then [''-serial'', ''stdio'']
          else []
      | None \<Rightarrow> [])"

definition bool_device :: "obj \<Rightarrow> string \<Rightarrow> bool plan_result" where
  "bool_device devices key =
     (case oget devices key of
        None \<Rightarrow> Inr False
      | Some (JBool b) \<Rightarrow> Inr b
      | Some _ \<Rightarrow> invalid (''profile.devices.'' @ key @ '' must be a boolean''))"

definition append_devices :: "string list \<Rightarrow> json option \<Rightarrow> path \<Rightarrow> string list plan_result" where
  "append_devices argv v runtime =
     rbind (object (unwrap_or v (JObj [])) ''profile.devices'') (\<lambda>devices.
     rbind (opt_object (oget devices ''console'') ''profile.devices.console'') (\<lambda>console.
     let argv = argv @ guest_agent_args devices runtime @ serial_args devices runtime;
         console_type = console_type_of console; vnc = console_type = ''vnc''; h264 = console_type = ''h264'' in
     rbind (bool_device devices ''usb_tablet'') (\<lambda>usb_tablet.
     rbind (bool_device devices ''usb_mouse'') (\<lambda>usb_mouse.
     let video_model = opt_get_str (oget devices ''video'') ''model'';
         gl = (case video_model of None \<Rightarrow> False | Some m \<Rightarrow> gl_model m);
         argv = argv @ (if video_model = Some ''virtio-vga'' then [''-vga'', ''none'', ''-device'', ''virtio-vga,id=me-video''] else []) in
     if vnc \<and> gl then invalid ''profile.devices.console.type=vnc conflicts with GL video''
     else
       let argv = argv @ (if usb_tablet \<or> usb_mouse
             then [''-device'', ''qemu-xhci,id=usb'']
               @ (if usb_tablet then [''-device'', ''usb-tablet,bus=usb.0''] else [])
               @ (if usb_mouse then [''-device'', ''usb-mouse,bus=usb.0''] else [])
             else []) in
       if h264 then
         if \<not> gl then invalid ''profile.devices.console.type=h264 requires devices.video.model=virtio-vga-gl or virtio-gpu-gl''
         else Inr (argv @ [''-vga'', ''none'', ''-device'', unwrap_or video_model [] @ '',id=me-video'',
                ''-display'', ''dbus,p2p=on,gl=on'']
              @ (if vnc then [''-vnc'', ''unix:'' @ path_join runtime ''sockets/vnc.sock''] else []))
       else if vnc then Inr (argv @ [''-display'', ''vnc=:0''])
       else Inr (argv @ [''-display'', ''none''])))))"

text \<open>\<open>argv.windows(2).position(|pair| pair[0] == "-display")\<close>.\<close>

fun display_position :: "string list \<Rightarrow> nat option" where
  "display_position (a # b # rest) = (if a = ''-display'' then Some 0 else map_option Suc (display_position (b # rest)))"
| "display_position _ = None"

definition audio_id_ok :: "string \<Rightarrow> bool" where
  "audio_id_ok i \<longleftrightarrow> i \<noteq> [] \<and> length i \<le> 48
     \<and> list_all (\<lambda>c. is_ascii_alphanumeric c \<or> c \<in> {CHR ''-'', CHR ''_'', CHR ''.''}) i"

definition attach_audio_display :: "string list \<Rightarrow> string \<Rightarrow> json option \<Rightarrow> path \<Rightarrow> string list plan_result" where
  "attach_audio_display argv i devices runtime =
     rbind (needs (display_position argv) ''audio requires a display backend'') (\<lambda>p.
     let display = p + 1 in
     if starts_with (argv ! display) ''dbus,''
     then Inr (argv[display := argv ! display @ '',audiodev='' @ i])
     else Inr (argv[display := ''dbus,p2p=on,audiodev='' @ i]
       @ (if opt_get_str (opt_get devices ''console'') ''type'' = Some ''vnc''
          then [''-vnc'', ''unix:'' @ path_join runtime ''sockets/vnc.sock''] else [])))"

definition append_audio :: "string list \<Rightarrow> json option \<Rightarrow> json option \<Rightarrow> path \<Rightarrow> string list plan_result" where
  "append_audio argv audio devices runtime =
     (case audio of
        None \<Rightarrow> Inr argv
      | Some audio \<Rightarrow>
          rbind (object audio ''profile.audio'') (\<lambda>audio.
          let model = unwrap_or (get_then audio ''model'' as_str) ''ich9'' in
          if model = ''none'' then Inr argv
          else if model \<noteq> ''ich9'' then invalid ''profile.audio.model must be ich9 or none''
          else
            rbind (needs (oget audio ''backend'') ''profile.audio.backend is required'') (\<lambda>backend.
            rbind (object backend ''profile.audio.backend'') (\<lambda>backend.
            let kind = unwrap_or (get_then backend ''type'' as_str) ''none'' in
            if kind = ''none'' then Inr argv
            else if kind \<notin> {''dbus'', ''spice''} then invalid ''profile.audio.backend.type must be dbus, spice, or none''
            else
              let i = unwrap_or (get_then backend ''id'' as_str) ''pc-audio'' in
              if \<not> audio_id_ok i then invalid ''profile.audio.backend.id is invalid''
              else rbind (if kind = ''dbus'' then attach_audio_display argv i devices runtime
                  else Inr (argv @ [''-spice'', ''disable-ticketing=on,unix=on,addr='' @ path_join runtime ''sockets/spice.sock''])) (\<lambda>argv.
                Inr (argv @ [''-audiodev'', kind @ '',id='' @ i, ''-device'', ''ich9-intel-hda,id=pc-sound'',
                  ''-device'', ''hda-duplex,audiodev='' @ i]))))))"

definition string_prop :: "json \<Rightarrow> string \<times> string \<Rightarrow> string" where
  "string_prop display = (\<lambda>(key, prop). case jget_then display key as_str of
     None \<Rightarrow> [] | Some v \<Rightarrow> '','' @ prop @ ''='' @ escape_prop v)"

definition int_prop :: "json \<Rightarrow> string \<times> string \<Rightarrow> string" where
  "int_prop display = (\<lambda>(key, prop). case jget_then display key as_u64 of
     None \<Rightarrow> [] | Some n \<Rightarrow> '','' @ prop @ ''='' @ show_nat n)"

definition append_analysis_video :: "string list \<Rightarrow> json option \<Rightarrow> json option \<Rightarrow> string list plan_result" where
  "append_analysis_video argv video display =
     (case display of
        None \<Rightarrow> Inr argv
      | Some display \<Rightarrow>
          let model = unwrap_or (Option.bind (case opt_get video ''type'' of None \<Rightarrow> opt_get video ''model'' | Some t \<Rightarrow> Some t) as_str) ''vga'' in
          if model \<noteq> ''vga'' then Inr argv
          else
            let device = ''VGA,id=pc-video''
                @ concat (map (string_prop display) [(''vendor'', ''vendor''), (''name'', ''name''), (''serial'', ''serial'')])
                @ concat (map (int_prop display) [(''xres'', ''xres''), (''yres'', ''yres''), (''xres'', ''xmax''), (''yres'', ''ymax''),
                    (''width_mm'', ''width-mm''), (''height_mm'', ''height-mm'')])
                @ (if jget_then display ''pci_identity'' as_bool = Some True
                   then concat (map (int_prop display) [(''pci_vendor_id'', ''pci-vendor-id''), (''pci_device_id'', ''pci-device-id''),
                     (''pci_subsystem_vendor_id'', ''pci-subsystem-vendor-id''), (''pci_subsystem_id'', ''pci-subsystem-id''),
                     (''pci_identity_delay_ms'', ''pci-identity-delay-ms'')])
                   else [])
            in Inr (argv @ [''-vga'', ''none'', ''-device'', device]))"

definition append_wifi :: "string list \<Rightarrow> json option \<Rightarrow> string \<Rightarrow> path \<Rightarrow> string list plan_result" where
  "append_wifi argv wifi machine runtime =
     (case wifi of
        None \<Rightarrow> Inr argv
      | Some wifi \<Rightarrow>
          rbind (object wifi ''profile.wifi'') (\<lambda>wifi.
          if oget wifi ''enabled'' \<noteq> Some (JBool True) then Inr argv
          else if machine \<noteq> ''mt7981'' then invalid ''profile.wifi requires the mt7981 machine''
          else Inr (argv @ [''-global'', ''unifi-board.wifi-socket='' @ escape_comma (path_join runtime ''wifi.sock'')])))"

definition udm_enabled :: "json \<Rightarrow> string \<Rightarrow> bool plan_result" where
  "udm_enabled devices key =
     (case jget devices key of
        None \<Rightarrow> Inr False
      | Some v \<Rightarrow> needs (as_bool v) (''UDM Pro devices.'' @ key @ '' must be a boolean''))"

definition append_udm_devices :: "string list \<Rightarrow> json option \<Rightarrow> path \<Rightarrow> string list plan_result" where
  "append_udm_devices argv devices runtime =
     (case devices of
        None \<Rightarrow> Inr argv
      | Some devices \<Rightarrow>
          rbind (udm_enabled devices ''lcd'') (\<lambda>lcd.
          let argv = argv @ (if lcd then [''-device'', ''qemu-xhci,id=udm-usb,bus=pcie-external,addr=9'']
                @ concat (map (\<lambda>nm. [''-chardev'', socket_chardev nm (escape_comma (path_join runtime (nm @ ''.sock'')))])
                    [''lcm-events'', ''lcm-input''])
                @ [''-device'', ''unifi-lcm,bus=udm-usb.0,events=lcm-events,input=lcm-input,udm-pro=on'']
              else []) in
          rbind (udm_enabled devices ''bluetooth'') (\<lambda>bluetooth.
          if \<not> bluetooth then Inr argv
          else if opt_get_str (jget devices ''serial'') ''type'' \<notin> {Some ''file'', Some ''socket''}
          then invalid ''UDM Pro Bluetooth requires devices.serial.type=file or socket to reserve ttyS0''
          else Inr (argv @ [''-chardev'', socket_chardev ''btuart'' (escape_comma (path_join runtime ''bluetooth.sock'')),
                 ''-serial'', ''chardev:btuart'']))))"

end
