(* ===== verification/LaunchStorage.thy ===== *)
theory LaunchStorage
  imports LaunchArgs
begin

text \<open>
  \<open>engine/plan.rs\<close>, sources, firmware, disks, TPM and direct boot, and the choice of the engine build with
  the checks of its manifest.
\<close>

section \<open>Sources\<close>

record source_resolver =
  image_components :: "(string \<times> path) list"
  base_dir :: "path option"

definition source_path :: "plan_env \<Rightarrow> source_resolver \<Rightarrow> json option \<Rightarrow> string \<Rightarrow> path plan_result" where
  "source_path env sources v owner =
     rbind (needs v (owner @ ''.source is required'')) (\<lambda>v.
     rbind (object v (owner @ ''.source'')) (\<lambda>m.
     rbind (known_keys m [''path'', ''image_component''] (\<lambda>k. owner @ ''.source.'' @ k @ '' is not supported'')) (\<lambda>_.
     case (get_then m ''path'' as_str, get_then m ''image_component'' as_str) of
       (Some _, Some _) \<Rightarrow> invalid (owner @ ''.source must choose path or image_component'')
     | (Some p, None) \<Rightarrow>
         let p = (if is_absolute p then p else case base_dir sources of Some base \<Rightarrow> path_join base p | None \<Rightarrow> p) in
         if \<not> is_file env p then invalid (owner @ ''.source.path is unavailable: '' @ p) else Inr p
     | (None, Some c) \<Rightarrow>
         needs (oget (image_components sources) c) (owner @ ''.source.image_component is unavailable: '' @ c)
     | (None, None) \<Rightarrow> invalid (owner @ ''.source must include path or image_component''))))"

section \<open>Firmware and disks\<close>

definition append_firmware ::
  "plan_env \<Rightarrow> string list \<Rightarrow> preparation \<Rightarrow> json option \<Rightarrow> source_resolver \<Rightarrow> path \<Rightarrow> (string list \<times> preparation) plan_result" where
  "append_firmware env argv prep v sources state_dir =
     (case v of
        None \<Rightarrow> Inr (argv, prep)
      | Some v \<Rightarrow>
          rbind (object v ''profile.firmware'') (\<lambda>x.
          rbind (needs (oget x ''loader'') ''profile.firmware requires both loader and nvram mappings'') (\<lambda>loader.
          rbind (object loader ''loader'') (\<lambda>loader.
          rbind (needs (oget x ''nvram'') ''profile.firmware requires both loader and nvram mappings'') (\<lambda>nvram.
          rbind (object nvram ''nvram'') (\<lambda>nvram.
          rbind (source_path env sources (oget loader ''source'') ''profile.firmware.loader'') (\<lambda>code.
          rbind (source_path env sources (oget nvram ''source'') ''profile.firmware.nvram'') (\<lambda>seed.
          let nm = unwrap_or (get_then nvram ''name'' as_str) ''OVMF_VARS.fd'' in
          if CHR ''/'' \<in> set nm \<or> nm = ''.'' \<or> nm = ''..''
          then invalid ''profile.firmware.nvram.name must be a plain file name''
          else
            let p = path_join state_dir nm;
                readonly = (if unwrap_or (get_then loader ''readonly'' as_bool) True then ''on'' else ''off'') in
            Inr (argv @ [''-drive'', ''if=pflash,format=raw,unit=0,readonly='' @ readonly @ '',file='' @ code,
                   ''-drive'', ''if=pflash,format=raw,unit=1,file='' @ p]
                 @ (if unwrap_or (get_then loader ''secure'' as_bool) False
                    then [''-global'', ''driver=cfi.pflash01,property=secure,value=on''] else []),
                 prep\<lparr>prep_nvram := Some \<lparr>pf_path = p, pf_seed = seed\<rparr>\<rparr>)))))))))"

definition disk_keys :: "string list" where
  "disk_keys = [''source'', ''bus'', ''format'', ''size'', ''readonly'', ''cache'', ''aio'', ''discard'', ''detect_zeroes'', ''serial'']"

definition disk_options :: "obj \<Rightarrow> string plan_result" where
  "disk_options disk =
     for_each [(''cache'', ''cache''), (''aio'', ''aio''), (''discard'', ''discard''), (''detect_zeroes'', ''detect-zeroes'')]
       (\<lambda>opt (field, option). case oget disk field of
          None \<Rightarrow> Inr opt
        | Some v \<Rightarrow>
            rbind (needs (Option.bind (as_str v) (\<lambda>v. if plain_option v then Some v else None))
              (''profile.storage.disk.'' @ field @ '' is invalid'')) (\<lambda>v. Inr (opt @ '','' @ option @ ''='' @ v))) []"

text \<open>The forged ATA identity of an analysis profile; an explicit serial wins over the derived one.\<close>

definition disk_identity :: "obj \<Rightarrow> json option \<Rightarrow> string" where
  "disk_identity disk desc =
     (case opt_get_str desc ''disk_product'' of None \<Rightarrow> [] | Some m \<Rightarrow> '',model='' @ escape_prop m)
     @ (case (case get_then disk ''serial'' as_str of
                Some s \<Rightarrow> Some s
              | None \<Rightarrow> map_option (\<lambda>p. p @ ''-0'') (opt_get_str desc ''disk_serial_prefix'')) of
          None \<Rightarrow> [] | Some s \<Rightarrow> '',serial='' @ escape_prop s)"

definition legacy_machine :: "string \<Rightarrow> bool" where
  "legacy_machine machine \<longleftrightarrow> machine = ''pc'' \<or> starts_with machine ''pc-i440fx''"

definition disk_device :: "string \<Rightarrow> bool \<Rightarrow> string plan_result" where
  "disk_device bus legacy =
     (if bus = ''virtio'' then Inr ''virtio-blk-pci,drive=pc-disk''
      else if bus = ''ide'' \<and> legacy then Inr ''ide-hd,bus=ide.0,drive=pc-disk''
      else if bus = ''sata'' \<and> \<not> legacy then Inr ''ide-hd,bus=pc-sata.0,drive=pc-disk''
      else invalid ''unsupported storage bus for selected machine'')"

text \<open>The type checks of the disk's settings, and the bus against the machine.\<close>

definition check_disk_types :: "obj \<Rightarrow> unit plan_result" where
  "check_disk_types disk =
     (if (case oget disk ''bus'' of None \<Rightarrow> False | Some v \<Rightarrow> \<not> is_string v)
      then invalid ''profile.storage.disk.bus must be a string''
      else if (case oget disk ''format'' of None \<Rightarrow> False | Some v \<Rightarrow> \<not> is_string v)
      then invalid ''profile.storage.disk.format must be raw or qcow2''
      else if (case oget disk ''readonly'' of None \<Rightarrow> False | Some v \<Rightarrow> \<not> is_boolean v)
      then invalid ''profile.storage.disk.readonly must be a boolean'' else Inr ())"

definition disk_bus :: "obj \<Rightarrow> bool \<Rightarrow> string plan_result" where
  "disk_bus disk legacy =
     (let bus = unwrap_or (get_then disk ''bus'' as_str) ''sata'' in
      if bus = ''virtio'' \<and> contains_key disk ''serial''
      then invalid ''profile.storage.disk.serial is unsupported on virtio''
      else if legacy \<and> bus = ''sata'' \<or> \<not> legacy \<and> bus = ''ide''
      then invalid (if legacy then ''the pc machine uses bus ide; sata requires q35''
                    else ''q35 machines use bus sata; ide requires the pc machine'') else Inr bus)"

definition disk_image_format :: "obj \<Rightarrow> string plan_result" where
  "disk_image_format disk =
     (let fmt = unwrap_or (get_then disk ''format'' as_str) ''qcow2'' in
      if fmt \<notin> {''raw'', ''qcow2''} then invalid ''profile.storage.disk.format must be raw or qcow2'' else Inr fmt)"

definition drive_text :: "path \<Rightarrow> string \<Rightarrow> obj \<Rightarrow> string" where
  "drive_text p options disk = ''if=none,id=pc-disk,file='' @ p @ '',format=qcow2'' @ options
     @ (if unwrap_or (get_then disk ''readonly'' as_bool) False then '',readonly=on'' else [])"

definition storage_disk ::
  "string list \<Rightarrow> preparation \<Rightarrow> obj \<Rightarrow> path \<Rightarrow> bool \<Rightarrow> path \<Rightarrow> json option \<Rightarrow> (string list \<times> preparation) plan_result" where
  "storage_disk argv prep disk backing legacy state_dir desc =
     rbind (check_disk_types disk) (\<lambda>_.
     rbind (disk_bus disk legacy) (\<lambda>bus.
     rbind (disk_image_format disk) (\<lambda>fmt.
     rbind (transpose_opt (\<lambda>v. rbind (needs (as_str v) ''profile.storage.disk.size must be a size string'') disk_size)
       (oget disk ''size'')) (\<lambda>size.
     rbind (disk_options disk) (\<lambda>options.
     rbind (disk_device bus legacy) (\<lambda>device.
     let p = path_join state_dir ''overlay.qcow2'' in
     Inr (argv @ (if bus = ''sata'' then [''-device'', ''ich9-ahci,id=pc-sata''] else [])
            @ [''-drive'', drive_text p options disk,
               ''-device'', if bus \<noteq> ''virtio'' then device @ disk_identity disk desc else device],
          prep\<lparr>disk_overlay := Some \<lparr>dp_path = p, dp_backing = backing, backing_format = fmt, dp_size = size\<rparr>\<rparr>)))))))"

definition append_storage ::
  "plan_env \<Rightarrow> string list \<Rightarrow> preparation \<Rightarrow> json option \<Rightarrow> source_resolver \<Rightarrow> string \<Rightarrow> path \<Rightarrow> json option
   \<Rightarrow> (string list \<times> preparation) plan_result" where
  "append_storage env argv prep v sources machine state_dir desc =
     (case v of
        None \<Rightarrow> Inr (argv, prep)
      | Some v \<Rightarrow>
          rbind (object v ''profile.storage'') (\<lambda>x.
          rbind (known_keys x [''disk''] (\<lambda>k. ''profile.storage.'' @ k @ '' is not supported for this machine'')) (\<lambda>_.
          rbind (needs (oget x ''disk'') ''profile.storage.disk must be a mapping'') (\<lambda>disk.
          rbind (object disk ''profile.storage.disk'') (\<lambda>disk.
          rbind (known_keys disk disk_keys (\<lambda>k. ''profile.storage.disk.'' @ k @ '' is not supported by the launch planner'')) (\<lambda>_.
          rbind (source_path env sources (oget disk ''source'') ''profile.storage.disk'') (\<lambda>backing.
          storage_disk argv prep disk backing (legacy_machine machine) state_dir desc)))))))"

definition append_tpm :: "string list \<Rightarrow> json option \<Rightarrow> path \<Rightarrow> string list plan_result" where
  "append_tpm argv v socket =
     rbind (needs v ''profile.tpm must be a mapping'') (\<lambda>v.
     rbind (object v ''profile.tpm'') (\<lambda>x.
     let model = unwrap_or (get_then x ''model'' as_str) ''tpm-tis'' in
     if model \<notin> {''tpm-tis'', ''tpm-crb''} then invalid ''profile.tpm.model must be tpm-tis or tpm-crb''
     else
       rbind (case oget x ''backend'' of
           None \<Rightarrow> Inr ()
         | Some backend \<Rightarrow>
             rbind (object backend ''profile.tpm.backend'') (\<lambda>backend.
             if (case oget backend ''type'' of None \<Rightarrow> False | Some v \<Rightarrow> as_str v \<noteq> Some ''emulator'')
             then invalid ''profile.tpm.backend.type must be emulator''
             else if (case oget backend ''version'' of None \<Rightarrow> False | Some v \<Rightarrow> as_str v \<noteq> Some ''2.0'')
             then invalid ''profile.tpm.backend.version only supports 2.0'' else Inr ())) (\<lambda>_.
       Inr (argv @ [''-chardev'', ''socket,id=chrtpm,path='' @ socket, ''-tpmdev'', ''emulator,id=tpm0,chardev=chrtpm'',
         ''-device'', model @ '',tpmdev=tpm0'']))))"

definition append_udm_storage ::
  "plan_env \<Rightarrow> string list \<Rightarrow> json option \<Rightarrow> source_resolver \<Rightarrow> string list plan_result" where
  "append_udm_storage env argv storage sources =
     rbind (needs storage ''UDM Pro requires boot and SPI storage'') (\<lambda>v.
     rbind (object v ''profile.storage'') (\<lambda>storage.
     for_each [(''boot'', ''udm-boot''), (''spi'', ''udm-config'')] (\<lambda>argv (role, i).
       rbind (needs (oget storage role) (''profile.storage.'' @ role @ '' is required'')) (\<lambda>disk.
       if jget_then disk ''format'' as_str \<noteq> Some ''raw'' then invalid ''UDM Pro storage requires raw images''
       else
         rbind (object disk (''profile.storage.'' @ role)) (\<lambda>disk.
         rbind (source_path env sources (oget disk ''source'') (''profile.storage.'' @ role)) (\<lambda>p.
         Inr (argv @ [''-drive'', ''file='' @ escape_comma p @ '',if=none,format=raw,id='' @ i @ '',snapshot=on''])))))
       argv))"

section \<open>Direct boot\<close>

definition boot_drive :: "json \<Rightarrow> string option" where
  "boot_drive v =
     (case as_str v of
        None \<Rightarrow> None
      | Some s \<Rightarrow> if s = ''disk'' then Some ''c'' else if s = ''cdrom'' then Some ''d''
          else if s = ''network'' then Some ''n'' else if s = ''floppy'' then Some ''a'' else None)"

text \<open>One optional setting: absent adds nothing, present is read by \<open>f\<close>.\<close>

definition boot_setting :: "json \<Rightarrow> string \<Rightarrow> (json \<Rightarrow> string plan_result) \<Rightarrow> string list \<Rightarrow> string list plan_result" where
  "boot_setting boot key f options =
     (case jget boot key of None \<Rightarrow> Inr options | Some v \<Rightarrow> rbind (f v) (\<lambda>t. Inr (options @ [t])))"

definition boot_order_setting :: "string \<Rightarrow> string \<Rightarrow> json \<Rightarrow> string plan_result" where
  "boot_order_setting key option v =
     rbind (needs (boot_drive v) (''profile.boot.'' @ key @ '' must be disk, cdrom, network, or floppy'')) (\<lambda>d. Inr (option @ ''='' @ d))"

definition boot_bool_setting :: "string \<Rightarrow> json \<Rightarrow> string plan_result" where
  "boot_bool_setting key v =
     rbind (needs (as_bool v) (''profile.boot.'' @ key @ '' must be a boolean'')) (\<lambda>b. Inr (key @ ''='' @ (if b then ''on'' else ''off'')))"

definition reboot_timeout_setting :: "json \<Rightarrow> string plan_result" where
  "reboot_timeout_setting v =
     rbind (needs (Option.bind (as_i64 v) (\<lambda>n. if -1 \<le> n \<and> n \<le> 2 ^ 31 - 1 then Some n else None))
       ''profile.boot.reboot_timeout must be -1 or milliseconds from 0 to 2147483647'') (\<lambda>n. Inr (''reboot-timeout='' @ show_int n))"

definition splash_setting :: "plan_env \<Rightarrow> json \<Rightarrow> string plan_result" where
  "splash_setting env v =
     rbind (needs (Option.bind (as_str v) nonempty) ''profile.boot.splash must be a non-empty file path'') (\<lambda>splash.
     case canonicalize env splash of
       Inl e \<Rightarrow> invalid (''cannot open profile.boot.splash '' @ debug_str splash @ '': '' @ e)
     | Inr p \<Rightarrow> if \<not> is_file env p then invalid ''profile.boot.splash must name a regular file''
                else Inr (''splash='' @ escape_comma p))"

definition splash_time_setting :: "json \<Rightarrow> string plan_result" where
  "splash_time_setting v =
     rbind (needs (Option.bind (as_u64 v) (\<lambda>n. if int n \<le> 2 ^ 32 - 1 then Some n else None))
       ''profile.boot.timeout must be milliseconds from 0 to 4294967295'') (\<lambda>n. Inr (''splash-time='' @ show_nat n))"

definition boot_options :: "plan_env \<Rightarrow> json \<Rightarrow> string list plan_result" where
  "boot_options env boot =
     rbind (boot_setting boot ''from'' (boot_order_setting ''from'' ''order'') []) (\<lambda>o1.
     rbind (boot_setting boot ''once'' (boot_order_setting ''once'' ''once'') o1) (\<lambda>o2.
     rbind (boot_setting boot ''strict'' (boot_bool_setting ''strict'') o2) (\<lambda>o3.
     rbind (boot_setting boot ''reboot_timeout'' reboot_timeout_setting o3) (\<lambda>o4.
     rbind (boot_setting boot ''menu'' (boot_bool_setting ''menu'') o4) (\<lambda>o5.
     rbind (boot_setting boot ''splash'' (splash_setting env) o5) (\<lambda>o6.
     boot_setting boot ''timeout'' splash_time_setting o6))))))"

definition append_direct_boot ::
  "plan_env \<Rightarrow> string list \<Rightarrow> json option \<Rightarrow> source_resolver \<Rightarrow> string list plan_result" where
  "append_direct_boot env argv boot sources =
     (case boot of
        None \<Rightarrow> Inr argv
      | Some boot \<Rightarrow>
          rbind (boot_options env boot) (\<lambda>options.
          rbind (for_each [(''kernel'', ''-kernel''), (''initrd'', ''-initrd''), (''dtb'', ''-dtb'')] (\<lambda>argv (key, flag).
              case jget boot key of
                None \<Rightarrow> Inr argv
              | Some v \<Rightarrow>
                  if is_null v then Inr argv
                  else rbind (object v (''profile.boot.'' @ key)) (\<lambda>reference.
                       rbind (source_path env sources (oget reference ''source'') (''profile.boot.'' @ key)) (\<lambda>p.
                       Inr (argv @ [flag, p]))))
            (argv @ (if options = [] then [] else [''-boot'', join_with '','' options]))) (\<lambda>argv.
          case jget boot ''append'' of
            None \<Rightarrow> Inr argv
          | Some v \<Rightarrow> rbind (needs (as_str v) ''profile.boot.append must be a string'') (\<lambda>a. Inr (argv @ [''-append'', a])))))"

section \<open>Engine build\<close>

definition engine_tracks :: "obj \<Rightarrow> string list plan_result" where
  "engine_tracks prof =
     (case oget prof ''engine'' of
        None \<Rightarrow> Inr [''qemu-system'']
      | Some engine \<Rightarrow>
          rbind (needs (as_array engine) ''profile.engine must be an array of engine track names'') (\<lambda>tracks.
          if tracks = [] then invalid ''profile.engine must not be empty''
          else collect (\<lambda>(index, v). needs (Option.bind (as_str v) nonempty)
                 (''profile.engine['' @ show_nat index @ ''] must be a non-empty string'')) (enumerate 0 tracks)))"

text \<open>\<open>Path::parent\<close> of a path that names a file.\<close>

definition path_parent :: "path \<Rightarrow> path" where
  "path_parent p =
     (let strip = (\<lambda>s. rev (dropWhile (\<lambda>c. c = CHR ''/'') (rev s)));
          dir = rev (dropWhile (\<lambda>c. c \<noteq> CHR ''/'') (rev (strip p)))
      in if strip dir = [] \<and> dir \<noteq> [] then ''/'' else strip dir)"

text \<open>The three groups of checks of a build that comes with a manifest: identity, executable and digest.\<close>

definition manifest_identity :: "string \<Rightarrow> obj \<Rightarrow> obj \<Rightarrow> string plan_result" where
  "manifest_identity track entry manifest =
     rbind (number_field manifest ''schema_version'') (\<lambda>version.
     if version \<noteq> 1 then invalid ''engine manifest schema_version must be 1'' else
     rbind (string_field manifest ''track_id'') (\<lambda>track_id.
     if track_id \<noteq> track then invalid ''manifest track does not match release track'' else
     rbind (string_field manifest ''build_digest'') (\<lambda>built.
     rbind (string_field entry ''build_digest'') (\<lambda>released.
     if built \<noteq> released then invalid ''engine build digest does not match release set''
     else if get_then manifest ''dirty_source'' as_bool \<noteq> Some False
     then invalid ''dirty engine builds cannot be used for release'' else Inr built))))"

definition manifest_executable :: "plan_env \<Rightarrow> path \<Rightarrow> string \<Rightarrow> obj \<Rightarrow> path plan_result" where
  "manifest_executable env manifest_path target manifest =
     rbind (needs (oget manifest ''executables'') ''engine executables must be a mapping'') (\<lambda>executables.
     rbind (object executables ''executables'') (\<lambda>executables.
     rbind (needs (get_then executables target as_str) (''engine has no executable for target '' @ target)) (\<lambda>rel.
     let executable = path_join (path_parent manifest_path) rel in
     if \<not> is_file env executable then invalid (''engine executable is missing: '' @ executable) else Inr executable)))"

definition check_executable_digest :: "plan_env \<Rightarrow> string \<Rightarrow> obj \<Rightarrow> path \<Rightarrow> unit plan_result" where
  "check_executable_digest env target manifest executable =
     rbind (object (unwrap_or (oget manifest ''executable_sha256'') (JObj [])) ''executable_sha256'') (\<lambda>hashes.
     case get_then hashes target as_str of
       None \<Rightarrow> Inr ()
     | Some expected \<Rightarrow>
         rbind (read_file env executable) (\<lambda>data.
         if hex_bytes (sha256 env data) \<noteq> expected
         then invalid (''engine executable digest mismatch for '' @ target) else Inr ()))"

definition resolve_engine_manifest :: "plan_env \<Rightarrow> path \<Rightarrow> string \<Rightarrow> string \<Rightarrow> obj \<Rightarrow> (json \<times> path) plan_result" where
  "resolve_engine_manifest env bundle track target entry =
     rbind (string_field entry ''manifest'') (\<lambda>relative.
     if is_absolute relative then invalid ''engine manifest must be relative''
     else
       let manifest_path = path_join bundle relative in
       rbind (load_document env manifest_path) (\<lambda>document.
       rbind (object document ''engine manifest'') (\<lambda>manifest.
       rbind (manifest_identity track entry manifest) (\<lambda>built.
       rbind (manifest_executable env manifest_path target manifest) (\<lambda>executable.
       rbind (check_executable_digest env target manifest executable) (\<lambda>_.
       Inr (json_obj [(''track_id'', JStr track), (''build_digest'', JStr built)], executable)))))))"

definition resolve_engine :: "plan_env \<Rightarrow> json \<Rightarrow> path \<Rightarrow> string \<Rightarrow> string \<Rightarrow> (json \<times> path) plan_result" where
  "resolve_engine env release bundle track target =
     rbind (object release ''release set'') (\<lambda>release.
     rbind (number_field release ''schema_version'') (\<lambda>version.
     if version \<noteq> 1 then invalid ''release set schema_version must be 1'' else
     rbind (needs (oget release ''engines'') ''release set engines must be a mapping'') (\<lambda>engines.
     rbind (object engines ''engines'') (\<lambda>engines.
     rbind (needs (oget engines track) (''engine track is not in the release set: '' @ track)) (\<lambda>entry.
     rbind (object entry ''engine entry'') (\<lambda>entry.
     case get_then entry ''executable'' as_str of
       Some executable \<Rightarrow>
         if \<not> is_file env executable then invalid (''engine executable is missing: '' @ executable)
         else rbind (string_field entry ''build_digest'') (\<lambda>d.
           Inr (json_obj [(''track_id'', JStr track), (''build_digest'', JStr d)], executable))
     | None \<Rightarrow> resolve_engine_manifest env bundle track target entry))))))"

text \<open>The tracks in the profile's order: the first that resolves, or the error of the last one.\<close>

fun resolve_tracks ::
  "plan_env \<Rightarrow> json \<Rightarrow> path \<Rightarrow> string list \<Rightarrow> string \<Rightarrow> engine_error option \<Rightarrow> (string \<times> json \<times> path) plan_result" where
  "resolve_tracks env release bundle [] target last_error =
     (case last_error of None \<Rightarrow> invalid ''profile.engine must not be empty'' | Some e \<Rightarrow> Inl e)"
| "resolve_tracks env release bundle (track # tracks) target last_error =
     (case resolve_engine env release bundle track target of
        Inr (engine, executable) \<Rightarrow> Inr (track, engine, executable)
      | Inl e \<Rightarrow> resolve_tracks env release bundle tracks target (Some e))"

definition resolve_engine_ordered ::
  "plan_env \<Rightarrow> json \<Rightarrow> path \<Rightarrow> string list \<Rightarrow> string \<Rightarrow> (string \<times> json \<times> path) plan_result" where
  "resolve_engine_ordered env release bundle tracks target = resolve_tracks env release bundle tracks target None"

end
