(* ===== verification/Analysis.thy ===== *)
theory Analysis
  imports LaunchStorage
begin

text \<open>
  \<open>crates/machineemu-core/src/engine/analysis.rs\<close>: the analysis persona of a profile. Its fields are checked
  against their ranges, an identity is derived from the seed, and the result is packed into the machine
  argument as base64 of compact JSON, which is printed here the way \<open>serde_json\<close> prints it.
\<close>

record analysis_plan =
  machine_suffix :: string
  analysis_argv :: "string list"
  payload :: json

section \<open>JSON text\<close>

definition escape_json_char :: "char \<Rightarrow> string" where
  "escape_json_char c =
     (let n = of_char c :: nat in
      if n = 0x22 then [CHR 0x5C, CHR 0x22] else if n = 0x5C then [CHR 0x5C, CHR 0x5C]
      else if n = 8 then CHR 0x5C # ''b'' else if n = 9 then CHR 0x5C # ''t'' else if n = 10 then CHR 0x5C # ''n''
      else if n = 12 then CHR 0x5C # ''f'' else if n = 13 then CHR 0x5C # ''r''
      else if n < 32 then CHR 0x5C # ''u00'' @ hex2 (word_of_nat n) else [c])"

definition json_string_text :: "string \<Rightarrow> string" where
  "json_string_text s = CHR 0x22 # concat (map escape_json_char s) @ [CHR 0x22]"

fun json_text :: "json \<Rightarrow> string" and json_entries_text :: "obj \<Rightarrow> string list" and json_items_text :: "json list \<Rightarrow> string list" where
  "json_text JNull = ''null''"
| "json_text (JBool b) = (if b then ''true'' else ''false'')"
| "json_text (JNum n) = show_num n"
| "json_text (JStr s) = json_string_text s"
| "json_text (JArr xs) = ''['' @ join_with '','' (json_items_text xs) @ '']''"
| "json_text (JObj m) = ''{'' @ join_with '','' (json_entries_text m) @ ''}''"
| "json_entries_text [] = []"
| "json_entries_text ((k, v) # m) = (json_string_text k @ '':'' @ json_text v) # json_entries_text m"
| "json_items_text [] = []"
| "json_items_text (v # vs) = json_text v # json_items_text vs"

section \<open>Base64\<close>

definition base64_chars :: string where
  "base64_chars = ''ABCDEFGHIJKLMNOPQRSTUVWXYZabcdefghijklmnopqrstuvwxyz0123456789+/''"

definition base64_char :: "nat \<Rightarrow> char" where "base64_char n = base64_chars ! n"

text \<open>The source's shifts and masks on \<open>usize\<close>, written as division and remainder.\<close>

fun base64 :: "8 word list \<Rightarrow> string" where
  "base64 [] = []"
| "base64 [a] = [base64_char (unat a div 4), base64_char (unat a mod 4 * 16), CHR ''='', CHR ''='']"
| "base64 [a, b] = [base64_char (unat a div 4), base64_char (unat a mod 4 * 16 + unat b div 16),
     base64_char (unat b mod 16 * 4), CHR ''='']"
| "base64 (a # b # c # rest) = [base64_char (unat a div 4), base64_char (unat a mod 4 * 16 + unat b div 16),
     base64_char (unat b mod 16 * 4 + unat c div 64), base64_char (unat c mod 64)] @ base64 rest"

definition bytes_of :: "string \<Rightarrow> 8 word list" where
  "bytes_of s = map (\<lambda>c. word_of_nat (of_char c)) s"

section \<open>Checks\<close>

definition mapping :: "json \<Rightarrow> string \<Rightarrow> obj plan_result" where
  "mapping v nm = needs (as_object v) (nm @ '' must be a mapping'')"

definition optional_mapping :: "json option \<Rightarrow> string \<Rightarrow> obj option plan_result" where
  "optional_mapping v nm = transpose_opt (\<lambda>v. mapping v nm) v"

definition printable :: "char \<Rightarrow> bool" where
  "printable c \<longleftrightarrow> 0x20 \<le> (of_char c :: nat) \<and> (of_char c :: nat) \<le> 0x7E"

definition ascii_text :: "json \<Rightarrow> string \<Rightarrow> nat \<Rightarrow> string plan_result" where
  "ascii_text v nm limit =
     rbind (needs (as_str v) (nm @ '' must be printable ASCII'')) (\<lambda>t.
     if t = [] \<or> limit < length t \<or> \<not> list_all printable t
     then invalid (nm @ '' must be printable ASCII of length 1..'' @ show_nat limit) else Inr t)"

definition ranged :: "json \<Rightarrow> string \<Rightarrow> int \<Rightarrow> int \<Rightarrow> int plan_result" where
  "ranged v nm low high =
     rbind (needs (as_i64 v) (nm @ '' must be an integer'')) (\<lambda>n.
     if \<not> (low \<le> n \<and> n \<le> high) then invalid (nm @ '' is outside its supported range'') else Inr n)"

definition no_value :: "'a plan_result \<Rightarrow> unit plan_result" where
  "no_value r = rbind r (\<lambda>_. Inr ())"

definition merge_known :: "obj \<Rightarrow> json option \<Rightarrow> string \<Rightarrow> obj plan_result" where
  "merge_known defs override nm =
     rbind (optional_mapping override nm) (\<lambda>o1. case o1 of
       None \<Rightarrow> Inr defs
     | Some m \<Rightarrow> for_each m (\<lambda>defs (key, v).
         if \<not> contains_key defs key then invalid (nm @ ''.'' @ key @ '' is unsupported'') else Inr (oput key v defs)) defs)"

definition obj_of :: "(string \<times> json) list \<Rightarrow> obj" where
  "obj_of kvs = foldl (\<lambda>m (k, v). oput k v m) [] kvs"

definition smbios_text_keys :: "string list" where
  "smbios_text_keys = [''bios_vendor'', ''bios_version'', ''system_manufacturer'', ''system_product'', ''system_version'',
     ''board_manufacturer'', ''board_product'', ''board_version'', ''chassis_manufacturer'', ''chassis_version'', ''chassis_asset'',
     ''chassis_sku'', ''processor_manufacturer'', ''processor_version'', ''processor_asset'', ''processor_part'',
     ''processor_socket_prefix'', ''memory_manufacturer'', ''memory_part'', ''memory_bank'', ''memory_asset'', ''memory_locator_prefix'']"

definition validate_smbios :: "json option \<Rightarrow> json plan_result" where
  "validate_smbios input =
     rbind (optional_mapping input ''analysis.smbios'') (\<lambda>input. case input of
       None \<Rightarrow> Inr (JObj [])
     | Some m \<Rightarrow>
         rbind (check_all m (\<lambda>(key, v).
           if key \<in> set smbios_text_keys then no_value (ascii_text v (''analysis.smbios.'' @ key) 64)
           else if key \<in> {''processor_max_speed'', ''processor_current_speed'', ''processor_family'', ''memory_speed''}
           then no_value (ranged v (''analysis.smbios.'' @ key) 0 65535)
           else if key = ''processor_id'' then
             (if as_u64 v = None then invalid ''analysis.smbios.processor_id must be a u64 integer'' else Inr ())
           else if key = ''bios_vm'' then
             (if \<not> is_boolean v then invalid ''analysis.smbios.bios_vm must be boolean'' else Inr ())
           else invalid (''analysis.smbios.'' @ key @ '' is unsupported''))) (\<lambda>_. Inr (JObj (obj_of m))))"

definition validate_acpi :: "json option \<Rightarrow> json plan_result" where
  "validate_acpi input =
     (let acpi = unwrap_or input (JObj []) in
      rbind (mapping acpi ''analysis.acpi'') (\<lambda>m.
      rbind (check_all m (\<lambda>(key, v).
        if key = ''oem_id'' then no_value (ascii_text v ''analysis.acpi.oem_id'' 6)
        else if key = ''oem_table_id'' then no_value (ascii_text v ''analysis.acpi.oem_table_id'' 8)
        else if key = ''creator_id'' then no_value (ascii_text v ''analysis.acpi.creator_id'' 4)
        else if key = ''oem_revision'' \<or> key = ''creator_revision''
        then no_value (ranged v (''analysis.acpi.'' @ key) 0 (2 ^ 32 - 1))
        else invalid (''analysis.acpi.'' @ key @ '' is unsupported''))) (\<lambda>_. Inr acpi)))"

definition jint :: "nat \<Rightarrow> json" where "jint n = JNum (PosInt n)"

definition storage_defaults :: obj where
  "storage_defaults = obj_of [(''disk_vendor'', JStr ''ATA''), (''disk_product'', JStr ''SATA SSD''),
     (''disk_serial_prefix'', JStr ''ANSSD''), (''optical_vendor'', JStr ''ATA''), (''optical_product'', JStr ''DVD-ROM'')]"

definition display_defaults :: obj where
  "display_defaults = obj_of [(''vendor'', JStr ''DEL''), (''name'', JStr ''DELL P2419H''), (''serial'', JStr ''10000001''),
     (''xres'', jint 1920), (''yres'', jint 1080), (''width_mm'', jint 527), (''height_mm'', jint 296),
     (''refresh_rate'', jint 60000), (''pci_identity'', JBool False), (''pci_identity_delay_ms'', jint 15000),
     (''pci_vendor_id'', jint 32902), (''pci_device_id'', jint 18048), (''pci_subsystem_vendor_id'', jint 4136),
     (''pci_subsystem_id'', jint 2646)]"

definition hid_defaults :: obj where
  "hid_defaults = obj_of [(''manufacturer'', JStr ''Wacom Co.,Ltd.''), (''product'', JStr ''Wacom Tablet''),
     (''serial'', JStr ''WTAB10000001''), (''vendorid'', jint 1386), (''productid'', jint 185), (''bcd_device'', jint 256)]"

definition usb_storage_defaults :: obj where
  "usb_storage_defaults = obj_of [(''manufacturer'', JStr ''SanDisk''), (''product'', JStr ''Ultra USB 3.0''),
     (''serial_prefix'', JStr ''USBSSD''), (''vendorid'', jint 1921), (''productid'', jint 21889), (''bcd_device'', jint 256)]"

definition check_storage_field :: "string \<times> json \<Rightarrow> unit plan_result" where
  "check_storage_field = (\<lambda>(key, v).
     no_value (ascii_text v (''analysis.device_descriptors.storage.'' @ key)
       (if key = ''disk_vendor'' \<or> key = ''optical_vendor'' then 8 else if key = ''disk_serial_prefix'' then 12 else 16)))"

definition check_display_field :: "string \<times> json \<Rightarrow> unit plan_result" where
  "check_display_field = (\<lambda>(key, v).
     let p = ''analysis.device_descriptors.display.'' @ key in
     if key = ''vendor'' then
       rbind (ascii_text v p 3) (\<lambda>t.
       if length t \<noteq> 3 \<or> \<not> list_all is_ascii_uppercase t
       then invalid (p @ '' must be three uppercase ASCII letters'') else Inr ())
     else if key = ''name'' \<or> key = ''serial'' then no_value (ascii_text v p 12)
     else if key = ''pci_identity'' then (if \<not> is_boolean v then invalid (p @ '' must be boolean'') else Inr ())
     else if key = ''xres'' then no_value (ranged v p 640 7680)
     else if key = ''yres'' then no_value (ranged v p 480 4320)
     else if key = ''width_mm'' \<or> key = ''height_mm'' then no_value (ranged v p 100 2000)
     else if key = ''refresh_rate'' then no_value (ranged v p 24000 240000)
     else if key = ''pci_identity_delay_ms'' then no_value (ranged v p 0 300000)
     else no_value (ranged v p 1 65535))"

definition check_usb_field :: "string \<Rightarrow> string \<times> json \<Rightarrow> unit plan_result" where
  "check_usb_field nm = (\<lambda>(key, v).
     let p = ''analysis.device_descriptors.usb.'' @ nm @ ''.'' @ key in
     if key \<in> {''vendorid'', ''productid'', ''bcd_device''} then no_value (ranged v p 1 65535)
     else no_value (ascii_text v p 31))"

definition validate_descriptors :: "json option \<Rightarrow> json plan_result" where
  "validate_descriptors input =
     rbind (optional_mapping input ''analysis.device_descriptors'') (\<lambda>input.
     rbind (case input of None \<Rightarrow> Inr ()
         | Some m \<Rightarrow> known_keys m [''storage'', ''display'', ''usb''] (\<lambda>k. ''analysis.device_descriptors.'' @ k @ '' is unsupported'')) (\<lambda>_.
     let part = (\<lambda>k. Option.bind input (\<lambda>m. oget m k)) in
     rbind (merge_known storage_defaults (part ''storage'') ''analysis.device_descriptors.storage'') (\<lambda>storage.
     rbind (check_all storage check_storage_field) (\<lambda>_.
     rbind (merge_known display_defaults (part ''display'') ''analysis.device_descriptors.display'') (\<lambda>display.
     rbind (check_all display check_display_field) (\<lambda>_.
     rbind (optional_mapping (part ''usb'') ''analysis.device_descriptors.usb'') (\<lambda>usb.
     rbind (case usb of None \<Rightarrow> Inr ()
         | Some m \<Rightarrow> known_keys m [''hid'', ''storage''] (\<lambda>k. ''analysis.device_descriptors.usb.'' @ k @ '' is unsupported'')) (\<lambda>_.
     let usb_part = (\<lambda>k. Option.bind usb (\<lambda>m. oget m k)) in
     rbind (merge_known hid_defaults (usb_part ''hid'') ''analysis.device_descriptors.usb.hid'') (\<lambda>hid.
     rbind (merge_known usb_storage_defaults (usb_part ''storage'') ''analysis.device_descriptors.usb.storage'') (\<lambda>usb_storage.
     rbind (check_all hid (check_usb_field ''hid'')) (\<lambda>_.
     rbind (check_all usb_storage (check_usb_field ''storage'')) (\<lambda>_.
     Inr (json_obj [(''storage'', JObj storage), (''display'', JObj display),
       (''usb'', json_obj [(''hid'', JObj hid), (''storage'', JObj usb_storage)])])))))))))))))"

definition sensor_defaults :: obj where
  "sensor_defaults = obj_of [(''temperature_celsius'', jint 42), (''passive_celsius'', jint 75),
     (''critical_celsius'', jint 95), (''fan_rpm'', jint 1200)]"

definition validate_sensors :: "json option \<Rightarrow> json plan_result" where
  "validate_sensors input =
     rbind (merge_known sensor_defaults input ''analysis.sensors'') (\<lambda>sensors.
     let field = (\<lambda>key. ranged (unwrap_or (oget sensors key) JNull) (''analysis.sensors.'' @ key) (-20) 20000) in
     rbind (field ''temperature_celsius'') (\<lambda>temp.
     rbind (field ''passive_celsius'') (\<lambda>passive.
     rbind (field ''critical_celsius'') (\<lambda>critical.
     rbind (field ''fan_rpm'') (\<lambda>fan.
     if passive < temp \<or> critical < passive \<or> 127 < critical \<or> \<not> (0 \<le> fan \<and> fan \<le> 20000)
     then invalid ''analysis.sensors thresholds are invalid'' else Inr (JObj sensors))))))"

definition pci_defaults :: obj where
  "pci_defaults = obj_of [(''subsystem_vendor_id'', jint 4136), (''subsystem_id'', jint 2646)]"

definition validate_pci :: "json option \<Rightarrow> json plan_result" where
  "validate_pci input =
     rbind (merge_known pci_defaults input ''analysis.pci'') (\<lambda>pci.
     rbind (check_all pci (\<lambda>(key, v). no_value (ranged v (''analysis.pci.'' @ key) 1 65535))) (\<lambda>_. Inr (JObj pci)))"

section \<open>SMBIOS arguments\<close>

type_synonym smbios_fields = "nat \<times> (string \<times> string) list \<times> (string \<times> string) list \<times> string option"

definition smbios_types :: "smbios_fields list" where
  "smbios_types =
     [(0, [(''vendor'', ''bios_vendor''), (''version'', ''bios_version'')], [], None),
      (1, [(''manufacturer'', ''system_manufacturer''), (''product'', ''system_product''), (''version'', ''system_version'')], [], Some ''system''),
      (2, [(''manufacturer'', ''board_manufacturer''), (''product'', ''board_product''), (''version'', ''board_version'')], [], Some ''board''),
      (3, [(''manufacturer'', ''chassis_manufacturer''), (''version'', ''chassis_version''), (''asset'', ''chassis_asset''),
           (''sku'', ''chassis_sku'')], [], Some ''chassis''),
      (4, [(''manufacturer'', ''processor_manufacturer''), (''version'', ''processor_version''), (''asset'', ''processor_asset''),
           (''part'', ''processor_part''), (''sock_pfx'', ''processor_socket_prefix'')],
          [(''max-speed'', ''processor_max_speed''), (''current-speed'', ''processor_current_speed''),
           (''processor-family'', ''processor_family''), (''processor-id'', ''processor_id'')], Some ''processor''),
      (17, [(''manufacturer'', ''memory_manufacturer''), (''part'', ''memory_part''), (''asset'', ''memory_asset''),
            (''bank'', ''memory_bank''), (''loc_pfx'', ''memory_locator_prefix'')], [(''speed'', ''memory_speed'')], Some ''memory'')]"

definition smbios_parts :: "json \<Rightarrow> string \<Rightarrow> obj \<Rightarrow> smbios_fields \<Rightarrow> string list" where
  "smbios_parts smbios uuid serials = (\<lambda>(kind, strings, numbers, serial).
     [''type='' @ show_nat kind]
     @ List.map_filter (\<lambda>(nm, key). map_option (\<lambda>t. nm @ ''='' @ escape_comma t) (jget_then smbios key as_str)) strings
     @ List.map_filter (\<lambda>(nm, key). map_option (\<lambda>v. nm @ ''='' @ json_text v) (jget smbios key)) numbers
     @ (case (if kind = 0 then jget_then smbios ''bios_vm'' as_bool else None) of
          None \<Rightarrow> [] | Some b \<Rightarrow> [''vm='' @ (if b then ''true'' else ''false'')])
     @ (if kind = 1 then [''uuid='' @ uuid] else [])
     @ (case serial of None \<Rightarrow> [] | Some k \<Rightarrow> [''serial='' @ unwrap_or (get_then serials k as_str) []]))"

definition smbios_argv :: "json \<Rightarrow> string \<Rightarrow> obj \<Rightarrow> string list" where
  "smbios_argv smbios uuid serials = [''-uuid'', uuid] @ concat (map (\<lambda>f.
     let parts = smbios_parts smbios uuid serials f in
     if 1 < length parts then [''-smbios'', join_with '','' parts] else []) smbios_types)"

section \<open>Identity\<close>

definition seed_digest :: "(string \<Rightarrow> 8 word list) \<Rightarrow> string \<Rightarrow> string \<Rightarrow> 8 word list" where
  "seed_digest sha seed label = sha (''unifi-qemu-analysis'' @ [CHR 0x00] @ seed @ [CHR 0x00] @ label)"

definition identity_uuid :: "(string \<Rightarrow> 8 word list) \<Rightarrow> string \<Rightarrow> string" where
  "identity_uuid sha effective = format_uuid (uuid_bytes (seed_digest sha effective ''uuid''))"

definition identity_mac :: "(string \<Rightarrow> 8 word list) \<Rightarrow> string \<Rightarrow> string" where
  "identity_mac sha effective = ''02:'' @ join_with '':'' (map hex2 (take 5 (seed_digest sha effective ''mac'')))"

definition identity_serials :: "string \<Rightarrow> obj" where
  "identity_serials seed_hash = obj_of (map (\<lambda>k. (k, JStr (''AN-'' @ to_ascii_uppercase k @ ''-'' @ take 12 seed_hash)))
     [''bios'', ''system'', ''board'', ''chassis'', ''processor'', ''memory''])"

definition effective_seed :: "string \<Rightarrow> string option \<Rightarrow> string" where
  "effective_seed seed clone =
     (case clone of None \<Rightarrow> seed | Some c \<Rightarrow> seed @ [CHR 0x00] @ ''clone'' @ [CHR 0x00] @ c)"

definition clone_id :: "obj \<Rightarrow> string option plan_result" where
  "clone_id raw =
     rbind (transpose_opt (\<lambda>v. ascii_text v ''analysis.clone'' 64)
       (Option.bind (oget raw ''clone'') (\<lambda>v. if is_null v then None else Some v))) (\<lambda>clone.
     case clone of
       None \<Rightarrow> Inr None
     | Some c \<Rightarrow>
         if c = [] \<or> \<not> is_ascii_alphanumeric (c ! 0)
            \<or> \<not> list_all (\<lambda>b. is_ascii_alphanumeric b \<or> b \<in> {CHR ''_'', CHR ''.'', CHR ''-''}) c
         then invalid ''analysis.clone must be a safe identifier'' else Inr (Some c))"

definition no_nul :: "string \<Rightarrow> string option" where
  "no_nul t = (if t = [] \<or> CHR 0x00 \<in> set t then None else Some t)"

definition analysis_keys :: "string list" where
  "analysis_keys = [''enabled'', ''profile'', ''identity_seed'', ''clone'', ''collection'', ''patch_revision'', ''smbios'', ''acpi'',
     ''device_descriptors'', ''sensors'', ''pci'']"

definition escape_machine :: "json \<Rightarrow> string" where
  "escape_machine v = (case v of JStr t \<Rightarrow> escape_comma t | _ \<Rightarrow> escape_comma (json_text v))"

definition machine_options :: "json \<Rightarrow> (string \<times> string) list \<Rightarrow> string" where
  "machine_options source names = concat (map (\<lambda>(key, nm). case jget source key of
     None \<Rightarrow> [] | Some v \<Rightarrow> '','' @ nm @ ''='' @ escape_machine v) names)"

definition check_cpu_policy :: "json \<Rightarrow> unit plan_result" where
  "check_cpu_policy cpu =
     rbind (needs (Option.bind (as_str cpu) no_nul) ''profile.cpu must be a non-empty string'') (\<lambda>t.
     let parts = split_on (CHR '','') t in
     if [] \<in> set parts \<or> ''kvm=off'' \<notin> set parts \<or> ''hypervisor'' \<in> set parts
     then invalid ''malware-analysis CPU policy must include kvm=off and omit hypervisor'' else Inr ())"

definition opt_text :: "string option \<Rightarrow> json" where
  "opt_text x = (case x of None \<Rightarrow> JNull | Some s \<Rightarrow> JStr s)"

definition analysis_suffix :: "json \<Rightarrow> json \<Rightarrow> json \<Rightarrow> json \<Rightarrow> string" where
  "analysis_suffix pay acpi sensors pci =
     ''analysis-profile=on,x-analysis-profile-json-base64='' @ base64 (bytes_of (json_text pay))
     @ machine_options acpi [(''oem_id'', ''x-oem-id''), (''oem_table_id'', ''x-oem-table-id''), (''oem_revision'', ''x-oem-revision''),
         (''creator_id'', ''x-creator-id''), (''creator_revision'', ''x-creator-revision'')]
     @ machine_options sensors [(''temperature_celsius'', ''x-analysis-temp-c''), (''passive_celsius'', ''x-analysis-passive-temp-c''),
         (''critical_celsius'', ''x-analysis-critical-temp-c''), (''fan_rpm'', ''x-analysis-fan-rpm'')]
     @ machine_options pci [(''subsystem_vendor_id'', ''x-analysis-pci-subsystem-vendor-id''),
         (''subsystem_id'', ''x-analysis-pci-subsystem-id'')]"

definition analysis_machine_ok :: "string \<Rightarrow> string \<Rightarrow> bool" where
  "analysis_machine_ok machine target \<longleftrightarrow>
     (machine = ''q35'' \<or> machine = ''pc'' \<or> starts_with machine ''pc-q35-'' \<or> starts_with machine ''pc-i440fx-'')
     \<and> starts_with target ''x86_64-''"

definition patch_revision_of :: "obj \<Rightarrow> string plan_result" where
  "patch_revision_of raw =
     rbind (transpose_opt (\<lambda>v. needs (Option.bind (as_str v) no_nul) ''analysis.patch_revision must be a non-empty string'')
       (oget raw ''patch_revision'')) (\<lambda>r. Inr (unwrap_or r ''machineemu-analysis-1''))"

definition analysis_plan_of ::
  "(string \<Rightarrow> 8 word list) \<Rightarrow> obj \<Rightarrow> string \<Rightarrow> string \<Rightarrow> int \<Rightarrow> analysis_plan option plan_result" where
  "analysis_plan_of sha prof machine target vcpus =
     (case oget prof ''analysis'' of
        None \<Rightarrow> Inr None
      | Some raw \<Rightarrow>
          rbind (mapping raw ''profile.analysis'') (\<lambda>raw.
          rbind (known_keys raw analysis_keys (\<lambda>k. ''profile.analysis.'' @ k @ '' is unsupported'')) (\<lambda>_.
          if oget raw ''enabled'' \<noteq> Some (JBool True) \<or> get_then raw ''profile'' as_str \<noteq> Some ''malware-analysis''
          then invalid ''profile.analysis requires enabled=true and profile=malware-analysis''
          else if \<not> analysis_machine_ok machine target
          then invalid ''malware-analysis requires an x86_64 q35 or pc machine'' else
          rbind (needs (Option.bind (get_then raw ''identity_seed'' as_str) no_nul) ''analysis.identity_seed must be a non-empty string'') (\<lambda>seed.
          rbind (clone_id raw) (\<lambda>clone.
          if (case oget raw ''collection'' of None \<Rightarrow> False | Some v \<Rightarrow> \<not> is_boolean v)
          then invalid ''analysis.collection must be boolean'' else
          rbind (patch_revision_of raw) (\<lambda>patch.
          let effective = effective_seed seed clone; uuid = identity_uuid sha effective;
              seed_hash = hex_bytes (sha seed); serials = identity_serials seed_hash;
              identity = json_obj [(''uuid'', JStr uuid), (''mac'', JStr (identity_mac sha effective)), (''serials'', JObj serials),
                (''identity_seed_sha256'', JStr seed_hash), (''clone'', opt_text clone)] in
          rbind (validate_smbios (oget raw ''smbios'')) (\<lambda>smbios.
          rbind (validate_acpi (oget raw ''acpi'')) (\<lambda>acpi.
          rbind (validate_descriptors (oget raw ''device_descriptors'')) (\<lambda>descriptors.
          rbind (validate_sensors (oget raw ''sensors'')) (\<lambda>sensors.
          rbind (validate_pci (oget raw ''pci'')) (\<lambda>pci.
          let normalized = json_obj [(''schema_version'', jint 1), (''profile'', JStr ''malware-analysis''),
                (''identity_seed_sha256'', JStr seed_hash), (''identity'', identity), (''clone'', opt_text clone),
                (''collection'', unwrap_or (oget raw ''collection'') (JBool False)), (''patch_revision'', JStr patch),
                (''smbios'', smbios), (''acpi'', acpi), (''device_descriptors'', descriptors), (''sensors'', sensors), (''pci'', pci)];
              cpu = unwrap_or (oget prof ''cpu'') (JStr ''host,kvm=off'') in
          rbind (check_cpu_policy cpu) (\<lambda>_.
          let network = unwrap_or (oget prof ''network'') (json_obj [(''type'', JStr ''user'')]);
              pay = json_obj [(''analysis'', normalized), (''network'', network), (''cpu'', cpu),
                (''vcpu'', JNum (if vcpus < 0 then NegInt vcpus else PosInt (nat vcpus))),
                (''memory'', unwrap_or (opt_get (oget prof ''resources'') ''memory'') JNull)] in
          Inr (Some \<lparr>machine_suffix = analysis_suffix pay acpi sensors pci,
            analysis_argv = smbios_argv smbios uuid serials, payload = pay\<rparr>)))))))))))))"

end
