(* ===== verification/LaunchPlan.thy ===== *)
theory LaunchPlan
  imports Analysis
begin

text \<open>
  \<open>engine/plan.rs\<close>, \<open>build_plan\<close>: a profile, a release set and the directories of an instance become the
  ordered argument vector of QEMU, the files to prepare, the helper's arguments and the launch manifest.
\<close>

record plan_input =
  pi_profile :: json
  release_set :: json
  bundle_root :: path
  asset_root :: "path option"
  pi_components :: "(string \<times> path) list"
  pi_target :: string
  runtime_dir :: path
  state_dir :: "path option"
  pi_seed :: "path option"
  swtpm :: "path option"
  bridge_helper :: "path option"
  pi_mac :: "string option"
  pi_instance :: "string option"

record launch_plan =
  lp_schema_version :: nat
  lp_executable :: path
  lp_argv :: "string list"
  lp_environment :: "(string \<times> string) list"
  preparation_of :: preparation
  lp_helper_argv :: "string list option"
  lp_manifest :: json

definition root_ports :: "string \<Rightarrow> string list" where
  "root_ports machine =
     (if contains_str machine ''q35''
      then [''-device'', ''pcie-root-port,id=pcie-root-port-iso,chassis=16,slot=16'',
            ''-device'', ''pcie-root-port,id=pcie-root-port-1,chassis=17,slot=17'',
            ''-device'', ''pcie-root-port,id=pcie-root-port-2,chassis=18,slot=18'']
      else [])"

definition cpu_of :: "obj \<Rightarrow> string" where
  "cpu_of prof = unwrap_or (get_then prof ''cpu'' as_str) (if contains_key prof ''analysis'' then ''host,kvm=off'' else ''max'')"

definition or_opt :: "'a option \<Rightarrow> 'a option \<Rightarrow> 'a option" where
  "or_opt x y = (case x of None \<Rightarrow> y | Some a \<Rightarrow> Some a)"

text \<open>An explicit address wins, then the profile's, then the one derived from the instance name.\<close>

definition nic_address :: "(string \<Rightarrow> 8 word list) \<Rightarrow> plan_input \<Rightarrow> obj \<Rightarrow> string option" where
  "nic_address sha input prof = or_opt (pi_mac input)
     (or_opt (opt_get_str (oget prof ''devices'') ''mac'') (map_option (derive_mac sha) (pi_instance input)))"

text \<open>Executable, machine, accelerator, CPU, memory, monitor: the arguments before the network.\<close>

definition base_args :: "plan_env \<Rightarrow> path \<Rightarrow> string \<Rightarrow> string \<Rightarrow> path \<Rightarrow> obj \<Rightarrow> obj \<Rightarrow> string \<Rightarrow> int \<Rightarrow> string list plan_result" where
  "base_args env exe machine machine_arg runtime prof resources mem vcpus =
     rbind (case get_then resources ''accelerator'' as_str of
         None \<Rightarrow> Inr [] | Some a \<Rightarrow> accelerator a (oget resources ''accelerator_thread'')) (\<lambda>accel.
     rbind (smp resources vcpus) (\<lambda>smp_text.
     Inr ([exe, ''-machine'', machine_arg] @ root_ports machine @ accel
       @ (if machine \<noteq> ''udm-pro'' \<or> contains_key prof ''cpu'' then [''-cpu'', cpu_of prof] else [])
       @ [''-m'', mem, ''-smp'', smp_text, ''-qmp'', ''unix:'' @ path_join runtime ''sockets/qmp.sock'' @ '',server=on,wait=off'',
          ''-pidfile'', path_join runtime ''control/qemu.pid''])))"

definition network_args :: "plan_env \<Rightarrow> plan_input \<Rightarrow> string \<Rightarrow> obj \<Rightarrow> string list \<Rightarrow> string list plan_result" where
  "network_args env input machine prof args =
     (let address = nic_address (sha256 env) input prof; nic = opt_get_str (oget prof ''devices'') ''nic'' in
      if machine = ''udm-pro'' then append_udm_network args (oget prof ''network'') (bridge_helper input) address
      else append_network args (oget prof ''network'') nic (bridge_helper input) address)"

definition seed_args :: "plan_env \<Rightarrow> path option \<Rightarrow> string list \<Rightarrow> string list plan_result" where
  "seed_args env seed args =
     (case seed of
        None \<Rightarrow> Inr args
      | Some s \<Rightarrow> if \<not> is_file env s then invalid (''cloud-init seed is unavailable: '' @ s)
          else Inr (args @ [''-drive'', ''file='' @ s @ '',media=cdrom,readonly=on'']))"

definition udm_boot_roles :: "string \<Rightarrow> obj \<Rightarrow> unit plan_result" where
  "udm_boot_roles machine prof =
     (if machine \<noteq> ''udm-pro'' then Inr ()
      else check_all [''kernel'', ''initrd''] (\<lambda>role.
        case opt_get (oget prof ''boot'') role of
          None \<Rightarrow> invalid (''UDM Pro requires profile.boot.'' @ role)
        | Some v \<Rightarrow> if is_null v then invalid (''UDM Pro requires profile.boot.'' @ role) else Inr ()))"

definition storage_args ::
  "plan_env \<Rightarrow> string \<Rightarrow> obj \<Rightarrow> source_resolver \<Rightarrow> path \<Rightarrow> json option \<Rightarrow> string list \<times> preparation
   \<Rightarrow> (string list \<times> preparation) plan_result" where
  "storage_args env machine prof sources state_path desc = (\<lambda>(args, prep).
     if machine = ''udm-pro''
     then rbind (append_udm_storage env args (oget prof ''storage'') sources) (\<lambda>args. Inr (args, prep))
     else append_storage env args prep (oget prof ''storage'') sources machine state_path desc)"

definition tpm_args ::
  "plan_input \<Rightarrow> obj \<Rightarrow> path \<Rightarrow> path \<Rightarrow> string list \<times> preparation
   \<Rightarrow> (string list \<times> preparation \<times> string list option) plan_result" where
  "tpm_args input prof runtime state_path = (\<lambda>(args, prep).
     if oget prof ''tpm'' = None then Inr (args, prep, None)
     else
       let socket = path_join runtime ''sockets/tpm.sock''; dir = path_join state_path ''tpm'' in
       rbind (append_tpm args (oget prof ''tpm'') socket) (\<lambda>args.
       Inr (args, prep\<lparr>tpm_state := Some dir\<rparr>,
         Some [unwrap_or (swtpm input) ''swtpm'', ''socket'', ''--tpm2'', ''--tpmstate'', ''dir='' @ dir,
           ''--ctrl'', ''type=unixio,path='' @ socket])))"

definition vsock_cid :: "plan_env \<Rightarrow> plan_input \<Rightarrow> obj \<Rightarrow> path \<Rightarrow> 32 word option" where
  "vsock_cid env input prof runtime =
     (if Option.bind (opt_get (oget prof ''devices'') ''vsock'') as_bool = Some True
      then Some (derive_vsock_cid (sha256 env) runtime (pi_instance input)) else None)"

definition vsock_args :: "32 word option \<Rightarrow> string list" where
  "vsock_args cid = (case cid of None \<Rightarrow> []
     | Some c \<Rightarrow> [''-device'', ''vhost-vsock-pci,id=machineemu-vsock,guest-cid='' @ show_nat (unat c)])"

definition board_args :: "string \<Rightarrow> obj \<Rightarrow> path \<Rightarrow> string list \<Rightarrow> string list plan_result" where
  "board_args machine prof runtime args =
     (if machine = ''udm-pro'' then append_udm_devices args (oget prof ''devices'') runtime
      else if machine = ''us24pro'' then
        Inr (args @ [''-chardev'', socket_chardev ''frontpanel-events'' (escape_comma (path_join runtime ''frontpanel-events.sock'')),
          ''-global'', ''unifi-board.frontpanel=frontpanel-events''])
      else Inr args)"

text \<open>Devices, audio, display, board and wifi: the arguments after the TPM.\<close>

definition device_args ::
  "string \<Rightarrow> obj \<Rightarrow> path \<Rightarrow> json option \<Rightarrow> 32 word option \<Rightarrow> string list \<Rightarrow> string list plan_result" where
  "device_args machine prof runtime display cid args =
     rbind (append_devices args (oget prof ''devices'') runtime) (\<lambda>args.
     rbind (append_audio (args @ vsock_args cid)
       (or_opt (oget prof ''audio'') (opt_get (oget prof ''devices'') ''audio'')) (oget prof ''devices'') runtime) (\<lambda>args.
     rbind (append_analysis_video args (opt_get (oget prof ''devices'') ''video'') display) (\<lambda>args.
     let args = args @ (if display = None
             \<and> Option.bind (opt_get (opt_get (oget prof ''devices'') ''video'') ''model'') as_str = Some ''vga''
           then [''-vga'', ''std''] else []) in
     rbind (board_args machine prof runtime args) (\<lambda>args.
     append_wifi args (oget prof ''wifi'') machine runtime))))"

fun index_of :: "string \<Rightarrow> string list \<Rightarrow> nat option" where
  "index_of x [] = None"
| "index_of x (y # ys) = (if x = y then Some 0 else map_option Suc (index_of x ys))"

definition int_json :: "int \<Rightarrow> json" where
  "int_json i = JNum (if i < 0 then NegInt i else PosInt (nat i))"

definition plan_manifest ::
  "plan_input \<Rightarrow> string \<Rightarrow> string \<Rightarrow> string \<Rightarrow> json \<Rightarrow> string \<Rightarrow> string list \<Rightarrow> int \<Rightarrow> path \<Rightarrow> analysis_plan option
   \<Rightarrow> 32 word option \<Rightarrow> json" where
  "plan_manifest input profile_id machine machine_arg engine track args vcpus runtime analysis cid =
     json_obj
      ([(''schema_version'', int_json 1), (''profile_id'', JStr profile_id), (''target'', JStr (pi_target input)),
        (''machine'', JStr machine), (''machine_argument'', JStr machine_arg), (''engine'', engine), (''engine_track'', JStr track),
        (''resources'', json_obj [(''memory'', JStr (args ! (unwrap_or (index_of ''-m'' args) 0 + 1))), (''vcpus'', int_json vcpus)]),
        (''qmp_socket'', JStr (path_join runtime ''sockets/qmp.sock'')), (''pidfile'', JStr (path_join runtime ''control/qemu.pid'')),
        (''image_components'', json_obj (map (\<lambda>(k, p). (k, JStr p)) (pi_components input)))]
       @ (case analysis of None \<Rightarrow> []
          | Some a \<Rightarrow> [(''analysis_argv'', JArr (map JStr (analysis_argv a))), (''analysis_payload'', payload a)])
       @ (case cid of None \<Rightarrow> [] | Some c \<Rightarrow> [(''vsock'', json_obj [(''guest_cid'', int_json (uint c))])]))"

definition build_plan :: "plan_env \<Rightarrow> plan_input \<Rightarrow> launch_plan plan_result" where
  "build_plan env input =
     rbind (object (pi_profile input) ''profile'') (\<lambda>prof.
     rbind (number_field prof ''schema_version'') (\<lambda>version.
     if version \<noteq> 2 then invalid ''profile schema_version must be 2'' else
     rbind (string_field prof ''id'') (\<lambda>profile_id.
     rbind (string_field prof ''machine'') (\<lambda>machine.
     rbind (validate_launch_settings prof) (\<lambda>_.
     rbind (engine_tracks prof) (\<lambda>tracks.
     rbind (resolve_engine_ordered env (release_set input) (bundle_root input) tracks (pi_target input)) (\<lambda>(track, engine, exe).
     let runtime = (case canonicalize env (runtime_dir input) of Inl _ \<Rightarrow> runtime_dir input | Inr p \<Rightarrow> p);
         state_path = unwrap_or (state_dir input) runtime in
     rbind (object (unwrap_or (oget prof ''resources'') (JObj [])) ''profile.resources'') (\<lambda>resources.
     rbind (needs (oget resources ''memory'') ''profile.resources.memory must be supplied'') (\<lambda>mem_value.
     rbind (memory mem_value) (\<lambda>mem.
     rbind (positive_int (unwrap_or (oget resources ''vcpus'') (int_json 1)) ''profile.resources.vcpus'') (\<lambda>vcpus.
     rbind (analysis_plan_of (sha256 env) prof machine (pi_target input) vcpus) (\<lambda>analysis.
     rbind (machine_value machine (oget prof ''smm'') None) (\<lambda>machine_arg.
     let machine_arg = machine_arg @ (case analysis of None \<Rightarrow> [] | Some a \<Rightarrow> '','' @ machine_suffix a) in
     rbind (base_args env exe machine machine_arg runtime prof resources mem vcpus) (\<lambda>args.
     rbind (network_args env input machine prof args) (\<lambda>args.
     rbind (seed_args env (pi_seed input) args) (\<lambda>args.
     let sources = \<lparr>image_components = pi_components input, base_dir = asset_root input\<rparr>;
         desc = (\<lambda>k. Option.bind analysis (\<lambda>a. jpointer (payload a) [''analysis'', ''device_descriptors'', k])) in
     rbind (append_firmware env args empty_preparation (oget prof ''firmware'') sources state_path) (\<lambda>(args, prep).
     rbind (udm_boot_roles machine prof) (\<lambda>_.
     rbind (append_direct_boot env args (oget prof ''boot'') sources) (\<lambda>args.
     rbind (storage_args env machine prof sources state_path (desc ''storage'') (args, prep)) (\<lambda>state.
     rbind (tpm_args input prof runtime state_path state) (\<lambda>(args, prep, helper).
     let cid = vsock_cid env input prof runtime in
     rbind (device_args machine prof runtime (desc ''display'') cid args) (\<lambda>args.
     let args = args @ (case analysis of None \<Rightarrow> [] | Some a \<Rightarrow> analysis_argv a) in
     Inr \<lparr>lp_schema_version = 1, lp_executable = exe, lp_argv = args, lp_environment = [], preparation_of = prep, lp_helper_argv = helper,
       lp_manifest = plan_manifest input profile_id machine machine_arg engine track args vcpus runtime analysis cid\<rparr>))))))))))))))))))))))"

end
