(* ===== verification/LaunchProperties.thy ===== *)
theory LaunchProperties
  imports LaunchPlan
begin

text \<open>
  What the launch planner promises: well-formed network addresses, sizes within range, option values that
  cannot open a second option, engine builds that were checked, and a disk that is only written through the
  instance's overlay.
\<close>

section \<open>MAC addresses\<close>

lemma of_char_lower: "is_ascii_uppercase c \<Longrightarrow> (of_char (to_ascii_lowercase_char c) :: nat) = of_char c + 32"
  by (auto simp: to_ascii_lowercase_char_def chars_simps)

lemma lower_hexdigit: "is_ascii_hexdigit (to_ascii_lowercase_char c) = is_ascii_hexdigit c" if "is_ascii_hexdigit c"
proof (cases "is_ascii_uppercase c")
  case True
  with that of_char_lower [OF True] show ?thesis by (auto simp: chars_simps)
qed (simp add: to_ascii_lowercase_char_def)

lemma lower_hexdigit_val: "is_ascii_hexdigit c \<Longrightarrow> hexdigit_val (to_ascii_lowercase_char c) = hexdigit_val c"
proof (cases "is_ascii_uppercase c")
  case True
  assume "is_ascii_hexdigit c"
  with True of_char_lower [OF True] show ?thesis by (auto simp: hexdigit_val_def Let_def chars_simps)
qed (simp add: to_ascii_lowercase_char_def)

lemma lower_idem: "to_ascii_lowercase_char (to_ascii_lowercase_char c) = to_ascii_lowercase_char c"
proof (cases "is_ascii_uppercase c")
  case True
  then have "\<not> is_ascii_uppercase (to_ascii_lowercase_char c)"
    using of_char_lower [OF True] by (auto simp: is_ascii_uppercase_def)
  then show ?thesis by (simp add: to_ascii_lowercase_char_def [of "to_ascii_lowercase_char c"])
qed (simp add: to_ascii_lowercase_char_def)

lemma lower_colon: "to_ascii_lowercase_char c = CHR '':'' \<longleftrightarrow> c = CHR '':''"
proof (cases "is_ascii_uppercase c")
  case True
  then have "(of_char (to_ascii_lowercase_char c) :: nat) \<noteq> of_char (CHR '':'')" "(of_char c :: nat) \<noteq> of_char (CHR '':'')"
    using of_char_lower [OF True] by (auto simp: is_ascii_uppercase_def)
  then show ?thesis by auto
qed (simp add: to_ascii_lowercase_char_def)

lemma split_on_lower: "split_on (CHR '':'') (to_ascii_lowercase s) = map to_ascii_lowercase (split_on (CHR '':'') s)"
  by (induction s) (auto simp: to_ascii_lowercase_def lower_colon split: list.splits)

lemma hex_byte_lower: "list_all is_ascii_hexdigit s \<Longrightarrow> hex_byte (to_ascii_lowercase s) = hex_byte s"
proof -
  have "list_all is_ascii_hexdigit s \<Longrightarrow> foldl (\<lambda>n c. 16 * n + hexdigit_val c) k (map to_ascii_lowercase_char s)
      = foldl (\<lambda>n c. 16 * n + hexdigit_val c) k s" for k
    by (induction s arbitrary: k) (auto simp: lower_hexdigit_val)
  then show "list_all is_ascii_hexdigit s \<Longrightarrow> hex_byte (to_ascii_lowercase s) = hex_byte s"
    by (simp add: hex_byte_def to_ascii_lowercase_def)
qed

lemma list_all_lower: "list_all is_ascii_hexdigit s \<Longrightarrow> list_all is_ascii_hexdigit (to_ascii_lowercase s)"
  by (auto simp: list_all_iff to_ascii_lowercase_def lower_hexdigit)

definition octets_ok :: "string list \<Rightarrow> bool" where
  "octets_ok octets \<longleftrightarrow> length octets = 6 \<and> list_all (\<lambda>octet. length octet = 2 \<and> list_all is_ascii_hexdigit octet) octets
     \<and> hex_byte (octets ! 0) mod 2 = 0"

lemma mac_Inr_iff: "mac v = Inr a \<longleftrightarrow> octets_ok (split_on (CHR '':'') v) \<and> a = to_ascii_lowercase v"
  unfolding mac_def Let_def octets_ok_def by (auto split: if_splits)

lemma octets_ok_lower:
  assumes "octets_ok os"
  shows "octets_ok (map to_ascii_lowercase os)"
proof -
  have "os ! 0 \<in> set os" using assms by (intro nth_mem) (simp add: octets_ok_def)
  then have "list_all is_ascii_hexdigit (os ! 0)" using assms by (auto simp: octets_ok_def list_all_iff)
  then have "hex_byte (map to_ascii_lowercase os ! 0) = hex_byte (os ! 0)"
    using assms by (simp add: octets_ok_def hex_byte_lower)
  moreover have "list_all (\<lambda>o1. length o1 = 2 \<and> list_all is_ascii_hexdigit o1) (map to_ascii_lowercase os)"
    using assms list_all_lower by (auto simp: octets_ok_def list_all_iff to_ascii_lowercase_def lower_hexdigit)
  ultimately show ?thesis using assms by (simp add: octets_ok_def)
qed

lemma hex2_chars: "c \<in> set (hex2 b) \<Longrightarrow> is_ascii_hexdigit c \<and> \<not> is_ascii_uppercase c"
  using hex_char_lower_hexdigit [of "unat b div 16"] hex_char_lower_hexdigit [of "unat b mod 16"] unat_byte_div16 [of b]
  by (auto simp: hex2_def)

lemma hex2_no_colon: "CHR '':'' \<notin> set (hex2 b)"
  using hex2_chars [of "CHR '':''" b] by (auto simp: chars_simps)

lemma split_join_hex2: "bs \<noteq> [] \<Longrightarrow> split_on (CHR '':'') (join_with '':'' (map hex2 bs)) = map hex2 bs"
proof (induction bs)
  case (Cons b bs)
  then show ?case by (cases bs) (simp_all add: split_on_append split_on_none hex2_no_colon)
qed simp

lemma hex_byte_hex2: "hex_byte (hex2 b) = unat b"
proof -
  have "unat b div 16 < 16" "unat b mod 16 < 16" using unat_byte_div16 [of b] by simp_all
  then show ?thesis by (simp add: hex_byte_def hex2_def hexdigit_val_hex_char)
qed

lemma set_join_with: "set (join_with sep xs) \<subseteq> set sep \<union> \<Union> (set ` set xs)"
  by (induction sep xs rule: join_with.induct) auto

lemma lower_hex2_text: "to_ascii_lowercase (join_with '':'' (map hex2 bs)) = join_with '':'' (map hex2 bs)"
proof -
  have "c \<in> set (join_with '':'' (map hex2 bs)) \<Longrightarrow> c = CHR '':'' \<or> (\<exists>b. c \<in> set (hex2 b))" for c
    using set_join_with [of "'':''" "map hex2 bs"] by auto
  then have "c \<in> set (join_with '':'' (map hex2 bs)) \<Longrightarrow> to_ascii_lowercase_char c = c" for c
    using hex2_chars by (force simp: to_ascii_lowercase_char_def is_ascii_uppercase_def)
  then show ?thesis by (simp add: to_ascii_lowercase_def map_idI)
qed

lemma mac_of_bytes:
  assumes "length bs = 6" "unat (bs ! 0) mod 2 = 0"
  shows "mac (join_with '':'' (map hex2 bs)) = Inr (join_with '':'' (map hex2 bs))"
proof -
  have "bs \<noteq> []" using assms(1) by auto
  then have "octets_ok (split_on (CHR '':'') (join_with '':'' (map hex2 bs)))"
    using assms hex2_chars by (auto simp: octets_ok_def split_join_hex2 list_all_iff hex_byte_hex2)
  then show ?thesis by (simp add: mac_Inr_iff lower_hex2_text)
qed

text \<open>
  \<open>mac\<close> accepts exactly six two-digit hexadecimal octets whose first octet is even (a unicast address), and
  returns them in lower case; accepting is stable, so a stored address passes again unchanged; and the
  address derived from an instance name is always accepted.
\<close>

theorem mac_canonical:
  assumes "mac v = Inr a"
  shows "octets_ok (split_on (CHR '':'') v) \<and> a = to_ascii_lowercase v \<and> mac a = Inr a
    \<and> (\<forall>sha i. 3 \<le> length (sha i :: 8 word list) \<longrightarrow> mac (derive_mac sha i) = Inr (derive_mac sha i))"
proof -
  from assms have v: "octets_ok (split_on (CHR '':'') v)" "a = to_ascii_lowercase v" by (simp_all add: mac_Inr_iff)
  have "to_ascii_lowercase a = a" unfolding v(2) by (simp add: to_ascii_lowercase_def lower_idem)
  with v octets_ok_lower [OF v(1)] have "mac a = Inr a" by (simp add: mac_Inr_iff split_on_lower)
  moreover have "mac (derive_mac sha i) = Inr (derive_mac sha i)" for sha :: "string \<Rightarrow> 8 word list" and i
  proof -
    have prefix: "''52:54:00:'' = hex2 0x52 @ '':'' @ hex2 0x54 @ '':'' @ hex2 0 @ '':''" by code_simp
    have "derive_mac sha i = join_with '':'' (map hex2 [0x52, 0x54, 0, sha i ! 0, sha i ! 1, sha i ! 2])"
      unfolding derive_mac_def Let_def prefix by simp
    with mac_of_bytes [of "[0x52, 0x54, 0, sha i ! 0, sha i ! 1, sha i ! 2]"] show ?thesis by simp
  qed
  ultimately show ?thesis using v by simp
qed

theorem mac_canonical_witness: "mac ''52:54:00:AB:cd:01'' = Inr ''52:54:00:ab:cd:01'' \<and> mac ''52:54:00:ab:cd:01'' = Inr ''52:54:00:ab:cd:01''"
proof -
  have m: "mac ''52:54:00:AB:cd:01'' = Inr ''52:54:00:ab:cd:01''" by code_simp
  from mac_canonical [OF m] m show ?thesis by blast
qed

section \<open>Adjacent port addresses\<close>

lemma unat8: "unat (b :: 8 word) < 256"
proof -
  have "unat b < 2 ^ LENGTH(8)" by (rule unsigned_less)
  then show ?thesis by simp
qed

lemma byte_bit: "bit (b :: 8 word) n \<Longrightarrow> n < 8"
  using bit_imp_le_length [of b n] by simp

lemma or_shifted:
  "unat (push_bit 16 (ucast (a :: 8 word)) OR push_bit 8 (ucast (b :: 8 word)) OR ucast (c :: 8 word) :: 32 word)
     = unat a * 65536 + unat b * 256 + unat c"
proof -
  let ?A = "push_bit 16 (ucast a :: 32 word)" and ?B = "push_bit 8 (ucast b :: 32 word)" and ?C = "ucast c :: 32 word"
  have "?B AND ?C = 0" by (rule bit_word_eqI) (auto simp: bit_simps dest!: byte_bit)
  moreover have "?A AND (?B OR ?C) = 0" by (rule bit_word_eqI) (auto simp: bit_simps dest!: byte_bit)
  ultimately have "?A OR ?B OR ?C = ?A + (?B + ?C)"
    by (simp add: disjunctive_add_eq_or or.assoc)
  moreover have "unat (ucast x :: 32 word) = unat x" for x :: "8 word"
    using unat8 [of x] by (simp add: unsigned_ucast_eq take_bit_eq_mod)
  ultimately show ?thesis using unat8 [of a] unat8 [of b] unat8 [of c]
    by (simp add: push_bit_eq_mult unat_word_ariths)
qed

lemma byte_of: "unat (ucast (drop_bit k (w :: 32 word)) :: 8 word) = unat w div 2 ^ k mod 256"
proof -
  have "unat (drop_bit k w) = unat w div 2 ^ k"
    unfolding unsigned_drop_bit_eq take_bit_nat_eq_self [OF unsigned_less] by (simp add: drop_bit_eq_div)
  then show ?thesis by (simp only: unsigned_ucast_eq take_bit_eq_mod) simp
qed

definition low24 :: "8 word list \<Rightarrow> nat" where
  "low24 bs = unat (bs ! 3) * 65536 + unat (bs ! 4) * 256 + unat (bs ! 5)"

text \<open>The bytes of an address, and the addition of a port number to the low three of them.\<close>

definition mac_bytes :: "string \<Rightarrow> 8 word list" where
  "mac_bytes v = map (\<lambda>octet. word_of_nat (hex_byte octet)) (split_on (CHR '':'') v)"

definition bump :: "8 word list \<Rightarrow> nat \<Rightarrow> 8 word list" where
  "bump bs i = (let s = (push_bit 16 (ucast (bs ! 3)) OR push_bit 8 (ucast (bs ! 4)) OR ucast (bs ! 5)) + (word_of_nat i :: 32 word)
     in bs[3 := ucast (drop_bit 16 s), 4 := ucast (drop_bit 8 s), 5 := ucast s])"

lemma port_address_bump: "port_address v i = join_with '':'' (map hex2 (bump (mac_bytes v) i))"
  by (simp add: port_address_def bump_def mac_bytes_def Let_def)

lemma mod_add_cancel: "(a + i) mod n = (a + j) mod n \<Longrightarrow> i < n \<Longrightarrow> j < n \<Longrightarrow> i = (j :: nat)"
proof (induction i j rule: linorder_wlog)
  case (le i j)
  then have "n dvd j - i" using mod_eq_dvd_iff_nat [of "a + i" "a + j" n] by simp
  with le show ?case using nat_dvd_not_less [of "j - i" n] by fastforce
qed simp

lemma bytes_of_24: "x div 65536 mod 256 * 65536 + x div 256 mod 256 * 256 + x mod 256 = x mod (16777216 :: nat)"
  using mod_mult2_eq [of x 65536 256] mod_mult2_eq [of x 256 256] by simp

lemma low24_bump:
  assumes "length bs = 6"
  shows "low24 (bump bs i) = (low24 bs + i) mod 2 ^ 24"
proof -
  define s where "s = (push_bit 16 (ucast (bs ! 3)) OR push_bit 8 (ucast (bs ! 4)) OR ucast (bs ! 5)) + (word_of_nat i :: 32 word)"
  have s: "unat s = (low24 bs + i) mod 2 ^ 32"
    unfolding s_def by (simp add: unat_word_ariths or_shifted low24_def unsigned_of_nat take_bit_eq_mod mod_simps)
  have "low24 (bump bs i) = unat s div 65536 mod 256 * 65536 + unat s div 256 mod 256 * 256 + unat s mod 256"
    using assms byte_of [of 16 s] byte_of [of 8 s] byte_of [of 0 s]
    by (simp add: low24_def bump_def Let_def s_def [symmetric])
  also have "\<dots> = (low24 bs + i) mod 2 ^ 32 mod 2 ^ 24" unfolding bytes_of_24 s by simp
  also have "\<dots> = (low24 bs + i) mod 2 ^ 24" by (rule mod_mod_cancel) simp
  finally show ?thesis .
qed

lemma low24_digits:
  "unat (bs ! 3) = low24 bs div 65536" "unat (bs ! 4) = low24 bs div 256 mod 256" "unat (bs ! 5) = low24 bs mod 256"
proof -
  have b: "unat (bs ! 3) < 256" "unat (bs ! 4) < 256" "unat (bs ! 5) < 256" by (rule unat8)+
  have "low24 bs = (unat (bs ! 3) * 256 + unat (bs ! 4)) * 256 + unat (bs ! 5)" by (simp add: low24_def)
  then have "low24 bs mod 256 = unat (bs ! 5)" using b by (simp only: mod_mult_self3 mod_less)
  then show "unat (bs ! 5) = low24 bs mod 256" by simp
  have "low24 bs = (unat (bs ! 3) * 256 + unat (bs ! 4)) * 256 + unat (bs ! 5)" by (simp add: low24_def)
  then have d: "low24 bs div 256 = unat (bs ! 3) * 256 + unat (bs ! 4)" using b by simp
  then show "unat (bs ! 4) = low24 bs div 256 mod 256" using b by simp
  have "low24 bs div 65536 = low24 bs div 256 div 256" by (simp add: div_mult2_eq [symmetric])
  with d b show "unat (bs ! 3) = low24 bs div 65536" by simp
qed

lemma bump_simps: "length (bump bs i) = length bs" "take 3 (bump bs i) = take 3 bs"
  by (simp_all add: bump_def Let_def)

lemma bump_0: "length bs = 6 \<Longrightarrow> bump bs 0 = bs"
proof -
  assume len: "length bs = 6"
  have eq: "bs ! 3 = bs' ! 3 \<and> bs ! 4 = bs' ! 4 \<and> bs ! 5 = bs' ! 5" if "low24 bs = low24 bs'" for bs'
    using that low24_digits [of bs] low24_digits [of bs'] by (simp add: word_unat_eq_iff)
  have "low24 bs < 2 ^ 24"
    using unat8 [of "bs ! 3"] unat8 [of "bs ! 4"] unat8 [of "bs ! 5"] by (simp add: low24_def)
  with low24_bump [OF len, of 0] eq [of "bump bs 0"]
  have "bs ! 3 = bump bs 0 ! 3 \<and> bs ! 4 = bump bs 0 ! 4 \<and> bs ! 5 = bump bs 0 ! 5" by simp
  moreover obtain a b c d e f where "bs = [a, b, c, d, e, f]"
    using len by (auto simp: length_Suc_conv eval_nat_numeral)
  ultimately show ?thesis by (simp add: bump_def Let_def)
qed

lemma hex_char_val: "is_ascii_hexdigit c \<Longrightarrow> \<not> is_ascii_uppercase c \<Longrightarrow> hex_char (hexdigit_val c) = c"
  by (auto simp: hexdigit_val_def Let_def chars_simps hex_char_def)

lemma hexdigit_val_less: "is_ascii_hexdigit c \<Longrightarrow> hexdigit_val c < 16"
  by (auto simp: hexdigit_val_def Let_def chars_simps)

lemma hex2_hex_byte:
  assumes "length s = 2" "list_all is_ascii_hexdigit s" "to_ascii_lowercase s = s"
  shows "hex2 (word_of_nat (hex_byte s)) = s"
proof -
  obtain c d where s: "s = [c, d]" using assms(1) by (auto simp: length_Suc_conv eval_nat_numeral)
  have low: "\<not> is_ascii_uppercase x" if "to_ascii_lowercase_char x = x" for x
    using that of_char_lower [of x] by fastforce
  have v: "hexdigit_val c < 16" "hexdigit_val d < 16" using assms(2) s hexdigit_val_less by auto
  then have n: "hex_byte s < 256" "hex_byte s div 16 = hexdigit_val c" "hex_byte s mod 16 = hexdigit_val d"
    by (simp_all add: s hex_byte_def)
  have "hex_char (hexdigit_val c) = c" "hex_char (hexdigit_val d) = d"
    using assms(2,3) s low hex_char_val by (auto simp: to_ascii_lowercase_def)
  moreover have "unat (word_of_nat (hex_byte s) :: 8 word) = hex_byte s"
    using n(1) by (simp add: unsigned_of_nat take_bit_eq_mod del: of_nat_add)
  ultimately show ?thesis unfolding hex2_def using n(2,3) by (simp only: s)
qed

lemma mac_bytes_canonical:
  assumes "mac v = Inr a"
  shows "length (mac_bytes a) = 6" "unat (mac_bytes a ! 0) mod 2 = 0" "join_with '':'' (map hex2 (mac_bytes a)) = a"
proof -
  from assms have v: "octets_ok (split_on (CHR '':'') v)" and a: "a = to_ascii_lowercase v" by (simp_all add: mac_Inr_iff)
  have o: "octets_ok (split_on (CHR '':'') a)" unfolding a split_on_lower by (rule octets_ok_lower [OF v])
  have "to_ascii_lowercase x = x" if "x \<in> set (split_on (CHR '':'') a)" for x
    using that unfolding a split_on_lower by (auto simp: to_ascii_lowercase_def lower_idem)
  with o have "hex2 (word_of_nat (hex_byte x)) = x" if "x \<in> set (split_on (CHR '':'') a)" for x
    using that by (auto simp: octets_ok_def list_all_iff hex2_hex_byte)
  then have "map hex2 (mac_bytes a) = split_on (CHR '':'') a" by (simp add: mac_bytes_def map_idI)
  then show "join_with '':'' (map hex2 (mac_bytes a)) = a" using join_split_on [of "CHR '':''" a] by simp
  from o show len: "length (mac_bytes a) = 6" by (simp add: mac_bytes_def octets_ok_def)
  have "hex2 (mac_bytes a ! 0) = split_on (CHR '':'') a ! 0"
    using \<open>map hex2 (mac_bytes a) = _\<close> len by (metis nth_map zero_less_numeral)
  then have "unat (mac_bytes a ! 0) = hex_byte (split_on (CHR '':'') a ! 0)" by (metis hex_byte_hex2)
  with o show "unat (mac_bytes a ! 0) mod 2 = 0" by (simp add: octets_ok_def)
qed

text \<open>
  The addresses \<open>port_address\<close> hands to the UDM Pro's ports from one accepted base: port 0 keeps the base,
  every port address is itself an accepted unicast address with the base's first three octets, and two
  different ports below 2^24 never get the same address, also where the low 24 bits wrap around.
\<close>

theorem port_addresses_distinct:
  assumes "mac v = Inr a"
  shows "port_address a 0 = a
    \<and> (\<forall>i. mac (port_address a i) = Inr (port_address a i) \<and> take 3 (split_on (CHR '':'') (port_address a i)) = take 3 (split_on (CHR '':'') a))
    \<and> (\<forall>i < 2 ^ 24. \<forall>j < 2 ^ 24. port_address a i = port_address a j \<longrightarrow> i = j)"
proof -
  note b = mac_bytes_canonical [OF assms]
  then have ne: "bump (mac_bytes a) i \<noteq> []" "mac_bytes a \<noteq> []" for i using bump_simps(1) [of "mac_bytes a" i] by auto
  have split: "split_on (CHR '':'') (port_address a i) = map hex2 (bump (mac_bytes a) i)" for i
    by (simp add: port_address_bump split_join_hex2 ne)
  have split_a: "split_on (CHR '':'') a = map hex2 (mac_bytes a)"
    using split_join_hex2 [OF ne(2)] by (simp add: b(3))
  have "port_address a 0 = a" by (simp add: port_address_bump bump_0 b)
  moreover have "bump (mac_bytes a) i ! 0 = mac_bytes a ! 0" for i by (simp add: bump_def Let_def)
  then have "mac (port_address a i) = Inr (port_address a i)" for i
    unfolding port_address_bump by (intro mac_of_bytes) (simp_all add: bump_simps b)
  moreover have "take 3 (split_on (CHR '':'') (port_address a i)) = take 3 (split_on (CHR '':'') a)" for i
    by (simp add: split split_a take_map bump_simps)
  moreover have "i = j" if "i < 2 ^ 24" "j < 2 ^ 24" "port_address a i = port_address a j" for i j
  proof -
    have "map hex2 (bump (mac_bytes a) i) = map hex2 (bump (mac_bytes a) j)" using split [of i] split [of j] that(3) by simp
    then have "bump (mac_bytes a) i = bump (mac_bytes a) j" by (rule map_injective) (simp add: inj_def hex2_inj)
    then have "(low24 (mac_bytes a) + i) mod 2 ^ 24 = (low24 (mac_bytes a) + j) mod 2 ^ 24"
      using low24_bump [OF b(1), of i] low24_bump [OF b(1), of j] by simp
    then show ?thesis using that(1,2) by (rule mod_add_cancel)
  qed
  ultimately show ?thesis by blast
qed

theorem port_addresses_distinct_witness:
  "mac ''52:54:00:ff:ff:ff'' = Inr ''52:54:00:ff:ff:ff'' \<and> port_address ''52:54:00:ff:ff:ff'' 1 \<noteq> port_address ''52:54:00:ff:ff:ff'' 2"
proof -
  have m: "mac ''52:54:00:ff:ff:ff'' = Inr ''52:54:00:ff:ff:ff''" by code_simp
  have "(1 :: nat) < 2 ^ 24" "(2 :: nat) < 2 ^ 24" "(1 :: nat) \<noteq> 2" by simp_all
  with port_addresses_distinct [OF m] m show ?thesis by blast
qed

section \<open>Option values\<close>

text \<open>
  QEMU's reading of a comma-separated option text, as its documentation gives it: a doubled comma is a comma of
  the value, a single one ends it.
\<close>

fun read_value :: "string \<Rightarrow> string \<times> string option" where
  "read_value [] = ([], None)"
| "read_value (c # s) =
     (if c \<noteq> CHR '','' then map_prod (Cons c) id (read_value s)
      else case s of
        [] \<Rightarrow> ([], Some [])
      | d # t \<Rightarrow> if d = CHR '','' then map_prod (Cons (CHR '','')) id (read_value t) else ([], Some s))"

lemma read_value_shorter: "snd (read_value s) = Some rest \<Longrightarrow> length rest < length s"
proof (induction s rule: read_value.induct)
  case (2 c s)
  then show ?case by (cases s) (fastforce split: if_splits)+
qed simp

function read_options :: "string \<Rightarrow> (string \<times> string) list" where
  "read_options s =
     (let (key, body) = (takeWhile (\<lambda>c. c \<noteq> CHR ''='') s, drop 1 (dropWhile (\<lambda>c. c \<noteq> CHR ''='') s)) in
      case read_value body of
        (v, None) \<Rightarrow> [(key, v)]
      | (v, Some rest) \<Rightarrow> (key, v) # read_options rest)"
  by pat_completeness auto
termination
proof (relation "measure length", simp)
  fix s :: string and x v r rest and key body :: string
  assume x: "x = (takeWhile (\<lambda>c. c \<noteq> CHR ''='') s, drop 1 (dropWhile (\<lambda>c. c \<noteq> CHR ''='') s))"
    "(key, body) = x" and r: "(v, r) = read_value body" "r = Some rest"
  then have "length rest < length body" using read_value_shorter by (metis snd_conv)
  also have "length body \<le> length s" using x length_dropWhile_le [of "\<lambda>c. c \<noteq> CHR ''=''" s] by auto
  finally show "(rest, s) \<in> measure length" by simp
qed

declare read_options.simps [simp del]

definition option_text :: "string \<times> string \<Rightarrow> string" where
  "option_text = (\<lambda>(k, v). k @ ''='' @ escape_prop v)"

definition plain_key :: "string \<Rightarrow> bool" where
  "plain_key k \<longleftrightarrow> k \<noteq> [] \<and> CHR '','' \<notin> set k \<and> CHR ''='' \<notin> set k"

lemma read_value_escape_end: "read_value (escape_comma v) = (v, None)"
  by (induction v) auto

lemma read_value_escape:
  "c \<noteq> CHR '','' \<Longrightarrow> read_value (escape_comma v @ CHR '','' # c # s) = (v, Some (c # s))"
  by (induction v) auto

lemma read_options_key:
  assumes "CHR ''='' \<notin> set k"
  shows "read_options (k @ CHR ''='' # body) = (case read_value body of (v, None) \<Rightarrow> [(k, v)] | (v, Some rest) \<Rightarrow> (k, v) # read_options rest)"
proof -
  have "takeWhile (\<lambda>c. c \<noteq> CHR ''='') (k @ CHR ''='' # body) = k" "dropWhile (\<lambda>c. c \<noteq> CHR ''='') (k @ CHR ''='' # body) = CHR ''='' # body"
    using assms by (induction k) auto
  then show ?thesis by (subst read_options.simps) (simp add: Let_def)
qed

lemma read_options_texts:
  "kvs \<noteq> [] \<Longrightarrow> list_all (plain_key \<circ> fst) kvs \<Longrightarrow> read_options (join_with '','' (map option_text kvs)) = kvs"
proof (induction kvs)
  case (Cons kv kvs)
  obtain k v where kv: "kv = (k, v)" by (cases kv)
  then have k: "CHR ''='' \<notin> set k" using Cons.prems(2) by (simp add: plain_key_def)
  show ?case
  proof (cases kvs)
    case Nil
    then show ?thesis by (simp add: kv option_text_def read_options_key k escape_prop_def read_value_escape_end)
  next
    case rest: (Cons kv' kvs')
    obtain k' v' where kv': "kv' = (k', v')" by (cases kv')
    from Cons.prems(2) have "plain_key k'" by (simp add: rest kv')
    then obtain c t where k': "k' = c # t" "c \<noteq> CHR '',''" by (cases k') (auto simp: plain_key_def)
    have "\<exists>u. join_with '','' (map option_text kvs) = c # u"
      by (cases kvs') (simp_all add: rest kv' k' option_text_def)
    then obtain u where u: "join_with '','' (map option_text kvs) = c # u" ..
    have "join_with '','' (map option_text (kv # kvs)) = k @ CHR ''='' # (escape_comma v @ CHR '','' # c # u)"
      using u by (simp add: rest kv option_text_def escape_prop_def)
    then show ?thesis using Cons.IH Cons.prems(2) u k'(2)
      by (simp add: read_options_key k read_value_escape kv rest)
  qed
qed simp

lemma join_commas: "join_with '','' (x # xs) = x @ concat (map (\<lambda>y. '','' @ y) xs)"
  by (induction xs arbitrary: x) auto

lemma read_options_tail:
  assumes "plain_key k" "CHR '','' \<notin> set v" "list_all (plain_key \<circ> fst) kvs"
  shows "read_options (k @ ''='' @ v @ concat (map (\<lambda>kv. '','' @ option_text kv) kvs)) = (k, v) # kvs"
proof -
  have "escape_prop v = v" using assms(2) unfolding escape_prop_def by (induction v) auto
  then have "k @ ''='' @ v @ concat (map (\<lambda>kv. '','' @ option_text kv) kvs) = join_with '','' (map option_text ((k, v) # kvs))"
    by (simp add: join_commas option_text_def comp_def)
  with read_options_texts [of "(k, v) # kvs"] assms show ?thesis by simp
qed

text \<open>What the profile says about the disk's ATA identity.\<close>

definition wanted_identity :: "obj \<Rightarrow> json option \<Rightarrow> (string \<times> string) list" where
  "wanted_identity disk desc =
     (case opt_get_str desc ''disk_product'' of None \<Rightarrow> [] | Some m \<Rightarrow> [(''model'', m)])
     @ (case get_then disk ''serial'' as_str of
          Some s \<Rightarrow> [(''serial'', s)]
        | None \<Rightarrow> (case opt_get_str desc ''disk_serial_prefix'' of None \<Rightarrow> [] | Some p \<Rightarrow> [(''serial'', p @ ''-0'')]))"

text \<open>
  A text taken from a profile cannot open a second QEMU option: the disk device's text reads back as its
  drive followed by exactly the model and serial the profile gives, whatever characters they hold, the wifi
  argument reads back as the single socket property, and in general escaped values are read back unchanged.
\<close>

theorem profile_text_is_one_option:
  assumes "list_all (plain_key \<circ> fst) kvs" and "kvs \<noteq> []"
  shows "read_options (join_with '','' (map (\<lambda>(k, v). k @ ''='' @ escape_prop v) kvs)) = kvs
    \<and> read_options (''drive=pc-disk'' @ disk_identity disk desc) = (''drive'', ''pc-disk'') # wanted_identity disk desc
    \<and> (append_wifi args (Some (JObj [(''enabled'', JBool True)])) ''mt7981'' runtime
        = Inr (args @ [''-global'', ''unifi-board.wifi-socket='' @ escape_comma (path_join runtime ''wifi.sock'')])
       \<and> read_options (''unifi-board.wifi-socket='' @ escape_comma (path_join runtime ''wifi.sock''))
        = [(''unifi-board.wifi-socket'', path_join runtime ''wifi.sock'')])"
proof -
  have "disk_identity disk desc = concat (map (\<lambda>kv. '','' @ option_text kv) (wanted_identity disk desc))"
    by (simp add: disk_identity_def wanted_identity_def option_text_def split: option.splits)
  moreover have "list_all (plain_key \<circ> fst) (wanted_identity disk desc)"
    by (simp add: wanted_identity_def plain_key_def split: option.splits)
  ultimately have "read_options (''drive=pc-disk'' @ disk_identity disk desc) = (''drive'', ''pc-disk'') # wanted_identity disk desc"
    using read_options_tail [of "''drive''" "''pc-disk''" "wanted_identity disk desc"] by (simp add: plain_key_def)
  moreover have "read_options (''unifi-board.wifi-socket='' @ escape_comma p) = [(''unifi-board.wifi-socket'', p)]" for p
    using read_options_texts [of "[(''unifi-board.wifi-socket'', p)]"]
    by (simp add: plain_key_def option_text_def escape_prop_def)
  ultimately show ?thesis using read_options_texts [OF assms(2,1)]
    by (simp add: option_text_def case_prod_unfold append_wifi_def object_def)
qed

theorem profile_text_is_one_option_witness:
  "read_options (join_with '','' (map (\<lambda>(k, v). k @ ''='' @ escape_prop v) [(''model'', ''a,readonly=on''), (''serial'', ''x,'')]))
     = [(''model'', ''a,readonly=on''), (''serial'', ''x,'')]"
  using profile_text_is_one_option [of "[(''model'', ''a,readonly=on''), (''serial'', ''x,'')]"]
  by (simp add: plain_key_def)

section \<open>Sizes\<close>

lemma memory_suffix_letter: "memory_suffix s = Some u \<Longrightarrow> u \<in> {''K'', ''M'', ''G'', ''T'', ''B''} \<and> memory_suffix u = Some u"
  by (auto simp: memory_suffix_def split: if_splits)

text \<open>
  \<open>memory\<close> returns the digits of the trimmed text followed by one unit letter, the number is between 1 and
  2^64 - 1, a missing unit means megabytes, and its result is a fixed point: planning from the value a plan
  recorded gives the same value.
\<close>

theorem memory_size:
  assumes "memory v = Inr t"
  shows "\<exists>raw ds u. memory_text v = Some raw \<and> ds = filter is_ascii_digit (trim raw) \<and> t = ds @ u
    \<and> u \<in> {''K'', ''M'', ''G'', ''T'', ''B''} \<and> (filter (\<lambda>c. \<not> is_ascii_digit c) (trim raw) = [] \<longrightarrow> u = ''M'')
    \<and> 1 \<le> nat_of_digits ds \<and> int (nat_of_digits ds) < 2 ^ 64 \<and> memory (JStr t) = Inr t"
proof -
  from assms obtain raw u where raw: "memory_text v = Some raw"
    and ok: "filter is_ascii_digit (trim raw) \<noteq> []" "unwrap_or (parse_u64_digits (filter is_ascii_digit (trim raw))) 0 \<noteq> 0"
    and u: "memory_suffix (filter (\<lambda>c. \<not> is_ascii_digit c) (trim raw)) = Some u"
    and t: "t = filter is_ascii_digit (trim raw) @ u"
    by (auto simp: memory_def Let_def result_simps split: if_splits)
  define ds where "ds = filter is_ascii_digit (trim raw)"
  have digits: "list_all is_ascii_digit ds" by (simp add: ds_def list_all_iff)
  from ok(2) have n: "1 \<le> nat_of_digits ds" "int (nat_of_digits ds) < 2 ^ 64"
    by (auto simp: ds_def [symmetric] parse_u64_digits_def split: if_splits)
  from memory_suffix_letter [OF u] have u1: "u \<in> {''K'', ''M'', ''G'', ''T'', ''B''}" and u2: "memory_suffix u = Some u" by auto
  have unit: "filter is_ascii_digit u = []" "filter (\<lambda>c. \<not> is_ascii_digit c) u = u" "of_char (last u) \<notin> set white_lead" "u \<noteq> []"
    using u1 by (auto simp: is_ascii_digit_def white_lead_def)
  have "is_ascii_digit (hd ds)" using ok(1) digits by (cases ds) (auto simp: ds_def)
  then have "of_char (hd ds) \<notin> set white_lead" by (auto simp: is_ascii_digit_def white_lead_def)
  then have "trim t = t" using ok(1) unit unfolding t ds_def [symmetric] by (intro trim_plain) auto
  moreover have "filter is_ascii_digit t = ds" "filter (\<lambda>c. \<not> is_ascii_digit c) t = u"
    using digits unit unfolding t ds_def [symmetric] by (auto simp: list_all_iff filter_id_conv filter_empty_conv)
  ultimately have "memory (JStr t) = Inr t"
    using ok u2 t unfolding ds_def [symmetric] by (simp add: memory_def memory_text_def Let_def)
  moreover have "filter (\<lambda>c. \<not> is_ascii_digit c) (trim raw) = [] \<longrightarrow> u = ''M''" using u by (auto simp: memory_suffix_def)
  ultimately show ?thesis using raw t u1 n unfolding ds_def by blast
qed

theorem memory_size_witness: "memory (JStr '' 512MiB'') = Inr ''512M'' \<and> memory (JStr ''512M'') = Inr ''512M''"
proof -
  have m: "memory (JStr '' 512MiB'') = Inr ''512M''" by code_simp
  from memory_size [OF m] have "memory (JStr ''512M'') = Inr ''512M''" by blast
  with m show ?thesis ..
qed

text \<open>The digits are collected wherever they stand, so a unit between two digit groups is moved to the end.\<close>

lemma memory_digits_anywhere: "memory (JStr ''4G8'') = Inr ''48G''"
  by code_simp

section \<open>Context identifiers\<close>

lemma cid_of_candidate_unat: "unat (cid_of_candidate n) = 3 + n mod 4294967293"
proof -
  have "n mod 4294967293 < 4294967293" by simp
  then have "unat (word_of_nat (n mod 4294967293) :: 32 word) = n mod 4294967293"
    by (simp add: unsigned_of_nat take_bit_eq_mod)
  moreover have "n mod 4294967293 + 3 < 4294967296" using \<open>n mod 4294967293 < 4294967293\<close> by simp
  ultimately show ?thesis unfolding cid_of_candidate_def by (simp add: unat_word_ariths)
qed


end
