(* ===== verification/LaunchChecks.thy ===== *)
theory LaunchChecks
  imports LaunchProperties
begin

text \<open>
  What the launch planner promises, continued: the context identifier, the choice of the engine build, the disk
  that is only written through the instance's overlay, the analysis payload, and the assembled plan.
\<close>

lemma u32_be_bound: "u32_be bs < 256 ^ length bs"
proof -
  have "foldl (\<lambda>n b. 256 * n + unat (b :: 8 word)) k bs < (k + 1) * 256 ^ length bs" for k
  proof (induction bs arbitrary: k)
    case (Cons b bs)
    have "foldl (\<lambda>n b. 256 * n + unat b) (256 * k + unat b) bs < (256 * k + unat b + 1) * 256 ^ length bs"
      by (rule Cons.IH)
    also have "\<dots> \<le> (256 * (k + 1)) * 256 ^ length bs" using unat8 [of b] by (intro mult_le_mono1) simp
    finally show ?case by (simp only: foldl_Cons length_Cons power_Suc mult_ac)
  qed simp
  from this [of 0] show ?thesis by (simp add: u32_be_def)
qed

text \<open>
  The vsock CID of an instance is never one of the CIDs below 3 that Linux reserves; the reduction lets
  exactly one other reserved value through, the wildcard \<open>VMADDR_CID_ANY\<close> (all bits set), for the single digest
  prefix 0xFFFFFFFC.
\<close>

theorem vsock_cid_range:
  "3 \<le> unat (derive_vsock_cid sha runtime i)
   \<and> (derive_vsock_cid sha runtime i = - 1 \<longleftrightarrow>
        u32_be (take 4 (sha (''machineemu-vsock-cid-v1'' @ [CHR 0x00] @ runtime @ [CHR 0x00] @ unwrap_or i []))) = 4294967292)
   \<and> cid_of_candidate 4294967292 = - 1"
proof -
  define n where "n = u32_be (take 4 (sha (''machineemu-vsock-cid-v1'' @ [CHR 0x00] @ runtime @ [CHR 0x00] @ unwrap_or i [])))"
  have c: "derive_vsock_cid sha runtime i = cid_of_candidate n" by (simp add: derive_vsock_cid_def n_def)
  define bs where "bs = take 4 (sha (''machineemu-vsock-cid-v1'' @ [CHR 0x00] @ runtime @ [CHR 0x00] @ unwrap_or i []))"
  have "length bs \<le> 4" by (simp add: bs_def)
  then have "(256 :: nat) ^ length bs \<le> 256 ^ 4" by (intro power_increasing) simp_all
  with u32_be_bound [of bs] have bound: "n < 4294967296" unfolding n_def bs_def [symmetric] by simp
  have top: "cid_of_candidate m = - 1 \<longleftrightarrow> m mod 4294967293 = 4294967292" for m
    unfolding word_unat_eq_iff cid_of_candidate_unat by (simp add: unsigned_minus_1_eq_mask mask_eq_exp_minus_1)
  have "n mod 4294967293 = 4294967292 \<longleftrightarrow> n = 4294967292"
  proof (cases "n < 4294967293")
    case False
    then have "n mod 4294967293 = n - 4294967293" using bound by (simp add: mod_if)
    with False bound show ?thesis by simp
  qed simp
  with c top show ?thesis unfolding n_def [symmetric] by (simp add: cid_of_candidate_unat)
qed

section \<open>Engine build\<close>

text \<open>What the planner has checked of a build that comes with a manifest.\<close>

definition manifest_build :: "plan_env \<Rightarrow> path \<Rightarrow> string \<Rightarrow> string \<Rightarrow> obj \<Rightarrow> string \<Rightarrow> path \<Rightarrow> bool" where
  "manifest_build env bundle track target entry d exe \<longleftrightarrow>
     (\<exists>rel m executables file. get_then entry ''manifest'' as_str = Some rel \<and> \<not> is_absolute rel
        \<and> load_document env (path_join bundle rel) = Inr (JObj m)
        \<and> get_then m ''track_id'' as_str = Some track
        \<and> get_then m ''build_digest'' as_str = Some d \<and> get_then entry ''build_digest'' as_str = Some d
        \<and> get_then m ''dirty_source'' as_bool = Some False
        \<and> oget m ''executables'' = Some (JObj executables) \<and> get_then executables target as_str = Some file
        \<and> exe = path_join (path_parent (path_join bundle rel)) file
        \<and> (\<forall>hashes h. oget m ''executable_sha256'' = Some (JObj hashes) \<longrightarrow> get_then hashes target as_str = Some h
             \<longrightarrow> (\<exists>data. read_file env exe = Inr data \<and> hex_bytes (sha256 env data) = h)))"

lemma string_field_Inr: "string_field m k = Inr s \<Longrightarrow> get_then m k as_str = Some s"
  by (auto simp: string_field_def result_simps nonempty_def bind_eq_Some_conv split: if_splits)

lemma manifest_identity_Inr:
  "manifest_identity track entry m = Inr d \<Longrightarrow> get_then m ''track_id'' as_str = Some track
    \<and> get_then m ''build_digest'' as_str = Some d \<and> get_then entry ''build_digest'' as_str = Some d
    \<and> get_then m ''dirty_source'' as_bool = Some False"
  by (auto simp: manifest_identity_def rbind_Inr_iff dest!: string_field_Inr split: if_splits)

lemma manifest_executable_Inr:
  "manifest_executable env p target m = Inr exe \<Longrightarrow> \<exists>executables file. oget m ''executables'' = Some (JObj executables)
    \<and> get_then executables target as_str = Some file \<and> exe = path_join (path_parent p) file \<and> is_file env exe"
  by (auto simp: manifest_executable_def Let_def result_simps split: if_splits)

lemma check_executable_digest_Inr:
  "check_executable_digest env target m exe = Inr u \<Longrightarrow> oget m ''executable_sha256'' = Some (JObj hashes)
    \<Longrightarrow> get_then hashes target as_str = Some h \<Longrightarrow> \<exists>data. read_file env exe = Inr data \<and> hex_bytes (sha256 env data) = h"
  by (auto simp: check_executable_digest_def result_simps split: if_splits)

lemma resolve_manifest_checked:
  assumes "resolve_engine_manifest env bundle track target entry = Inr (engine, exe)"
  shows "\<exists>d. engine = json_obj [(''track_id'', JStr track), (''build_digest'', JStr d)] \<and> is_file env exe
    \<and> manifest_build env bundle track target entry d exe"
proof -
  from assms obtain rel m d where "string_field entry ''manifest'' = Inr rel" "\<not> is_absolute rel"
    "load_document env (path_join bundle rel) = Inr (JObj m)" "manifest_identity track entry m = Inr d"
    "manifest_executable env (path_join bundle rel) target m = Inr exe" "check_executable_digest env target m exe = Inr ()"
    and engine: "engine = json_obj [(''track_id'', JStr track), (''build_digest'', JStr d)]"
    by (auto simp: resolve_engine_manifest_def Let_def rbind_Inr_iff object_Inr_iff split: if_splits)
  note facts = this(1-6)
  from manifest_executable_Inr [OF facts(5)] obtain executables rel'
    where ex: "oget m ''executables'' = Some (JObj executables)" "get_then executables target as_str = Some rel'"
      "exe = path_join (path_parent (path_join bundle rel)) rel'" "is_file env exe" by blast
  have "manifest_build env bundle track target entry d exe"
    unfolding manifest_build_def
    using string_field_Inr [OF facts(1)] facts(2,3) manifest_identity_Inr [OF facts(4)] ex(1-3)
      check_executable_digest_Inr [OF facts(6)] by blast
  with engine ex(4) show ?thesis by blast
qed

definition engine_build :: "plan_env \<Rightarrow> json \<Rightarrow> path \<Rightarrow> string \<Rightarrow> string \<Rightarrow> string \<Rightarrow> path \<Rightarrow> bool" where
  "engine_build env release bundle track target d exe \<longleftrightarrow>
     (\<exists>r engines entry. release = JObj r \<and> oget r ''engines'' = Some (JObj engines) \<and> oget engines track = Some (JObj entry)
        \<and> (get_then entry ''executable'' as_str = Some exe \<and> get_then entry ''build_digest'' as_str = Some d
           \<or> get_then entry ''executable'' as_str = None \<and> manifest_build env bundle track target entry d exe))"

lemma resolve_engine_checked:
  assumes "resolve_engine env release bundle track target = Inr (engine, exe)"
  shows "is_file env exe \<and> (\<exists>d. engine = json_obj [(''track_id'', JStr track), (''build_digest'', JStr d)]
    \<and> engine_build env release bundle track target d exe)"
proof -
  from assms obtain r engines entry where e: "release = JObj r" "oget r ''engines'' = Some (JObj engines)" "oget engines track = Some (JObj entry)"
    and rest: "(case get_then entry ''executable'' as_str of
       Some executable \<Rightarrow>
         if \<not> is_file env executable then invalid (''engine executable is missing: '' @ executable)
         else rbind (string_field entry ''build_digest'') (\<lambda>d.
           Inr (json_obj [(''track_id'', JStr track), (''build_digest'', JStr d)], executable))
     | None \<Rightarrow> resolve_engine_manifest env bundle track target entry) = Inr (engine, exe)"
    by (auto simp: resolve_engine_def rbind_Inr_iff object_Inr_iff needs_Inr_iff split: if_splits)
  show ?thesis
  proof (cases "get_then entry ''executable'' as_str")
    case None
    with rest have "resolve_engine_manifest env bundle track target entry = Inr (engine, exe)" by simp
    from resolve_manifest_checked [OF this] None e show ?thesis unfolding engine_build_def by blast
  next
    case (Some x)
    with rest have "x = exe \<and> is_file env exe \<and> (\<exists>d. string_field entry ''build_digest'' = Inr d
        \<and> engine = json_obj [(''track_id'', JStr track), (''build_digest'', JStr d)])"
      by (auto simp: rbind_Inr_iff split: if_splits)
    with Some e show ?thesis unfolding engine_build_def by (blast dest: string_field_Inr)
  qed
qed

lemma resolve_tracks_first:
  "resolve_tracks env release bundle tracks target e = Inr (track, engine, exe) \<Longrightarrow>
    \<exists>before after. tracks = before @ track # after \<and> resolve_engine env release bundle track target = Inr (engine, exe)
      \<and> (\<forall>t \<in> set before. \<not> is_ok (resolve_engine env release bundle t target))"
proof (induction env release "bundle" tracks target e rule: resolve_tracks.induct)
  case (2 env release bd t tracks target e)
  show ?case
  proof (cases "resolve_engine env release bd t target")
    case (Inl x)
    with "2.prems" have "resolve_tracks env release bd tracks target (Some x) = Inr (track, engine, exe)" by simp
    from "2.IH" [OF Inl this] obtain before after where "tracks = before @ track # after"
      "resolve_engine env release bd track target = Inr (engine, exe)"
      "\<forall>t \<in> set before. \<not> is_ok (resolve_engine env release bd t target)" by blast
    with Inl show ?thesis by (intro exI [of _ "t # before"] exI [of _ after]) auto
  next
    case (Inr x)
    with "2.prems" show ?thesis by (intro exI [of _ "[]"] exI [of _ tracks]) (auto split: prod.splits)
  qed
qed (auto split: option.splits)

text \<open>
  The engine a plan runs is the first track of the profile's list that resolves, its executable exists, and it
  was checked: either the release entry pins the executable itself, or its manifest names this track, carries the
  digest the release lists, is not a dirty build, and the executable's SHA-256 is the one the manifest states when
  it states one. When every track fails the error of the last one is returned.
\<close>

theorem engine_choice_checked:
  "(resolve_engine_ordered env release bundle tracks target = Inr (track, engine, exe) \<longrightarrow>
      is_file env exe \<and> (\<exists>before after d. tracks = before @ track # after
        \<and> (\<forall>t \<in> set before. \<not> is_ok (resolve_engine env release bundle t target))
        \<and> engine = json_obj [(''track_id'', JStr track), (''build_digest'', JStr d)]
        \<and> engine_build env release bundle track target d exe))
   \<and> ((\<forall>t \<in> set tracks. \<not> is_ok (resolve_engine env release bundle t target)) \<and> tracks \<noteq> [] \<longrightarrow>
      (\<exists>e. resolve_engine env release bundle (last tracks) target = Inl e
        \<and> resolve_engine_ordered env release bundle tracks target = Inl e))"
proof (intro conjI impI)
  assume "resolve_engine_ordered env release bundle tracks target = Inr (track, engine, exe)"
  from resolve_tracks_first [OF this [unfolded resolve_engine_ordered_def]] obtain before after
    where t: "tracks = before @ track # after" "resolve_engine env release bundle track target = Inr (engine, exe)"
      "\<forall>t \<in> set before. \<not> is_ok (resolve_engine env release bundle t target)" by blast
  from resolve_engine_checked [OF t(2)] t show "is_file env exe" "\<exists>before after d. tracks = before @ track # after
        \<and> (\<forall>t \<in> set before. \<not> is_ok (resolve_engine env release bundle t target))
        \<and> engine = json_obj [(''track_id'', JStr track), (''build_digest'', JStr d)]
        \<and> engine_build env release bundle track target d exe" by blast+
next
  have "(\<forall>t \<in> set ts. \<not> is_ok (resolve_engine env release bundle t target)) \<Longrightarrow> ts \<noteq> [] \<Longrightarrow>
      \<exists>e. resolve_engine env release bundle (last ts) target = Inl e \<and> resolve_tracks env release bundle ts target l = Inl e" for ts l
  proof (induction ts arbitrary: l)
    case (Cons t ts)
    then obtain e where e: "resolve_engine env release bundle t target = Inl e" by (cases "resolve_engine env release bundle t target") auto
    with Cons show ?case by (cases "ts = []") auto
  qed simp
  moreover assume "(\<forall>t \<in> set tracks. \<not> is_ok (resolve_engine env release bundle t target)) \<and> tracks \<noteq> []"
  ultimately show "\<exists>e. resolve_engine env release bundle (last tracks) target = Inl e
        \<and> resolve_engine_ordered env release bundle tracks target = Inl e"
    unfolding resolve_engine_ordered_def by blast
qed

definition sample_env :: plan_env where
  "sample_env = \<lparr>is_file = (\<lambda>p. p = ''/b/m/qemu''), canonicalize = Inr,
     load_document = (\<lambda>p. if p = ''/b/m/build.json'' then Inr (json_obj [(''schema_version'', JNum (PosInt 1)), (''track_id'', JStr ''new''),
        (''build_digest'', JStr ''d1''), (''dirty_source'', JBool False), (''executables'', json_obj [(''x86_64-softmmu'', JStr ''qemu'')]),
        (''executable_sha256'', json_obj [(''x86_64-softmmu'', JStr ''0102'')])]) else Inl (EngineIo p ''missing'')),
     read_file = (\<lambda>p. Inr ''elf''), sha256 = (\<lambda>s. if s = ''elf'' then [1, 2] else [])\<rparr>"

definition sample_release :: json where
  "sample_release = json_obj [(''schema_version'', JNum (PosInt 1)), (''engines'', json_obj [(''new'', json_obj
     [(''manifest'', JStr ''m/build.json''), (''build_digest'', JStr ''d1'')])])]"

theorem engine_choice_checked_witness:
  "resolve_engine_ordered sample_env sample_release ''/b'' [''gone'', ''new''] ''x86_64-softmmu''
     = Inr (''new'', json_obj [(''track_id'', JStr ''new''), (''build_digest'', JStr ''d1'')], ''/b/m/qemu'')
   \<and> is_file sample_env ''/b/m/qemu''"
proof -
  have r: "resolve_engine_ordered sample_env sample_release ''/b'' [''gone'', ''new''] ''x86_64-softmmu''
     = Inr (''new'', json_obj [(''track_id'', JStr ''new''), (''build_digest'', JStr ''d1'')], ''/b/m/qemu'')"
    by code_simp
  with engine_choice_checked [of sample_env sample_release "''/b''" "[''gone'', ''new'']" "''x86_64-softmmu''"] show ?thesis by blast
qed

section \<open>Disk\<close>

definition disk_option_keys :: "string set" where
  "disk_option_keys = {''cache'', ''aio'', ''discard'', ''detect-zeroes''}"

lemma escape_no_comma: "CHR '','' \<notin> set v \<Longrightarrow> escape_prop v = v"
  unfolding escape_prop_def by (induction v) auto

lemma plain_option_no_comma: "plain_option v \<Longrightarrow> CHR '','' \<notin> set v"
  by (auto simp: plain_option_def list_all_iff)

lemma disk_options_texts:
  assumes "disk_options disk = Inr t"
  shows "\<exists>kvs. t = concat (map (\<lambda>kv. '','' @ option_text kv) kvs) \<and> fst ` set kvs \<subseteq> disk_option_keys"
proof -
  let ?P = "\<lambda>t. \<exists>kvs. t = concat (map (\<lambda>kv. '','' @ option_text kv) kvs) \<and> fst ` set kvs \<subseteq> disk_option_keys"
  show ?thesis
  proof (rule for_each_invariant [where P = ?P, OF assms [unfolded disk_options_def]])
    show "?P []" by (intro exI [of _ "[]"]) simp
  next
    fix opt s' :: string and x :: "string \<times> string"
    assume x: "x \<in> set [(''cache'', ''cache''), (''aio'', ''aio''), (''discard'', ''discard''), (''detect_zeroes'', ''detect-zeroes'')]"
      and "?P opt"
      and step: "(\<lambda>(field, option). case oget disk field of
          None \<Rightarrow> Inr opt
        | Some v \<Rightarrow>
            rbind (needs (Option.bind (as_str v) (\<lambda>v. if plain_option v then Some v else None))
              (''profile.storage.disk.'' @ field @ '' is invalid'')) (\<lambda>v. Inr (opt @ '','' @ option @ ''='' @ v))) x = Inr s'"
    then obtain kvs where kvs: "opt = concat (map (\<lambda>kv. '','' @ option_text kv) kvs)" "fst ` set kvs \<subseteq> disk_option_keys" by blast
    obtain field key where fk: "x = (field, key)" by (cases x)
    with x have "key \<in> disk_option_keys" by (auto simp: disk_option_keys_def)
    show "?P s'"
    proof (cases "oget disk field")
      case None
      with step fk kvs show ?thesis by auto
    next
      case (Some v)
      with step fk obtain w where "plain_option w" "s' = opt @ '','' @ key @ ''='' @ w"
        by (auto simp: result_simps bind_eq_Some_conv split: if_splits)
      then have "s' = concat (map (\<lambda>kv. '','' @ option_text kv) (kvs @ [(key, w)]))"
        by (simp add: kvs(1) option_text_def escape_no_comma plain_option_no_comma)
      with kvs(2) \<open>key \<in> disk_option_keys\<close> show ?thesis by (intro exI [of _ "kvs @ [(key, w)]"]) simp
    qed
  qed
qed

lemma disk_bus_device:
  "disk_bus disk legacy = Inr bus \<Longrightarrow> disk_device bus legacy = Inr device \<Longrightarrow>
    bus = unwrap_or (get_then disk ''bus'' as_str) ''sata'' \<and> bus \<in> {''virtio'', ''ide'', ''sata''}
    \<and> (bus = ''ide'' \<longrightarrow> legacy) \<and> (bus = ''sata'' \<longrightarrow> \<not> legacy)"
  by (auto simp: disk_bus_def disk_device_def Let_def split: if_splits)

lemma read_drive_text:
  assumes "CHR '','' \<notin> set p" "disk_options disk = Inr options"
  shows "\<exists>kvs. read_options (drive_text p options disk)
      = [(''if'', ''none''), (''id'', ''pc-disk''), (''file'', p), (''format'', ''qcow2'')] @ kvs
        @ (if unwrap_or (get_then disk ''readonly'' as_bool) False then [(''readonly'', ''on'')] else [])
    \<and> fst ` set kvs \<subseteq> disk_option_keys"
proof -
  from disk_options_texts [OF assms(2)] obtain kvs
    where kvs: "options = concat (map (\<lambda>kv. '','' @ option_text kv) kvs)" "fst ` set kvs \<subseteq> disk_option_keys" by blast
  let ?all = "[(''id'', ''pc-disk''), (''file'', p), (''format'', ''qcow2'')] @ kvs
    @ (if unwrap_or (get_then disk ''readonly'' as_bool) False then [(''readonly'', ''on'')] else [])"
  have "escape_prop w = w" if "w \<in> {''pc-disk'', p, ''qcow2'', ''on''}" for w
    using that assms(1) by (auto intro!: escape_no_comma)
  then have "drive_text p options disk = ''if=none'' @ concat (map (\<lambda>kv. '','' @ option_text kv) ?all)"
    by (simp add: drive_text_def kvs(1) option_text_def)
  moreover have "list_all (plain_key \<circ> fst) ?all"
  proof -
    have "plain_key (fst kv)" if "kv \<in> set kvs" for kv
    proof -
      have "fst kv \<in> disk_option_keys" using that kvs(2) by blast
      then show ?thesis by (auto simp: disk_option_keys_def plain_key_def)
    qed
    then show ?thesis by (auto simp: list_all_iff) (simp_all add: plain_key_def)
  qed
  ultimately have "read_options (drive_text p options disk) = (''if'', ''none'') # ?all"
    using read_options_tail [of "''if''" "''none''" ?all] by (simp add: plain_key_def)
  with kvs(2) show ?thesis by (intro exI [of _ kvs]) simp
qed

text \<open>
  C11: The disk of a plan is written only through the instance's overlay: of everything \<open>append_storage\<close> adds, the one
  drive reads back with \<open>overlay.qcow2\<close> in the state directory as its only file and qcow2 as its only format,
  whatever the profile's cache, aio, discard and detect-zeroes texts hold; the backing image appears only in the
  preparation record, with a raw or qcow2 format; and the bus always fits the machine.
\<close>

theorem disk_is_overlay:
  assumes "append_storage env args prep (Some v) sources machine dir desc = Inr (args', prep')"
    and "CHR '','' \<notin> set (path_join dir ''overlay.qcow2'')"
  shows "\<exists>disk backing fmt bus controller drive device kvs.
      opt_get (Some v) ''disk'' = Some (JObj disk)
    \<and> args' = args @ controller @ [''-drive'', drive, ''-device'', device]
    \<and> controller = (if bus = ''sata'' then [''-device'', ''ich9-ahci,id=pc-sata''] else [])
    \<and> read_options drive = [(''if'', ''none''), (''id'', ''pc-disk''), (''file'', path_join dir ''overlay.qcow2''), (''format'', ''qcow2'')] @ kvs
    \<and> fst ` set kvs \<subseteq> disk_option_keys \<union> {''readonly''}
    \<and> ((''readonly'', ''on'') \<in> set kvs \<longleftrightarrow> get_then disk ''readonly'' as_bool = Some True)
    \<and> (\<exists>size. prep' = prep\<lparr>disk_overlay := Some \<lparr>dp_path = path_join dir ''overlay.qcow2'', dp_backing = backing, backing_format = fmt, dp_size = size\<rparr>\<rparr>)
    \<and> source_path env sources (oget disk ''source'') ''profile.storage.disk'' = Inr backing \<and> fmt \<in> {''raw'', ''qcow2''}
    \<and> bus \<in> {''virtio'', ''ide'', ''sata''} \<and> (bus = ''ide'' \<longrightarrow> legacy_machine machine) \<and> (bus = ''sata'' \<longrightarrow> \<not> legacy_machine machine)"
proof -
  from assms(1) obtain x disk backing where v: "v = JObj x" "oget x ''disk'' = Some (JObj disk)"
    and src: "source_path env sources (oget disk ''source'') ''profile.storage.disk'' = Inr backing"
    and rest: "storage_disk args prep disk backing (legacy_machine machine) dir desc = Inr (args', prep')"
    by (auto simp: append_storage_def rbind_Inr_iff object_Inr_iff needs_Inr_iff)
  from rest obtain bus fmt size options device where bus: "disk_bus disk (legacy_machine machine) = Inr bus"
    "disk_device bus (legacy_machine machine) = Inr device" and fmt: "disk_image_format disk = Inr fmt"
    and options: "disk_options disk = Inr options"
    and args': "args' = args @ (if bus = ''sata'' then [''-device'', ''ich9-ahci,id=pc-sata''] else [])
        @ [''-drive'', drive_text (path_join dir ''overlay.qcow2'') options disk,
           ''-device'', if bus \<noteq> ''virtio'' then device @ disk_identity disk desc else device]"
    and prep': "prep' = prep\<lparr>disk_overlay := Some \<lparr>dp_path = path_join dir ''overlay.qcow2'', dp_backing = backing, backing_format = fmt, dp_size = size\<rparr>\<rparr>"
    unfolding storage_disk_def rbind_Inr_iff Let_def by blast
  from read_drive_text [OF assms(2) options] obtain kvs where kvs: "read_options (drive_text (path_join dir ''overlay.qcow2'') options disk)
      = [(''if'', ''none''), (''id'', ''pc-disk''), (''file'', path_join dir ''overlay.qcow2''), (''format'', ''qcow2'')] @ kvs
        @ (if unwrap_or (get_then disk ''readonly'' as_bool) False then [(''readonly'', ''on'')] else [])"
    "fst ` set kvs \<subseteq> disk_option_keys" by blast
  let ?ro = "if unwrap_or (get_then disk ''readonly'' as_bool) False then [(''readonly'', ''on'')] else []"
  have "''readonly'' \<notin> disk_option_keys" by (simp add: disk_option_keys_def)
  with kvs(2) imageI [of "(''readonly'', ''on'')" "set kvs" fst] have "(''readonly'', ''on'') \<notin> set kvs"
    unfolding fst_conv by blast
  then have "(''readonly'', ''on'') \<in> set (kvs @ ?ro) \<longleftrightarrow> get_then disk ''readonly'' as_bool = Some True"
    by (cases "get_then disk ''readonly'' as_bool") auto
  moreover have "fst ` set (kvs @ ?ro) \<subseteq> disk_option_keys \<union> {''readonly''}" using kvs(2) by auto
  moreover have "fmt \<in> {''raw'', ''qcow2''}" using fmt by (auto simp: disk_image_format_def Let_def split: if_splits)
  moreover have "opt_get (Some v) ''disk'' = Some (JObj disk)" by (simp add: opt_get_def v)
  moreover have "\<exists>size. prep' = prep\<lparr>disk_overlay := Some \<lparr>dp_path = path_join dir ''overlay.qcow2'', dp_backing = backing, backing_format = fmt, dp_size = size\<rparr>\<rparr>"
    using prep' by blast
  moreover note args' src disk_bus_device [OF bus] kvs(1)
  ultimately show ?thesis
    apply -
    apply (rule exI [of _ disk], rule exI [of _ backing], rule exI [of _ fmt], rule exI [of _ bus])
    apply (rule exI [of _ "if bus = ''sata'' then [''-device'', ''ich9-ahci,id=pc-sata''] else []"])
    apply (rule exI [of _ "drive_text (path_join dir ''overlay.qcow2'') options disk"])
    apply (rule exI [of _ "if bus \<noteq> ''virtio'' then device @ disk_identity disk desc else device"], rule exI [of _ "kvs @ ?ro"])
    apply (elim conjE, intro conjI)
    apply (assumption | rule refl)+
    done
qed

definition sample_storage :: json where
  "sample_storage = json_obj [(''disk'', json_obj [(''source'', json_obj [(''path'', JStr ''/b/m/qemu'')]), (''cache'', JStr ''none''),
     (''readonly'', JBool True)])]"

theorem disk_is_overlay_witness:
  "\<exists>args' prep'. append_storage sample_env [] empty_preparation (Some sample_storage) \<lparr>image_components = [], base_dir = None\<rparr> ''q35'' ''/s'' None = Inr (args', prep')
     \<and> map_option dp_path (disk_overlay prep') = Some ''/s/overlay.qcow2''"
proof -
  have "is_ok (append_storage sample_env [] empty_preparation (Some sample_storage) \<lparr>image_components = [], base_dir = None\<rparr> ''q35'' ''/s'' None)"
    by code_simp
  then obtain args' prep' where r: "append_storage sample_env [] empty_preparation (Some sample_storage) \<lparr>image_components = [], base_dir = None\<rparr> ''q35'' ''/s'' None = Inr (args', prep')"
    unfolding is_ok_iff by auto
  have p: "path_join ''/s'' ''overlay.qcow2'' = ''/s/overlay.qcow2''" by code_simp
  have "CHR '','' \<notin> set (path_join ''/s'' ''overlay.qcow2'')" unfolding p by simp
  from disk_is_overlay [OF r this] have "\<exists>backing fmt size. prep' = empty_preparation\<lparr>disk_overlay :=
      Some \<lparr>dp_path = path_join ''/s'' ''overlay.qcow2'', dp_backing = backing, backing_format = fmt, dp_size = size\<rparr>\<rparr>"
    by (elim exE conjE) (intro exI, assumption)
  then have "map_option dp_path (disk_overlay prep') = Some ''/s/overlay.qcow2''" unfolding p by (elim exE) simp
  with r show ?thesis by blast
qed

end
