(* ===== verification/Frame.thy ===== *)
theory Frame
  imports StreamProtocol
begin

text \<open>
  \<open>crates/display-stream/src/frame.rs\<close>: reconstruction of a BGRA framebuffer from QEMU's inline display
  callbacks. \<open>u32\<close> arithmetic is kept at its width, with the wrap-around of a release build; \<open>usize\<close> is 64 bits
  and written as \<open>nat\<close>, with its one checked multiplication; an index out of range is a panic of its own.
\<close>

section \<open>Formats\<close>

datatype pixel_format = X8R8G8B8 | A8R8G8B8 | X8B8G8R8 | A8B8G8R8

definition PIXMAN_X8R8G8B8 :: "32 word" where "PIXMAN_X8R8G8B8 = 0x20020888"
definition PIXMAN_A8R8G8B8 :: "32 word" where "PIXMAN_A8R8G8B8 = 0x20028888"
definition PIXMAN_X8B8G8R8 :: "32 word" where "PIXMAN_X8B8G8R8 = 0x20030888"
definition PIXMAN_A8B8G8R8 :: "32 word" where "PIXMAN_A8B8G8R8 = 0x20038888"

lemmas pixman_defs = PIXMAN_X8R8G8B8_def PIXMAN_A8R8G8B8_def PIXMAN_X8B8G8R8_def PIXMAN_A8B8G8R8_def

definition from_pixman :: "32 word \<Rightarrow> pixel_format option" where
  "from_pixman v =
     (if v = PIXMAN_X8R8G8B8 then Some X8R8G8B8 else if v = PIXMAN_A8R8G8B8 then Some A8R8G8B8
      else if v = PIXMAN_X8B8G8R8 then Some X8B8G8R8 else if v = PIXMAN_A8B8G8R8 then Some A8B8G8R8 else None)"

definition pixman_from_fourcc :: "32 word \<Rightarrow> 32 word option" where
  "pixman_from_fourcc fourcc =
     (if fourcc = 0x34325258 then Some PIXMAN_X8R8G8B8 else if fourcc = 0x34325241 then Some PIXMAN_A8R8G8B8
      else if fourcc = 0x34324258 then Some PIXMAN_X8B8G8R8 else if fourcc = 0x34324241 then Some PIXMAN_A8B8G8R8 else None)"

datatype frame_error = Format "32 word" | Geometry | Outside | ShortData

text \<open>An error of the function, or a slice index out of range.\<close>

datatype frame_fault = FrameError frame_error | FramePanic

section \<open>Framebuffer\<close>

type_synonym rect = "32 word \<times> 32 word \<times> 32 word \<times> 32 word"

record frame =
  fr_width :: "32 word"
  fr_height :: "32 word"
  pixels :: "byte list"
  damage :: "rect option"

text \<open>\<open>target.copy_from_slice(source)\<close> at an offset, and the swap of red and blue in each pixel.\<close>

definition put_slice :: "'a list \<Rightarrow> nat \<Rightarrow> 'a list \<Rightarrow> 'a list" where
  "put_slice xs start ys = take start xs @ ys @ drop (start + length ys) xs"

fun swap_rb :: "byte list \<Rightarrow> byte list" where
  "swap_rb (b # g # r # a # rest) = r # g # b # a # swap_rb rest"
| "swap_rb _ = []"

definition convert :: "pixel_format \<Rightarrow> byte list \<Rightarrow> byte list" where
  "convert fmt source = (if fmt = X8R8G8B8 \<or> fmt = A8R8G8B8 then source else swap_rb source)"

definition copy_row ::
  "nat \<Rightarrow> nat \<Rightarrow> nat \<Rightarrow> nat \<Rightarrow> nat \<Rightarrow> pixel_format \<Rightarrow> byte list \<Rightarrow> byte list \<Rightarrow> nat \<Rightarrow> frame_fault + byte list" where
  "copy_row fw x y w stride fmt data px row =
     (if length data < row * stride + w * 4 then Inl FramePanic
      else
        let source = take (w * 4) (drop (row * stride) data); target_start = ((y + row) * fw + x) * 4 in
        if length px < target_start + w * 4 then Inl FramePanic
        else Inr (put_slice px target_start (convert fmt source)))"

definition copy_rect ::
  "frame \<Rightarrow> 32 word \<Rightarrow> 32 word \<Rightarrow> 32 word \<Rightarrow> 32 word \<Rightarrow> 32 word \<Rightarrow> 32 word \<Rightarrow> byte list \<Rightarrow> frame_fault + frame" where
  "copy_rect f x y w h stride raw_format data =
     rbind (ok_or (from_pixman raw_format) (FrameError (Format raw_format))) (\<lambda>fmt.
     if stride < w * 4 \<or> length data < unat stride * unat h then Inl (FrameError ShortData)
     else rbind (for_each [0..<unat h] (copy_row (unat (fr_width f)) (unat x) (unat y) (unat w) (unat stride) fmt data) (pixels f))
       (\<lambda>px. Inr (f\<lparr>pixels := px\<rparr>)))"

definition empty_frame :: "32 word \<Rightarrow> 32 word \<Rightarrow> frame_fault + frame" where
  "empty_frame w h =
     (if int (unat w * unat h * 4) < 2 ^ 64
      then Inr \<lparr>fr_width = w, fr_height = h, pixels = replicate (unat w * unat h * 4) 0, damage = None\<rparr>
      else Inl (FrameError Geometry))"

definition frame_scanout :: "32 word \<Rightarrow> 32 word \<Rightarrow> 32 word \<Rightarrow> 32 word \<Rightarrow> byte list \<Rightarrow> frame_fault + frame" where
  "frame_scanout w h stride format data =
     rbind (empty_frame w h) (\<lambda>f.
     rbind (copy_rect f 0 0 w h stride format data) (\<lambda>f. Inr (f\<lparr>damage := Some (0, 0, w, h)\<rparr>)))"

text \<open>\<open>x.checked_add(w).filter(|v| *v <= limit).is_some()\<close>.\<close>

definition fits_within :: "32 word \<Rightarrow> 32 word \<Rightarrow> 32 word \<Rightarrow> bool" where
  "fits_within x w limit \<longleftrightarrow> int (unat x + unat w) < 2 ^ 32 \<and> unat x + unat w \<le> unat limit"

definition merge_damage :: "rect option \<Rightarrow> rect \<Rightarrow> rect" where
  "merge_damage d = (\<lambda>(x, y, w, h). case d of
       None \<Rightarrow> (x, y, w, h)
     | Some (dx, dy, dw, dh) \<Rightarrow>
         let right = max (dx + dw) (x + w); bottom = max (dy + dh) (y + h)
         in (min dx x, min dy y, right - min dx x, bottom - min dy y))"

definition frame_update ::
  "frame \<Rightarrow> 32 word \<Rightarrow> 32 word \<Rightarrow> 32 word \<Rightarrow> 32 word \<Rightarrow> 32 word \<Rightarrow> 32 word \<Rightarrow> byte list \<Rightarrow> frame_fault + frame" where
  "frame_update f x y w h stride format data =
     (if sint x < 0 \<or> sint y < 0 \<or> sint w \<le> 0 \<or> sint h \<le> 0 then Inl (FrameError Outside)
      else if \<not> fits_within x w (fr_width f) \<or> \<not> fits_within y h (fr_height f) then Inl (FrameError Outside)
      else rbind (copy_rect f x y w h stride format data) (\<lambda>f'. Inr (f'\<lparr>damage := Some (merge_damage (damage f') (x, y, w, h))\<rparr>)))"

definition take_damage :: "frame \<Rightarrow> rect option \<times> frame" where
  "take_damage f = (damage f, f\<lparr>damage := None\<rparr>)"

section \<open>Pixels\<close>

definition pixel_at :: "byte list \<Rightarrow> nat \<Rightarrow> byte list" where
  "pixel_at bs i = take 4 (drop (4 * i) bs)"

definition frame_ok :: "frame \<Rightarrow> bool" where
  "frame_ok f \<longleftrightarrow> length (pixels f) = unat (fr_width f) * unat (fr_height f) * 4"

definition pixel :: "frame \<Rightarrow> nat \<Rightarrow> nat \<Rightarrow> byte list" where
  "pixel f px py = pixel_at (pixels f) (py * unat (fr_width f) + px)"

lemma length_put_slice [simp]: "start + length ys \<le> length xs \<Longrightarrow> length (put_slice xs start ys) = length xs"
  by (simp add: put_slice_def)

lemma length_swap_rb: "length xs = 4 * n \<Longrightarrow> length (swap_rb xs) = 4 * n"
proof (induction xs arbitrary: n rule: swap_rb.induct)
  case (1 b g r a rest)
  then obtain m where "n = Suc m" by (cases n) auto
  with 1 show ?case by simp
qed auto

lemma length_convert: "length xs = 4 * n \<Longrightarrow> length (convert fmt xs) = 4 * n"
  by (simp add: convert_def length_swap_rb)

lemma swap_rb_append: "length xs = 4 * n \<Longrightarrow> swap_rb (xs @ ys) = swap_rb xs @ swap_rb ys"
proof (induction xs arbitrary: n rule: swap_rb.induct)
  case (1 b g r a rest)
  then obtain m where "n = Suc m" by (cases n) auto
  with 1 show ?case by simp
qed (auto dest: arg_cong [of _ _ "\<lambda>m. m mod 4"])

lemma convert_append: "length xs = 4 * n \<Longrightarrow> convert fmt (xs @ ys) = convert fmt xs @ convert fmt ys"
  by (simp add: convert_def swap_rb_append)

lemma pixel_at_convert:
  assumes "length xs = 4 * n" "i < n"
  shows "pixel_at (convert fmt xs) i = convert fmt (pixel_at xs i)"
proof -
  have len: "length (take (4 * i) xs) = 4 * i" "length (take 4 (drop (4 * i) xs)) = 4 * 1" using assms by simp_all
  have split: "xs = take (4 * i) xs @ take 4 (drop (4 * i) xs) @ drop (4 * i + 4) xs"
    using append_take_drop_id [of "4 * i" xs] append_take_drop_id [of 4 "drop (4 * i) xs"] by (simp add: add.commute)
  have "convert fmt xs = convert fmt (take (4 * i) xs) @ convert fmt (take 4 (drop (4 * i) xs)) @ convert fmt (drop (4 * i + 4) xs)"
    by (subst split) (simp only: convert_append [OF len(1)] convert_append [OF len(2)])
  then show ?thesis unfolding pixel_at_def
    using length_convert [OF len(1), of fmt] length_convert [OF len(2), of fmt] by simp
qed

lemma pixel_at_put_slice:
  assumes "length ys = 4 * n" "4 * s + 4 * n \<le> length xs"
  shows "pixel_at (put_slice xs (4 * s) ys) i = (if s \<le> i \<and> i < s + n then pixel_at ys (i - s) else pixel_at xs i)"
proof -
  consider "i < s" | "s \<le> i" "i < s + n" | "s + n \<le> i" by linarith
  then show ?thesis
  proof cases
    case 1
    then have "take 4 (drop (4 * i) (take (4 * s) xs)) = take 4 (drop (4 * i) xs)"
      by (simp add: drop_take min_def)
    then show ?thesis using 1 assms by (simp add: pixel_at_def put_slice_def)
  next
    case 2
    then have "drop (4 * i) (put_slice xs (4 * s) ys) = drop (4 * (i - s)) ys @ drop (4 * s + 4 * n) xs"
      using assms by (simp add: put_slice_def diff_mult_distrib2)
    then show ?thesis using 2 assms by (simp add: pixel_at_def)
  next
    case 3
    then have "drop (4 * i) (put_slice xs (4 * s) ys) = drop (4 * i) xs"
      using assms by (simp add: put_slice_def)
    then show ?thesis using 3 by (simp add: pixel_at_def)
  qed
qed

lemma row_index:
  fixes q r :: nat
  assumes "px < fw" "x + w \<le> fw"
  shows "(r * fw + x \<le> q * fw + px \<and> q * fw + px < r * fw + x + w) \<longleftrightarrow> (q = r \<and> x \<le> px \<and> px < x + w)"
proof -
  consider "q < r" | "q = r" | "r < q" by linarith
  then show ?thesis
  proof cases
    case 1
    then have "Suc q * fw \<le> r * fw" by (intro mult_le_mono1) simp
    with 1 assms show ?thesis by auto
  next
    case 3
    then have "Suc r * fw \<le> q * fw" by (intro mult_le_mono1) simp
    with 3 assms show ?thesis by auto
  qed auto
qed

lemma in_rect_bytes: "x + w \<le> fw \<Longrightarrow> y + Suc k \<le> fh \<Longrightarrow> ((y + k) * fw + x) * 4 + w * 4 \<le> fw * fh * (4 :: nat)"
proof -
  assume a: "x + w \<le> fw" "y + Suc k \<le> fh"
  have "(y + k) * fw + (x + w) \<le> (y + k) * fw + fw" using a(1) by simp
  also have "\<dots> = (y + Suc k) * fw" by simp
  also have "\<dots> \<le> fh * fw" using a(2) by (intro mult_le_mono1)
  finally show ?thesis by (simp add: algebra_simps)
qed

text \<open>The copy loop, row by row: it never leaves the buffers, and what each pixel then holds.\<close>

lemma copy_rows:
  assumes "length px = fw * fh * 4" "x + w \<le> fw" "y + h \<le> fh" "\<forall>j < h. j * stride + w * 4 \<le> length data" "k \<le> h"
  shows "\<exists>px'. for_each [0..<k] (copy_row fw x y w stride fmt data) px = Inr px' \<and> length px' = length px
    \<and> (\<forall>qx < fw. \<forall>qy. pixel_at px' (qy * fw + qx) =
        (if x \<le> qx \<and> qx < x + w \<and> y \<le> qy \<and> qy < y + k then convert fmt (pixel_at (drop ((qy - y) * stride) data) (qx - x))
         else pixel_at px (qy * fw + qx)))"
  using assms(5)
proof (induction k)
  case 0
  show ?case by (intro exI [of _ px]) auto
next
  case (Suc k)
  then obtain p where p: "for_each [0..<k] (copy_row fw x y w stride fmt data) px = Inr p" "length p = length px"
    "\<And>qx qy. qx < fw \<Longrightarrow> pixel_at p (qy * fw + qx) =
        (if x \<le> qx \<and> qx < x + w \<and> y \<le> qy \<and> qy < y + k then convert fmt (pixel_at (drop ((qy - y) * stride) data) (qx - x))
         else pixel_at px (qy * fw + qx))"
    by auto
  let ?src = "take (w * 4) (drop (k * stride) data)"
  have src: "k * stride + w * 4 \<le> length data" using assms(4) Suc.prems by simp
  then have len_src: "length ?src = 4 * w" by simp
  have dst: "((y + k) * fw + x) * 4 + w * 4 \<le> length p"
    using in_rect_bytes [OF assms(2), of y k fh] assms(1,3) Suc.prems p(2) by simp
  define p' where "p' = put_slice p (4 * ((y + k) * fw + x)) (convert fmt ?src)"
  have step: "copy_row fw x y w stride fmt data p k = Inr p'"
    using src dst by (simp add: copy_row_def p'_def mult.commute)
  have "pixel_at p' (qy * fw + qx) = (if x \<le> qx \<and> qx < x + w \<and> y \<le> qy \<and> qy < y + Suc k
      then convert fmt (pixel_at (drop ((qy - y) * stride) data) (qx - x)) else pixel_at px (qy * fw + qx))"
    if "qx < fw" for qx qy
  proof -
    have iff: "((y + k) * fw + x \<le> qy * fw + qx \<and> qy * fw + qx < (y + k) * fw + x + w) \<longleftrightarrow> (qy = y + k \<and> x \<le> qx \<and> qx < x + w)"
      by (rule row_index [OF that assms(2)])
    have put: "pixel_at p' (qy * fw + qx) = (if qy = y + k \<and> x \<le> qx \<and> qx < x + w
        then pixel_at (convert fmt ?src) (qx - x) else pixel_at p (qy * fw + qx))"
      using pixel_at_put_slice [OF length_convert [OF len_src], of "(y + k) * fw + x" p fmt "qy * fw + qx"] dst iff
      by (auto simp: p'_def algebra_simps)
    show ?thesis
    proof (cases "qy = y + k \<and> x \<le> qx \<and> qx < x + w")
      case True
      then have "qx - x < w" by auto
      then have "4 * (qx - x) + 4 \<le> w * 4" by simp
      then have "pixel_at ?src (qx - x) = pixel_at (drop (k * stride) data) (qx - x)"
        by (simp add: pixel_at_def drop_take min_def)
      with True put pixel_at_convert [OF len_src \<open>qx - x < w\<close>, of fmt] show ?thesis by simp
    next
      case False
      with put p(3) [OF that, of qy] show ?thesis by auto
    qed
  qed
  moreover have "length p' = length px"
    using dst p(2) length_convert [OF len_src, of fmt] by (simp add: p'_def mult.commute)
  moreover have "for_each [0..<Suc k] (copy_row fw x y w stride fmt data) px = Inr p'"
    using p(1) step by (simp add: for_each_append)
  ultimately show ?case by blast
qed

lemma rows_in_data:
  fixes w stride :: nat
  assumes "4 * w \<le> stride" "stride * h \<le> n" "j < h"
  shows "j * stride + w * 4 \<le> n"
proof -
  have "j * stride + w * 4 \<le> Suc j * stride" using assms(1) by simp
  also have "\<dots> \<le> h * stride" using assms(3) by (intro mult_le_mono1) simp
  finally show ?thesis using assms(2) by (simp add: mult.commute)
qed

section \<open>The abstract picture\<close>

text \<open>A picture is its pixels by coordinate; an update places a source picture on a rectangle of it.\<close>

type_synonym picture = "nat \<Rightarrow> nat \<Rightarrow> byte list"

definition blit :: "nat \<Rightarrow> nat \<Rightarrow> nat \<Rightarrow> nat \<Rightarrow> picture \<Rightarrow> picture \<Rightarrow> picture" where
  "blit x y w h src pic = (\<lambda>px py. if x \<le> px \<and> px < x + w \<and> y \<le> py \<and> py < y + h then src (px - x) (py - y) else pic px py)"

definition source_picture :: "pixel_format \<Rightarrow> nat \<Rightarrow> byte list \<Rightarrow> picture" where
  "source_picture fmt stride data = (\<lambda>sx sy. convert fmt (pixel_at (drop (sy * stride) data) sx))"

definition shows_picture :: "frame \<Rightarrow> picture \<Rightarrow> bool" where
  "shows_picture f pic \<longleftrightarrow> (\<forall>px < unat (fr_width f). \<forall>py < unat (fr_height f). pixel f px py = pic px py)"

lemma copy_rect_refines:
  assumes "frame_ok f" "copy_rect f x y w h stride format data = Inr f'"
    and "unat x + unat w \<le> unat (fr_width f)" "unat y + unat h \<le> unat (fr_height f)"
  shows "\<exists>fmt. from_pixman format = Some fmt \<and> frame_ok f' \<and> f' = f\<lparr>pixels := pixels f'\<rparr>
    \<and> shows_picture f' (blit (unat x) (unat y) (unat w) (unat h) (source_picture fmt (unat stride) data) (pixel f))"
proof -
  from assms(2) obtain fmt px where fmt: "from_pixman format = Some fmt"
    and loop: "for_each [0..<unat h] (copy_row (unat (fr_width f)) (unat x) (unat y) (unat w) (unat stride) fmt data) (pixels f) = Inr px"
    and f': "f' = f\<lparr>pixels := px\<rparr>"
    by (auto simp: copy_rect_def result_simps split: if_splits)
  have "\<forall>j < unat h. j * unat stride + unat w * 4 \<le> length data"
  proof (intro allI impI)
    fix j assume "j < unat h"
    then obtain s1 s2 where "copy_row (unat (fr_width f)) (unat x) (unat y) (unat w) (unat stride) fmt data s1 j = Inr s2"
      using for_each_steps [OF loop, of j] by auto
    then show "j * unat stride + unat w * 4 \<le> length data" by (auto simp: copy_row_def split: if_splits)
  qed
  from copy_rows [OF assms(1) [unfolded frame_ok_def] assms(3,4) this order_refl, of fmt] loop
  have "length px = length (pixels f)"
    "shows_picture f' (blit (unat x) (unat y) (unat w) (unat h) (source_picture fmt (unat stride) data) (pixel f))"
    by (auto simp: shows_picture_def pixel_def blit_def source_picture_def f')
  with assms(1) fmt f' show ?thesis by (auto simp: frame_ok_def)
qed

lemma copy_rect_safe:
  assumes "frame_ok f" "unat x + unat w \<le> unat (fr_width f)" "unat y + unat h \<le> unat (fr_height f)" "unat w < 2 ^ 30"
  shows "copy_rect f x y w h stride format data \<noteq> Inl FramePanic"
proof
  assume panic: "copy_rect f x y w h stride format data = Inl FramePanic"
  then obtain fmt where "from_pixman format = Some fmt" "\<not> stride < w * 4" "unat stride * unat h \<le> length data"
    and loop: "for_each [0..<unat h] (copy_row (unat (fr_width f)) (unat x) (unat y) (unat w) (unat stride) fmt data) (pixels f) = Inl FramePanic"
    by (auto simp: copy_rect_def ok_or_def rbind_Inl_iff split: if_splits option.splits)
  have "unat (w * 4) = unat w * 4" using assms(4) by (simp add: unat_word_ariths)
  with \<open>\<not> stride < w * 4\<close> have "4 * unat w \<le> unat stride" by (simp add: word_less_nat_alt)
  then have "\<forall>j < unat h. j * unat stride + unat w * 4 \<le> length data"
    using rows_in_data \<open>unat stride * unat h \<le> length data\<close> by blast
  from copy_rows [OF assms(1) [unfolded frame_ok_def] assms(2,3) this order_refl, of fmt] loop show False by auto
qed

lemma empty_frame_Inr: "empty_frame w h = Inr f \<Longrightarrow> frame_ok f \<and> fr_width f = w \<and> fr_height f = h \<and> damage f = None"
  by (auto simp: empty_frame_def frame_ok_def split: if_splits)

lemma frame_update_picture:
  assumes "frame_ok f" "frame_update f x y w h stride format data = Inr f'"
  shows "\<exists>fmt. from_pixman format = Some fmt \<and> frame_ok f' \<and> fr_width f' = fr_width f \<and> fr_height f' = fr_height f
    \<and> shows_picture f' (blit (unat x) (unat y) (unat w) (unat h) (source_picture fmt (unat stride) data) (pixel f))"
proof -
  from assms(2) obtain f1 where "fits_within x w (fr_width f)" "fits_within y h (fr_height f)"
    and c: "copy_rect f x y w h stride format data = Inr f1" and f': "f' = f1\<lparr>damage := Some (merge_damage (damage f1) (x, y, w, h))\<rparr>"
    by (auto simp: frame_update_def rbind_Inr_iff split: if_splits)
  then have "unat x + unat w \<le> unat (fr_width f)" "unat y + unat h \<le> unat (fr_height f)" by (simp_all add: fits_within_def)
  from copy_rect_refines [OF assms(1) c this] obtain fmt where fmt: "from_pixman format = Some fmt" "frame_ok f1" "f1 = f\<lparr>pixels := pixels f1\<rparr>"
    "shows_picture f1 (blit (unat x) (unat y) (unat w) (unat h) (source_picture fmt (unat stride) data) (pixel f))" by blast
  from fmt(3) have "fr_width f1 = fr_width f" "fr_height f1 = fr_height f"
    by (metis frame.select_convs(1) frame.surjective frame.update_convs(3)) (metis fmt(3) frame.select_convs(2) frame.surjective frame.update_convs(3))
  with fmt f' show ?thesis
    by (intro exI [of _ fmt]) (simp add: frame_ok_def shows_picture_def pixel_def)
qed

text \<open>
  C12: An update refines the placing of a picture: whenever \<open>frame_update\<close> succeeds, the framebuffer keeps its size and
  its pixels are the old ones outside the rectangle and the callback's, converted to BGRA, inside it; and a
  successful scanout shows exactly the callback's picture.
\<close>

theorem update_places_picture:
  assumes "frame_ok f"
  shows "(frame_update f x y w h stride format data = Inr f' \<longrightarrow>
      (\<exists>fmt. from_pixman format = Some fmt \<and> frame_ok f' \<and> fr_width f' = fr_width f \<and> fr_height f' = fr_height f
        \<and> shows_picture f' (blit (unat x) (unat y) (unat w) (unat h) (source_picture fmt (unat stride) data) (pixel f))))
    \<and> (frame_scanout w h stride format data = Inr g \<longrightarrow>
      (\<exists>fmt. from_pixman format = Some fmt \<and> frame_ok g \<and> fr_width g = w \<and> fr_height g = h \<and> damage g = Some (0, 0, w, h)
        \<and> shows_picture g (source_picture fmt (unat stride) data)))"
proof (intro conjI impI)
  assume "frame_update f x y w h stride format data = Inr f'"
  with assms show "\<exists>fmt. from_pixman format = Some fmt \<and> frame_ok f' \<and> fr_width f' = fr_width f \<and> fr_height f' = fr_height f
      \<and> shows_picture f' (blit (unat x) (unat y) (unat w) (unat h) (source_picture fmt (unat stride) data) (pixel f))"
    by (rule frame_update_picture)
next
  assume "frame_scanout w h stride format data = Inr g"
  then obtain e f1 where e: "empty_frame w h = Inr e" and c: "copy_rect e 0 0 w h stride format data = Inr f1"
    and g: "g = f1\<lparr>damage := Some (0, 0, w, h)\<rparr>"
    by (auto simp: frame_scanout_def rbind_Inr_iff)
  note ok = empty_frame_Inr [OF e]
  then have "unat (0 :: 32 word) + unat w \<le> unat (fr_width e)" "unat (0 :: 32 word) + unat h \<le> unat (fr_height e)" by simp_all
  from copy_rect_refines [OF conjunct1 [OF ok] c this] obtain fmt where fmt: "from_pixman format = Some fmt" "frame_ok f1" "f1 = e\<lparr>pixels := pixels f1\<rparr>"
    "shows_picture f1 (blit 0 0 (unat w) (unat h) (source_picture fmt (unat stride) data) (pixel e))" by auto
  from fmt(3) have "fr_width f1 = w" "fr_height f1 = h" using ok
    by (metis frame.select_convs(1) frame.surjective frame.update_convs(3)) (metis fmt(3) ok frame.select_convs(2) frame.surjective frame.update_convs(3))
  with fmt g show "\<exists>fmt. from_pixman format = Some fmt \<and> frame_ok g \<and> fr_width g = w \<and> fr_height g = h \<and> damage g = Some (0, 0, w, h)
      \<and> shows_picture g (source_picture fmt (unat stride) data)"
    by (intro exI [of _ fmt]) (simp add: frame_ok_def shows_picture_def pixel_def blit_def)
qed

text \<open>
  The copy never indexes outside its buffers unless the row width overflows: a scanout, or an update of a
  well-formed framebuffer, panics only for a width of at least 2^30 pixels, where \<open>width * 4\<close> wraps around and the
  stride test no longer protects the copy; a scanout of 2^30 by 1 pixels with stride 0 does panic.
\<close>

theorem frame_panic_needs_wrap:
  assumes "frame_ok f"
  shows "(frame_update f x y w h stride format data = Inl FramePanic \<longrightarrow> 2 ^ 30 \<le> unat w)
    \<and> (frame_scanout w h stride format data = Inl FramePanic \<longrightarrow> 2 ^ 30 \<le> unat w)
    \<and> frame_scanout 0x40000000 1 0 PIXMAN_A8R8G8B8 [] = Inl FramePanic"
proof (intro conjI impI)
  assume "frame_update f x y w h stride format data = Inl FramePanic"
  then have "fits_within x w (fr_width f)" "fits_within y h (fr_height f)" "copy_rect f x y w h stride format data = Inl FramePanic"
    by (auto simp: frame_update_def rbind_Inl_iff split: if_splits)
  with copy_rect_safe [OF assms, of x w y h stride format data] show "2 ^ 30 \<le> unat w"
    unfolding fits_within_def by (meson not_le)
next
  assume "frame_scanout w h stride format data = Inl FramePanic"
  then obtain e where e: "empty_frame w h = Inr e" and c: "copy_rect e 0 0 w h stride format data = Inl FramePanic"
    by (auto simp: frame_scanout_def rbind_Inl_iff empty_frame_def split: if_splits)
  show "2 ^ 30 \<le> unat w"
  proof (rule ccontr)
    assume "\<not> 2 ^ 30 \<le> unat w"
    with copy_rect_safe [of e 0 w 0 h stride format data] empty_frame_Inr [OF e] c show False by (simp add: not_le)
  qed
next
  show "frame_scanout 0x40000000 1 0 PIXMAN_A8R8G8B8 [] = Inl FramePanic"
    by (simp add: frame_scanout_def empty_frame_def copy_rect_def copy_row_def from_pixman_def pixman_defs ok_or_def)
qed

theorem frame_panic_needs_wrap_witness:
  "frame_ok \<lparr>fr_width = 1, fr_height = 1, pixels = [0, 0, 0, 0], damage = None\<rparr>
   \<and> frame_update \<lparr>fr_width = 1, fr_height = 1, pixels = [0, 0, 0, 0], damage = None\<rparr> 0 0 1 1 4 PIXMAN_A8R8G8B8 [1, 2, 3, 4] \<noteq> Inl FramePanic"
proof -
  have ok: "frame_ok \<lparr>fr_width = 1, fr_height = 1, pixels = [0, 0, 0, 0], damage = None\<rparr>" by (simp add: frame_ok_def)
  from frame_panic_needs_wrap [OF ok, of 0 0 1 1 4 PIXMAN_A8R8G8B8 "[1, 2, 3, 4]"] ok show ?thesis by auto
qed

theorem update_places_picture_witness:
  "\<exists>f'. frame_update \<lparr>fr_width = 2, fr_height = 1, pixels = [0, 0, 0, 0, 9, 9, 9, 9], damage = None\<rparr> 0 0 1 1 4 PIXMAN_A8B8G8R8 [1, 2, 3, 4] = Inr f'
     \<and> pixel f' 0 0 = [3, 2, 1, 4] \<and> pixel f' 1 0 = [9, 9, 9, 9]"
proof -
  let ?f = "\<lparr>fr_width = 2, fr_height = 1, pixels = [0, 0, 0, 0, 9, 9, 9, 9], damage = None\<rparr> :: frame"
  have ok: "frame_ok ?f" by (simp add: frame_ok_def)
  obtain f' where u: "frame_update ?f 0 0 1 1 4 PIXMAN_A8B8G8R8 [1, 2, 3, 4] = Inr f'"
    by (simp add: frame_update_def fits_within_def copy_rect_def from_pixman_def pixman_defs ok_or_def copy_row_def)
  from update_places_picture [OF ok, of 0 0 1 1 4 PIXMAN_A8B8G8R8 "[1, 2, 3, 4]" f' undefined] u obtain fmt
    where fmt: "from_pixman PIXMAN_A8B8G8R8 = Some fmt" "fr_width f' = 2" "fr_height f' = 1"
      "shows_picture f' (blit 0 0 1 1 (source_picture fmt 4 [1, 2, 3, 4]) (pixel ?f))" by auto
  then have "pixel f' 0 0 = [3, 2, 1, 4]" "pixel f' 1 0 = [9, 9, 9, 9]"
    by (auto simp: shows_picture_def blit_def source_picture_def from_pixman_def pixman_defs convert_def pixel_at_def pixel_def [of ?f])
  with u show ?thesis by blast
qed

section \<open>Damage\<close>

definition covers :: "rect option \<Rightarrow> nat \<Rightarrow> nat \<Rightarrow> bool" where
  "covers d px py \<longleftrightarrow> (case d of None \<Rightarrow> False | Some (dx, dy, dw, dh) \<Rightarrow>
     unat dx \<le> px \<and> px < unat dx + unat dw \<and> unat dy \<le> py \<and> py < unat dy + unat dh)"

definition damage_inside :: "frame \<Rightarrow> bool" where
  "damage_inside f \<longleftrightarrow> (case damage f of None \<Rightarrow> True | Some (dx, dy, dw, dh) \<Rightarrow>
     unat dx + unat dw \<le> unat (fr_width f) \<and> unat dy + unat dh \<le> unat (fr_height f))"

lemma u32_bound: "unat (x :: 32 word) < 4294967296"
proof -
  have "unat x < 2 ^ LENGTH(32)" by (rule unsigned_less)
  then show ?thesis by simp
qed

lemma unat_add_bounded: "unat (a :: 32 word) + unat b \<le> unat (L :: 32 word) \<Longrightarrow> unat (a + b) = unat a + unat b"
  using u32_bound [of L] by (simp add: unat_word_ariths)

lemma unat_max: "unat (max a b :: 32 word) = max (unat a) (unat b)"
  by (simp add: max_def word_le_nat_alt)

lemma unat_min: "unat (min a b :: 32 word) = min (unat a) (unat b)"
  by (simp add: min_def word_le_nat_alt)

text \<open>One axis of the union of two intervals.\<close>

lemma merge_axis:
  fixes dx dw x w L :: "32 word"
  assumes "unat dx + unat dw \<le> unat L" "unat x + unat w \<le> unat L"
  shows "unat (min dx x) + unat (max (dx + dw) (x + w) - min dx x) = max (unat dx + unat dw) (unat x + unat w)"
proof -
  have s: "unat (dx + dw) = unat dx + unat dw" "unat (x + w) = unat x + unat w"
    using assms by (auto intro: unat_add_bounded)
  have "min dx x \<le> max (dx + dw) (x + w)"
    unfolding word_le_nat_alt unat_max unat_min s by simp
  then have "unat (max (dx + dw) (x + w) - min dx x) = unat (max (dx + dw) (x + w)) - unat (min dx x)"
    by (simp add: unat_sub)
  then show ?thesis unfolding unat_max unat_min s by simp
qed

lemma merge_axis_covers:
  fixes dx dw x w L :: "32 word"
  assumes "unat dx + unat dw \<le> unat L" "unat x + unat w \<le> unat L"
    and "unat dx \<le> p \<and> p < unat dx + unat dw \<or> unat x \<le> p \<and> p < unat x + unat w"
  shows "unat (min dx x) \<le> p \<and> p < unat (min dx x) + unat (max (dx + dw) (x + w) - min dx x)"
  using assms(3) merge_axis [OF assms(1,2)] unat_min [of dx x] by (intro conjI) linarith+

lemma merge_damage_Some:
  "merge_damage (Some (dx, dy, dw, dh)) (x, y, w, h)
     = (min dx x, min dy y, max (dx + dw) (x + w) - min dx x, max (dy + dh) (y + h) - min dy y)"
  by (simp only: merge_damage_def prod.case option.case Let_def)

lemma merge_damage_None: "merge_damage None r = r"
  by (cases r) (simp only: merge_damage_def prod.case option.case)

lemma covers_Some: "covers (Some (dx, dy, dw, dh)) px py \<longleftrightarrow>
    unat dx \<le> px \<and> px < unat dx + unat dw \<and> unat dy \<le> py \<and> py < unat dy + unat dh"
  by (simp only: covers_def option.case prod.case)

lemma damage_inside_Some: "damage f = Some (dx, dy, dw, dh) \<Longrightarrow> damage_inside f \<longleftrightarrow>
    unat dx + unat dw \<le> unat (fr_width f) \<and> unat dy + unat dh \<le> unat (fr_height f)"
  by (simp add: damage_inside_def)

lemma merge_damage_covers:
  assumes "damage_inside f" "unat x + unat w \<le> unat (fr_width f)" "unat y + unat h \<le> unat (fr_height f)"
  shows "covers (damage f) px py \<or> covers (Some (x, y, w, h)) px py \<Longrightarrow> covers (Some (merge_damage (damage f) (x, y, w, h))) px py"
    and "damage_inside (f\<lparr>damage := Some (merge_damage (damage f) (x, y, w, h))\<rparr>)"
proof -
  have inside: "unat dx + unat dw \<le> unat (fr_width f)" "unat dy + unat dh \<le> unat (fr_height f)"
    if "damage f = Some (dx, dy, dw, dh)" for dx dy dw dh
    using assms(1) damage_inside_Some [OF that] by simp_all
  show "covers (damage f) px py \<or> covers (Some (x, y, w, h)) px py \<Longrightarrow> covers (Some (merge_damage (damage f) (x, y, w, h))) px py"
  proof (cases "damage f")
    case (Some d)
    obtain dx dy dw dh where d: "damage f = Some (dx, dy, dw, dh)" using Some by (cases d) simp
    assume "covers (damage f) px py \<or> covers (Some (x, y, w, h)) px py"
    then show ?thesis unfolding d merge_damage_Some covers_Some
      using merge_axis_covers [OF inside(1) [OF d] assms(2), of px] merge_axis_covers [OF inside(2) [OF d] assms(3), of py] by blast
  qed (simp add: merge_damage_None covers_def)
  have set: "damage (f\<lparr>damage := v\<rparr>) = v" "fr_width (f\<lparr>damage := v\<rparr>) = fr_width f" "fr_height (f\<lparr>damage := v\<rparr>) = fr_height f" for v
    by simp_all
  show "damage_inside (f\<lparr>damage := Some (merge_damage (damage f) (x, y, w, h))\<rparr>)"
  proof (cases "damage f")
    case (Some d)
    obtain dx dy dw dh where d: "damage f = Some (dx, dy, dw, dh)" using Some by (cases d) simp
    have eq: "damage (f\<lparr>damage := Some (merge_damage (damage f) (x, y, w, h))\<rparr>)
        = Some (min dx x, min dy y, max (dx + dw) (x + w) - min dx x, max (dy + dh) (y + h) - min dy y)"
      by (simp only: set d merge_damage_Some)
    show ?thesis unfolding damage_inside_Some [OF eq] set
        merge_axis [OF inside(1) [OF d] assms(2)] merge_axis [OF inside(2) [OF d] assms(3)]
      using inside [OF d] assms(2,3) by (simp only: max.bounded_iff simp_thms)
  qed (use assms in \<open>simp add: merge_damage_None damage_inside_def\<close>)
qed

lemma update_damage:
  assumes "frame_update f x y w h stride format data = Inr f'" "frame_ok f" "damage_inside f"
  shows "frame_ok f' \<and> fr_width f' = fr_width f \<and> fr_height f' = fr_height f \<and> damage_inside f'
    \<and> (\<forall>px py. covers (damage f) px py \<longrightarrow> covers (damage f') px py)
    \<and> (\<forall>px < unat (fr_width f). \<forall>py < unat (fr_height f). pixel f' px py \<noteq> pixel f px py \<longrightarrow> covers (damage f') px py)"
proof -
  from assms(1) obtain f1 where fit: "unat x + unat w \<le> unat (fr_width f)" "unat y + unat h \<le> unat (fr_height f)"
    and c: "copy_rect f x y w h stride format data = Inr f1" and f': "f' = f1\<lparr>damage := Some (merge_damage (damage f1) (x, y, w, h))\<rparr>"
    by (auto simp: frame_update_def rbind_Inr_iff fits_within_def split: if_splits)
  from c have f1: "fr_width f1 = fr_width f" "fr_height f1 = fr_height f" "damage f1 = damage f"
    by (auto simp: copy_rect_def rbind_Inr_iff split: if_splits)
  have in1: "damage_inside f1" using assms(3) unfolding damage_inside_def f1 .
  note m = merge_damage_covers [OF in1 fit [folded f1(1,2)], unfolded f1(3)]
  from frame_update_picture [OF assms(2,1)] obtain fmt
    where ok: "frame_ok f'" and pic: "shows_picture f' (blit (unat x) (unat y) (unat w) (unat h) (source_picture fmt (unat stride) data) (pixel f))"
    by blast
  have "covers (damage f') px py" if "px < unat (fr_width f)" "py < unat (fr_height f)" "pixel f' px py \<noteq> pixel f px py" for px py
  proof -
    have "pixel f' px py = blit (unat x) (unat y) (unat w) (unat h) (source_picture fmt (unat stride) data) (pixel f) px py"
      using pic that(1,2) f' f1 by (simp add: shows_picture_def)
    with that(3) have "covers (Some (x, y, w, h)) px py" by (auto simp: blit_def covers_def split: if_splits)
    with m(1) show ?thesis by (simp add: f' f1(3))
  qed
  moreover have "damage_inside f'" using m(2) by (simp add: f' f1(3))
  ultimately show ?thesis using ok m(1) f' f1 by simp
qed

type_synonym update_call = "32 word \<times> 32 word \<times> 32 word \<times> 32 word \<times> 32 word \<times> 32 word \<times> byte list"

definition apply_updates :: "update_call list \<Rightarrow> frame \<Rightarrow> frame_fault + frame" where
  "apply_updates us f = for_each us (\<lambda>f (x, y, w, h, stride, format, data). frame_update f x y w h stride format data) f"

text \<open>
  C13: The damage a reader takes never misses a change: over any sequence of successful updates, every pixel that
  differs from the one the reader last saw lies in the accumulated rectangle, and that rectangle stays inside the
  framebuffer, so none of its sums wraps around.
\<close>

theorem damage_covers_changes:
  assumes "frame_ok f" and "damage_inside f" and "apply_updates us (snd (take_damage f)) = Inr f'"
  shows "damage_inside f' \<and> frame_ok f' \<and> fr_width f' = fr_width f \<and> fr_height f' = fr_height f
    \<and> (\<forall>px < unat (fr_width f). \<forall>py < unat (fr_height f). pixel f' px py \<noteq> pixel f px py \<longrightarrow> covers (damage f') px py)"
proof -
  let ?g = "snd (take_damage f)"
  let ?P = "\<lambda>k. frame_ok k \<and> damage_inside k \<and> fr_width k = fr_width f \<and> fr_height k = fr_height f
    \<and> (\<forall>px < unat (fr_width f). \<forall>py < unat (fr_height f). pixel k px py \<noteq> pixel f px py \<longrightarrow> covers (damage k) px py)"
  have "?P f'"
  proof (rule for_each_invariant [where P = ?P, OF assms(3) [unfolded apply_updates_def]])
    show "?P ?g" using assms(1) by (simp add: take_damage_def frame_ok_def damage_inside_def pixel_def)
  next
    fix k u k'
    assume k: "?P k" and step: "(\<lambda>(x, y, w, h, stride, format, data). frame_update k x y w h stride format data) u = Inr k'"
    obtain x y w h stride format data where u: "u = (x, y, w, h, stride, format, data)" by (cases u)
    from step u have st: "frame_update k x y w h stride format data = Inr k'" by simp
    from k have k1: "frame_ok k" "damage_inside k" "fr_width k = fr_width f" "fr_height k = fr_height f" by blast+
    note d = update_damage [OF st k1(1,2)]
    show "?P k'"
    proof (intro conjI allI impI)
      show "frame_ok k'" "damage_inside k'" "fr_width k' = fr_width f" "fr_height k' = fr_height f" using d k1 by simp_all
      fix px py assume p: "px < unat (fr_width f)" "py < unat (fr_height f)" "pixel k' px py \<noteq> pixel f px py"
      show "covers (damage k') px py"
      proof (cases "pixel k' px py = pixel k px py")
        case True
        with p k have "covers (damage k) px py" by simp
        with d show ?thesis by blast
      next
        case False
        with d p k1 show ?thesis by simp
      qed
    qed
  qed
  then show ?thesis by blast
qed

theorem damage_covers_changes_witness:
  "\<exists>f'. apply_updates [(1, 0, 1, 1, 4, PIXMAN_A8R8G8B8, [1, 2, 3, 4])] \<lparr>fr_width = 2, fr_height = 1, pixels = [0, 0, 0, 0, 0, 0, 0, 0], damage = None\<rparr> = Inr f'
    \<and> pixel f' 1 0 = [1, 2, 3, 4] \<and> covers (damage f') 1 0"
proof -
  let ?f = "\<lparr>fr_width = 2, fr_height = 1, pixels = [0, 0, 0, 0, 0, 0, 0, 0], damage = None\<rparr> :: frame"
  have take: "snd (take_damage ?f) = ?f" by (simp add: take_damage_def)
  obtain f' where u: "apply_updates [(1, 0, 1, 1, 4, PIXMAN_A8R8G8B8, [1, 2, 3, 4])] ?f = Inr f'" and p: "pixels f' = [0, 0, 0, 0, 1, 2, 3, 4]"
    and w: "fr_width f' = 2"
    by (simp add: apply_updates_def frame_update_def fits_within_def copy_rect_def from_pixman_def pixman_defs ok_or_def copy_row_def
        put_slice_def convert_def)
  have "frame_ok ?f" "damage_inside ?f" by (simp_all add: frame_ok_def damage_inside_def)
  from damage_covers_changes [OF this, of "[(1, 0, 1, 1, 4, PIXMAN_A8R8G8B8, [1, 2, 3, 4])]" f'] u take
  have "\<forall>px < 2. \<forall>py < 1. pixel f' px py \<noteq> pixel ?f px py \<longrightarrow> covers (damage f') px py" by simp
  moreover have q: "pixel f' 1 0 = [1, 2, 3, 4]" using p w by (simp add: pixel_def pixel_at_def)
  moreover have "pixel ?f 1 0 \<noteq> [1, 2, 3, 4]" by (simp add: pixel_def pixel_at_def)
  ultimately have "covers (damage f') 1 0" by simp
  with u q show ?thesis by blast
qed

end
