(* ===== verification/Capture.thy ===== *)
theory Capture
  imports Frame
begin

text \<open>
  \<open>crates/display-stream/src/listener.rs\<close>: the capture state that QEMU's D-Bus display callbacks update (inline and
  DMABUF scanouts, the cursor plane), the forwarding of viewer input, and the clipboard peer. A DMABUF is a file
  number; mapping it is an argument of the operations, as the bytes are the guest's.
\<close>

section \<open>Tiled and flipped surfaces\<close>

definition I915_FORMAT_MOD_X_TILED :: "64 word" where "I915_FORMAT_MOD_X_TILED = 0x0100000000000001"

text \<open>The loop of \<open>copy_x_tiled_row\<close>: \<open>pos\<close> is \<open>source_byte_x\<close>, \<open>off\<close> is \<open>target_offset\<close>.\<close>

function x_tiled_loop ::
  "byte list \<Rightarrow> nat \<Rightarrow> nat \<Rightarrow> nat \<Rightarrow> nat \<Rightarrow> nat \<Rightarrow> byte list \<Rightarrow> frame_fault + byte list" where
  "x_tiled_loop mapped tiles_per_row source_y stop pos off target =
     (if \<not> pos < stop then Inr target
      else
        let in_tile_x = pos mod 512; bytes = min (512 - in_tile_x) (stop - pos);
            source = (source_y div 8 * tiles_per_row + pos div 512) * 4096 + source_y mod 8 * 512 + in_tile_x in
        if length mapped < source + bytes \<or> length target < off + bytes then Inl (FrameError ShortData)
        else x_tiled_loop mapped tiles_per_row source_y stop (pos + bytes) (off + bytes)
               (put_slice target off (take bytes (drop source mapped))))"
  by pat_completeness auto
termination
proof (relation "measure (\<lambda>(mapped, tpr, y, stop, pos, off, target). stop - pos)", simp)
  fix mapped target :: "byte list" and tpr y stop pos off in_tile_x bytes source :: nat
  assume a: "\<not> \<not> pos < stop" "in_tile_x = pos mod 512" "bytes = min (512 - in_tile_x) (stop - pos)"
  have "pos mod 512 < 512" by simp
  with a have "0 < bytes" by simp
  with a(1) show "((mapped, tpr, y, stop, pos + bytes, off + bytes, put_slice target off (take bytes (drop source mapped))),
      mapped, tpr, y, stop, pos, off, target) \<in> measure (\<lambda>(mapped, tpr, y, stop, pos, off, target). stop - pos)" by simp
qed

declare x_tiled_loop.simps [simp del]

text \<open>\<open>checked_mul\<close> and \<open>checked_add\<close> on \<open>usize\<close>.\<close>

definition checked_usize :: "nat \<Rightarrow> frame_fault + nat" where
  "checked_usize n = (if int n < 2 ^ 64 then Inr n else Inl (FrameError Geometry))"

definition copy_x_tiled_row ::
  "byte list \<Rightarrow> nat \<Rightarrow> nat \<Rightarrow> nat \<Rightarrow> nat \<Rightarrow> byte list \<Rightarrow> frame_fault + byte list" where
  "copy_x_tiled_row mapped stride source_y source_x w target =
     rbind (checked_usize (source_x * 4)) (\<lambda>source_byte_x.
     rbind (checked_usize (w * 4)) (\<lambda>w4.
     rbind (checked_usize (source_byte_x + w4)) (\<lambda>stop.
     x_tiled_loop mapped (stride div 512) source_y stop source_byte_x 0 target)))"

definition saturating_mul4 :: "32 word \<Rightarrow> nat" where
  "saturating_mul4 w = min (unat w * 4) (2 ^ 32 - 1)"

text \<open>One row of the loop: the target slice of the output is filled and put back.\<close>

definition linearize_row :: "byte list \<Rightarrow> nat \<Rightarrow> nat \<Rightarrow> nat \<Rightarrow> bool \<Rightarrow> byte list \<Rightarrow> nat \<Rightarrow> frame_fault + byte list" where
  "linearize_row mapped w h stride y0_top out y =
     (let source_y = (if y0_top then h - 1 - y else y); target = y * stride in
      if length out < target + w * 4 then Inl FramePanic
      else rbind (copy_x_tiled_row mapped stride source_y 0 w (take (w * 4) (drop target out)))
             (\<lambda>row. Inr (put_slice out target row)))"

definition linearize_x_tiled :: "byte list \<Rightarrow> 32 word \<Rightarrow> 32 word \<Rightarrow> 32 word \<Rightarrow> bool \<Rightarrow> frame_fault + byte list" where
  "linearize_x_tiled mapped w h stride y0_top =
     (if unat stride < saturating_mul4 w \<or> unat stride mod 512 \<noteq> 0 then Inl (FrameError Geometry)
      else
        rbind (checked_usize (unat stride * unat h)) (\<lambda>required.
        if length mapped < required then Inl (FrameError ShortData)
        else for_each [0..<unat h] (linearize_row mapped (unat w) (unat h) (unat stride) y0_top) (replicate required 0)))"

definition flip_row :: "byte list \<Rightarrow> nat \<Rightarrow> nat \<Rightarrow> byte list \<Rightarrow> nat \<Rightarrow> frame_fault + byte list" where
  "flip_row mapped h stride out row =
     (let source = (h - 1 - row) * stride; target = row * stride in
      if length out < target + stride \<or> length mapped < source + stride then Inl FramePanic
      else Inr (put_slice out target (take stride (drop source mapped))))"

definition flip_linear :: "byte list \<Rightarrow> 32 word \<Rightarrow> 32 word \<Rightarrow> frame_fault + byte list" where
  "flip_linear mapped h stride =
     rbind (checked_usize (unat h * unat stride)) (\<lambda>n.
     if length mapped < n then Inl (FrameError ShortData)
     else for_each [0..<unat h] (flip_row mapped (unat h) (unat stride)) (replicate n 0))"

section \<open>Capture state\<close>

record dmabuf_frame =
  df_file :: nat
  df_width :: "32 word"
  df_height :: "32 word"
  df_stride :: "32 word"
  df_fourcc :: "32 word"
  df_modifier :: "64 word"
  y0_top :: bool
  pixman_format :: "32 word"

record capture_state =
  cap_frame :: "frame option"
  refresh :: bool
  dma :: "dmabuf_frame option"
  native :: bool
  cap_cursor :: cursor
  cursor_revision :: "64 word"

definition new_capture :: capture_state where
  "new_capture = \<lparr>cap_frame = None, refresh = False, dma = None, native = False,
     cap_cursor = \<lparr>cursor_kind = ''cursor'', cursor_x = 0, cursor_y = 0, visible = False, width = 0, height = 0,
       hot_x = 0, hot_y = 0, cursor_data = []\<rparr>, cursor_revision = 0\<rparr>"

type_synonym 'a frame_result = "frame_fault + 'a"

definition cap_scanout ::
  "32 word \<Rightarrow> 32 word \<Rightarrow> 32 word \<Rightarrow> 32 word \<Rightarrow> byte list \<Rightarrow> capture_state \<Rightarrow> capture_state frame_result" where
  "cap_scanout w h stride format data s =
     rbind (frame_scanout w h stride format data) (\<lambda>f. Inr (s\<lparr>cap_frame := Some f, refresh := True\<rparr>))"

definition cap_update ::
  "32 word \<Rightarrow> 32 word \<Rightarrow> 32 word \<Rightarrow> 32 word \<Rightarrow> 32 word \<Rightarrow> 32 word \<Rightarrow> byte list \<Rightarrow> capture_state \<Rightarrow> capture_state frame_result" where
  "cap_update x y w h stride format data s =
     rbind (ok_or (cap_frame s) (FrameError Outside)) (\<lambda>f.
     rbind (frame_update f x y w h stride format data) (\<lambda>f'. Inr (s\<lparr>cap_frame := Some f', refresh := True\<rparr>)))"

text \<open>The linear image of a mapped buffer. \<open>mmap\<close> gives the bytes of a file, or None where mapping fails.\<close>

definition linear_image ::
  "byte list \<Rightarrow> 64 word \<Rightarrow> 32 word \<Rightarrow> 32 word \<Rightarrow> 32 word \<Rightarrow> bool \<Rightarrow> byte list frame_result" where
  "linear_image mapped modifier w h stride y0 =
     (if modifier = I915_FORMAT_MOD_X_TILED then linearize_x_tiled mapped w h stride y0
      else if y0 then Inr mapped else flip_linear mapped h stride)"

definition scanout_dmabuf ::
  "(nat \<Rightarrow> nat \<Rightarrow> byte list option) \<Rightarrow> nat \<Rightarrow> 32 word \<Rightarrow> 32 word \<Rightarrow> 32 word \<Rightarrow> 32 word \<Rightarrow> 64 word \<Rightarrow> bool
   \<Rightarrow> capture_state \<Rightarrow> capture_state frame_result" where
  "scanout_dmabuf mmap fd w h stride fourcc modifier y0 s =
     (if modifier \<noteq> 0 \<and> modifier \<noteq> I915_FORMAT_MOD_X_TILED then Inl (FrameError (Format fourcc))
      else
        rbind (ok_or (pixman_from_fourcc fourcc) (FrameError (Format fourcc))) (\<lambda>format.
        rbind (checked_usize (unat stride * unat h)) (\<lambda>n.
        rbind (ok_or (mmap fd n) (FrameError ShortData)) (\<lambda>mapped.
        rbind (linear_image mapped modifier w h stride y0) (\<lambda>linear.
        rbind (frame_scanout w h stride format linear) (\<lambda>f.
        Inr (s\<lparr>cap_frame := Some f,
               dma := Some \<lparr>df_file = fd, df_width = w, df_height = h, df_stride = stride, df_fourcc = fourcc,
                 df_modifier = modifier, y0_top = y0, pixman_format = format\<rparr>,
               refresh := True\<rparr>)))))))"

definition update_dmabuf ::
  "(nat \<Rightarrow> nat \<Rightarrow> byte list option) \<Rightarrow> 32 word \<Rightarrow> 32 word \<Rightarrow> 32 word \<Rightarrow> 32 word \<Rightarrow> capture_state \<Rightarrow> capture_state frame_result" where
  "update_dmabuf mmap x y w h s =
     rbind (ok_or (dma s) (FrameError Outside)) (\<lambda>source.
     if sint x < 0 \<or> sint y < 0 \<or> sint w < 0 \<or> sint h < 0 then Inl (FrameError Outside)
     else if \<not> fits_within x w (df_width source) \<or> \<not> fits_within y h (df_height source) then Inl (FrameError Outside)
     else if native s then Inr (s\<lparr>refresh := True\<rparr>)
     else
       rbind (checked_usize (unat (df_stride source) * unat (df_height source))) (\<lambda>n.
       rbind (ok_or (mmap (df_file source) n) (FrameError ShortData)) (\<lambda>mapped.
       rbind (linear_image mapped (df_modifier source) (df_width source) (df_height source) (df_stride source) (y0_top source)) (\<lambda>linear.
       rbind (frame_scanout (df_width source) (df_height source) (df_stride source) (pixman_format source) linear) (\<lambda>f.
       Inr (s\<lparr>cap_frame := Some f, refresh := True\<rparr>))))))"

definition scanout_dmabuf2 ::
  "(nat \<Rightarrow> nat \<Rightarrow> byte list option) \<Rightarrow> nat list \<Rightarrow> 32 word list \<Rightarrow> 32 word list \<Rightarrow> 32 word \<Rightarrow> 32 word \<Rightarrow> 32 word \<Rightarrow> 32 word
   \<Rightarrow> 32 word \<Rightarrow> 64 word \<Rightarrow> bool \<Rightarrow> capture_state \<Rightarrow> capture_state frame_result" where
  "scanout_dmabuf2 mmap fds offsets strides w h fourcc backing_width backing_height modifier y0 s =
     (if length fds \<noteq> 1 \<or> (case offsets of [] \<Rightarrow> 0 | o1 # _ \<Rightarrow> o1) \<noteq> 0 then Inl (FrameError (Format fourcc))
      else case strides of
        [] \<Rightarrow> Inl (FrameError Geometry)
      | stride # _ \<Rightarrow> scanout_dmabuf mmap (hd fds) (max backing_width w) (max backing_height h) stride fourcc modifier y0 s)"

definition cap_snapshot :: "bool \<Rightarrow> capture_state \<Rightarrow> (frame \<times> dmabuf_frame option) option \<times> capture_state" where
  "cap_snapshot force s =
     (if \<not> refresh s \<and> \<not> force then (None, s)
      else (map_option (\<lambda>f. (f, dma s)) (cap_frame s), s\<lparr>refresh := False\<rparr>))"

definition set_native :: "bool \<Rightarrow> capture_state \<Rightarrow> capture_state" where
  "set_native n s = (let s = s\<lparr>native := n\<rparr> in if \<not> n then s\<lparr>refresh := True\<rparr> else s)"

section \<open>Cursor plane\<close>

definition bump_cursor :: "capture_state \<Rightarrow> capture_state" where
  "bump_cursor s = s\<lparr>cursor_revision := cursor_revision s + 1\<rparr>"

definition mouse_set :: "32 word \<Rightarrow> 32 word \<Rightarrow> 32 word \<Rightarrow> capture_state \<Rightarrow> capture_state" where
  "mouse_set x y on s = bump_cursor (s\<lparr>cap_cursor := (cap_cursor s)\<lparr>cursor_x := x, cursor_y := y, visible := (on \<noteq> 0)\<rparr>\<rparr>)"

definition cursor_move :: "32 word \<Rightarrow> 32 word \<Rightarrow> capture_state \<Rightarrow> capture_state" where
  "cursor_move x y s = bump_cursor (s\<lparr>cap_cursor := (cap_cursor s)\<lparr>cursor_x := x, cursor_y := y\<rparr>\<rparr>)"

definition cursor_define ::
  "32 word \<Rightarrow> 32 word \<Rightarrow> 32 word \<Rightarrow> 32 word \<Rightarrow> byte list \<Rightarrow> capture_state \<Rightarrow> string + capture_state" where
  "cursor_define w h hx hy data s =
     (if sint w < 0 then Inl ''negative cursor width'' else if sint h < 0 then Inl ''negative cursor height''
      else
        let c = (cap_cursor s)\<lparr>width := w, height := h, hot_x := hx, hot_y := hy, cursor_data := data\<rparr> in
        if \<not> cursor_valid c \<or> MAX_CURSOR_DIMENSION < width c then Inl ''invalid cursor image''
        else Inr (bump_cursor (s\<lparr>cap_cursor := c\<rparr>)))"

text \<open>The row copy of \<open>cursor_update\<close>; an index outside the image or the data is a panic.\<close>

definition cursor_row :: "nat \<Rightarrow> nat \<Rightarrow> nat \<Rightarrow> nat \<Rightarrow> byte list \<Rightarrow> byte list \<Rightarrow> nat \<Rightarrow> frame_fault + byte list" where
  "cursor_row cw x y w data px row =
     (let row_bytes = w * 4; target = ((y + row) * cw + x) * 4 in
      if length px < target + row_bytes \<or> length data < (row + 1) * row_bytes then Inl FramePanic
      else Inr (put_slice px target (take row_bytes (drop (row * row_bytes) data))))"

datatype cursor_fault = InvalidArgs string | CursorPanic

definition cursor_update ::
  "32 word \<Rightarrow> 32 word \<Rightarrow> 32 word \<Rightarrow> 32 word \<Rightarrow> byte list \<Rightarrow> capture_state \<Rightarrow> cursor_fault + capture_state" where
  "cursor_update x y w h data s =
     (let c = cap_cursor s in
      if sint x < 0 \<or> sint y < 0 \<or> sint w < 0 \<or> sint h < 0
         \<or> sint x + sint w > int (unat (width c)) \<or> sint y + sint h > int (unat (height c))
         \<or> length data \<noteq> unat w * unat h * 4
      then Inl (InvalidArgs ''invalid cursor update'')
      else case for_each [0..<unat h] (cursor_row (unat (width c)) (unat x) (unat y) (unat w) data) (cursor_data c) of
        Inl _ \<Rightarrow> Inl CursorPanic
      | Inr px \<Rightarrow> Inr (bump_cursor (s\<lparr>cap_cursor := c\<lparr>cursor_data := px\<rparr>\<rparr>)))"

section \<open>Input\<close>

text \<open>The D-Bus calls of \<open>input\<close>, in order; the result is whether the message was one it knows.\<close>

datatype input_effect =
    SetUIInfo "16 word" "16 word" "32 word" "32 word"
  | KeyPress "32 word"
  | KeyRelease "32 word"
  | RelMotion "32 word" "32 word"
  | SetAbsPosition "32 word" "32 word"
  | ButtonPress "32 word"
  | ButtonRelease "32 word"

definition display_size :: "json \<Rightarrow> string \<Rightarrow> nat \<Rightarrow> nat \<Rightarrow> (string, nat) sum" where
  "display_size v key low high =
     (case jget_then v key as_u64 of
        None \<Rightarrow> Inl (''invalid display '' @ key)
      | Some n \<Rightarrow> if int n < 2 ^ 32 \<and> low \<le> n \<and> n \<le> high then Inr n else Inl (''invalid display '' @ key))"

text \<open>\<open>u16::try_from(px.saturating_mul(254) / 960).unwrap_or(u16::MAX)\<close>.\<close>

definition millimetres :: "nat \<Rightarrow> 16 word" where
  "millimetres px = (let mm = min (px * 254) (2 ^ 32 - 1) div 960 in if mm < 2 ^ 16 then word_of_nat mm else - 1)"

definition u32_field :: "json \<Rightarrow> string \<Rightarrow> 32 word" where
  "u32_field v key = word_of_nat (unwrap_or (jget_then v key as_u64) 0)"

definition i32_field :: "json \<Rightarrow> string \<Rightarrow> 32 word" where
  "i32_field v key = word_of_int (unwrap_or (jget_then v key as_i64) 0)"

definition clamp :: "int \<Rightarrow> int \<Rightarrow> int \<Rightarrow> int" where
  "clamp low high i = max low (min high i)"

definition wheel_effects :: "int \<Rightarrow> input_effect list" where
  "wheel_effects steps =
     (let steps = clamp (-10) 10 steps; button = (if steps < 0 then 3 else 4)
      in concat (replicate (nat \<bar>steps\<bar>) [ButtonPress button, ButtonRelease button]))"

definition input_message :: "json \<Rightarrow> (string, bool \<times> input_effect list) sum" where
  "input_message v =
     (let message = unwrap_or (jget_then v ''type'' as_str) [] in
      if message = ''resize'' then
        rbind (display_size v ''width'' 320 7680) (\<lambda>w.
        rbind (display_size v ''height'' 200 4320) (\<lambda>h.
        Inr (True, [SetUIInfo (millimetres w) (millimetres h) (word_of_nat w) (word_of_nat h)])))
      else case jget_then v ''keycode'' as_u64 of
        Some keycode \<Rightarrow>
          if message = ''key_down'' then Inr (True, [KeyPress (word_of_nat keycode)])
          else if message = ''key_up'' then Inr (True, [KeyRelease (word_of_nat keycode)])
          else Inr (False, [])
      | None \<Rightarrow>
          if message = ''mouse_move'' then Inr (True, [RelMotion (i32_field v ''dx'') (i32_field v ''dy'')])
          else if message = ''mouse_abs'' then Inr (True, [SetAbsPosition (u32_field v ''x'') (u32_field v ''y'')])
          else if message = ''mouse_down'' then Inr (True, [ButtonPress (u32_field v ''button'')])
          else if message = ''mouse_up'' then Inr (True, [ButtonRelease (u32_field v ''button'')])
          else if message = ''mouse_wheel'' then Inr (True, wheel_effects (unwrap_or (jget_then v ''steps'' as_i64) 0))
          else Inr (False, []))"

section \<open>Clipboard\<close>

definition CLIPBOARD_MIME :: string where "CLIPBOARD_MIME = ''text/plain;charset=utf-8''"

record clipboard =
  serial :: "32 word"
  host_text :: "byte list option"

datatype clipboard_event = Grab "32 word" "32 word" "string list" | Release "32 word"

definition clip_reset :: "clipboard \<Rightarrow> clipboard" where
  "clip_reset c = c\<lparr>serial := 0, host_text := None\<rparr>"

definition accept_guest_serial :: "32 word \<Rightarrow> clipboard \<Rightarrow> bool \<times> clipboard" where
  "accept_guest_serial n c = (if n \<le> serial c then (False, c) else (True, c\<lparr>serial := n, host_text := None\<rparr>))"

definition set_host_text :: "byte list \<Rightarrow> clipboard \<Rightarrow> 32 word \<times> clipboard" where
  "set_host_text text c = (let n = max (serial c + 1) 1 in (n, c\<lparr>serial := n, host_text := Some text\<rparr>))"

definition clip_grab :: "32 word \<Rightarrow> 32 word \<Rightarrow> string list \<Rightarrow> clipboard \<Rightarrow> (string, clipboard_event option \<times> clipboard) sum" where
  "clip_grab selection n mimes c =
     (if 2 < selection then Inl ''invalid clipboard selection''
      else let (accepted, c) = accept_guest_serial n c
           in Inr (if accepted then Some (Grab selection n mimes) else None, c))"

definition clip_release :: "32 word \<Rightarrow> clipboard \<Rightarrow> (string, clipboard_event option \<times> clipboard) sum" where
  "clip_release selection c =
     (if 2 < selection then Inl ''invalid clipboard selection'' else Inr (Some (Release selection), c))"

definition clip_request :: "32 word \<Rightarrow> string list \<Rightarrow> clipboard \<Rightarrow> (string, string \<times> byte list) sum" where
  "clip_request selection mimes c =
     (if selection \<noteq> 0 \<or> CLIPBOARD_MIME \<notin> set mimes then Inl ''requested clipboard format is unavailable''
      else case host_text c of None \<Rightarrow> Inl ''host clipboard is unavailable'' | Some t \<Rightarrow> Inr (CLIPBOARD_MIME, t))"

text \<open>\<open>set_clipboard\<close>: the grab sent to the guest, with the serial chosen here.\<close>

definition set_clipboard :: "byte list \<Rightarrow> clipboard \<Rightarrow> (string, 32 word \<times> clipboard) sum" where
  "set_clipboard text c =
     (if MAX_CLIPBOARD_BYTES < length text then Inl ''clipboard text exceeds 64 KiB'' else Inr (set_host_text text c))"

definition checked_guest_text :: "(byte list \<Rightarrow> string option) \<Rightarrow> string \<Rightarrow> byte list \<Rightarrow> (string, string) sum" where
  "checked_guest_text from_utf8 mime text =
     (if mime \<noteq> CLIPBOARD_MIME \<or> MAX_CLIPBOARD_BYTES < length text then Inl ''guest returned an unsupported clipboard payload''
      else ok_or (from_utf8 text) ''guest clipboard is not valid UTF-8'')"

end
