(* ===== verification/CaptureProperties.thy ===== *)
theory CaptureProperties
  imports Capture
begin

text \<open>
  What the display listener promises: the linear image of a tiled surface is the surface, the cursor plane is
  always a valid cursor and its updates never leave the image, every forwarded click is released, and the clipboard
  gives the host's text only while the host owns it.
\<close>

section \<open>X tiling\<close>

text \<open>The address of byte \<open>b\<close> of row \<open>y\<close> in a surface of 512 by 8 byte tiles, \<open>tpr\<close> tiles in a row.\<close>

definition tile_address :: "nat \<Rightarrow> nat \<Rightarrow> nat \<Rightarrow> nat" where
  "tile_address tpr y b = (y div 8 * tpr + b div 512) * 4096 + y mod 8 * 512 + b mod 512"

lemma tile_address_run:
  assumes "j < 512 - pos mod 512"
  shows "tile_address tpr y (pos + j) = (y div 8 * tpr + pos div 512) * 4096 + y mod 8 * 512 + pos mod 512 + j"
proof -
  define q r where "q = pos div 512" "r = pos mod 512"
  then have pos: "pos = q * 512 + r" "r + j < 512" using assms by simp_all
  have "(pos + j) div 512 = q" "(pos + j) mod 512 = r + j"
    unfolding pos(1) add.assoc using pos(2) by simp_all
  then have "(pos + j) div 512 = pos div 512" "(pos + j) mod 512 = pos mod 512 + j" by (simp_all add: q_r_def)
  then show ?thesis by (simp add: tile_address_def)
qed

lemma nth_put_slice:
  assumes "start + length ys \<le> length xs" "i < length xs"
  shows "put_slice xs start ys ! i = (if start \<le> i \<and> i < start + length ys then ys ! (i - start) else xs ! i)"
  using assms by (auto simp: put_slice_def nth_append)

lemma x_tiled_loop_spec:
  "x_tiled_loop mapped tpr y stop pos off target = Inr t \<Longrightarrow> pos \<le> stop \<Longrightarrow>
    length t = length target
    \<and> (\<forall>b. pos \<le> b \<and> b < stop \<longrightarrow> tile_address tpr y b < length mapped \<and> off + (b - pos) < length target)
    \<and> (\<forall>i < length target. t ! i = (if off \<le> i \<and> i < off + (stop - pos) then mapped ! tile_address tpr y (pos + (i - off)) else target ! i))"
proof (induction mapped tpr y stop pos off target rule: x_tiled_loop.induct)
  case (1 mapped tpr y stop pos off target)
  show ?case
  proof (cases "pos < stop")
    case False
    with "1.prems" show ?thesis by (subst (asm) x_tiled_loop.simps) auto
  next
    case True
    define n where "n = min (512 - pos mod 512) (stop - pos)"
    define src where "src = (y div 8 * tpr + pos div 512) * 4096 + y mod 8 * 512 + pos mod 512"
    define target' where "target' = put_slice target off (take n (drop src mapped))"
    have "pos mod 512 < 512" by simp
    then have n: "0 < n" "pos + n \<le> stop" using True by (simp_all add: n_def)
    from "1.prems"(1) True have fit: "src + n \<le> length mapped" "off + n \<le> length target"
      and rec: "x_tiled_loop mapped tpr y stop (pos + n) (off + n) target' = Inr t"
      by (subst (asm) x_tiled_loop.simps; simp add: Let_def n_def src_def target'_def not_less split: if_splits)+
    have len: "length (take n (drop src mapped)) = n" using fit(1) by simp
    then have len': "length target' = length target" using fit(2) by (simp add: target'_def)
    have IH: "length t = length target'
      \<and> (\<forall>b. pos + n \<le> b \<and> b < stop \<longrightarrow> tile_address tpr y b < length mapped \<and> off + n + (b - (pos + n)) < length target')
      \<and> (\<forall>i < length target'. t ! i = (if off + n \<le> i \<and> i < off + n + (stop - (pos + n))
          then mapped ! tile_address tpr y (pos + n + (i - (off + n))) else target' ! i))"
      using True fit by (intro "1.IH" [OF _ refl n_def _ _ rec [unfolded target'_def] n(2), unfolded target'_def [symmetric]])
        (simp_all add: src_def)
    have run: "tile_address tpr y (pos + j) = src + j" if "j < n" for j
      unfolding src_def by (rule tile_address_run) (use that in \<open>unfold n_def, linarith\<close>)
    have addr: "tile_address tpr y b < length mapped \<and> off + (b - pos) < length target" if "pos \<le> b" "b < stop" for b
    proof (cases "b < pos + n")
      case True
      then have lt: "b - pos < n" using that by linarith
      with run [OF lt] that fit show ?thesis by (metis le_add_diff_inverse less_le_trans nat_add_left_cancel_less)
    next
      case False
      with that IH len' show ?thesis by force
    qed
    have "t ! i = (if off \<le> i \<and> i < off + (stop - pos) then mapped ! tile_address tpr y (pos + (i - off)) else target ! i)"
      if i: "i < length target" for i
    proof -
      have t: "t ! i = (if off + n \<le> i \<and> i < off + (stop - pos) then mapped ! tile_address tpr y (pos + (i - off)) else target' ! i)"
        using IH i len' n by (auto simp: Suc_diff_le)
      have "target' ! i = (if off \<le> i \<and> i < off + n then mapped ! (src + (i - off)) else target ! i)"
        unfolding target'_def using nth_put_slice [of off "take n (drop src mapped)" target i] len fit i by auto
      with t n run [of "i - off"] show ?thesis by auto
    qed
    with IH len' addr show ?thesis by simp
  qed
qed

lemma x_tiled_loop_total:
  "(\<forall>b. pos \<le> b \<and> b < stop \<longrightarrow> tile_address tpr y b < length mapped) \<Longrightarrow> off + (stop - pos) \<le> length target \<Longrightarrow>
    \<exists>t. x_tiled_loop mapped tpr y stop pos off target = Inr t"
proof (induction mapped tpr y stop pos off target rule: x_tiled_loop.induct)
  case (1 mapped tpr y stop pos off target)
  show ?case
  proof (cases "pos < stop")
    case True
    define n where "n = min (512 - pos mod 512) (stop - pos)"
    define src where "src = (y div 8 * tpr + pos div 512) * 4096 + y mod 8 * 512 + pos mod 512"
    define target' where "target' = put_slice target off (take n (drop src mapped))"
    have "pos mod 512 < 512" by simp
    then have n: "0 < n" "pos + n \<le> stop" using True by (simp_all add: n_def)
    have "tile_address tpr y (pos + (n - 1)) = src + (n - 1)"
      unfolding src_def by (rule tile_address_run) (use n(1) in \<open>unfold n_def, linarith\<close>)
    with "1.prems"(1) n have fit: "src + n \<le> length mapped" by (auto dest: spec [of _ "pos + (n - 1)"])
    moreover have fit2: "off + n \<le> length target" using "1.prems"(2) n by simp
    ultimately have len': "length target' = length target" by (simp add: target'_def)
    have "\<exists>t. x_tiled_loop mapped tpr y stop (pos + n) (off + n) target' = Inr t"
      by (rule "1.IH" [OF _ refl n_def src_def, folded target'_def]) (use True fit fit2 "1.prems" n len' in simp_all)
    moreover have "x_tiled_loop mapped tpr y stop pos off target = x_tiled_loop mapped tpr y stop (pos + n) (off + n) target'"
      using True fit fit2 unfolding n_def src_def target'_def
      by (subst x_tiled_loop.simps) (simp only: Let_def if_True if_False not_True_eq_False not_False_eq_True linorder_not_less [symmetric] simp_thms)
    ultimately show ?thesis by simp
  qed (subst x_tiled_loop.simps, simp)
qed

text \<open>The rows already written by the loop of \<open>linearize_x_tiled\<close>.\<close>

definition rows_done :: "byte list \<Rightarrow> nat \<Rightarrow> nat \<Rightarrow> nat \<Rightarrow> bool \<Rightarrow> nat \<Rightarrow> byte list \<Rightarrow> bool" where
  "rows_done mapped w h stride y0 k out \<longleftrightarrow> length out = stride * h
     \<and> (\<forall>y < k. \<forall>b < w * 4. tile_address (stride div 512) (if y0 then h - 1 - y else y) b < length mapped
          \<and> out ! (y * stride + b) = mapped ! tile_address (stride div 512) (if y0 then h - 1 - y else y) b)"

lemma row_end: "w * 4 \<le> stride \<Longrightarrow> y < h \<Longrightarrow> y * stride + w * 4 \<le> stride * (h :: nat)"
  using mult_le_mono1 [of "Suc y" h stride] by (simp add: mult.commute)

lemma linearize_row_Inr:
  assumes "linearize_row mapped w h stride y0 out k = Inr out'" "rows_done mapped w h stride y0 k out" "w * 4 \<le> stride" "k < h"
  shows "rows_done mapped w h stride y0 (Suc k) out'"
proof -
  let ?sy = "if y0 then h - 1 - k else k"
  note fit = row_end [OF assms(3,4)]
  have len: "length out = stride * h" using assms(2) by (simp add: rows_done_def)
  from assms(1) obtain row where c: "copy_x_tiled_row mapped stride ?sy 0 w (take (w * 4) (drop (k * stride) out)) = Inr row"
    and out': "out' = put_slice out (k * stride) row"
    by (auto simp: linearize_row_def Let_def rbind_Inr_iff split: if_splits)
  from c have "x_tiled_loop mapped (stride div 512) ?sy (w * 4) 0 0 (take (w * 4) (drop (k * stride) out)) = Inr row"
    by (auto simp: copy_x_tiled_row_def checked_usize_def split: if_splits)
  from x_tiled_loop_spec [OF this] len fit have row: "length row = w * 4"
    "\<And>b. b < w * 4 \<Longrightarrow> tile_address (stride div 512) ?sy b < length mapped \<and> row ! b = mapped ! tile_address (stride div 512) ?sy b"
    by auto
  have put: "out' ! i = (if k * stride \<le> i \<and> i < k * stride + w * 4 then row ! (i - k * stride) else out ! i)" if "i < length out" for i
    using nth_put_slice [of "k * stride" row out i] that row(1) fit len by (simp add: out')
  have "tile_address (stride div 512) (if y0 then h - 1 - y else y) b < length mapped
      \<and> out' ! (y * stride + b) = mapped ! tile_address (stride div 512) (if y0 then h - 1 - y else y) b"
    if y: "y < Suc k" "b < w * 4" for y b
  proof (cases "y = k")
    case True
    have eq: "out' ! (k * stride + b) = row ! b" using put [of "k * stride + b"] fit len y(2) by simp
    show ?thesis unfolding True eq by (rule row(2) [OF y(2)])
  next
    case False
    then have "y < k" using y by simp
    have "y * stride + w * 4 \<le> k * stride" using row_end [OF assms(3) \<open>y < k\<close>] by (simp add: mult.commute)
    with put [of "y * stride + b"] y(2) fit len have "out' ! (y * stride + b) = out ! (y * stride + b)" by simp
    with assms(2) \<open>y < k\<close> y(2) show ?thesis by (simp add: rows_done_def)
  qed
  moreover have "length out' = stride * h" using row(1) fit len by (simp add: out')
  ultimately show ?thesis unfolding rows_done_def by blast
qed

lemma linearize_row_total:
  assumes "\<forall>b < w * 4. tile_address (stride div 512) (if y0 then h - 1 - k else k) b < length mapped"
    "length out = stride * h" "w * 4 \<le> stride" "k < h" "int (w * 4) < 2 ^ 64"
  shows "\<exists>out'. linearize_row mapped w h stride y0 out k = Inr out' \<and> length out' = stride * h"
proof -
  note fit = row_end [OF assms(3,4)]
  let ?t = "take (w * 4) (drop (k * stride) out)"
  have "length ?t = w * 4" using fit assms(2) by simp
  have "\<exists>row. x_tiled_loop mapped (stride div 512) (if y0 then h - 1 - k else k) (w * 4) 0 0 ?t = Inr row"
    by (rule x_tiled_loop_total) (use assms(1) \<open>length ?t = w * 4\<close> in simp_all)
  then obtain row where row: "x_tiled_loop mapped (stride div 512) (if y0 then h - 1 - k else k) (w * 4) 0 0 ?t = Inr row" by auto
  from x_tiled_loop_spec [OF row] \<open>length ?t = w * 4\<close> have "length row = w * 4" by simp
  with row fit assms(2,5) show ?thesis by (simp add: linearize_row_def copy_x_tiled_row_def checked_usize_def Let_def)
qed

lemma stride_covers:
  fixes w stride :: "32 word"
  assumes "saturating_mul4 w \<le> unat stride" "unat stride mod 512 = 0"
  shows "unat w * 4 \<le> unat stride"
proof (cases "unat w * 4 \<le> 4294967295")
  case True
  with assms(1) show ?thesis by (simp add: saturating_mul4_def min_def)
next
  case False
  with assms(1) have "4294967295 \<le> unat stride" by (simp add: saturating_mul4_def)
  with u32_bound [of stride] have "unat stride = 4294967295" by linarith
  with assms(2) show ?thesis by simp
qed

lemma linearize_row_ok: "linearize_x_tiled mapped w h stride y0 = Inr out \<Longrightarrow>
    unat w * 4 \<le> unat stride \<and> rows_done mapped (unat w) (unat h) (unat stride) y0 (unat h) out"
proof -
  assume "linearize_x_tiled mapped w h stride y0 = Inr out"
  then have g: "\<not> (unat stride < saturating_mul4 w \<or> unat stride mod 512 \<noteq> 0)"
    and loop: "for_each [0..<unat h] (linearize_row mapped (unat w) (unat h) (unat stride) y0) (replicate (unat stride * unat h) 0) = Inr out"
    by (auto simp: linearize_x_tiled_def checked_usize_def split: if_splits)
  from g have cover: "unat w * 4 \<le> unat stride" by (intro stride_covers) simp_all
  have "rows_done mapped (unat w) (unat h) (unat stride) y0 (unat h) out"
  proof (rule for_each_upt [where P = "rows_done mapped (unat w) (unat h) (unat stride) y0", OF loop])
    show "rows_done mapped (unat w) (unat h) (unat stride) y0 0 (replicate (unat stride * unat h) 0)" by (simp add: rows_done_def)
  qed (use linearize_row_Inr cover in blast)
  with cover show ?thesis by simp
qed

text \<open>
  C14: The loop that copies runs of bytes tile by tile equals the address arithmetic of X tiling: when
  \<open>linearize_x_tiled\<close> succeeds, byte \<open>b\<close> of row \<open>y\<close> of its output is the mapped byte at
  the tiled address of that byte (of the mirrored row for \<open>y0_top\<close>), which lies inside the mapping.
\<close>

theorem linear_image_reads_tiles:
  assumes "linearize_x_tiled mapped w h stride y0 = Inr out" "y < unat h" "b < unat w * 4"
  shows "length out = unat stride * unat h
    \<and> tile_address (unat stride div 512) (if y0 then unat h - 1 - y else y) b < length mapped
    \<and> out ! (y * unat stride + b) = mapped ! tile_address (unat stride div 512) (if y0 then unat h - 1 - y else y) b"
  using linearize_row_ok [OF assms(1)] assms(2,3) by (simp add: rows_done_def)

theorem linear_image_reads_tiles_witness:
  "\<exists>out. linearize_x_tiled (replicate 511 0 @ [9]) 128 1 512 False = Inr out \<and> out ! 511 = 9"
proof -
  let ?m = "replicate 511 0 @ [9 :: byte]"
  have "\<exists>out. x_tiled_loop ?m 1 0 512 0 0 (replicate 512 0) = Inr out"
    by (rule x_tiled_loop_total) (simp_all add: tile_address_def)
  then obtain row where row: "x_tiled_loop ?m 1 0 512 0 0 (replicate 512 0) = Inr row" by blast
  then have "linearize_x_tiled ?m 128 1 512 False = Inr (put_slice (replicate 512 0) 0 row)"
    by (simp add: linearize_x_tiled_def saturating_mul4_def checked_usize_def linearize_row_def copy_x_tiled_row_def Let_def)
  then show ?thesis using linear_image_reads_tiles [of ?m 128 1 512 False _ 0 511]
    by (intro exI conjI) (assumption, simp add: tile_address_def nth_append)
qed

section \<open>Which heights a tiled buffer has\<close>

text \<open>The last byte of a row of the surface lies in the mapping of whole rows only when the tile row is whole.\<close>

lemma tile_address_bound:
  assumes "stride mod 512 = 0" "y < h" "b < stride" "8 dvd h"
  shows "tile_address (stride div 512) y b < stride * (h :: nat)"
proof -
  obtain tpr where tpr: "stride = tpr * 512" using assms(1) by auto
  obtain q where q: "h = 8 * q" using assms(4) by auto
  have "y div 8 < q" using assms(2) q by (simp add: less_mult_imp_div_less mult.commute)
  have "b div 512 < tpr" using assms(3) tpr by (simp add: less_mult_imp_div_less)
  have "y div 8 * tpr + b div 512 < Suc (y div 8) * tpr" using \<open>b div 512 < tpr\<close> by simp
  also have "\<dots> \<le> q * tpr" using \<open>y div 8 < q\<close> by (intro mult_le_mono1) simp
  finally have "Suc (y div 8 * tpr + b div 512) * 4096 \<le> q * tpr * 4096" by (intro mult_le_mono1) simp
  moreover have "y mod 8 * 512 + b mod 512 < 4096"
  proof -
    have "y mod 8 \<le> 7" "b mod 512 < 512" by (simp_all add: less_Suc_eq_le [symmetric])
    then show ?thesis by linarith
  qed
  ultimately show ?thesis by (simp add: tile_address_def tpr q algebra_simps)
qed

lemma tile_address_outside:
  assumes "stride mod 512 = 0" "1024 \<le> stride" "stride < w * 4 + 512" "w * 4 \<le> stride" "\<not> 8 dvd (h :: nat)"
  shows "stride * h \<le> tile_address (stride div 512) (h - 1) (w * 4 - 1)"
proof -
  obtain tpr where tpr: "stride = tpr * 512" using assms(1) by auto
  define q r where "q = h div 8" "r = h mod 8"
  then have h: "h = 8 * q + r" by simp
  have "r < 8" by (simp add: q_r_def)
  have "0 < r" using assms(5) q_r_def(2) by (simp add: dvd_eq_mod_eq_0)
  have "2 \<le> tpr" using assms(2) tpr by simp
  have tile: "(w * 4 - 1) div 512 = tpr - 1"
  proof (rule div_nat_eqI)
    show "512 * (tpr - 1) \<le> w * 4 - 1" using assms(3) tpr \<open>2 \<le> tpr\<close> by (simp add: diff_mult_distrib2)
    show "w * 4 - 1 < 512 * Suc (tpr - 1)" using assms(3,4) tpr \<open>2 \<le> tpr\<close> by simp
  qed
  have "h - 1 = 8 * q + (r - 1)" using h \<open>0 < r\<close> by simp
  then have rows: "(h - 1) div 8 = q" "(h - 1) mod 8 = r - 1" using \<open>r < 8\<close> by simp_all
  have "512 * tpr * r \<le> (tpr - 1) * 4096 + (r - 1) * 512"
  proof -
    obtain t where t: "tpr = t + 2" using \<open>2 \<le> tpr\<close> by (metis le_add_diff_inverse2)
    have "r * t \<le> 8 * t" using \<open>r < 8\<close> by (intro mult_le_mono1) simp
    moreover have "(t + 2) * r = r * t + r + r" "t + 2 - 1 = t + 1" "(t + 1) * 8 = 8 * t + 8" by (simp_all add: algebra_simps)
    ultimately have "tpr * r \<le> (tpr - 1) * 8 + (r - 1)" using \<open>r < 8\<close> \<open>0 < r\<close> unfolding t by linarith
    then have "512 * (tpr * r) \<le> 512 * ((tpr - 1) * 8 + (r - 1))" by (rule mult_le_mono2)
    then show ?thesis by (simp add: algebra_simps)
  qed
  moreover have "stride * h = q * tpr * 4096 + 512 * tpr * r" unfolding tpr by (subst h) (simp add: algebra_simps)
  moreover have "tile_address (stride div 512) (h - 1) (w * 4 - 1)
      = q * tpr * 4096 + (tpr - 1) * 4096 + (r - 1) * 512 + (w * 4 - 1) mod 512"
    unfolding tile_address_def tile rows by (simp add: tpr add_mult_distrib)
  ultimately show ?thesis by linarith
qed

lemma mult_u32_bound: "x < 4294967296 \<Longrightarrow> y < 4294967296 \<Longrightarrow> int (x * y) < 2 ^ 64"
  using mult_strict_mono' [of "int x" 4294967296 "int y" 4294967296] by simp

lemma linearize_total:
  assumes "unat stride mod 512 = 0" "unat w * 4 \<le> unat stride" "length mapped = unat stride * unat h" "8 dvd unat h"
  shows "\<exists>out. linearize_x_tiled mapped w h stride y0 = Inr out"
proof -
  let ?n = "unat stride * unat h"
  have small: "int ?n < 2 ^ 64" by (rule mult_u32_bound) (rule u32_bound)+
  have w4: "int (unat w * 4) < 2 ^ 64" by (rule mult_u32_bound [OF u32_bound]) simp
  have "\<exists>t. for_each [0..<unat h] (linearize_row mapped (unat w) (unat h) (unat stride) y0) (replicate ?n 0) = Inr t
      \<and> length t = ?n"
  proof (rule for_each_upt_total)
    fix k s assume k: "k < unat h" "length (s :: byte list) = ?n"
    show "\<exists>s'. linearize_row mapped (unat w) (unat h) (unat stride) y0 s k = Inr s' \<and> length s' = ?n"
    proof (rule linearize_row_total)
      show "\<forall>b < unat w * 4. tile_address (unat stride div 512) (if y0 then unat h - 1 - k else k) b < length mapped"
        unfolding assms(3) using k(1) assms(2)
        by (auto intro!: tile_address_bound [OF assms(1) _ _ assms(4)])
    qed (use k assms w4 in simp_all)
  qed simp
  then obtain out where "for_each [0..<unat h] (linearize_row mapped (unat w) (unat h) (unat stride) y0) (replicate ?n 0) = Inr out" by auto
  moreover have "\<not> unat stride < saturating_mul4 w" using assms(2) by (simp add: saturating_mul4_def)
  ultimately show ?thesis using assms(1,3) small by (simp add: linearize_x_tiled_def checked_usize_def)
qed

text \<open>
  A tiled scanout whose image uses more than one tile per row is accepted only when its height is a multiple of
  the tile height 8: the callback maps just \<open>stride * height\<close> bytes, which cut the last row of tiles short
  otherwise, and every other mapping of that length is converted.
\<close>

theorem tiled_scanout_needs_whole_tiles:
  assumes "unat stride mod 512 = 0" "1024 \<le> unat stride" "unat stride < unat w * 4 + 512" "unat w * 4 \<le> unat stride"
    and "0 < h" and mmap: "\<forall>n m. mmap fd n = Some m \<longrightarrow> length m = n"
  shows "(is_ok (scanout_dmabuf mmap fd w h stride fourcc I915_FORMAT_MOD_X_TILED y0 s) \<longrightarrow> 8 dvd unat h)
    \<and> (length mapped = unat stride * unat h \<longrightarrow> is_ok (linearize_x_tiled mapped w h stride y0) = (8 dvd unat h))"
proof -
  have only: "8 dvd unat h" if m: "length m = unat stride * unat h" and ok: "linearize_x_tiled m w h stride y0 = Inr out" for m out
  proof (rule ccontr)
    assume "\<not> 8 dvd unat h"
    from tile_address_outside [OF assms(1-4) this]
    have outside: "length m \<le> tile_address (unat stride div 512) (unat h - 1) (unat w * 4 - 1)" unfolding m .
    have h: "0 < unat h" using assms(5) by (simp add: word_less_nat_alt)
    have b: "unat w * 4 - 1 < unat w * 4" using assms(2,3) by linarith
    define y where "y = (if y0 then 0 else unat h - 1)"
    have y: "y < unat h" "(if y0 then unat h - 1 - y else y) = unat h - 1" using h by (simp_all add: y_def)
    from linearize_row_ok [OF ok] y(1) b
    have "tile_address (unat stride div 512) (if y0 then unat h - 1 - y else y) (unat w * 4 - 1) < length m"
      unfolding rows_done_def by blast
    with outside show False unfolding y(2) by simp
  qed
  have "8 dvd unat h" if "is_ok (scanout_dmabuf mmap fd w h stride fourcc I915_FORMAT_MOD_X_TILED y0 s)"
  proof -
    from that obtain m out where "mmap fd (unat stride * unat h) = Some m" "linearize_x_tiled m w h stride y0 = Inr out"
      by (auto simp: is_ok_iff scanout_dmabuf_def rbind_Inr_iff ok_or_Inr_iff checked_usize_def linear_image_def split: if_splits)
    with only mmap show ?thesis by blast
  qed
  then show ?thesis using only linearize_total [OF assms(1,4)] by (auto simp: is_ok_iff)
qed

theorem tiled_scanout_needs_whole_tiles_witness:
  "\<not> is_ok (scanout_dmabuf (\<lambda>_ n. Some (replicate n 0)) 3 1440 900 6144 0x34325258 I915_FORMAT_MOD_X_TILED False new_capture)"
  using tiled_scanout_needs_whole_tiles [of 6144 1440 900 "\<lambda>_ n. Some (replicate n 0)" 3 "0x34325258" False new_capture "[]"]
  by (simp add: dvd_eq_mod_eq_0)

section \<open>Reachable capture states\<close>

inductive capture_step :: "(nat \<Rightarrow> nat \<Rightarrow> byte list option) \<Rightarrow> capture_state \<Rightarrow> capture_state \<Rightarrow> bool" for mmap where
  step_scanout: "cap_scanout w h stride format data s = Inr s' \<Longrightarrow> capture_step mmap s s'"
| step_update: "cap_update x y w h stride format data s = Inr s' \<Longrightarrow> capture_step mmap s s'"
| step_scanout_dmabuf: "scanout_dmabuf mmap fd w h stride fourcc modifier y0 s = Inr s' \<Longrightarrow> capture_step mmap s s'"
| step_update_dmabuf: "update_dmabuf mmap x y w h s = Inr s' \<Longrightarrow> capture_step mmap s s'"
| step_scanout_dmabuf2:
    "scanout_dmabuf2 mmap fds offsets strides w h fourcc bw bh modifier y0 s = Inr s' \<Longrightarrow> capture_step mmap s s'"
| step_snapshot: "capture_step mmap s (snd (cap_snapshot force s))"
| step_native: "capture_step mmap s (set_native n s)"
| step_mouse_set: "capture_step mmap s (mouse_set x y on s)"
| step_cursor_move: "capture_step mmap s (cursor_move x y s)"
| step_cursor_define: "cursor_define w h hx hy data s = Inr s' \<Longrightarrow> capture_step mmap s s'"
| step_cursor_update: "cursor_update x y w h data s = Inr s' \<Longrightarrow> capture_step mmap s s'"

inductive capture_reachable :: "(nat \<Rightarrow> nat \<Rightarrow> byte list option) \<Rightarrow> capture_state \<Rightarrow> bool" for mmap where
  reach_new: "capture_reachable mmap new_capture"
| reach_step: "capture_reachable mmap s \<Longrightarrow> capture_step mmap s s' \<Longrightarrow> capture_reachable mmap s'"

inductive_cases capture_stepE: "capture_step mmap s s'"

definition cap_frame_ok :: "capture_state \<Rightarrow> bool" where
  "cap_frame_ok s \<longleftrightarrow> (case cap_frame s of None \<Rightarrow> True | Some f \<Rightarrow> frame_ok f \<and> damage_inside f)"

definition capture_ok :: "capture_state \<Rightarrow> bool" where
  "capture_ok s \<longleftrightarrow> cursor_valid (cap_cursor s) \<and> cap_frame_ok s"

lemma frame_scanout_ok: "frame_scanout w h stride format data = Inr f \<Longrightarrow> frame_ok f \<and> damage_inside f"
proof -
  assume a: "frame_scanout w h stride format data = Inr f"
  then obtain e g where e: "empty_frame w h = Inr e" and g: "copy_rect e 0 0 w h stride format data = Inr g"
    and f: "f = g\<lparr>damage := Some (0, 0, w, h)\<rparr>"
    by (auto simp: frame_scanout_def rbind_Inr_iff)
  from empty_frame_Inr [OF e] have e': "frame_ok e" "fr_width e = w" "fr_height e = h" by simp_all
  from copy_rect_refines [OF e'(1) g] e'(2,3) have "frame_ok g" "g = e\<lparr>pixels := pixels g\<rparr>" by auto
  then have "fr_width g = w" "fr_height g = h" by (metis e'(2) frame.surjective frame.update_convs(3) frame.select_convs(1),
      metis e'(3) frame.surjective frame.update_convs(3) frame.select_convs(2))
  with \<open>frame_ok g\<close> show ?thesis by (simp add: f frame_ok_def damage_inside_def)
qed

lemma cursor_fit:
  fixes x w L :: "32 word"
  assumes "0 \<le> sint x" "0 \<le> sint w" "sint x + sint w \<le> int (unat L)"
  shows "unat x + unat w \<le> unat L"
proof -
  have "sint v = int (unat v)" if "0 \<le> sint v" for v :: "32 word"
  proof -
    have "sint v < 2 ^ 32" using sint_lt [of v] by simp
    with that have "uint v = sint v" unfolding uint_sint by (simp add: take_bit_int_eq_self)
    then show ?thesis by simp
  qed
  from this [OF assms(1)] this [OF assms(2)] assms(3) show ?thesis by linarith
qed

lemma cursor_row_eq: "cursor_row cw x y w data px row = copy_row cw x y w (w * 4) A8R8G8B8 data px row"
  by (auto simp: cursor_row_def copy_row_def convert_def Let_def algebra_simps)

lemma cursor_rows_total:
  assumes "cursor_valid c" "unat x + unat w \<le> unat (width c)" "unat y + unat h \<le> unat (height c)" "length data = unat w * unat h * 4"
  shows "\<exists>px. for_each [0..<unat h] (cursor_row (unat (width c)) (unat x) (unat y) (unat w) data) (cursor_data c) = Inr px
    \<and> length px = length (cursor_data c)
    \<and> (\<forall>qx < unat (width c). \<forall>qy. pixel_at px (qy * unat (width c) + qx) =
        (if unat x \<le> qx \<and> qx < unat x + unat w \<and> unat y \<le> qy \<and> qy < unat y + unat h
         then pixel_at (drop ((qy - unat y) * (unat w * 4)) data) (qx - unat x)
         else pixel_at (cursor_data c) (qy * unat (width c) + qx)))"
proof -
  have rows: "\<forall>j < unat h. j * (unat w * 4) + unat w * 4 \<le> length data"
    using rows_in_data [of "unat w" "unat w * 4" "unat h" "length data"] assms(4) by (simp add: algebra_simps)
  have cv: "convert A8R8G8B8 bs = bs" for bs by (simp add: convert_def)
  have "length (cursor_data c) = unat (width c) * unat (height c) * 4" using assms(1) by (simp add: cursor_valid_def)
  note copy_rows [OF this assms(2,3) rows order_refl, of A8R8G8B8, unfolded cv]
  then show ?thesis unfolding cursor_row_eq [abs_def] .
qed

lemma cursor_update_ok:
  assumes "cursor_valid (cap_cursor s)"
  shows "cursor_update x y w h data s \<noteq> Inl CursorPanic"
    and "cursor_update x y w h data s = Inr s' \<Longrightarrow>
      unat x + unat w \<le> unat (width (cap_cursor s)) \<and> unat y + unat h \<le> unat (height (cap_cursor s))
      \<and> s' = s\<lparr>cap_cursor := (cap_cursor s)\<lparr>cursor_data := cursor_data (cap_cursor s')\<rparr>, cursor_revision := cursor_revision s + 1\<rparr>
      \<and> length (cursor_data (cap_cursor s')) = length (cursor_data (cap_cursor s))
      \<and> (\<forall>qx < unat (width (cap_cursor s)). \<forall>qy. pixel_at (cursor_data (cap_cursor s')) (qy * unat (width (cap_cursor s)) + qx) =
        (if unat x \<le> qx \<and> qx < unat x + unat w \<and> unat y \<le> qy \<and> qy < unat y + unat h
         then pixel_at (drop ((qy - unat y) * (unat w * 4)) data) (qx - unat x)
         else pixel_at (cursor_data (cap_cursor s)) (qy * unat (width (cap_cursor s)) + qx)))"
proof -
  let ?c = "cap_cursor s"
  let ?bad = "sint x < 0 \<or> sint y < 0 \<or> sint w < 0 \<or> sint h < 0
         \<or> sint x + sint w > int (unat (width ?c)) \<or> sint y + sint h > int (unat (height ?c))
         \<or> length data \<noteq> unat w * unat h * 4"
  have "cursor_update x y w h data s \<noteq> Inl CursorPanic \<and> (cursor_update x y w h data s = Inr s' \<longrightarrow>
      unat x + unat w \<le> unat (width ?c) \<and> unat y + unat h \<le> unat (height ?c)
      \<and> s' = s\<lparr>cap_cursor := ?c\<lparr>cursor_data := cursor_data (cap_cursor s')\<rparr>, cursor_revision := cursor_revision s + 1\<rparr>
      \<and> length (cursor_data (cap_cursor s')) = length (cursor_data ?c)
      \<and> (\<forall>qx < unat (width ?c). \<forall>qy. pixel_at (cursor_data (cap_cursor s')) (qy * unat (width ?c) + qx) =
        (if unat x \<le> qx \<and> qx < unat x + unat w \<and> unat y \<le> qy \<and> qy < unat y + unat h
         then pixel_at (drop ((qy - unat y) * (unat w * 4)) data) (qx - unat x)
         else pixel_at (cursor_data ?c) (qy * unat (width ?c) + qx))))"
  proof (cases ?bad)
    case True
    then have "cursor_update x y w h data s = Inl (InvalidArgs ''invalid cursor update'')" unfolding cursor_update_def Let_def by (rule if_P)
    then show ?thesis by simp
  next
    case False
    then have fit: "unat x + unat w \<le> unat (width ?c)" "unat y + unat h \<le> unat (height ?c)" "length data = unat w * unat h * 4"
      by (auto intro!: cursor_fit)
    from cursor_rows_total [OF assms fit] obtain px where
      px: "for_each [0..<unat h] (cursor_row (unat (width ?c)) (unat x) (unat y) (unat w) data) (cursor_data ?c) = Inr px"
      and facts: "length px = length (cursor_data ?c)" "\<forall>qx < unat (width ?c). \<forall>qy. pixel_at px (qy * unat (width ?c) + qx) =
        (if unat x \<le> qx \<and> qx < unat x + unat w \<and> unat y \<le> qy \<and> qy < unat y + unat h
         then pixel_at (drop ((qy - unat y) * (unat w * 4)) data) (qx - unat x)
         else pixel_at (cursor_data ?c) (qy * unat (width ?c) + qx))" by blast
    have "cursor_update x y w h data s = Inr (bump_cursor (s\<lparr>cap_cursor := ?c\<lparr>cursor_data := px\<rparr>\<rparr>))"
      unfolding cursor_update_def Let_def if_not_P [OF False] px by simp
    moreover have "cap_cursor (bump_cursor (s\<lparr>cap_cursor := ?c\<lparr>cursor_data := px\<rparr>\<rparr>)) = ?c\<lparr>cursor_data := px\<rparr>"
      by (simp add: bump_cursor_def)
    ultimately show ?thesis using fit(1,2) facts by (auto simp: bump_cursor_def simp del: split_paired_All)
  qed
  then show "cursor_update x y w h data s \<noteq> Inl CursorPanic"
    and "cursor_update x y w h data s = Inr s' \<Longrightarrow>
      unat x + unat w \<le> unat (width ?c) \<and> unat y + unat h \<le> unat (height ?c)
      \<and> s' = s\<lparr>cap_cursor := ?c\<lparr>cursor_data := cursor_data (cap_cursor s')\<rparr>, cursor_revision := cursor_revision s + 1\<rparr>
      \<and> length (cursor_data (cap_cursor s')) = length (cursor_data ?c)
      \<and> (\<forall>qx < unat (width ?c). \<forall>qy. pixel_at (cursor_data (cap_cursor s')) (qy * unat (width ?c) + qx) =
        (if unat x \<le> qx \<and> qx < unat x + unat w \<and> unat y \<le> qy \<and> qy < unat y + unat h
         then pixel_at (drop ((qy - unat y) * (unat w * 4)) data) (qx - unat x)
         else pixel_at (cursor_data ?c) (qy * unat (width ?c) + qx)))" by blast+
qed

lemma capture_step_ok: "capture_step mmap s s' \<Longrightarrow> capture_ok s \<Longrightarrow> capture_ok s'"
proof (induction rule: capture_step.induct)
  case (step_update x y w h stride format data s s')
  then obtain f f' where f: "cap_frame s = Some f" "frame_update f x y w h stride format data = Inr f'"
    and s': "s' = s\<lparr>cap_frame := Some f', refresh := True\<rparr>" by (auto simp: cap_update_def rbind_Inr_iff ok_or_Inr_iff)
  with step_update(2) have "frame_ok f" "damage_inside f" by (auto simp: capture_ok_def cap_frame_ok_def)
  with update_damage [OF f(2)] step_update(2) show ?case by (simp add: s' capture_ok_def cap_frame_ok_def)
next
  case (step_scanout_dmabuf2 fds offsets strides w h fourcc bw bh modifier y0 s s')
  then show ?case
    by (auto simp: scanout_dmabuf2_def scanout_dmabuf_def rbind_Inr_iff capture_ok_def cap_frame_ok_def dest: frame_scanout_ok
        split: if_splits list.splits)
next
  case (step_cursor_update x y w h data s s')
  then have v: "cursor_valid (cap_cursor s)" by (simp add: capture_ok_def)
  let ?c = "(cap_cursor s)\<lparr>cursor_data := cursor_data (cap_cursor s')\<rparr>"
  from cursor_update_ok(2) [OF v step_cursor_update(1)]
  have s': "s' = s\<lparr>cap_cursor := ?c, cursor_revision := cursor_revision s + 1\<rparr>"
    and len: "length (cursor_data (cap_cursor s')) = length (cursor_data (cap_cursor s))" by blast+
  from v len have "cursor_valid ?c" by (simp add: cursor_valid_def)
  moreover from s' have "cap_cursor s' = ?c" "cap_frame s' = cap_frame s" by (metis capture_state.select_convs(5) capture_state.surjective
        capture_state.update_convs(5,6), metis capture_state.select_convs(1) capture_state.surjective capture_state.update_convs(5,6))
  ultimately show ?case using step_cursor_update(2) by (simp add: capture_ok_def cap_frame_ok_def)
qed (auto simp: cap_scanout_def scanout_dmabuf_def update_dmabuf_def cap_snapshot_def set_native_def mouse_set_def cursor_move_def
    cursor_define_def bump_cursor_def rbind_Inr_iff capture_ok_def cap_frame_ok_def cursor_valid_def Let_def dest: frame_scanout_ok split: if_splits)

text \<open>
  C15: Whatever callbacks QEMU makes and in whatever order, the framebuffer always has exactly its size in pixels with
  its damage inside it, the cursor plane is a valid cursor (so it is always accepted by the stream's peer), and a
  cursor update never writes outside the cursor image.
\<close>

theorem capture_stays_ok:
  assumes "capture_reachable mmap s"
  shows "cursor_valid (cap_cursor s)
    \<and> (\<forall>f. cap_frame s = Some f \<longrightarrow> frame_ok f \<and> damage_inside f)
    \<and> cursor_update x y w h data s \<noteq> Inl CursorPanic"
proof -
  from assms have "capture_ok s"
  proof (induction rule: capture_reachable.induct)
    case reach_new
    show ?case by (simp add: capture_ok_def cap_frame_ok_def new_capture_def cursor_valid_def MAX_CURSOR_DIMENSION_def)
  qed (rule capture_step_ok)
  then show ?thesis using cursor_update_ok(1) by (auto simp: capture_ok_def cap_frame_ok_def)
qed

theorem capture_stays_ok_witness:
  "cursor_valid (cap_cursor (mouse_set 5 6 1 new_capture)) \<and> cursor_update 0 0 1 1 [1, 2, 3, 4] (mouse_set 5 6 1 new_capture) \<noteq> Inl CursorPanic"
  using capture_stays_ok [OF reach_step [OF reach_new step_mouse_set [of "\<lambda>_ _. None" new_capture 5 6 1]]] by blast

section \<open>Input\<close>

text \<open>The buttons held after a sequence of calls, and whether a release ever comes without its press.\<close>

fun held_buttons :: "input_effect list \<Rightarrow> 32 word list \<Rightarrow> 32 word list" where
  "held_buttons [] held = held"
| "held_buttons (ButtonPress b # es) held = held_buttons es (b # held)"
| "held_buttons (ButtonRelease b # es) held = held_buttons es (removeAll b held)"
| "held_buttons (_ # es) held = held_buttons es held"

lemma held_clicks: "b \<notin> set held \<Longrightarrow> held_buttons (concat (replicate n [ButtonPress b, ButtonRelease b]) @ es) held = held_buttons es held"
  by (induction n) simp_all

text \<open>
  A wheel message of any size makes at most ten clicks, all of the button of its direction, and leaves exactly
  the buttons held that were held before.
\<close>

theorem wheel_clicks_are_released:
  assumes "3 \<notin> set held" "4 \<notin> set held"
  shows "held_buttons (wheel_effects steps) held = held
    \<and> length (wheel_effects steps) = 2 * min 10 (nat \<bar>steps\<bar>)
    \<and> set (wheel_effects steps) \<subseteq> (if steps < 0 then {ButtonPress 3, ButtonRelease 3} else {ButtonPress 4, ButtonRelease 4})"
proof -
  let ?n = "nat \<bar>clamp (-10) 10 steps\<bar>" and ?b = "(if clamp (-10) 10 steps < 0 then 3 else 4) :: 32 word"
  have n: "?n = min 10 (nat \<bar>steps\<bar>)" and b: "clamp (-10) 10 steps < 0 \<longleftrightarrow> steps < 0" by (auto simp: clamp_def)
  have "?b \<notin> set held" using assms by simp
  then have "held_buttons (wheel_effects steps) held = held"
    using held_clicks [of ?b held ?n "[]"] by (simp add: wheel_effects_def Let_def)
  moreover have "length (concat (replicate k [ButtonPress c, ButtonRelease c])) = 2 * k" for k c by (induction k) simp_all
  then have "length (wheel_effects steps) = 2 * min 10 (nat \<bar>steps\<bar>)" unfolding wheel_effects_def Let_def n [symmetric] by simp
  moreover have "set (wheel_effects steps) \<subseteq> (if steps < 0 then {ButtonPress 3, ButtonRelease 3} else {ButtonPress 4, ButtonRelease 4})"
    unfolding wheel_effects_def Let_def b by (auto simp: set_replicate_conv_if split: if_splits)
  ultimately show ?thesis by blast
qed

theorem wheel_clicks_are_released_witness:
  "held_buttons (wheel_effects (-25)) [0] = [0] \<and> length (wheel_effects (-25)) = 20"
  using wheel_clicks_are_released [of "[0]" "-25"] by simp

section \<open>Clipboard ownership\<close>

text \<open>What happens to the clipboard: the peer registers, the host copies, the guest grabs a selection.\<close>

datatype clip_op = PeerRegisters | HostCopies "byte list" | GuestGrabs "32 word" "32 word" "string list" | GuestReleases "32 word"

fun clip_step :: "clipboard \<Rightarrow> clip_op \<Rightarrow> clipboard" where
  "clip_step c PeerRegisters = clip_reset c"
| "clip_step c (HostCopies t) = (case set_clipboard t c of Inl _ \<Rightarrow> c | Inr (_, c') \<Rightarrow> c')"
| "clip_step c (GuestGrabs sel n mimes) = (case clip_grab sel n mimes c of Inl _ \<Rightarrow> c | Inr (_, c') \<Rightarrow> c')"
| "clip_step c (GuestReleases sel) = (case clip_release sel c of Inl _ \<Rightarrow> c | Inr (_, c') \<Rightarrow> c')"

text \<open>The abstract view: who owns the clipboard, and the serial of that ownership.\<close>

datatype owner = Nobody | HostOwns "byte list" "32 word" | GuestOwns "32 word"

definition owner_serial :: "owner \<Rightarrow> 32 word" where
  "owner_serial w = (case w of Nobody \<Rightarrow> 0 | HostOwns _ n \<Rightarrow> n | GuestOwns n \<Rightarrow> n)"

text \<open>The contract: a registration clears, the host takes the next serial, and the guest takes over with a newer serial only.\<close>

fun owner_step :: "owner \<Rightarrow> clip_op \<Rightarrow> owner" where
  "owner_step w PeerRegisters = Nobody"
| "owner_step w (HostCopies t) = (if MAX_CLIPBOARD_BYTES < length t then w else HostOwns t (max (owner_serial w + 1) 1))"
| "owner_step w (GuestGrabs sel n mimes) = (if sel \<le> 2 \<and> owner_serial w < n then GuestOwns n else w)"
| "owner_step w (GuestReleases sel) = w"

definition owner_of :: "clipboard \<Rightarrow> owner" where
  "owner_of c = (case host_text c of Some t \<Rightarrow> HostOwns t (serial c) | None \<Rightarrow> if serial c = 0 then Nobody else GuestOwns (serial c))"

lemma owner_serial_of: "owner_serial (owner_of c) = serial c"
  by (simp add: owner_serial_def owner_of_def split: option.split)

lemma clip_step_refines: "owner_of (clip_step c e) = owner_step (owner_of c) e"
proof (cases e)
  case (GuestGrabs sel n mimes)
  have "n \<noteq> 0" if "serial c < n" using that by auto
  then show ?thesis unfolding GuestGrabs
    by (auto simp: clip_grab_def accept_guest_serial_def owner_serial_of not_le owner_of_def [of "c\<lparr>serial := n, host_text := None\<rparr>"])
qed (auto simp: clip_reset_def set_clipboard_def set_host_text_def clip_release_def Let_def owner_serial_of
    owner_of_def [of "c\<lparr>serial := 0, host_text := None\<rparr>"] owner_of_def [of "c\<lparr>serial := max (serial c + 1) 1, host_text := _\<rparr>"])

text \<open>
  C16: The clipboard peer refines exclusive ownership by serial: after any sequence of registrations, host copies and
  guest grabs and releases, a request is answered with the text of the host's copy exactly while the host is the
  owner, where a guest grab takes over only with a strictly newer serial, and any selection counts.
\<close>

theorem clipboard_refines_ownership:
  "owner_of (foldl clip_step c es) = foldl owner_step (owner_of c) es
    \<and> (clip_request 0 [CLIPBOARD_MIME] (foldl clip_step c es) = Inr (CLIPBOARD_MIME, t)
       \<longleftrightarrow> (\<exists>n. foldl owner_step (owner_of c) es = HostOwns t n))"
proof -
  have fold: "owner_of (foldl clip_step c es) = foldl owner_step (owner_of c) es"
    by (induction es arbitrary: c) (simp_all add: clip_step_refines)
  have "clip_request 0 [CLIPBOARD_MIME] d = Inr (CLIPBOARD_MIME, t) \<longleftrightarrow> (\<exists>n. owner_of d = HostOwns t n)" for d
    by (auto simp: clip_request_def owner_of_def split: option.split)
  with fold show ?thesis by simp
qed

end
