(* ===== verification/Garbage.thy ===== *)
theory Garbage
  imports Domain
begin

text \<open>
  \<open>crates/machineemu-core/src/storage/gc.rs\<close>: the removal of content-addressed objects that no metadata file
  mentions. The workspace directory is a tree; the text search of the code is a search of the bytes, as a obj is
  ASCII and \<open>from_utf8_lossy\<close> keeps every run of ASCII bytes.
\<close>

text \<open>
  A node of the workspace: a readable file with its bytes, a directory, something that is neither (a symbolic link, a
  socket), or a directory or small file that cannot be read.
\<close>

datatype fnode = FFile string | FDir "(string \<times> fnode) list" | FOther | FDenied

type_synonym ftree = "(string \<times> fnode) list"

definition MAX_METADATA_BYTES :: nat where "MAX_METADATA_BYTES = 64 * 1024 * 1024"

definition is_digest :: "string \<Rightarrow> bool" where
  "is_digest nm \<longleftrightarrow> length nm = 64 \<and> list_all is_ascii_hexdigit nm"

record gc_report =
  dry_run :: bool
  retained :: "string list"
  candidates :: "string list"
  removed :: "string list"

text \<open>What one file adds to the retained set.\<close>

definition mentioned :: "string list \<Rightarrow> string \<Rightarrow> string set" where
  "mentioned objects text = set (filter (contains_str text) objects)"

function scan_metadata :: "bool \<Rightarrow> string list \<Rightarrow> ftree \<Rightarrow> string set \<Rightarrow> string set core_result" where
  "scan_metadata at_root objects [] kept = Inr kept"
| "scan_metadata at_root objects ((nm, FDir entries) # rest) kept =
     (if at_root \<and> nm = ''objects'' then scan_metadata at_root objects rest kept
      else rbind (scan_metadata False objects entries kept) (scan_metadata at_root objects rest))"
| "scan_metadata at_root objects ((nm, FFile bytes) # rest) kept =
     (if MAX_METADATA_BYTES < length bytes then scan_metadata at_root objects rest kept
      else scan_metadata at_root objects rest (kept \<union> mentioned objects bytes))"
| "scan_metadata at_root objects ((nm, FOther) # rest) kept = scan_metadata at_root objects rest kept"
| "scan_metadata at_root objects ((nm, FDenied) # rest) kept = Inl (Io nm ''permission denied'')"
  by pat_completeness auto
termination
  by (relation "measure (\<lambda>(_, _, entries, _). size_list (size_prod (\<lambda>_. 0) size) entries)") auto

definition referenced_digests :: "ftree \<Rightarrow> string list \<Rightarrow> string set core_result" where
  "referenced_digests root objects = scan_metadata True objects root {}"

text \<open>\<open>read_dir\<close> of \<open>objects/sha256\<close>: its entries, None when a component does not exist.\<close>

definition sub_dir :: "string \<Rightarrow> ftree \<Rightarrow> ftree option core_result" where
  "sub_dir nm entries = (case map_of entries nm of
       None \<Rightarrow> Inr None
     | Some (FDir es) \<Rightarrow> Inr (Some es)
     | Some _ \<Rightarrow> Inl (Io nm ''not a readable directory''))"

definition object_entries :: "ftree \<Rightarrow> ftree option core_result" where
  "object_entries root = rbind (sub_dir ''objects'' root) (\<lambda>o1. case o1 of
       None \<Rightarrow> Inr None | Some es \<Rightarrow> sub_dir ''sha256'' es)"

definition object_names :: "ftree \<Rightarrow> string list" where
  "object_names entries = sort (map fst (filter (\<lambda>(nm, node). (case node of FFile _ \<Rightarrow> is_digest nm | _ \<Rightarrow> False)) entries))"

text \<open>\<open>remove_file\<close> on one object.\<close>

definition set_dir :: "string \<Rightarrow> ftree \<Rightarrow> ftree \<Rightarrow> ftree" where
  "set_dir nm es entries = map (\<lambda>(n, node). if n = nm then (n, FDir es) else (n, node)) entries"

definition remove_object :: "string \<Rightarrow> ftree \<Rightarrow> ftree" where
  "remove_object obj root = (case map_of root ''objects'' of
       Some (FDir es) \<Rightarrow> (case map_of es ''sha256'' of
           Some (FDir objs) \<Rightarrow> set_dir ''objects'' (set_dir ''sha256'' (filter (\<lambda>(n, _). n \<noteq> obj) objs) es) root
         | _ \<Rightarrow> root)
     | _ \<Rightarrow> root)"

text \<open>What \<open>remove_file\<close> reports: done, already gone, or an error.\<close>

datatype removal = Removed | Gone | Refused

fun remove_candidates ::
  "(string \<Rightarrow> removal) \<Rightarrow> string list \<Rightarrow> gc_report \<times> ftree \<Rightarrow> gc_report core_result \<times> ftree" where
  "remove_candidates io [] (report, root) = (Inr report, root)"
| "remove_candidates io (d # ds) (report, root) =
     (case io d of
        Removed \<Rightarrow> remove_candidates io ds (report\<lparr>removed := removed report @ [d]\<rparr>, remove_object d root)
      | Gone \<Rightarrow> remove_candidates io ds (report, root)
      | Refused \<Rightarrow> (Inl (Io d ''remove_file''), root))"

definition collect_garbage :: "(string \<Rightarrow> removal) \<Rightarrow> bool \<Rightarrow> bool \<Rightarrow> ftree \<Rightarrow> gc_report core_result \<times> ftree" where
  "collect_garbage io sync_ok dry root =
     (case object_entries root of
        Inl e \<Rightarrow> (Inl e, root)
      | Inr None \<Rightarrow> (Inr \<lparr>dry_run = dry, retained = [], candidates = [], removed = []\<rparr>, root)
      | Inr (Some entries) \<Rightarrow>
          let objects = object_names entries in
          (case referenced_digests root objects of
             Inl e \<Rightarrow> (Inl e, root)
           | Inr kept \<Rightarrow>
               let report = \<lparr>dry_run = dry, retained = filter (\<lambda>d. d \<in> kept) objects,
                             candidates = filter (\<lambda>d. d \<notin> kept) objects, removed = []\<rparr>
               in if dry then (Inr report, root)
                  else (case remove_candidates io (candidates report) (report, root) of
                          (Inl e, root') \<Rightarrow> (Inl e, root')
                        | (Inr report', root') \<Rightarrow>
                            (if removed report' \<noteq> [] \<and> \<not> sync_ok then Inl (Io ''objects/sha256'' ''sync_all'') else Inr report', root'))))"

section \<open>What is referenced\<close>

text \<open>A text mentions a digest in a file of at most 64 MiB somewhere in the tree, outside the object store.\<close>

inductive refers :: "bool \<Rightarrow> ftree \<Rightarrow> string \<Rightarrow> bool" where
  refers_file: "(nm, FFile bytes) \<in> set entries \<Longrightarrow> length bytes \<le> MAX_METADATA_BYTES \<Longrightarrow> contains_str bytes d
     \<Longrightarrow> refers at_root entries d"
| refers_dir: "(nm, FDir sub) \<in> set entries \<Longrightarrow> \<not> (at_root \<and> nm = ''objects'') \<Longrightarrow> refers False sub d
     \<Longrightarrow> refers at_root entries d"

inductive_simps refers_iff: "refers at_root entries d"

lemma refers_Cons: "refers at_root ((nm, node) # rest) d \<longleftrightarrow>
    (case node of FFile bytes \<Rightarrow> length bytes \<le> MAX_METADATA_BYTES \<and> contains_str bytes d
      | FDir sub \<Rightarrow> \<not> (at_root \<and> nm = ''objects'') \<and> refers False sub d | _ \<Rightarrow> False) \<or> refers at_root rest d"
  by (subst refers_iff, subst (3) refers_iff) (auto split: fnode.split)

lemma refers_Nil [simp]: "\<not> refers at_root [] d"
  by (subst refers_iff) simp

lemma scan_metadata_exact:
  "scan_metadata at_root objects entries kept = Inr res \<Longrightarrow>
    res = kept \<union> {d \<in> set objects. refers at_root entries d}"
proof (induction at_root objects entries kept arbitrary: res rule: scan_metadata.induct)
  case (2 at_root objects nm entries rest kept)
  show ?case
  proof (cases "at_root \<and> nm = ''objects''")
    case True
    with "2.IH"(1) "2.prems" show ?thesis by (simp add: refers_Cons)
  next
    case False
    with "2.prems" obtain r1 where "scan_metadata False objects entries kept = Inr r1" "scan_metadata at_root objects rest r1 = Inr res"
      by (auto simp: rbind_Inr_iff simp del: rbind.simps split: if_splits)
    with "2.IH"(2,3) False show ?thesis by (auto simp: refers_Cons)
  qed
qed (auto simp: refers_Cons mentioned_def split: if_splits)

section \<open>What is removed\<close>

text \<open>The entries of the object store, empty when there is none, and the workspace with its object store emptied.\<close>

definition objects_of :: "ftree \<Rightarrow> ftree" where
  "objects_of root = (case object_entries root of Inr (Some es) \<Rightarrow> es | _ \<Rightarrow> [])"

definition blank_objects :: "ftree \<Rightarrow> ftree" where
  "blank_objects root = (case map_of root ''objects'' of
       Some (FDir es) \<Rightarrow> set_dir ''objects'' (set_dir ''sha256'' [] es) root
     | _ \<Rightarrow> root)"

lemma map_of_set_dir: "map_of (set_dir nm es entries) k = (if k = nm \<and> map_of entries k \<noteq> None then Some (FDir es) else map_of entries k)"
  by (induction entries) (auto simp: set_dir_def)

lemma set_dir_twice: "set_dir nm es (set_dir nm es' entries) = set_dir nm es entries"
  by (induction entries) (auto simp: set_dir_def)

lemma sub_dir_Some: "sub_dir nm es = Inr (Some x) \<longleftrightarrow> map_of es nm = Some (FDir x)"
  by (auto simp: sub_dir_def split: option.split fnode.split)

lemma object_entries_Some: "object_entries root = Inr (Some objs) \<longleftrightarrow>
    (\<exists>es. map_of root ''objects'' = Some (FDir es) \<and> map_of es ''sha256'' = Some (FDir objs))"
proof -
  have "object_entries root = Inr (Some objs) \<longleftrightarrow>
      (\<exists>es. sub_dir ''objects'' root = Inr (Some es) \<and> sub_dir ''sha256'' es = Inr (Some objs))"
    unfolding object_entries_def rbind_Inr_iff by (auto split: option.split)
  then show ?thesis by (simp add: sub_dir_Some)
qed

lemma remove_object_entries:
  assumes "object_entries root = Inr (Some objs)"
  shows "object_entries (remove_object d root) = Inr (Some (filter (\<lambda>(n, _). n \<noteq> d) objs))"
    and "blank_objects (remove_object d root) = blank_objects root"
proof -
  from assms obtain es where es: "map_of root ''objects'' = Some (FDir es)" "map_of es ''sha256'' = Some (FDir objs)"
    by (auto simp: object_entries_Some)
  then show "object_entries (remove_object d root) = Inr (Some (filter (\<lambda>(n, _). n \<noteq> d) objs))"
    by (simp add: object_entries_Some remove_object_def map_of_set_dir)
  from es show "blank_objects (remove_object d root) = blank_objects root"
    by (simp add: blank_objects_def remove_object_def map_of_set_dir set_dir_twice)
qed

lemma remove_candidates_result:
  "remove_candidates io ds (report, root) = (res, root') \<Longrightarrow> object_entries root = Inr (Some objs) \<Longrightarrow>
    blank_objects root' = blank_objects root
    \<and> (\<exists>gone. set gone \<subseteq> set ds \<and> object_entries root' = Inr (Some (filter (\<lambda>(n, _). n \<notin> set gone) objs))
        \<and> (is_ok res \<longrightarrow> {d \<in> set ds. io d = Removed} \<subseteq> set gone))"
proof (induction ds arbitrary: report root objs)
  case Nil
  then show ?case by (intro conjI exI [of _ "[]"]) auto
next
  case (Cons d ds)
  show ?case
  proof (cases "io d")
    case Removed
    let ?root = "remove_object d root"
    from Cons.prems(1) Removed have "remove_candidates io ds (report\<lparr>removed := removed report @ [d]\<rparr>, ?root) = (res, root')" by simp
    from Cons.IH [OF this remove_object_entries(1) [OF Cons.prems(2)]] obtain gone where
      g: "blank_objects root' = blank_objects ?root" "set gone \<subseteq> set ds"
        "object_entries root' = Inr (Some (filter (\<lambda>(n, _). n \<notin> set gone) (filter (\<lambda>(n, _). n \<noteq> d) objs)))"
        "is_ok res \<longrightarrow> {d \<in> set ds. io d = Removed} \<subseteq> set gone" by blast
    have "filter (\<lambda>(n, _). n \<notin> set gone) (filter (\<lambda>(n, _). n \<noteq> d) objs) = filter (\<lambda>(n, _). n \<notin> set (d # gone)) objs"
      by (auto simp: filter_filter intro!: filter_cong)
    with g remove_object_entries(2) [OF Cons.prems(2)] show ?thesis by (intro conjI exI [of _ "d # gone"]) auto
  next
    case Gone
    with Cons.prems have "remove_candidates io ds (report, root) = (res, root')" by simp
    from Cons.IH [OF this Cons.prems(2)] obtain gone where "blank_objects root' = blank_objects root" "set gone \<subseteq> set ds"
      "object_entries root' = Inr (Some (filter (\<lambda>(n, _). n \<notin> set gone) objs))"
      "is_ok res \<longrightarrow> {d \<in> set ds. io d = Removed} \<subseteq> set gone" by blast
    with Gone show ?thesis by (intro conjI exI [of _ gone]) auto
  next
    case Refused
    with Cons.prems show ?thesis by (intro conjI exI [of _ "[]"]) auto
  qed
qed

lemma set_object_names: "set (object_names entries) = {nm. \<exists>bytes. (nm, FFile bytes) \<in> set entries \<and> is_digest nm}"
  by (auto simp: object_names_def image_iff split: fnode.splits) force+

text \<open>
  C17: Garbage collection removes exactly the unreferenced objects: an object whose digest occurs in a file of at
  most 64 MiB anywhere in the workspace outside the store survives, also when a removal fails half way, nothing else
  in the workspace changes, a dry run changes nothing at all, and a collection that succeeds leaves no object that
  is not referenced.
\<close>

theorem gc_keeps_referenced_objects:
  assumes "collect_garbage io sync_ok dry root = (res, root')"
  shows "blank_objects root' = blank_objects root
    \<and> set (objects_of root') \<subseteq> set (objects_of root)
    \<and> (dry \<longrightarrow> root' = root)
    \<and> (\<forall>(nm, node) \<in> set (objects_of root). refers True root nm \<or> \<not> is_digest nm \<longrightarrow> (nm, node) \<in> set (objects_of root'))
    \<and> (is_ok res \<and> \<not> dry \<and> (\<forall>d. io d = Removed) \<longrightarrow>
        (\<forall>nm bytes. (nm, FFile bytes) \<in> set (objects_of root') \<and> is_digest nm \<longrightarrow> refers True root nm))"
proof -
  consider (same) "root' = root" "is_ok res \<longrightarrow> dry \<or> objects_of root = []"
    | (run) objs kept res' where "object_entries root = Inr (Some objs)" "\<not> dry"
        "referenced_digests root (object_names objs) = Inr kept"
        "remove_candidates io (filter (\<lambda>d. d \<notin> kept) (object_names objs))
           (\<lparr>dry_run = dry, retained = filter (\<lambda>d. d \<in> kept) (object_names objs),
             candidates = filter (\<lambda>d. d \<notin> kept) (object_names objs), removed = []\<rparr>, root) = (res', root')"
        "is_ok res \<longrightarrow> is_ok res'"
    using assms unfolding collect_garbage_def objects_of_def
    by (auto simp: Let_def split: sum.splits option.splits if_splits prod.splits)
  then show ?thesis
  proof cases
    case same
    then show ?thesis by auto
  next
    case run
    from run(3) have kept: "kept = {d \<in> set (object_names objs). refers True root d}"
      unfolding referenced_digests_def by (auto dest: scan_metadata_exact)
    from remove_candidates_result [OF run(4,1)] obtain gone where
      blank: "blank_objects root' = blank_objects root"
      and gone: "set gone \<subseteq> set (filter (\<lambda>d. d \<notin> kept) (object_names objs))"
      and entries: "object_entries root' = Inr (Some (filter (\<lambda>(n, _). n \<notin> set gone) objs))"
      and all: "is_ok res' \<longrightarrow> {d \<in> set (filter (\<lambda>d. d \<notin> kept) (object_names objs)). io d = Removed} \<subseteq> set gone" by blast
    have obj: "objects_of root = objs" "objects_of root' = filter (\<lambda>(n, _). n \<notin> set gone) objs"
      using run(1) entries by (simp_all add: objects_of_def)
    have dead: "is_digest d \<and> \<not> refers True root d" if "d \<in> set gone" for d
      using that gone by (auto simp: kept set_object_names)
    have "refers True root nm" if "is_ok res" "\<forall>d. io d = Removed" "(nm, FFile bytes) \<in> set (objects_of root')" "is_digest nm" for nm bytes
    proof (rule ccontr)
      assume "\<not> refers True root nm"
      with that(3,4) have "nm \<in> set (filter (\<lambda>d. d \<notin> kept) (object_names objs))" by (auto simp: obj kept set_object_names)
      with all run(5) that(1,2) have "nm \<in> set gone" by auto
      with that(3) show False by (simp add: obj)
    qed
    with blank dead run(2) show ?thesis by (auto simp: obj)
  qed
qed

theorem gc_keeps_referenced_objects_witness:
  "(replicate 64 (CHR ''a''), FFile []) \<in> set (objects_of (snd (collect_garbage (\<lambda>_. Removed) True False
      [(''run.yaml'', FFile (''digest: '' @ replicate 64 (CHR ''a''))),
       (''objects'', FDir [(''sha256'', FDir [(replicate 64 (CHR ''a''), FFile []), (replicate 64 (CHR ''b''), FFile [])])])])))"
proof -
  let ?d = "replicate 64 (CHR ''a'')"
  let ?root = "[(''run.yaml'', FFile (''digest: '' @ ?d)),
       (''objects'', FDir [(''sha256'', FDir [(?d, FFile []), (replicate 64 (CHR ''b''), FFile [])])])]"
  have "contains_str (''digest: '' @ ?d) ?d" unfolding contains_str_iff by (intro exI [of _ "''digest: ''"] exI [of _ "[]"]) simp
  moreover have "length (''digest: '' @ ?d) \<le> MAX_METADATA_BYTES" by (simp add: MAX_METADATA_BYTES_def length_append)
  ultimately have "refers True ?root ?d" by (rule refers_file [OF list.set_intros(1), rotated 1])
  moreover have "(?d, FFile []) \<in> set (objects_of ?root)" by (simp add: objects_of_def object_entries_def sub_dir_def)
  ultimately show ?thesis
    using gc_keeps_referenced_objects [OF surjective_pairing, of "\<lambda>_. Removed" True False ?root] by blast
qed

end
