(* ===== verification/Snapshots.thy ===== *)
theory Snapshots
  imports Store Garbage
begin

text \<open>
  \<open>crates/machineemu-core/src/storage/snapshots.rs\<close>: taking a snapshot of files of a stopped instance, reading its
  record, and restoring it into a directory. The directories these operations make hold files only and are
  kept by path, next to the tables of the store; what the file system refuses is an argument.
\<close>

type_synonym dir_files = "(string \<times> string) list"

record snap_world =
  tables :: store
  dir_at :: "path \<Rightarrow> dir_files option"

record snap_io =
  contents :: "path \<Rightarrow> string option"           \<comment> \<open>reading a component, None where that fails\<close>
  sha256 :: "string \<Rightarrow> 8 word list"
  manifest_text :: "snapshot_row \<Rightarrow> string"    \<comment> \<open>\<open>serde_json::to_vec\<close>\<close>
  pid_text :: string
  mkdir_ok :: bool
  write_ok :: bool
  publish_ok :: bool                                \<comment> \<open>the rename of the staging directory\<close>
  insert_ok :: bool                                 \<comment> \<open>the INSERT, apart from a duplicate key\<close>

type_synonym 'a snap_act = "snap_world \<Rightarrow> 'a core_result \<times> snap_world"

definition set_dir_at :: "path \<Rightarrow> dir_files option \<Rightarrow> snap_world \<Rightarrow> snap_world" where
  "set_dir_at p fs w = w\<lparr>dir_at := (dir_at w)(p := fs)\<rparr>"

definition snapshot_dir :: "id \<Rightarrow> path" where "snapshot_dir sid = ''snapshots/'' @ sid"

definition snapshot_staging :: "snap_io \<Rightarrow> id \<Rightarrow> path" where
  "snapshot_staging io sid = ''staging/snapshot-'' @ sid @ ''-'' @ pid_text io"

text \<open>\<open>component.file_name() == Some(name)\<close>.\<close>

definition plain_component :: "string \<Rightarrow> bool" where
  "plain_component nm \<longleftrightarrow> nm \<noteq> [] \<and> CHR ''/'' \<notin> set nm \<and> nm \<noteq> ''.'' \<and> nm \<noteq> ''..''"

text \<open>One component: the file is created, the source copied into it and hashed.\<close>

definition stage_component :: "snap_io \<Rightarrow> dir_files \<times> (string \<times> string) list \<Rightarrow> string \<times> path
    \<Rightarrow> (core_error \<times> dir_files) + (dir_files \<times> (string \<times> string) list)" where
  "stage_component io = (\<lambda>(staged, digests) (nm, source).
     if \<not> plain_component nm then Inl (InvalidSnapshotComponent nm, staged)
     else case contents io source of
         None \<Rightarrow> Inl (Io source ''open'', oput nm [] staged)
       | Some bytes \<Rightarrow> Inr (oput nm bytes staged, oput nm (hex_digest (sha256 io) bytes) digests))"

definition insert_snapshot :: "snap_io \<Rightarrow> snapshot_row \<Rightarrow> snapshot_row snap_act" where
  "insert_snapshot io m w =
     (if \<not> insert_ok io \<or> snapshot_id m \<in> snapshot_id ` set (snapshots (tables w))
      then (Inl (SnapshotConflict (snapshot_id m)), w)
      else (Inr m, w\<lparr>tables := (tables w)\<lparr>snapshots := snapshots (tables w) @ [m]\<rparr>\<rparr>))"

definition publish_snapshot :: "snap_io \<Rightarrow> snapshot_row \<Rightarrow> dir_files \<Rightarrow> snapshot_row snap_act" where
  "publish_snapshot io m staged w =
     (let staging = snapshot_staging io (snapshot_id m); complete = oput ''manifest.json'' (manifest_text io m) staged in
      if \<not> write_ok io then (Inl (Io (staging @ ''/manifest.json'') ''write''), set_dir_at staging (Some staged) w)
      else if \<not> publish_ok io then (Inl (Io (snapshot_dir (snapshot_id m)) ''rename''), set_dir_at staging (Some complete) w)
      else insert_snapshot io m (set_dir_at (snapshot_dir (snapshot_id m)) (Some complete) (set_dir_at staging None w)))"

definition create_snapshot :: "snap_io \<Rightarrow> id \<Rightarrow> id \<Rightarrow> (string \<times> path) list \<Rightarrow> snapshot_row snap_act" where
  "create_snapshot io sid i components w =
     (case instance_of (tables w) i of
        None \<Rightarrow> (Inl (NotFound ''instance'' i), w)
      | Some x \<Rightarrow>
          if state x \<noteq> Created \<and> state x \<noteq> Stopped then (Inl SnapshotRequiresStopped, w)
          else if dir_at w (snapshot_dir sid) \<noteq> None then (Inl (SnapshotConflict sid), w)
          else if \<not> mkdir_ok io then (Inl (Io (snapshot_staging io sid) ''create_dir_all''), w)
          else
            (case for_each components (stage_component io) (unwrap_or (dir_at w (snapshot_staging io sid)) [], []) of
               Inl (e, _) \<Rightarrow> (Inl e, set_dir_at (snapshot_staging io sid) None w)
             | Inr (staged, digests) \<Rightarrow>
                 publish_snapshot io \<lparr>snapshot_id = sid, snap_instance = i, generation = revision x, files = digests\<rparr> staged w))"

text \<open>The components of \<open>create_instance_snapshot\<close>: the regular files of the instance directory, not its directories.\<close>

definition instance_components :: "id \<Rightarrow> ftree \<Rightarrow> (string \<times> path) list" where
  "instance_components i entries = map (\<lambda>(nm, _). (nm, ''instances/'' @ i @ ''/'' @ nm))
     (filter (\<lambda>(_, node). case node of FFile _ \<Rightarrow> True | _ \<Rightarrow> False) entries)"

definition create_instance_snapshot :: "snap_io \<Rightarrow> (id \<Rightarrow> ftree option) \<Rightarrow> id \<Rightarrow> id \<Rightarrow> snapshot_row snap_act" where
  "create_instance_snapshot io read_dir sid i w =
     (case read_dir i of
        None \<Rightarrow> (Inl (Io (''instances/'' @ i) ''read_dir''), w)
      | Some entries \<Rightarrow> create_snapshot io sid i (instance_components i entries) w)"

definition get_snapshot :: "id \<Rightarrow> store \<Rightarrow> snapshot_row core_result" where
  "get_snapshot sid s = ok_or (find (\<lambda>m. snapshot_id m = sid) (snapshots s)) (NotFound ''snapshot'' sid)"

section \<open>Restore\<close>

text \<open>\<open>Path::with_extension\<close>: the extension of the last component is replaced, or one is added.\<close>

definition file_stem :: "string \<Rightarrow> string" where
  "file_stem f = (let r = dropWhile (\<lambda>c. c \<noteq> CHR ''.'') (rev f) in
     if r = [] \<or> tl r = [] then f else rev (tl r))"

definition with_extension :: "path \<Rightarrow> string \<Rightarrow> path" where
  "with_extension p ext =
     (let f = rev (takeWhile (\<lambda>c. c \<noteq> CHR ''/'') (rev p))
      in take (length p - length f) p @ file_stem f @ ''.'' @ ext)"

definition restore_file :: "snap_io \<Rightarrow> dir_files option \<Rightarrow> dir_files \<Rightarrow> string \<times> string \<Rightarrow> core_error + dir_files" where
  "restore_file io source staged = (\<lambda>(nm, expected).
     case source of None \<Rightarrow> Inl (Io nm ''open'') | Some saved \<Rightarrow>
       (case oget saved nm of
          None \<Rightarrow> Inl (Io nm ''open'')
        | Some bytes \<Rightarrow>
            let actual = hex_digest (sha256 io) bytes in
            if actual \<noteq> expected then Inl (DigestMismatch expected actual) else Inr (oput nm bytes staged)))"

text \<open>\<open>rename\<close> of a directory: the target must be absent or empty.\<close>

definition rename_dir :: "path \<Rightarrow> path \<Rightarrow> dir_files \<Rightarrow> unit snap_act" where
  "rename_dir a b fs w =
     (if dir_at w b \<noteq> None \<and> dir_at w b \<noteq> Some [] then (Inl (Io b ''rename''), set_dir_at a (Some fs) w)
      else (Inr (), set_dir_at b (Some fs) (set_dir_at a None w)))"

definition restore_snapshot :: "snap_io \<Rightarrow> id \<Rightarrow> path \<Rightarrow> snapshot_row snap_act" where
  "restore_snapshot io sid destination w =
     (case get_snapshot sid (tables w) of
        Inl e \<Rightarrow> (Inl e, w)
      | Inr m \<Rightarrow>
          let preexists = dir_at w destination \<noteq> None in
          if preexists \<and> dir_at w destination \<noteq> Some [] then (Inl (SnapshotConflict destination), w)
          else
            let target = (if preexists then with_extension destination ''clone-staging'' else destination);
                staging = with_extension target ''restore-staging'' in
            if \<not> mkdir_ok io then (Inl (Io staging ''create_dir_all''), w)
            else
              (case for_each (files m) (restore_file io (dir_at w (snapshot_dir sid))) (unwrap_or (dir_at w staging) []) of
                 Inl e \<Rightarrow> (Inl e, set_dir_at staging None w)
               | Inr staged \<Rightarrow>
                   (case rename_dir staging target staged w of
                      (Inl e, w') \<Rightarrow> (Inl e, w')
                    | (Inr _, w') \<Rightarrow>
                        (Inr m, if preexists then set_dir_at destination (Some staged) (set_dir_at target None w') else w'))))"

section \<open>What staging a component list makes\<close>

lemma for_each_snoc: "for_each (xs @ [x]) f s = rbind (for_each xs f s) (\<lambda>t. f t x)"
proof -
  have "rbind m (for_each [] f) = m" for m by (cases m) simp_all
  then show ?thesis by (cases "for_each xs f s") (simp_all add: for_each_append)
qed

lemma find_snoc: "find P xs = None \<Longrightarrow> find P (xs @ [x]) = (if P x then Some x else None)"
  by (induction xs) (auto split: if_splits)

text \<open>The last component of a name decides its bytes.\<close>

definition component_bytes :: "snap_io \<Rightarrow> (string \<times> path) list \<Rightarrow> string \<Rightarrow> string option" where
  "component_bytes io components nm = Option.bind (map_of (rev components) nm) (contents io)"

lemma stage_components:
  "for_each components (stage_component io) (start, []) = Inr (staged, digests) \<Longrightarrow>
    (\<forall>(nm, source) \<in> set components. plain_component nm \<and> contents io source \<noteq> None)
    \<and> (\<forall>nm. oget staged nm = (if nm \<in> fst ` set components then component_bytes io components nm else oget start nm))
    \<and> (\<forall>nm. oget digests nm = map_option (hex_digest (sha256 io)) (if nm \<in> fst ` set components then component_bytes io components nm else None))
    \<and> ordered digests"
proof (induction components arbitrary: staged digests rule: rev_induct)
  case Nil
  then show ?case by (simp add: ordered_Nil)
next
  case (snoc c components)
  obtain nm source where c: "c = (nm, source)" by (cases c)
  from snoc.prems obtain s1 d1 where one: "for_each components (stage_component io) (start, []) = Inr (s1, d1)"
    and two: "stage_component io (s1, d1) c = Inr (staged, digests)"
    by (auto simp: for_each_snoc rbind_Inr_iff)
  from two obtain bytes where b: "plain_component nm" "contents io source = Some bytes"
    and eq: "staged = oput nm bytes s1" "digests = oput nm (hex_digest (sha256 io) bytes) d1"
    by (auto simp: stage_component_def c split: if_splits option.splits)
  from snoc.IH [OF one] b show ?case
    by (auto simp: eq c oget_oput ordered_oput component_bytes_def)
qed

lemma restore_files:
  "for_each fs (restore_file io source) start = Inr staged \<Longrightarrow>
    (\<forall>(nm, d) \<in> set fs. \<exists>saved bytes. source = Some saved \<and> oget saved nm = Some bytes \<and> hex_digest (sha256 io) bytes = d)
    \<and> (\<forall>nm. oget staged nm = (if nm \<in> fst ` set fs then oget (the source) nm else oget start nm))"
proof (induction fs arbitrary: staged rule: rev_induct)
  case (snoc f fs)
  obtain nm d where f: "f = (nm, d)" by (cases f)
  from snoc.prems obtain s1 where one: "for_each fs (restore_file io source) start = Inr s1" and two: "restore_file io source s1 f = Inr staged"
    by (auto simp: for_each_snoc rbind_Inr_iff)
  from two obtain saved bytes where "source = Some saved" "oget saved nm = Some bytes" "hex_digest (sha256 io) bytes = d"
    "staged = oput nm bytes s1"
    by (auto simp: restore_file_def f Let_def split: option.splits if_splits)
  with snoc.IH [OF one] show ?case by (auto simp: f oget_oput)
qed simp


lemma restore_files_total:
  "(\<forall>(nm, d) \<in> set fs. \<exists>bytes. oget saved nm = Some bytes \<and> hex_digest (sha256 io) bytes = d) \<Longrightarrow>
    \<exists>staged. for_each fs (restore_file io (Some saved)) start = Inr staged"
  by (induction fs arbitrary: start) (auto simp: restore_file_def)

lemma create_snapshot_Inr:
  assumes "create_snapshot io sid i components w = (Inr m, w1)"
  shows "\<exists>staged x. instance_of (tables w) i = Some x \<and> (state x = Created \<or> state x = Stopped)
    \<and> for_each components (stage_component io) (unwrap_or (dir_at w (snapshot_staging io sid)) [], []) = Inr (staged, files m)
    \<and> m = \<lparr>snapshot_id = sid, snap_instance = i, generation = revision x, files = files m\<rparr>
    \<and> dir_at w1 (snapshot_dir sid) = Some (oput ''manifest.json'' (manifest_text io m) staged)
    \<and> sid \<notin> snapshot_id ` set (snapshots (tables w)) \<and> get_snapshot sid (tables w1) = Inr m"
proof -
  from assms obtain x staged digests where
    x: "instance_of (tables w) i = Some x" "state x = Created \<or> state x = Stopped"
    and stage: "for_each components (stage_component io) (unwrap_or (dir_at w (snapshot_staging io sid)) [], []) = Inr (staged, digests)"
    and pub: "publish_snapshot io \<lparr>snapshot_id = sid, snap_instance = i, generation = revision x, files = digests\<rparr> staged w = (Inr m, w1)"
    by (auto simp: create_snapshot_def split: option.splits if_splits sum.splits prod.splits)
  from pub have m: "m = \<lparr>snapshot_id = sid, snap_instance = i, generation = revision x, files = digests\<rparr>"
    and fresh: "sid \<notin> snapshot_id ` set (snapshots (tables w))"
    and dir: "dir_at w1 (snapshot_dir sid) = Some (oput ''manifest.json'' (manifest_text io m) staged)"
    and rows: "snapshots (tables w1) = snapshots (tables w) @ [m]"
    by (auto simp: publish_snapshot_def insert_snapshot_def set_dir_at_def Let_def split: if_splits)
  have "find (\<lambda>r. snapshot_id r = sid) (snapshots (tables w)) = None" using fresh by (auto simp: find_None_iff)
  then have "find (\<lambda>r. snapshot_id r = sid) (snapshots (tables w) @ [m]) = Some m"
    by (simp add: find_snoc m)
  then have "get_snapshot sid (tables w1) = Inr m" by (simp add: get_snapshot_def rows)
  with x stage m dir fresh show ?thesis by auto
qed

text \<open>
  C18: Restoring a snapshot gives back exactly what was saved: after a successful snapshot, a restore into a new
  directory succeeds and the directory holds each component with the bytes its source had, and nothing else. The
  component name \<open>manifest.json\<close> is excluded.
\<close>

theorem snapshot_roundtrip:
  assumes "create_snapshot io sid i components w = (Inr m, w1)"
    and "dir_at w (snapshot_staging io sid) = None" and "\<forall>(nm, source) \<in> set components. nm \<noteq> ''manifest.json''"
    and "dir_at w1 dest = None" and "dir_at w1 (with_extension dest ''restore-staging'') = None" and "mkdir_ok io"
  shows "\<exists>w2 saved. restore_snapshot io sid dest w1 = (Inr m, w2) \<and> dir_at w2 dest = Some saved \<and> tables w2 = tables w1
    \<and> (\<forall>nm. oget saved nm = (if nm \<in> fst ` set components then component_bytes io components nm else None))"
proof -
  from create_snapshot_Inr [OF assms(1)] obtain staged where
    stage: "for_each components (stage_component io) ([], []) = Inr (staged, files m)"
    and dir: "dir_at w1 (snapshot_dir sid) = Some (oput ''manifest.json'' (manifest_text io m) staged)"
    and row: "get_snapshot sid (tables w1) = Inr m" by (auto simp: assms(2))
  let ?saved = "oput ''manifest.json'' (manifest_text io m) staged"
  note st = stage_components [OF stage]
  have keys: "fst ` set (files m) = fst ` set components"
  proof -
    have "nm \<in> fst ` set (files m) \<longleftrightarrow> nm \<in> fst ` set components" for nm
    proof -
      have "component_bytes io components nm \<noteq> None" if "nm \<in> fst ` set components"
      proof -
        from that obtain src where "map_of (rev components) nm = Some src" by (metis map_of_eq_None_iff not_None_eq set_rev)
        then have "(nm, src) \<in> set components" using map_of_SomeD by fastforce
        with st \<open>map_of (rev components) nm = Some src\<close> show ?thesis by (auto simp: component_bytes_def)
      qed
      moreover have "oget (files m) nm = map_option (hex_digest (sha256 io))
          (if nm \<in> fst ` set components then component_bytes io components nm else None)" using st by blast
      ultimately have "oget (files m) nm = None \<longleftrightarrow> nm \<notin> fst ` set components" by (cases "nm \<in> fst ` set components") simp_all
      then show ?thesis unfolding oget_None_iff by blast
    qed
    then show ?thesis by blast
  qed
  have "\<forall>(nm, d) \<in> set (files m). \<exists>bytes. oget ?saved nm = Some bytes \<and> hex_digest (sha256 io) bytes = d"
  proof (intro ballI, clarify)
    fix nm d assume nd: "(nm, d) \<in> set (files m)"
    then have "nm \<in> fst ` set components" unfolding keys [symmetric] by force
    moreover have "oget (files m) nm = Some d" by (rule ordered_in_oget) (use st nd in auto)
    moreover from calculation(1) assms(3) have "nm \<noteq> ''manifest.json''" by auto
    ultimately show "\<exists>bytes. oget ?saved nm = Some bytes \<and> hex_digest (sha256 io) bytes = d"
      using st by (auto simp: oget_oput)
  qed
  from restore_files_total [OF this, of "[]"] obtain F where F: "for_each (files m) (restore_file io (Some ?saved)) [] = Inr F" by blast
  then have "restore_snapshot io sid dest w1 = (Inr m, set_dir_at dest (Some F) (set_dir_at (with_extension dest ''restore-staging'') None w1))"
    using row assms(4-6) dir by (simp add: restore_snapshot_def rename_dir_def)
  moreover have "oget F nm = (if nm \<in> fst ` set components then component_bytes io components nm else None)" for nm
    using restore_files [OF F] st assms(3) by (auto simp: keys oget_oput)
  ultimately show ?thesis
    by (intro exI [of _ "set_dir_at dest (Some F) (set_dir_at (with_extension dest ''restore-staging'') None w1)"] exI [of _ F])
      (simp add: set_dir_at_def)
qed

text \<open>A stopped instance and a world with nothing saved.\<close>

definition stopped_lab :: snap_world where
  "stopped_lab = \<lparr>tables = \<lparr>images = [''base''], instances = [\<lparr>instance_id = ''lab'', image_id = ''base'', profile_id = ''p'', state = Stopped, revision = 3\<rparr>],
     pending_deletions = [], tombstones = [], operations = [], runs = [], run_helpers = [], snapshots = [], dirs = [], clock = 0, alive = (\<lambda>_ _. False)\<rparr>,
     dir_at = Map.empty\<rparr>"

definition sample_io :: snap_io where
  "sample_io = \<lparr>contents = (\<lambda>p. if p = ''instances/lab/disk'' then Some ''DATA'' else None), sha256 = (\<lambda>bs. map of_char (take 2 bs)),
     manifest_text = (\<lambda>m. ''{}''), pid_text = ''7'', mkdir_ok = True, write_ok = True, publish_ok = True, insert_ok = True\<rparr>"

theorem snapshot_roundtrip_witness:
  "\<exists>m w1 w2. create_snapshot sample_io ''s1'' ''lab'' [(''disk'', ''instances/lab/disk'')] stopped_lab = (Inr m, w1)
    \<and> restore_snapshot sample_io ''s1'' ''new'' w1 = (Inr m, w2)"
proof -
  obtain m w1 where c: "create_snapshot sample_io ''s1'' ''lab'' [(''disk'', ''instances/lab/disk'')] stopped_lab = (Inr m, w1)"
    and d: "dir_at w1 ''new'' = None" "dir_at w1 (with_extension ''new'' ''restore-staging'') = None"
    by (simp add: create_snapshot_def stopped_lab_def sample_io_def instance_of_def snapshot_dir_def snapshot_staging_def stage_component_def
        plain_component_def publish_snapshot_def insert_snapshot_def set_dir_at_def with_extension_def file_stem_def)
  have "dir_at stopped_lab (snapshot_staging sample_io ''s1'') = None" "mkdir_ok sample_io" by (simp_all add: stopped_lab_def sample_io_def)
  from snapshot_roundtrip [OF c this(1) _ d this(2)] c show ?thesis by auto
qed


lemma rename_dir_cases: "rename_dir a b fs w = (r, w') \<Longrightarrow> tables w' = tables w \<and>
    (case r of Inl e \<Rightarrow> \<forall>p. p \<noteq> a \<longrightarrow> dir_at w' p = dir_at w p
      | Inr _ \<Rightarrow> dir_at w' b = Some fs \<and> (\<forall>p. p \<noteq> a \<and> p \<noteq> b \<longrightarrow> dir_at w' p = dir_at w p))"
  by (auto simp: rename_dir_def set_dir_at_def split: if_splits)

lemma restore_snapshot_cases:
  assumes "restore_snapshot io sid dest w = (res, w2)"
  defines "target \<equiv> if dir_at w dest \<noteq> None then with_extension dest ''clone-staging'' else dest"
  defines "staging \<equiv> with_extension target ''restore-staging''"
  shows "(\<exists>e. res = Inl e \<and> tables w2 = tables w \<and> (\<forall>p. p \<noteq> staging \<longrightarrow> dir_at w2 p = dir_at w p))
    \<or> (\<exists>m staged. res = Inr m \<and> get_snapshot sid (tables w) = Inr m \<and> tables w2 = tables w
        \<and> (dir_at w dest = None \<or> dir_at w dest = Some [])
        \<and> for_each (files m) (restore_file io (dir_at w (snapshot_dir sid))) (unwrap_or (dir_at w staging) []) = Inr staged
        \<and> dir_at w2 dest = Some staged)"
proof (cases "get_snapshot sid (tables w)")
  case (Inl e)
  with assms(1) have "res = Inl e" "w2 = w" by (simp_all add: restore_snapshot_def)
  then show ?thesis by simp
next
  case (Inr m)
  have eq: "restore_snapshot io sid dest w =
      (if dir_at w dest \<noteq> None \<and> dir_at w dest \<noteq> Some [] then (Inl (SnapshotConflict dest), w)
       else if \<not> mkdir_ok io then (Inl (Io staging ''create_dir_all''), w)
       else (case for_each (files m) (restore_file io (dir_at w (snapshot_dir sid))) (unwrap_or (dir_at w staging) []) of
               Inl e \<Rightarrow> (Inl e, set_dir_at staging None w)
             | Inr staged \<Rightarrow> (case rename_dir staging target staged w of
                   (Inl e, w') \<Rightarrow> (Inl e, w')
                 | (Inr _, w') \<Rightarrow> (Inr m, if dir_at w dest \<noteq> None then set_dir_at dest (Some staged) (set_dir_at target None w') else w'))))"
    unfolding restore_snapshot_def Inr staging_def target_def Let_def by simp
  consider (refused) e where "res = Inl e" "w2 = w" | (copied) e where "res = Inl e" "w2 = set_dir_at staging None w"
    | (renamed) staged r w' where "dir_at w dest = None \<or> dir_at w dest = Some []"
        "for_each (files m) (restore_file io (dir_at w (snapshot_dir sid))) (unwrap_or (dir_at w staging) []) = Inr staged"
        "rename_dir staging target staged w = (r, w')"
        "(res, w2) = (case r of Inl e \<Rightarrow> (Inl e, w')
           | Inr _ \<Rightarrow> (Inr m, if dir_at w dest \<noteq> None then set_dir_at dest (Some staged) (set_dir_at target None w') else w'))"
    using assms(1) unfolding eq by (auto split: if_splits sum.splits prod.splits)
  then show ?thesis
  proof cases
    case renamed
    note rc = rename_dir_cases [OF renamed(3)]
    show ?thesis
    proof (cases r)
      case (Inl e)
      with renamed(4) rc show ?thesis by simp
    next
      case (Inr u)
      with renamed(4) have "res = Inr m" "w2 = (if dir_at w dest \<noteq> None then set_dir_at dest (Some staged) (set_dir_at target None w') else w')"
        by simp_all
      moreover from rc Inr have "tables w' = tables w" "dir_at w' target = Some staged" by simp_all
      moreover have "dir_at w2 dest = Some staged" "tables w2 = tables w" using calculation by (auto simp: target_def set_dir_at_def)
      ultimately show ?thesis using renamed(1,2) \<open>get_snapshot sid (tables w) = Inr m\<close> by blast
    qed
  qed (simp_all add: set_dir_at_def)
qed



text \<open>
  What a failing snapshot leaves behind: the tables never change and no directory but the staging one and the
  snapshot's own is touched; either the snapshot directory is as before, or it has been published without its
  record, and from then on every attempt to take that snapshot reports a conflict.
\<close>

theorem failed_snapshot_outcome:
  assumes "create_snapshot io sid i components w = (Inl e, w1)"
  shows "tables w1 = tables w
    \<and> (\<forall>p. p \<noteq> snapshot_staging io sid \<and> p \<noteq> snapshot_dir sid \<longrightarrow> dir_at w1 p = dir_at w p)
    \<and> (dir_at w1 (snapshot_dir sid) = dir_at w (snapshot_dir sid)
      \<or> dir_at w1 (snapshot_dir sid) \<noteq> None \<and> get_snapshot sid (tables w1) = get_snapshot sid (tables w)
        \<and> (\<forall>io' components'. create_snapshot io' sid i components' w1 = (Inl (SnapshotConflict sid), w1)))"
proof -
  have other: "snapshot_staging io sid \<noteq> snapshot_dir sid" by (simp add: snapshot_staging_def snapshot_dir_def)
  have "(w1 = w \<or> (\<exists>fs. w1 = set_dir_at (snapshot_staging io sid) fs w))
    \<or> (\<exists>fs x. w1 = set_dir_at (snapshot_dir sid) (Some fs) (set_dir_at (snapshot_staging io sid) None w)
        \<and> instance_of (tables w) i = Some x \<and> (state x = Created \<or> state x = Stopped))"
    using assms unfolding create_snapshot_def publish_snapshot_def insert_snapshot_def
    by (auto simp: Let_def split: option.splits if_splits sum.splits)
  then show ?thesis
  proof (rule disjE; (elim exE conjE)?)
    assume "w1 = w \<or> (\<exists>fs. w1 = set_dir_at (snapshot_staging io sid) fs w)"
    with other show ?thesis by (auto simp: set_dir_at_def)
  next
    fix fs x assume late: "w1 = set_dir_at (snapshot_dir sid) (Some fs) (set_dir_at (snapshot_staging io sid) None w)"
      "instance_of (tables w) i = Some x" "state x = Created \<or> state x = Stopped"
    have "create_snapshot io' sid i components' w1 = (Inl (SnapshotConflict sid), w1)" for io' components'
      using late(2,3) by (auto simp: late(1) create_snapshot_def set_dir_at_def)
    with late(1) show ?thesis by (simp add: set_dir_at_def)
  qed
qed

theorem failed_snapshot_outcome_witness:
  "\<exists>w1. create_snapshot (sample_io\<lparr>insert_ok := False\<rparr>) ''s1'' ''lab'' [] stopped_lab = (Inl (SnapshotConflict ''s1''), w1)
    \<and> create_snapshot sample_io ''s1'' ''lab'' [] w1 = (Inl (SnapshotConflict ''s1''), w1)"
proof -
  obtain w1 where c: "create_snapshot (sample_io\<lparr>insert_ok := False\<rparr>) ''s1'' ''lab'' [] stopped_lab = (Inl (SnapshotConflict ''s1''), w1)"
    and d: "dir_at w1 (snapshot_dir ''s1'') \<noteq> None"
    by (simp add: create_snapshot_def stopped_lab_def sample_io_def instance_of_def snapshot_dir_def snapshot_staging_def
        publish_snapshot_def insert_snapshot_def set_dir_at_def)
  have "dir_at stopped_lab (snapshot_dir ''s1'') = None" by (simp add: stopped_lab_def)
  with failed_snapshot_outcome [OF c] d c show ?thesis by auto
qed

text \<open>
  A component called \<open>manifest.json\<close> is saved but lost: the manifest overwrites it, and every restore of the
  snapshot fails as soon as the digest of the manifest differs from the component's.
\<close>

theorem manifest_component_is_lost:
  assumes "create_snapshot io sid i components w = (Inr m, w1)" and "''manifest.json'' \<in> fst ` set components"
    and "component_bytes io components ''manifest.json'' = Some bytes"
    and "hex_digest (sha256 io) (manifest_text io m) \<noteq> hex_digest (sha256 io) bytes"
  shows "\<nexists>m' w2. restore_snapshot io sid dest w1 = (Inr m', w2)"
proof (intro notI, elim exE)
  fix m' w2 assume restored: "restore_snapshot io sid dest w1 = (Inr m', w2)"
  from create_snapshot_Inr [OF assms(1)] obtain staged x where
    stage: "for_each components (stage_component io) (unwrap_or (dir_at w (snapshot_staging io sid)) [], []) = Inr (staged, files m)"
    and dir: "dir_at w1 (snapshot_dir sid) = Some (oput ''manifest.json'' (manifest_text io m) staged)"
    and row: "get_snapshot sid (tables w1) = Inr m" by auto
  from restore_snapshot_cases [OF restored] row obtain F start where
    F: "for_each (files m) (restore_file io (dir_at w1 (snapshot_dir sid))) start = Inr F" by auto
  have "oget (files m) ''manifest.json'' = Some (hex_digest (sha256 io) bytes)"
    using stage_components [OF stage] assms(2,3) by simp
  then have "(''manifest.json'', hex_digest (sha256 io) bytes) \<in> set (files m)" by (rule oget_in_set)
  from bspec [OF conjunct1 [OF restore_files [OF F]] this] assms(4) show False by (auto simp: dir oget_oput)
qed

theorem manifest_component_is_lost_witness:
  "\<exists>m w1. create_snapshot sample_io ''s1'' ''lab'' [(''manifest.json'', ''instances/lab/disk'')] stopped_lab = (Inr m, w1)
    \<and> (\<nexists>m' w2. restore_snapshot sample_io ''s1'' ''new'' w1 = (Inr m', w2))"
proof -
  obtain m w1 where c: "create_snapshot sample_io ''s1'' ''lab'' [(''manifest.json'', ''instances/lab/disk'')] stopped_lab = (Inr m, w1)"
    by (simp add: create_snapshot_def stopped_lab_def sample_io_def instance_of_def snapshot_dir_def snapshot_staging_def stage_component_def
        plain_component_def publish_snapshot_def insert_snapshot_def set_dir_at_def)
  have bytes: "component_bytes sample_io [(''manifest.json'', ''instances/lab/disk'')] ''manifest.json'' = Some ''DATA''"
    by (simp add: component_bytes_def sample_io_def)
  have "hex_digest (sha256 sample_io) (manifest_text sample_io m) \<noteq> hex_digest (sha256 sample_io) ''DATA''"
    by (simp add: sample_io_def hex_digest_def) code_simp
  from manifest_component_is_lost [OF c _ bytes this] c show ?thesis by auto
qed

end
