(* ===== verification/Configuration.thy ===== *)
theory Configuration
  imports Instances
begin

text \<open>
  \<open>crates/machineemu-core/src/storage/configuration.rs\<close>: the configuration an instance owns, its \<open>instance.yaml\<close>.
  The documents are kept in the tree below \<open>instances/\<close> as the value \<open>load_document\<close> reads. The serde structs are
  read from objects; the positional array form that serde accepts as well is left out.
\<close>

record config_io =
  doc_sha :: "string \<Rightarrow> 8 word list"
  doc_text :: "json \<Rightarrow> string"                          \<comment> \<open>\<open>serde_json::to_vec\<close>\<close>
  escapes :: "id \<Rightarrow> string \<Rightarrow> bool"                       \<comment> \<open>the file resolves outside its directory\<close>
  save_fails :: "id \<Rightarrow> string \<Rightarrow> bool"                   \<comment> \<open>the atomic replacement of a file fails\<close>
  build_manifest :: "string \<Rightarrow> json core_result"        \<comment> \<open>\<open>generated-engines/<track>/engine-build.json\<close>\<close>

section \<open>Documents\<close>

definition known_fields :: "obj \<Rightarrow> string list \<Rightarrow> bool" where
  "known_fields m allowed \<longleftrightarrow> set (map fst m) \<subseteq> set allowed"

text \<open>A field of type \<open>Option<T>\<close>: absent and null are \<open>None\<close>.\<close>

definition opt_field :: "obj \<Rightarrow> string \<Rightarrow> (json \<Rightarrow> 'a option) \<Rightarrow> 'a option option" where
  "opt_field m k f = (case oget m k of None \<Rightarrow> Some None | Some JNull \<Rightarrow> Some None | Some v \<Rightarrow> map_option Some (f v))"

text \<open>A field with a default that is used when it is absent.\<close>

definition default_field :: "obj \<Rightarrow> string \<Rightarrow> (json \<Rightarrow> 'a option) \<Rightarrow> 'a \<Rightarrow> 'a option" where
  "default_field m k f d = (case oget m k of None \<Rightarrow> Some d | Some v \<Rightarrow> f v)"

definition as_u32 :: "json \<Rightarrow> nat option" where
  "as_u32 v = (case as_u64 v of Some n \<Rightarrow> if int n < 2 ^ 32 then Some n else None | None \<Rightarrow> None)"

text \<open>\<open>serde_json::from_value::<InstanceDocument>\<close>.\<close>

definition instance_fields :: "string list" where
  "instance_fields = [''schema_version'', ''instance_id'', ''image_id'', ''profile_id'', ''auto_remove'', ''profile'', ''launch_plan'', ''domain_document'']"

definition instance_from_object :: "obj \<Rightarrow> instance_document option" where
  "instance_from_object m =
     (if \<not> known_fields m instance_fields then None
      else
        Option.bind (get_then m ''schema_version'' as_u32) (\<lambda>v.
        Option.bind (get_then m ''instance_id'' as_str) (\<lambda>i.
        Option.bind (get_then m ''image_id'' as_str) (\<lambda>img.
        Option.bind (default_field m ''profile_id'' as_str ''custom'') (\<lambda>p.
        Option.bind (default_field m ''auto_remove'' as_bool False) (\<lambda>a.
        Option.bind (opt_field m ''profile'' Some) (\<lambda>prof.
        Option.bind (opt_field m ''launch_plan'' Some) (\<lambda>plan.
        Option.bind (opt_field m ''domain_document'' Some) (\<lambda>dom.
        Some \<lparr>schema_version = v, d_instance_id = i, d_image_id = img, d_profile_id = p, auto_remove = a,
              profile = prof, launch_plan = plan, domain_document = dom\<rparr>)))))))))"

definition instance_from_value :: "json \<Rightarrow> instance_document option" where
  "instance_from_value v = Option.bind (as_object v) instance_from_object"

text \<open>\<open>InstanceDocument::revision\<close>: the first eight digest bytes as a number, cut to 53 bits.\<close>

definition u64_from_be :: "8 word list \<Rightarrow> int" where
  "u64_from_be bytes = foldl (\<lambda>n b. n * 256 + uint b) 0 (take 8 bytes)"

definition content_revision :: "config_io \<Rightarrow> instance_document \<Rightarrow> int" where
  "content_revision io d = u64_from_be (doc_sha io (doc_text io (document_json d))) mod 2 ^ 53"

text \<open>The resolved domain document of \<open>domain/configuration.rs\<close>.\<close>

definition metadata_from_value :: "json \<Rightarrow> document_metadata option" where
  "metadata_from_value v = Option.bind (as_object v) (\<lambda>m.
     if \<not> known_fields m [''name'', ''revision'', ''digest''] then None
     else
       Option.bind (get_then m ''name'' as_str) (\<lambda>n.
       Option.bind (default_field m ''revision'' as_u64 0) (\<lambda>r.
       Option.bind (opt_field m ''digest'' as_str) (\<lambda>d.
       Some \<lparr>name = n, doc_revision = r, digest = d\<rparr>))))"

definition source_ref_from_value :: "json \<Rightarrow> source_ref option" where
  "source_ref_from_value v = Option.bind (as_object v) (\<lambda>m.
     if \<not> known_fields m [''id'', ''revision'', ''digest''] then None
     else
       Option.bind (get_then m ''id'' as_str) (\<lambda>i.
       Option.bind (default_field m ''revision'' as_u64 0) (\<lambda>r.
       Option.bind (opt_field m ''digest'' as_str) (\<lambda>d.
       Some \<lparr>ref_id = i, ref_revision = r, ref_digest = d\<rparr>))))"

definition provenance_from_value :: "json \<Rightarrow> source_provenance option" where
  "provenance_from_value v = Option.bind (as_object v) (\<lambda>m.
     if \<not> known_fields m [''profile'', ''hardware_identity'', ''image'', ''overrides''] then None
     else
       Option.bind (opt_field m ''profile'' source_ref_from_value) (\<lambda>p.
       Option.bind (opt_field m ''hardware_identity'' source_ref_from_value) (\<lambda>h.
       Option.bind (opt_field m ''image'' source_ref_from_value) (\<lambda>i.
       Option.bind (default_field m ''overrides'' as_object []) (\<lambda>os.
       Some \<lparr>from_profile = p, from_hardware_identity = h, from_image = i, prov_overrides = os\<rparr>)))))"

definition domain_from_value :: "json \<Rightarrow> domain_instance_document option" where
  "domain_from_value v = Option.bind (as_object v) (\<lambda>m.
     if \<not> known_fields m [''api_version'', ''kind'', ''metadata'', ''spec'', ''source'', ''status''] then None
     else
       Option.bind (get_then m ''api_version'' as_str) (\<lambda>av.
       Option.bind (get_then m ''kind'' as_str) (\<lambda>k.
       Option.bind (get_then m ''metadata'' metadata_from_value) (\<lambda>md.
       Option.bind (oget m ''spec'') (\<lambda>sp.
       Option.bind (opt_field m ''source'' provenance_from_value) (\<lambda>src.
       Option.bind (opt_field m ''status'' Some) (\<lambda>st.
       Some \<lparr>api_version = av, doc_kind = k, metadata = md, spec = sp, doc_source = src, doc_status = st\<rparr>)))))))"

text \<open>\<open>serde_json::to_value\<close> of the same structs: an absent option is null.\<close>

definition opt_str :: "string option \<Rightarrow> json" where
  "opt_str x = (case x of None \<Rightarrow> JNull | Some s \<Rightarrow> JStr s)"

definition metadata_value :: "document_metadata \<Rightarrow> json" where
  "metadata_value md = json_obj [(''name'', JStr (name md)), (''revision'', JNum (PosInt (doc_revision md))), (''digest'', opt_str (digest md))]"

definition source_ref_value :: "source_ref option \<Rightarrow> json" where
  "source_ref_value x = (case x of None \<Rightarrow> JNull
     | Some r \<Rightarrow> json_obj [(''id'', JStr (ref_id r)), (''revision'', JNum (PosInt (ref_revision r))), (''digest'', opt_str (ref_digest r))])"

definition provenance_value :: "source_provenance option \<Rightarrow> json" where
  "provenance_value x = (case x of None \<Rightarrow> JNull
     | Some p \<Rightarrow> json_obj [(''profile'', source_ref_value (from_profile p)), (''hardware_identity'', source_ref_value (from_hardware_identity p)),
                          (''image'', source_ref_value (from_image p)), (''overrides'', JObj (prov_overrides p))])"

definition domain_value :: "domain_instance_document \<Rightarrow> json" where
  "domain_value d = json_obj [(''api_version'', JStr (api_version d)), (''kind'', JStr (doc_kind d)), (''metadata'', metadata_value (metadata d)),
     (''spec'', spec d), (''source'', provenance_value (doc_source d)), (''status'', opt_json (doc_status d))]"

definition is_domain_value :: "json \<Rightarrow> bool" where
  "is_domain_value v \<longleftrightarrow> jget_then v ''api_version'' as_str = Some ''machineemu.io/v1'' \<and> jget_then v ''kind'' as_str = Some ''Instance''"

definition validate_domain_document :: "json \<Rightarrow> instance_row \<Rightarrow> domain_instance_document core_result" where
  "validate_domain_document v x =
     rbind (ok_or (domain_from_value v) (Process ''invalid resolved instance document'')) (\<lambda>d.
     if api_version d \<noteq> ''machineemu.io/v1'' \<or> doc_kind d \<noteq> ''Instance''
     then Inl (Process ''resolved instance document must have api_version machineemu.io/v1 and kind Instance'')
     else if name (metadata d) \<noteq> instance_id x
     then Inl (Process ''resolved instance metadata.name does not match the instance ID'')
     else Inr d)"

section \<open>Reading\<close>

definition instance_entries :: "id \<Rightarrow> store \<Rightarrow> (string \<times> node) list" where
  "instance_entries i s = (case oget (dirs s) i of Some (DirNode es) \<Rightarrow> es | _ \<Rightarrow> [])"

definition instance_document_path :: "id \<Rightarrow> string act" where
  "instance_document_path i =
     andthen (gets (instance_entries i)) (\<lambda>es.
       if oget es ''instance.yaml'' \<noteq> None \<and> oget es ''instance.yml'' \<noteq> None
       then throw (Process (''multiple instance documents in instances/'' @ i))
       else ret (if oget es ''instance.yaml'' = None \<and> oget es ''instance.yml'' \<noteq> None then ''instance.yml'' else ''instance.yaml''))"

definition check_configuration_path :: "config_io \<Rightarrow> id \<Rightarrow> string \<Rightarrow> unit act" where
  "check_configuration_path io i nm =
     andthen (gets (\<lambda>s. oget (instance_entries i s) nm)) (\<lambda>entry.
       if entry = None then throw (Io nm ''canonicalize'')
       else if escapes io i nm then throw (Process ''configuration path escapes its owning directory'') else ret ())"

definition load_value :: "id \<Rightarrow> string \<Rightarrow> json act" where
  "load_value i nm =
     andthen (gets (\<lambda>s. oget (instance_entries i s) nm)) (\<lambda>entry.
       case entry of Some (FileNode (Some v)) \<Rightarrow> ret v | _ \<Rightarrow> throw (Process (''cannot load '' @ nm)))"

definition check_instance_document :: "id \<Rightarrow> instance_row \<Rightarrow> instance_document \<Rightarrow> unit core_result" where
  "check_instance_document i x d =
     (if schema_version d \<noteq> 1 then Inl (Process ''instance document schema_version must be 1'')
      else if d_instance_id d \<noteq> i \<or> d_image_id d \<noteq> image_id x \<or> d_profile_id d \<noteq> profile_id x
      then Inl (Process ''instance, image and template IDs cannot change on an existing instance'')
      else if auto_remove d \<and> launch_plan d = None \<and> domain_document d = None
      then Inl (Process ''auto_remove requires a launch plan or complete domain document'')
      else case Option.bind (profile d) (\<lambda>p. jget_then p ''id'' as_str) of
          Some prof_id \<Rightarrow> if prof_id \<noteq> d_profile_id d then Inl (Process ''profile.id must match profile_id'') else Inr ()
        | None \<Rightarrow> Inr ())"

definition load_instance_document :: "config_io \<Rightarrow> id \<Rightarrow> instance_document act" where
  "load_instance_document io i =
     andthen (get_instance i) (\<lambda>x.
     andthen (instance_document_path i) (\<lambda>nm.
     andthen (check_configuration_path io i nm) (\<lambda>_.
     andthen (load_value i nm) (\<lambda>v.
     let v = (case v of JObj m \<Rightarrow> JObj (odel ''revision'' m) | _ \<Rightarrow> v) in
     andthen (lift (ok_or (instance_from_value v) (ManifestJson ''instance document''))) (\<lambda>d.
     andthen (lift (check_instance_document i x d)) (\<lambda>_. ret d))))))"

definition instance_profile :: "config_io \<Rightarrow> id \<Rightarrow> json option act" where
  "instance_profile io i = andthen (load_instance_document io i) (\<lambda>d. ret (profile d))"

definition load_domain_document :: "config_io \<Rightarrow> id \<Rightarrow> domain_instance_document act" where
  "load_domain_document io i =
     andthen (get_instance i) (\<lambda>x.
     andthen (check_configuration_path io i ''instance.yaml'') (\<lambda>_.
     andthen (load_value i ''instance.yaml'') (\<lambda>v.
     if is_domain_value v then lift (validate_domain_document v x)
     else andthen (load_instance_document io i) (\<lambda>d. case domain_document d of
         Some v \<Rightarrow> lift (validate_domain_document v x)
       | None \<Rightarrow> throw (Process ''instance.yaml does not contain a complete resolved domain document'')))))"

definition has_domain_document :: "config_io \<Rightarrow> id \<Rightarrow> bool act" where
  "has_domain_document io i =
     andthen (gets (\<lambda>s. oget (instance_entries i s) ''instance.yaml'')) (\<lambda>entry.
     andthen (if entry \<noteq> None
              then andthen (check_configuration_path io i ''instance.yaml'') (\<lambda>_.
                   andthen (load_value i ''instance.yaml'') (\<lambda>v. ret (is_domain_value v)))
              else ret False) (\<lambda>direct.
     if direct then ret True
     else andthen (load_instance_document io i) (\<lambda>d.
       if domain_document d \<noteq> None then ret True
       else if entry \<noteq> None then andthen (check_configuration_path io i ''instance.yaml'') (\<lambda>_. ret True)
       else ret False)))"

definition read_staged_profile :: "config_io \<Rightarrow> id \<Rightarrow> json option act" where
  "read_staged_profile io i =
     andthen (gets (\<lambda>s. oget (instance_entries i s) ''profile.yaml'')) (\<lambda>entry.
       if entry = None then ret None
       else andthen (check_configuration_path io i ''profile.yaml'') (\<lambda>_.
            andthen (load_value i ''profile.yaml'') (\<lambda>v. ret (Some v))))"

section \<open>Writing\<close>

definition set_file :: "id \<Rightarrow> string \<Rightarrow> node option \<Rightarrow> store \<Rightarrow> store" where
  "set_file i nm entry s = s\<lparr>dirs := oput i (DirNode (case entry of
       Some n \<Rightarrow> oput nm n (instance_entries i s) | None \<Rightarrow> odel nm (instance_entries i s))) (dirs s)\<rparr>"

text \<open>The file is replaced at once or not at all; its directory must exist.\<close>

definition atomic_configuration_file :: "config_io \<Rightarrow> id \<Rightarrow> string \<Rightarrow> json \<Rightarrow> unit act" where
  "atomic_configuration_file io i nm v =
     andthen (gets (\<lambda>s. oget (dirs s) i)) (\<lambda>dir.
       case dir of
         Some (DirNode _) \<Rightarrow>
           if save_fails io i nm then throw (Io nm ''write'') else modify (set_file i nm (Some (FileNode (Some v))))
       | _ \<Rightarrow> throw (Io (''instances/'' @ i) ''canonicalize''))"

definition write_instance_document_at :: "config_io \<Rightarrow> id \<Rightarrow> string \<Rightarrow> instance_document \<Rightarrow> unit act" where
  "write_instance_document_at io i nm d = atomic_configuration_file io i nm (document_json d)"

definition changed_revision :: "'a act" where
  "changed_revision = throw (Process ''instance configuration revision changed'')"

definition replace_domain_document :: "config_io \<Rightarrow> id \<Rightarrow> int \<Rightarrow> json \<Rightarrow> bool \<Rightarrow> int act" where
  "replace_domain_document io i rv domain auto =
     (if \<not> is_object domain then throw (Process ''domain document must be an object'')
      else
        andthen (load_instance_document io i) (\<lambda>d.
        if content_revision io d \<noteq> rv then changed_revision
        else
          andthen (get_instance i) (\<lambda>x.
          andthen (lift (validate_domain_document domain x)) (\<lambda>_.
          let d = d\<lparr>domain_document := Some domain, auto_remove := auto\<rparr> in
          andthen (instance_document_path i) (\<lambda>nm.
          andthen (write_instance_document_at io i nm d) (\<lambda>_.
          ret (content_revision io d)))))))"

definition set_domain_document :: "config_io \<Rightarrow> id \<Rightarrow> json \<Rightarrow> int act" where
  "set_domain_document io i domain =
     andthen (load_instance_document io i) (\<lambda>d.
     replace_domain_document io i (content_revision io d) domain (auto_remove d))"

definition materialize_document_profile :: "config_io \<Rightarrow> instance_document \<Rightarrow> unit act" where
  "materialize_document_profile io d =
     andthen (lift (id_new ''instance'' (d_instance_id d))) (\<lambda>i.
     case profile d of
       Some p \<Rightarrow> atomic_configuration_file io i ''profile.yaml'' p
     | None \<Rightarrow>
         andthen (gets (\<lambda>s. oget (instance_entries i s) ''profile.yaml'')) (\<lambda>entry.
         andthen (if entry = None then ret () else check_configuration_path io i ''profile.yaml'') (\<lambda>_.
         if entry = None then ret ()
         else if save_fails io i ''profile.yaml'' then throw (Io ''profile.yaml'' ''remove_file'')
         else modify (set_file i ''profile.yaml'' None))))"

definition materialize_instance_profile :: "config_io \<Rightarrow> id \<Rightarrow> unit act" where
  "materialize_instance_profile io i = andthen (load_instance_document io i) (materialize_document_profile io)"

text \<open>An error of the profile cache is only logged.\<close>

definition log_error :: "unit act \<Rightarrow> unit act" where
  "log_error m s = (Inr (), snd (m s))"

definition replace_instance_configuration ::
  "config_io \<Rightarrow> id \<Rightarrow> int \<Rightarrow> json option \<Rightarrow> bool \<Rightarrow> json option \<Rightarrow> int act" where
  "replace_instance_configuration io i rv plan_json auto new_profile =
     andthen (load_instance_document io i) (\<lambda>d.
     if content_revision io d \<noteq> rv then changed_revision
     else
       andthen (lift (ok_or plan_json (ManifestJson ''plan''))) (\<lambda>plan.
       if Option.bind (launch_plan d) (\<lambda>p. jget p ''preparation'') \<noteq> jget plan ''preparation''
       then throw (Process ''disk, NVRAM and TPM preparation cannot change'')
       else if new_profile = None \<and> profile d \<noteq> None
       then throw (Process ''profile cannot be removed from an existing instance'')
       else if (case Option.bind new_profile (\<lambda>p. jget_then p ''id'' as_str) of None \<Rightarrow> False | Some q \<Rightarrow> q \<noteq> d_profile_id d)
       then throw (Process ''profile.id must match profile_id'')
       else
         let d = d\<lparr>profile := new_profile, auto_remove := auto, launch_plan := Some plan\<rparr> in
         andthen (instance_document_path i) (\<lambda>nm.
         andthen (write_instance_document_at io i nm d) (\<lambda>_.
         andthen (log_error (materialize_instance_profile io i)) (\<lambda>_.
         ret (content_revision io d))))))"

section \<open>Engine upgrade\<close>

definition upgrade_error :: "string \<Rightarrow> 'a core_result" where
  "upgrade_error t = Inl (Process t)"

definition candidate_text :: "obj \<Rightarrow> string \<Rightarrow> string core_result" where
  "candidate_text c k = (case get_then c k as_str of
       Some t \<Rightarrow> if t = [] then upgrade_error (''engine upgrade '' @ k @ '' is required'') else Inr t
     | None \<Rightarrow> upgrade_error (''engine upgrade '' @ k @ '' is required''))"

definition digest_ok :: "string \<Rightarrow> bool" where
  "digest_ok d = (let h = unwrap_or (strip_prefix d ''sha256:'') d in length h = 64 \<and> list_all is_ascii_hexdigit h)"

text \<open>The first text among the values of an object, in key order.\<close>

definition first_text :: "obj \<Rightarrow> string option" where
  "first_text m = (case filter (\<lambda>(k, v). is_string v) m of [] \<Rightarrow> None | (k, v) # _ \<Rightarrow> as_str v)"

definition upgrade_candidate :: "config_io \<Rightarrow> obj \<Rightarrow> (string \<times> string \<times> string \<times> json) core_result" where
  "upgrade_candidate io c =
     rbind (candidate_text c ''track'') (\<lambda>track.
     rbind (candidate_text c ''build_digest'') (\<lambda>build.
     if \<not> digest_ok build then upgrade_error ''engine upgrade build_digest must be a SHA-256 digest''
     else
       rbind (candidate_text c ''executable'') (\<lambda>exe.
       rbind (build_manifest io track) (\<lambda>man.
       if jget_then man ''build_digest'' as_str \<noteq> Some build
       then upgrade_error (''engine build manifest for '' @ track @ '' does not provide requested digest '' @ build)
       else if Option.bind (jget_then man ''executables'' as_object) first_text \<noteq> Some exe
       then upgrade_error (''engine executable is not provided by the '' @ track @ '' build'')
       else Inr (track, build, exe, man)))))"

text \<open>A list of tracks that is present must hold the track.\<close>

definition lists_track :: "json option \<Rightarrow> string \<Rightarrow> string \<Rightarrow> unit core_result" where
  "lists_track tracks track message = (case Option.bind tracks as_array of
       Some ts \<Rightarrow> if JStr track \<in> set ts then Inr () else upgrade_error message
     | None \<Rightarrow> Inr ())"

definition check_upgrade_tracks :: "obj \<Rightarrow> obj \<Rightarrow> obj \<Rightarrow> string \<Rightarrow> unit core_result" where
  "check_upgrade_tracks sp allowed c track =
     rbind (lists_track (oget allowed ''image_tracks'') track ''outside saved image_tracks compatibility'') (\<lambda>_.
     rbind (lists_track (oget allowed ''profile_tracks'') track ''outside saved profile_tracks compatibility'') (\<lambda>_.
     rbind (lists_track (Option.bind (oget sp ''image'') (\<lambda>v. jget v ''compatible_engines'')) track ''incompatible with the saved image'') (\<lambda>_.
     let ident = Option.bind (Option.bind (oget sp ''hardware_identity'') (\<lambda>v. jget v ''compatibility'')) as_object in
     rbind (lists_track (Option.bind ident (\<lambda>m. oget m ''engine_tracks'')) track ''incompatible with the saved hardware identity'') (\<lambda>_.
     case Option.bind ident (\<lambda>m. get_then m ''patch_revision'' as_str) of
       Some required \<Rightarrow>
         if get_then c ''patch_revision'' as_str \<noteq> Some required
         then upgrade_error (''engine patch revision must remain '' @ required @ '' for the saved hardware identity'') else Inr ()
     | None \<Rightarrow> Inr ()))))"

definition machine_supported :: "string \<Rightarrow> string \<Rightarrow> bool" where
  "machine_supported machine supported \<longleftrightarrow>
     supported = machine \<or> contains_str machine supported \<or> starts_with machine supported \<or> starts_with supported machine"

definition first_of :: "'a option \<Rightarrow> 'a option \<Rightarrow> 'a option" where
  "first_of a b = (case a of None \<Rightarrow> b | Some _ \<Rightarrow> a)"

definition upgrade_machines :: "obj \<Rightarrow> json \<Rightarrow> json list option" where
  "upgrade_machines c man = first_of (get_then c ''machines'' as_array)
     (first_of (jget_then man ''machines'' as_array) (jget_then man ''targets'' as_array))"

definition check_upgrade_machine :: "obj \<Rightarrow> obj \<Rightarrow> json \<Rightarrow> unit core_result" where
  "check_upgrade_machine sp c man = (case upgrade_machines c man of
       None \<Rightarrow> Inr ()
     | Some machines \<Rightarrow>
         rbind (ok_or (Option.bind (oget sp ''machine'') (\<lambda>v. as_str (unwrap_or (jget v ''type'') v))) (Process ''resolved instance has no machine type'')) (\<lambda>machine.
         if list_ex (\<lambda>v. case as_str v of Some t \<Rightarrow> machine_supported machine t | None \<Rightarrow> False) machines then Inr ()
         else upgrade_error (''engine build does not support machine '' @ machine)))"

text \<open>The new spec: only the engine changes, and plans derived from the old one are dropped.\<close>

definition upgraded_spec :: "obj \<Rightarrow> obj \<Rightarrow> string \<times> string \<times> string \<times> json \<Rightarrow> obj core_result" where
  "upgraded_spec sp c = (\<lambda>(track, build, exe, man).
     rbind (ok_or (get_then sp ''engine'' as_object) (Process ''resolved instance has no pinned engine'')) (\<lambda>old.
     let allowed = unwrap_or (get_then old ''compatibility'' as_object) [] in
     rbind (check_upgrade_tracks sp allowed c track) (\<lambda>_.
     rbind (check_upgrade_machine sp c man) (\<lambda>_.
     if get_then old ''track'' as_str = Some track \<and> get_then old ''build_digest'' as_str = Some build
     then upgrade_error ''engine upgrade must advance the pinned build''
     else Inr (odel ''rendered_launch_plan'' (odel ''launch_plan'' (oput ''engine''
            (JObj (oput ''compatibility'' (JObj allowed) (oput ''executable'' (JStr exe) (oput ''build_digest'' (JStr build) (oput ''track'' (JStr track) c))))) sp)))))))"

text \<open>\<open>u64::saturating_add(1)\<close>.\<close>

definition saturating_succ :: "nat \<Rightarrow> nat" where
  "saturating_succ n = (if int n + 1 < 2 ^ 64 then n + 1 else n)"

definition bump_instance_revision :: "id \<Rightarrow> store \<Rightarrow> store" where
  "bump_instance_revision i s = s\<lparr>instances := map (\<lambda>r. if instance_id r = i then r\<lparr>revision := revision r + 1\<rparr> else r) (instances s)\<rparr>"

definition upgrade_instance_engine :: "config_io \<Rightarrow> id \<Rightarrow> int \<Rightarrow> json \<Rightarrow> int act" where
  "upgrade_instance_engine io i rv candidate =
     andthen (get_instance i) (\<lambda>x.
     andthen (if state x \<in> {Created, Stopped, Error} then active_run i else ret None) (\<lambda>run.
     if state x \<notin> {Created, Stopped, Error} \<or> run \<noteq> None then throw (Process ''stop the instance before upgrading its engine'')
     else
       andthen (load_instance_document io i) (\<lambda>d.
       if content_revision io d \<noteq> rv then changed_revision
       else
         andthen (load_domain_document io i) (\<lambda>dom.
         andthen (lift (ok_or (as_object candidate) (Process ''engine upgrade must be an object''))) (\<lambda>c.
         andthen (lift (upgrade_candidate io c)) (\<lambda>pinned.
         andthen (lift (ok_or (as_object (spec dom)) (Process ''resolved instance spec must be an object''))) (\<lambda>sp.
         andthen (lift (upgraded_spec sp c pinned)) (\<lambda>sp'.
         let dom' = dom\<lparr>spec := JObj sp', metadata := (metadata dom)\<lparr>doc_revision := saturating_succ (doc_revision (metadata dom))\<rparr>\<rparr>;
             d' = d\<lparr>domain_document := Some (domain_value dom')\<rparr> in
         andthen (instance_document_path i) (\<lambda>nm.
         andthen (write_instance_document_at io i nm d') (\<lambda>_.
         andthen (modify (bump_instance_revision i)) (\<lambda>_.
         ret (content_revision io d'))))))))))))"

section \<open>Export of the legacy tables\<close>

text \<open>
  \<open>instance_launch\<close> and \<open>instance_configuration\<close>, None when the table does not exist; a JSON text that does not
  parse is None.
\<close>

record legacy_tables =
  legacy_launch :: "(id \<times> json option \<times> bool) list option"
  legacy_profiles :: "(id \<times> json option) list option"

definition create_instance_dir :: "id \<Rightarrow> store \<Rightarrow> store" where
  "create_instance_dir i s = (if oget (dirs s) i = None then s\<lparr>dirs := oput i (DirNode []) (dirs s)\<rparr> else s)"

definition parsed_text :: "json option \<Rightarrow> json core_result" where
  "parsed_text x = ok_or x (ManifestJson ''legacy configuration'')"

definition export_document :: "config_io \<Rightarrow> legacy_tables \<Rightarrow> instance_row \<Rightarrow> string \<Rightarrow> unit act" where
  "export_document io tables x nm =
     (let i = instance_id x;
          launch = Option.bind (legacy_launch tables) (\<lambda>rows. map_of rows i);
          saved = Option.bind (legacy_profiles tables) (\<lambda>rows. map_of rows i) in
      andthen (modify (create_instance_dir i)) (\<lambda>_.
      andthen (case saved of Some text \<Rightarrow> andthen (lift (parsed_text text)) (\<lambda>p. ret (Some p)) | None \<Rightarrow> read_staged_profile io i) (\<lambda>prof.
      andthen (lift (transpose_opt (\<lambda>(plan, _). parsed_text plan) launch)) (\<lambda>plan.
      write_instance_document_at io i nm \<lparr>schema_version = 1, d_instance_id = i, d_image_id = image_id x, d_profile_id = profile_id x,
        auto_remove = (case launch of Some (_, remove) \<Rightarrow> remove | None \<Rightarrow> False), profile = prof, launch_plan = plan,
        domain_document = None\<rparr>))))"

definition export_instance :: "config_io \<Rightarrow> legacy_tables \<Rightarrow> instance_row \<Rightarrow> unit act" where
  "export_instance io tables x =
     andthen (instance_document_path (instance_id x)) (\<lambda>nm.
     andthen (gets (\<lambda>s. oget (instance_entries (instance_id x) s) nm)) (\<lambda>entry.
     andthen (if entry = None then export_document io tables x nm else ret ()) (\<lambda>_.
     andthen (load_instance_document io (instance_id x)) (\<lambda>_. ret ()))))"

text \<open>The tables are dropped only after every document has been written and read back.\<close>

definition migrate_instance_documents :: "config_io \<Rightarrow> legacy_tables \<Rightarrow> legacy_tables act" where
  "migrate_instance_documents io tables =
     (if legacy_launch tables = None \<and> legacy_profiles tables = None then ret tables
      else
        andthen all_instances (\<lambda>xs.
        andthen (map_act (export_instance io tables) xs) (\<lambda>_.
        ret \<lparr>legacy_launch = None, legacy_profiles = None\<rparr>)))"

end
