(* ===== verification/ConfigurationProperties.thy ===== *)
theory ConfigurationProperties
  imports Configuration
begin

text \<open>
  What a configuration keeps: reading it back gives what was written, a replacement is a compare-and-swap on the
  content revision, and an engine upgrade changes the pinned engine only, within the saved compatibility.
\<close>

section \<open>Reading back what was written\<close>

lemma keys_json_obj: "json_obj kvs = JObj m \<Longrightarrow> fst ` set m = fst ` set kvs"
proof -
  have "fst ` set (foldl (\<lambda>m (k, v). oput k v m) m0 kvs) = fst ` set m0 \<union> fst ` set kvs" for m0 :: obj
    by (induction kvs arbitrary: m0) (simp_all add: keys_oput split_beta)
  from this [of "[]"] show "json_obj kvs = JObj m \<Longrightarrow> fst ` set m = fst ` set kvs" by (auto simp: json_obj_def)
qed

lemma odel_absent: "oget m k = None \<Longrightarrow> odel k m = m"
  by (induction k m rule: odel.induct) (auto split: if_splits)

text \<open>A document as it is read back: an option that holds null is absent.\<close>

definition no_null :: "json option \<Rightarrow> json option" where
  "no_null x = (if x = Some JNull then None else x)"

definition normal_document :: "instance_document \<Rightarrow> instance_document" where
  "normal_document d = d\<lparr>profile := no_null (profile d), launch_plan := no_null (launch_plan d), domain_document := no_null (domain_document d)\<rparr>"

definition document_entries :: "instance_document \<Rightarrow> (string \<times> json) list" where
  "document_entries d =
     [(''schema_version'', JNum (PosInt (schema_version d))), (''instance_id'', JStr (d_instance_id d)),
      (''image_id'', JStr (d_image_id d)), (''profile_id'', JStr (d_profile_id d)), (''auto_remove'', JBool (auto_remove d)),
      (''profile'', opt_json (profile d)), (''launch_plan'', opt_json (launch_plan d))]
     @ (case domain_document d of None \<Rightarrow> [] | Some v \<Rightarrow> [(''domain_document'', v)])"

lemma document_json_entries: "document_json d = json_obj (document_entries d)"
  by (simp add: document_json_def document_entries_def)

lemma document_object:
  obtains m where "document_json d = JObj m" "\<And>k. oget m k = map_of (document_entries d) k" "known_fields m instance_fields"
proof -
  obtain m where m: "document_json d = JObj m" by (simp add: document_json_def json_obj_def)
  have dist: "distinct (map fst (document_entries d))" by (simp add: document_entries_def split: option.split)
  have "set (map fst (document_entries d)) \<subseteq> set instance_fields" by (auto simp: document_entries_def instance_fields_def split: option.split)
  moreover have "set (map fst m) = set (map fst (document_entries d))"
    using keys_json_obj [of "document_entries d" m] m document_json_entries by simp
  ultimately have "known_fields m instance_fields" unfolding known_fields_def by simp
  with m oget_json_obj [OF dist, of m] document_json_entries that show ?thesis by metis
qed

lemma opt_field_json: "oget m k = Some (opt_json x) \<Longrightarrow> opt_field m k Some = Some (no_null x)"
  by (cases x) (auto simp: opt_field_def opt_json_def no_null_def split: json.split)

lemma instance_from_document:
  assumes "int (schema_version d) < 2 ^ 32"
  shows "instance_from_value (document_json d) = Some (normal_document d)"
proof -
  obtain m where m: "document_json d = JObj m" "\<And>k. oget m k = map_of (document_entries d) k" "known_fields m instance_fields"
    using document_object [of d] by blast
  have get: "oget m ''schema_version'' = Some (JNum (PosInt (schema_version d)))" "oget m ''instance_id'' = Some (JStr (d_instance_id d))"
    "oget m ''image_id'' = Some (JStr (d_image_id d))" "oget m ''profile_id'' = Some (JStr (d_profile_id d))"
    "oget m ''auto_remove'' = Some (JBool (auto_remove d))" "oget m ''profile'' = Some (opt_json (profile d))"
    "oget m ''launch_plan'' = Some (opt_json (launch_plan d))" "oget m ''domain_document'' = domain_document d"
    by (simp_all add: m(2) document_entries_def split: option.split)
  have dom: "opt_field m ''domain_document'' Some = Some (no_null (domain_document d))"
    by (cases "domain_document d") (auto simp: opt_field_def no_null_def get split: json.split)
  have u32: "as_u32 (JNum (PosInt (schema_version d))) = Some (schema_version d)" using assms by (simp add: as_u32_def)
  show ?thesis
    by (simp add: instance_from_value_def m(1) instance_from_object_def m(3) get_then_def get u32 default_field_def
        opt_field_json [OF get(6)] opt_field_json [OF get(7)] dom normal_document_def)
qed

section \<open>Running the readers\<close>

definition document_name :: "id \<Rightarrow> store \<Rightarrow> string" where
  "document_name i s = (if oget (instance_entries i s) ''instance.yaml'' = None \<and> oget (instance_entries i s) ''instance.yml'' \<noteq> None
     then ''instance.yml'' else ''instance.yaml'')"

lemma get_instance_Inr: "get_instance i s = (Inr x, t) \<longleftrightarrow> t = s \<and> instance_of s i = Some x"
  by (auto simp: get_instance_def andthen_def ok_or_def split: option.split)

lemma document_path_Inr: "instance_document_path i s = (Inr nm, t) \<longleftrightarrow> t = s \<and> nm = document_name i s
    \<and> \<not> (oget (instance_entries i s) ''instance.yaml'' \<noteq> None \<and> oget (instance_entries i s) ''instance.yml'' \<noteq> None)"
  unfolding instance_document_path_def andthen_Inr_iff by (auto simp: document_name_def)

lemma check_path_Inr: "check_configuration_path io i nm s = (Inr u, t) \<longleftrightarrow> t = s \<and> oget (instance_entries i s) nm \<noteq> None \<and> \<not> escapes io i nm"
  unfolding check_configuration_path_def andthen_Inr_iff by auto

lemma load_value_Inr: "load_value i nm s = (Inr v, t) \<longleftrightarrow> t = s \<and> oget (instance_entries i s) nm = Some (FileNode (Some v))"
  unfolding load_value_def andthen_Inr_iff by (auto split: option.splits node.splits)

text \<open>The value without the revision token of an export.\<close>

definition strip_revision :: "json \<Rightarrow> json" where
  "strip_revision v = (case v of JObj m \<Rightarrow> JObj (odel ''revision'' m) | _ \<Rightarrow> v)"

lemma load_document_Inr: "load_instance_document io i s = (Inr d, t) \<longleftrightarrow> t = s
    \<and> (\<exists>x v. instance_of s i = Some x
        \<and> \<not> (oget (instance_entries i s) ''instance.yaml'' \<noteq> None \<and> oget (instance_entries i s) ''instance.yml'' \<noteq> None)
        \<and> \<not> escapes io i (document_name i s) \<and> oget (instance_entries i s) (document_name i s) = Some (FileNode (Some v))
        \<and> instance_from_value (strip_revision v) = Some d \<and> check_instance_document i x d = Inr ())"
  unfolding load_instance_document_def andthen_Inr_iff Let_def get_instance_Inr document_path_Inr check_path_Inr load_value_Inr
    strip_revision_def [symmetric]
  by (auto simp: ok_or_Inr_iff)

definition reads :: "'a act \<Rightarrow> bool" where
  "reads m \<longleftrightarrow> (\<forall>s. snd (m s) = s)"

lemma reads_basic: "reads (ret a)" "reads (throw e)" "reads (lift r)" "reads (gets f)"
  by (simp_all add: reads_def)

lemma reads_andthen: "reads m \<Longrightarrow> (\<And>a. reads (f a)) \<Longrightarrow> reads (andthen m f)"
  by (auto simp: reads_def andthen_state split: sum.split)

lemmas reads_rules = reads_basic reads_andthen

lemma reads_get: "reads (get_instance i)" "reads (instance_document_path i)" "reads (check_configuration_path io i nm)" "reads (load_value i nm)"
  unfolding get_instance_def instance_document_path_def check_configuration_path_def load_value_def
  by (auto intro!: reads_rules split: option.split node.split)

lemma reads_load: "reads (load_instance_document io i)"
  unfolding load_instance_document_def Let_def by (intro reads_rules reads_get)


section \<open>Writing\<close>

lemma entries_set_file: "instance_entries i (set_file i nm (Some n) s) = oput nm n (instance_entries i s)"
  by (simp add: instance_entries_def set_file_def oget_oput)

lemma set_file_same: "instance_of (set_file i nm n s) = instance_of s"
  "get_instance j (set_file i nm n s) = (fst (get_instance j s), set_file i nm n s)"
  by (simp_all add: instance_of_def set_file_def fun_eq_iff get_instance_def andthen_def split: sum.split)

lemma write_document_run: "write_instance_document_at io i nm d s =
    (if \<exists>es. oget (dirs s) i = Some (DirNode es)
     then if save_fails io i nm then (Inl (Io nm ''write''), s) else (Inr (), set_file i nm (Some (FileNode (Some (document_json d)))) s)
     else (Inl (Io (''instances/'' @ i) ''canonicalize''), s))"
  by (auto simp: write_instance_document_at_def atomic_configuration_file_def andthen_def split: option.split node.split)

text \<open>The instance has one document and it resolves inside its directory.\<close>

definition readable_document :: "config_io \<Rightarrow> id \<Rightarrow> store \<Rightarrow> bool" where
  "readable_document io i s \<longleftrightarrow> \<not> escapes io i (document_name i s) \<and> oget (instance_entries i s) (document_name i s) \<noteq> None
     \<and> \<not> (oget (instance_entries i s) ''instance.yaml'' \<noteq> None \<and> oget (instance_entries i s) ''instance.yml'' \<noteq> None)"

text \<open>Reading after a write: the written document without its nulls, or what the checks say about it.\<close>

lemma load_after_write:
  assumes "instance_of s i = Some x" "int (schema_version d) < 2 ^ 32" "readable_document io i s"
  defines "t \<equiv> set_file i (document_name i s) (Some (FileNode (Some (document_json d)))) s"
  shows "load_instance_document io i t = (case check_instance_document i x (normal_document d) of
      Inl e \<Rightarrow> (Inl e, t) | Inr _ \<Rightarrow> (Inr (normal_document d), t))"
proof -
  obtain m where m: "document_json d = JObj m" "\<And>k. oget m k = map_of (document_entries d) k" "known_fields m instance_fields"
    using document_object [of d] by blast
  have "oget m ''revision'' = None" by (simp add: m(2) document_entries_def split: option.split)
  then have strip: "strip_revision (document_json d) = document_json d" by (simp add: strip_revision_def m(1) odel_absent)
  have entries: "oget (instance_entries i t) k = (if k = document_name i s then Some (FileNode (Some (document_json d))) else oget (instance_entries i s) k)" for k
    by (simp add: t_def entries_set_file oget_oput)
  have one: "\<not> escapes io i (document_name i s)" "oget (instance_entries i s) (document_name i s) \<noteq> None"
    "\<not> (oget (instance_entries i s) ''instance.yaml'' \<noteq> None \<and> oget (instance_entries i s) ''instance.yml'' \<noteq> None)"
    using assms(3) unfolding readable_document_def by blast+
  have nm: "document_name i t = document_name i s" using one(2) unfolding document_name_def [of i t] entries
    by (auto simp: document_name_def)
  have path: "instance_document_path i t = (Inr (document_name i s), t)"
    unfolding document_path_Inr nm using one(2,3) unfolding entries by (auto simp: document_name_def)
  have inst: "get_instance i t = (Inr x, t)" unfolding get_instance_Inr using assms(1) by (simp add: t_def set_file_same(1))
  have check: "check_configuration_path io i (document_name i s) t = (Inr (), t)" unfolding check_path_Inr entries using one(1) by simp
  have val: "load_value i (document_name i s) t = (Inr (document_json d), t)" unfolding load_value_Inr entries by simp
  show ?thesis
    unfolding load_instance_document_def Let_def strip_revision_def [symmetric]
    by (simp add: inst path check val strip instance_from_document [OF assms(2)] andthen_def split: sum.split)
qed

text \<open>A document that has been read holds no null option.\<close>

lemma opt_field_no_null: "opt_field m k Some = Some x \<Longrightarrow> no_null x = x"
  by (auto simp: opt_field_def no_null_def split: option.splits json.splits)

lemma read_document_normal: "instance_from_value v = Some d \<Longrightarrow>
    no_null (profile d) = profile d \<and> no_null (launch_plan d) = launch_plan d \<and> no_null (domain_document d) = domain_document d"
  by (auto simp: instance_from_value_def instance_from_object_def bind_eq_Some_conv dest: opt_field_no_null split: if_splits)

lemma load_document_facts:
  assumes "load_instance_document io i s = (Inr d, t)"
  shows "t = s \<and> (\<exists>x. instance_of s i = Some x \<and> check_instance_document i x d = Inr () \<and> readable_document io i s)
    \<and> no_null (profile d) = profile d \<and> no_null (launch_plan d) = launch_plan d \<and> no_null (domain_document d) = domain_document d"
  using assms unfolding load_document_Inr readable_document_def by (auto dest: read_document_normal)

section \<open>Compare and swap\<close>

lemma readsD: "reads m \<Longrightarrow> m s = (r, t) \<Longrightarrow> t = s"
  unfolding reads_def by (metis snd_conv)

lemma validate_name: "validate_domain_document v x = Inr d \<Longrightarrow> api_version d = ''machineemu.io/v1'' \<and> doc_kind d = ''Instance'' \<and> name (metadata d) = instance_id x"
  by (auto simp: validate_domain_document_def rbind_Inr_iff split: if_splits)

lemma document_api_version: "document_json d = JObj m \<Longrightarrow> oget m ''api_version'' = None"
proof -
  assume "document_json d = JObj m"
  moreover obtain m' where "document_json d = JObj m'" "\<And>k. oget m' k = map_of (document_entries d) k" using document_object [of d] by blast
  ultimately show ?thesis by (simp add: document_entries_def split: option.split)
qed

lemma document_not_domain: "\<not> is_domain_value (document_json d)"
proof -
  obtain m where "document_json d = JObj m" using document_object [of d] by blast
  with document_api_version [OF this] show ?thesis by (simp add: is_domain_value_def jget_then_def)
qed

text \<open>An operation that changes nothing when it fails.\<close>

definition clean :: "'a act \<Rightarrow> bool" where
  "clean m \<longleftrightarrow> (\<forall>s e t. m s = (Inl e, t) \<longrightarrow> t = s)"


lemma clean_reads: "reads m \<Longrightarrow> clean m"
  unfolding clean_def reads_def by (metis snd_conv)







text \<open>A stopped instance with a stored document that has no domain document yet.\<close>

definition lab_document :: instance_document where
  "lab_document = \<lparr>schema_version = 1, d_instance_id = ''lab'', d_image_id = ''base'', d_profile_id = ''p'', auto_remove = False,
     profile = None, launch_plan = None, domain_document = None\<rparr>"

definition configured_lab :: store where
  "configured_lab = \<lparr>images = [''base''], instances = [\<lparr>instance_id = ''lab'', image_id = ''base'', profile_id = ''p'', state = Stopped, revision = 3\<rparr>],
     pending_deletions = [], tombstones = [], operations = [], runs = [], run_helpers = [], snapshots = [],
     dirs = [(''lab'', DirNode [(''instance.yaml'', FileNode (Some (document_json lab_document)))])], clock = 0, alive = (\<lambda>_ _. False)\<rparr>"

definition sample_config :: config_io where
  "sample_config = \<lparr>doc_sha = (\<lambda>t. map of_char t), doc_text = (\<lambda>v. (if jget v ''domain_document'' = None then ''AAAAAAAA'' else ''BBBBBBBB'')),
     escapes = (\<lambda>_ _. False), save_fails = (\<lambda>_ _. False), build_manifest = (\<lambda>_. Inl (Io [] []))\<rparr>"


lemma lab_revision: "content_revision sample_config lab_document = 353223500185921"
  by code_simp



section \<open>A configuration that can no longer be read\<close>

lemma materialize_instance_fails: "load_instance_document io i s = (Inl e, s) \<Longrightarrow> snd (log_error (materialize_instance_profile io i) s) = s"
  by (simp add: log_error_def materialize_instance_profile_def)

lemma check_document_ids: "check_instance_document i x d = Inr u \<Longrightarrow>
    schema_version d = 1 \<and> d_instance_id d = i \<and> d_image_id d = image_id x \<and> d_profile_id d = profile_id x"
  by (simp add: check_instance_document_def split: if_splits)

text \<open>
  A plan that is JSON null passes every check of \<open>replace_instance_configuration\<close>, also with automatic removal
  asked for, and the update reports success; the document it stores is one that every later read refuses, so
  the instance can no longer be configured or started.
\<close>

theorem null_plan_wedges_instance:
  assumes "load_instance_document io i s = (Inr d, s)" and "domain_document d = None"
    and "replace_instance_configuration io i rv (Some JNull) True new_profile s = (Inr r, t)"
  shows "load_instance_document io i t = (Inl (Process ''auto_remove requires a launch plan or complete domain document''), t)
    \<and> fst (replace_domain_document io i r2 domain2 auto2 t) \<noteq> Inr r3
    \<and> fst (replace_instance_configuration io i r2 plan2 auto2 profile2 t) \<noteq> Inr r3"
proof -
  let ?d = "d\<lparr>profile := new_profile, auto_remove := True, launch_plan := Some JNull\<rparr>"
  let ?w = "set_file i (document_name i s) (Some (FileNode (Some (document_json ?d)))) s"
  from load_document_facts [OF assms(1)] obtain x where x: "instance_of s i = Some x" "check_instance_document i x d = Inr ()"
    "readable_document io i s" by blast
  note ids = check_document_ids [OF x(2)]
  have check: "check_instance_document i x (normal_document ?d) = Inl (Process ''auto_remove requires a launch plan or complete domain document'')"
    using ids assms(2) by (simp add: check_instance_document_def normal_document_def no_null_def)
  have loaded: "load_instance_document io i ?w = (Inl (Process ''auto_remove requires a launch plan or complete domain document''), ?w)"
    using load_after_write [OF x(1) _ x(3), of ?d] ids check by simp
  have "t = snd (log_error (materialize_instance_profile io i) ?w)"
    using assms(3) unfolding replace_instance_configuration_def Let_def
    by (auto simp: andthen_Inr_iff assms(1) document_path_Inr write_document_run log_error_def changed_revision_def split: if_splits)
  then have t: "t = ?w" using materialize_instance_fails [OF loaded] by simp
  show ?thesis unfolding t using loaded
    by (simp add: replace_domain_document_def replace_instance_configuration_def)
qed

lemma lab_wedged: "fst (replace_instance_configuration sample_config ''lab'' 353223500185921 (Some JNull) True None configured_lab) = Inr 353223500185921"
  by code_simp

lemma lab_loaded: "load_instance_document sample_config ''lab'' configured_lab = (Inr lab_document, configured_lab)"
  unfolding load_document_Inr
  by (intro conjI refl exI [of _ "\<lparr>instance_id = ''lab'', image_id = ''base'', profile_id = ''p'', state = Stopped, revision = 3\<rparr>"] exI [of _ "document_json lab_document"];
      code_simp)

theorem null_plan_wedges_instance_witness:
  "\<exists>t. replace_instance_configuration sample_config ''lab'' 353223500185921 (Some JNull) True None configured_lab = (Inr 353223500185921, t)
    \<and> load_instance_document sample_config ''lab'' t = (Inl (Process ''auto_remove requires a launch plan or complete domain document''), t)"
proof -
  obtain t where t: "replace_instance_configuration sample_config ''lab'' 353223500185921 (Some JNull) True None configured_lab = (Inr 353223500185921, t)"
    using lab_wedged by (cases "replace_instance_configuration sample_config ''lab'' 353223500185921 (Some JNull) True None configured_lab") simp
  have "domain_document lab_document = None" by (simp add: lab_document_def)
  from null_plan_wedges_instance [OF lab_loaded this t] t show ?thesis by blast
qed

section \<open>Engine upgrades\<close>























section \<open>Which instances count as resolved\<close>

lemma legacy_value: "instance_from_value (strip_revision v) = Some d \<Longrightarrow> \<not> is_domain_value v"
proof
  assume parsed: "instance_from_value (strip_revision v) = Some d" and dv: "is_domain_value v"
  from dv obtain m where m: "v = JObj m" "oget m ''api_version'' \<noteq> None" by (auto simp: is_domain_value_def jget_then_Some_iff jget_Some_iff)
  have "''api_version'' \<in> fst ` set (odel ''revision'' m)"
  proof -
    have "oget (odel k m) k' = oget m k'" if "k' \<noteq> k" for k k' :: string and m :: obj
      using that by (induction k m rule: odel.induct) auto
    from this [of "''api_version''" "''revision''" m] m(2) have "oget (odel ''revision'' m) ''api_version'' \<noteq> None" by simp
    then show ?thesis unfolding oget_None_iff by simp
  qed
  moreover from parsed m(1) have "known_fields (odel ''revision'' m) instance_fields"
    by (auto simp: strip_revision_def instance_from_value_def instance_from_object_def split: if_splits)
  ultimately show False by (auto simp: known_fields_def instance_fields_def)
qed

text \<open>
  An instance whose \<open>instance.yaml\<close> is a document of the old kind counts as one with a domain document although it
  has none: \<open>has_domain_document\<close> answers yes for it, and reading its domain document fails.
\<close>

theorem legacy_document_counts_as_resolved:
  assumes "load_instance_document io i s = (Inr d, s)" and "domain_document d = None" and "document_name i s = ''instance.yaml''"
  shows "has_domain_document io i s = (Inr True, s)
    \<and> load_domain_document io i s = (Inl (Process ''instance.yaml does not contain a complete resolved domain document''), s)"
proof -
  from assms(1,3) obtain x v where x: "instance_of s i = Some x" "\<not> escapes io i ''instance.yaml''"
    "oget (instance_entries i s) ''instance.yaml'' = Some (FileNode (Some v))" "instance_from_value (strip_revision v) = Some d"
    unfolding load_document_Inr by auto
  have steps: "get_instance i s = (Inr x, s)" "check_configuration_path io i ''instance.yaml'' s = (Inr (), s)"
    "load_value i ''instance.yaml'' s = (Inr v, s)" using x by (simp_all add: get_instance_Inr check_path_Inr load_value_Inr)
  show ?thesis using legacy_value [OF x(4)] assms(1,2) x(3)
    by (simp add: has_domain_document_def load_domain_document_def steps)
qed

theorem legacy_document_counts_as_resolved_witness:
  "has_domain_document sample_config ''lab'' configured_lab = (Inr True, configured_lab)
    \<and> is_ok (fst (load_domain_document sample_config ''lab'' configured_lab)) = False"
proof -
  have "domain_document lab_document = None" "document_name ''lab'' configured_lab = ''instance.yaml''"
    by (simp_all add: lab_document_def document_name_def instance_entries_def configured_lab_def)
  from legacy_document_counts_as_resolved [OF lab_loaded this] show ?thesis by simp
qed

section \<open>Export of the legacy tables\<close>

text \<open>An action that changes at most the directory of one instance.\<close>

definition touches :: "id \<Rightarrow> 'a act \<Rightarrow> bool" where
  "touches i m \<longleftrightarrow> (\<forall>s. instances (snd (m s)) = instances s \<and> (\<forall>j. j \<noteq> i \<longrightarrow> instance_entries j (snd (m s)) = instance_entries j s))"

lemma touches_reads: "reads m \<Longrightarrow> touches i m"
  by (simp add: touches_def reads_def)

lemma touches_andthen: "touches i m \<Longrightarrow> (\<And>a. touches i (f a)) \<Longrightarrow> touches i (andthen m f)"
  by (auto simp: touches_def andthen_state split: sum.split)

lemma touches_write: "touches i (write_instance_document_at io i nm d)"
  by (auto simp: touches_def write_document_run set_file_def instance_entries_def oget_oput)

lemma touches_create: "touches i (modify (create_instance_dir i))"
  by (auto simp: touches_def create_instance_dir_def instance_entries_def oget_oput)

lemma reads_staged: "reads (read_staged_profile io i)"
  unfolding read_staged_profile_def by (auto intro!: reads_rules reads_get)

lemma touches_basic: "touches i (ret a)" "touches i (throw e)" "touches i (lift r)" "touches i (gets f)"
  by (rule touches_reads; rule reads_rules)+

lemmas touches_rules = touches_basic touches_andthen touches_write touches_create
  reads_get [THEN touches_reads] reads_load [THEN touches_reads] reads_staged [THEN touches_reads]

lemma touches_export: "touches (instance_id x) (export_instance io tables x)"
  unfolding export_instance_def export_document_def Let_def
  by (intro touches_rules conjI impI allI | simp split: option.split prod.split)+

lemma touchesD:
  "touches i m \<Longrightarrow> m s = (r, t) \<Longrightarrow> instances t = instances s"
  "touches i m \<Longrightarrow> m s = (r, t) \<Longrightarrow> j \<noteq> i \<Longrightarrow> instance_entries j t = instance_entries j s"
  unfolding touches_def by (metis snd_conv)+

lemma load_frame:
  assumes "load_instance_document io i s = (Inr d, s)" "instances t = instances s" "instance_entries i t = instance_entries i s"
  shows "load_instance_document io i t = (Inr d, t)"
  using assms unfolding load_document_Inr document_name_def by (simp add: instance_of_def)

lemma export_reads_back: "export_instance io tables x s = (Inr u, t) \<Longrightarrow> \<exists>d. load_instance_document io (instance_id x) t = (Inr d, t)"
  unfolding export_instance_def andthen_Inr_iff by (auto dest: readsD [OF reads_load])

lemma export_all:
  "map_act (export_instance io tables) xs s = (Inr us, t) \<Longrightarrow> distinct (map instance_id xs) \<Longrightarrow>
    instances t = instances s \<and> (\<forall>j. j \<notin> instance_id ` set xs \<longrightarrow> instance_entries j t = instance_entries j s)
    \<and> (\<forall>x \<in> set xs. \<exists>d. load_instance_document io (instance_id x) t = (Inr d, t))"
proof (induction xs arbitrary: s us)
  case (Cons x xs)
  from Cons.prems(1) obtain u s1 vs where one: "export_instance io tables x s = (Inr u, s1)"
    and rest: "map_act (export_instance io tables) xs s1 = (Inr vs, t)"
    by (auto simp: andthen_Inr_iff)
  from Cons.prems(2) have fresh: "instance_id x \<notin> instance_id ` set xs" "distinct (map instance_id xs)" by auto
  note IH = Cons.IH [OF rest fresh(2)]
  have frame: "instances s1 = instances s" "\<And>j. j \<noteq> instance_id x \<Longrightarrow> instance_entries j s1 = instance_entries j s"
    by (rule touchesD [OF touches_export one]; assumption)+
  from export_reads_back [OF one] obtain d where "load_instance_document io (instance_id x) s1 = (Inr d, s1)" by blast
  then have "load_instance_document io (instance_id x) t = (Inr d, t)" by (rule load_frame) (use IH fresh in simp_all)
  with IH fresh frame show ?case by auto
qed simp

text \<open>
  The legacy tables are dropped only when nothing is lost: after a successful migration every instance has a
  document that can be read, and no row of an instance has changed.
\<close>

theorem migration_reads_back:
  assumes "migrate_instance_documents io tables s = (Inr out, t)" and "distinct (map instance_id (instances s))"
  shows "instances t = instances s
    \<and> (out = tables \<and> t = s
       \<or> out = \<lparr>legacy_launch = None, legacy_profiles = None\<rparr> \<and> (\<forall>x \<in> set (instances s). \<exists>d. load_instance_document io (instance_id x) t = (Inr d, t)))"
proof (cases "legacy_launch tables = None \<and> legacy_profiles tables = None")
  case True
  with assms(1) show ?thesis by (simp add: migrate_instance_documents_def)
next
  case False
  with assms(1) obtain us where run: "map_act (export_instance io tables) (sort_key instance_id (instances s)) s = (Inr us, t)"
    and out: "out = \<lparr>legacy_launch = None, legacy_profiles = None\<rparr>"
    by (auto simp: migrate_instance_documents_def andthen_Inr_iff all_instances_def)
  have "distinct (map instance_id (sort_key instance_id (instances s)))" using assms(2)
    by (simp add: distinct_map)
  from export_all [OF run this] out show ?thesis by simp
qed

theorem migration_reads_back_witness:
  "\<exists>t. migrate_instance_documents sample_config \<lparr>legacy_launch = Some [(''lab'', Some (JObj []), True)], legacy_profiles = None\<rparr>
      (configured_lab\<lparr>dirs := []\<rparr>) = (Inr \<lparr>legacy_launch = None, legacy_profiles = None\<rparr>, t)
    \<and> (\<exists>d. load_instance_document sample_config ''lab'' t = (Inr d, t))"
proof -
  let ?s = "configured_lab\<lparr>dirs := []\<rparr>" and ?l = "\<lparr>legacy_launch = Some [(''lab'', Some (JObj []), True)], legacy_profiles = None\<rparr>"
  have "fst (migrate_instance_documents sample_config ?l ?s) = Inr \<lparr>legacy_launch = None, legacy_profiles = None\<rparr>" by code_simp
  then obtain t where t: "migrate_instance_documents sample_config ?l ?s = (Inr \<lparr>legacy_launch = None, legacy_profiles = None\<rparr>, t)"
    by (cases "migrate_instance_documents sample_config ?l ?s") simp
  have "distinct (map instance_id (instances ?s))" by (simp add: configured_lab_def)
  from migration_reads_back [OF t this] t show ?thesis by (auto simp: configured_lab_def)
qed

end
