(* ===== verification/Qmp.thy ===== *)
theory Qmp
  imports Domain Action LaunchText
begin

text \<open>
  \<open>crates/machineemu-core/src/protocols\<close>: the QMP clients of a running QEMU, the asynchronous one of the daemon
  (\<open>async_qmp.rs\<close>) and the blocking one (\<open>qmp.rs\<close>), and the address query of the guest agent (\<open>guest_agent.rs\<close>).
  A connection is what the socket will still deliver, byte by byte, with the pauses that are long enough for the wait
  in progress to give up; when it runs out the peer has closed it. What the client has written is kept as the requests.
\<close>

datatype arrival = Byte "8 word" | Pause

record monitor =
  incoming :: "arrival list"
  next_id :: "64 word"
  events :: "json list"
  sent :: "(json \<times> bool) list"          \<comment> \<open>requests, with whether a descriptor went along\<close>

text \<open>Why a read did not give a message: the surrounding timeout elapsed, or an error of the connection.\<close>

datatype interrupt = Elapsed | Failed core_error

record qmp_io =
  parse_frame :: "8 word list \<Rightarrow> json option"                  \<comment> \<open>\<open>serde_json::from_slice\<close>\<close>
  json_text :: "json \<Rightarrow> string"                               \<comment> \<open>\<open>Display\<close> of a value\<close>
  write_outcome :: "64 word \<Rightarrow> interrupt option"             \<comment> \<open>writing the request with this ID fails\<close>
  descriptor_outcome :: "64 word \<Rightarrow> string option"           \<comment> \<open>\<open>sendmsg\<close> fails\<close>

type_synonym 'a wait = "(monitor, interrupt, 'a) action"
type_synonym 'a qmp = "(monitor, core_error, 'a) action"

section \<open>Frames\<close>

definition MAX_FRAME :: nat where "MAX_FRAME = 1024 * 1024"

text \<open>A line without its newline; a line given up half way is gone with the buffer it was read into.\<close>

fun read_line_bytes :: "8 word list \<Rightarrow> arrival list \<Rightarrow> (interrupt + 8 word list) \<times> arrival list" where
  "read_line_bytes bytes [] = (Inl (Failed (Qmp ''QMP I/O failed: early eof'')), [])"
| "read_line_bytes bytes (Pause # rest) = (Inl Elapsed, rest)"
| "read_line_bytes bytes (Byte b # rest) =
     (if b = 10 then (Inr bytes, rest)
      else if MAX_FRAME \<le> length bytes then (Inl (Failed (Qmp ''QMP frame exceeds size limit'')), rest)
      else read_line_bytes (bytes @ [b]) rest)"

definition read_frame :: "qmp_io \<Rightarrow> json wait" where
  "read_frame io s = (case read_line_bytes [] (incoming s) of
       (Inl e, rest) \<Rightarrow> (Inl e, s\<lparr>incoming := rest\<rparr>)
     | (Inr bytes, rest) \<Rightarrow> (ok_or (parse_frame io bytes) (Failed (ManifestJson ''QMP frame'')), s\<lparr>incoming := rest\<rparr>))"

lemma read_line_shorter: "read_line_bytes bytes xs = (Inr b, rest) \<Longrightarrow> length rest < length xs"
  by (induction bytes xs rule: read_line_bytes.induct) (fastforce split: if_splits)+

lemma read_frame_shorter: "read_frame io s = (Inr v, t) \<Longrightarrow> length (incoming t) < length (incoming s)"
  by (auto simp: read_frame_def dest: read_line_shorter split: prod.splits sum.splits)

text \<open>What reading a message leaves alone.\<close>

lemma read_frame_frame: "read_frame io s = (r, t) \<Longrightarrow> next_id t = next_id s \<and> events t = events s \<and> sent t = sent s"
  by (auto simp: read_frame_def split: prod.splits sum.splits)

section \<open>Commands\<close>

definition is_event :: "json \<Rightarrow> bool" where "is_event v \<longleftrightarrow> jget v ''event'' \<noteq> None"
definition json_id :: "64 word \<Rightarrow> json" where "json_id i = JNum (PosInt (unat i))"

definition store_event :: "json \<Rightarrow> monitor \<Rightarrow> monitor" where
  "store_event v s = s\<lparr>events := (if length (events s) = 256 then tl (events s) else events s) @ [v]\<rparr>"

text \<open>Events met on the way are kept, replies to other requests are skipped.\<close>

function read_reply :: "qmp_io \<Rightarrow> 64 word \<Rightarrow> json wait" where
  "read_reply io i s = (case read_frame io s of
       (Inl e, t) \<Rightarrow> (Inl e, t)
     | (Inr v, t) \<Rightarrow>
         if is_event v then read_reply io i (store_event v t)
         else if jget v ''id'' \<noteq> Some (json_id i) then read_reply io i t
         else (case jget v ''error'' of
             Some e \<Rightarrow> (Inl (Failed (Qmp (json_text io e))), t)
           | None \<Rightarrow> (Inr (unwrap_or (jget v ''return'') JNull), t)))"
  by pat_completeness auto
termination
  by (relation "measure (\<lambda>(io, i, s). length (incoming s))") (auto simp: store_event_def dest: read_frame_shorter [OF sym])

declare read_reply.simps [simp del]

text \<open>\<open>tokio::time::timeout\<close> around a wait.\<close>

definition timed :: "string \<Rightarrow> 'a wait \<Rightarrow> 'a qmp" where
  "timed message m s = (case m s of
       (Inl Elapsed, t) \<Rightarrow> (Inl (Qmp message), t)
     | (Inl (Failed e), t) \<Rightarrow> (Inl e, t)
     | (Inr a, t) \<Rightarrow> (Inr a, t))"

definition is_token :: "string \<Rightarrow> bool" where
  "is_token s \<longleftrightarrow> s \<noteq> [] \<and> \<not> list_ex (contains_str s) white_space"

definition take_id :: "(monitor, 'e, 64 word) action" where
  "take_id s = (Inr (next_id s), s\<lparr>next_id := next_id s + 1\<rparr>)"

definition request_value :: "string \<Rightarrow> 64 word \<Rightarrow> json \<Rightarrow> json" where
  "request_value nm i arguments =
     json_obj ([(''execute'', JStr nm), (''id'', json_id i)] @ (if is_null arguments then [] else [(''arguments'', arguments)]))"

definition write_request :: "qmp_io \<Rightarrow> 64 word \<Rightarrow> json \<Rightarrow> unit wait" where
  "write_request io i v s = (case write_outcome io i of
       Some e \<Rightarrow> (Inl e, s) | None \<Rightarrow> (Inr (), s\<lparr>sent := sent s @ [(v, False)]\<rparr>))"

definition execute :: "qmp_io \<Rightarrow> string \<Rightarrow> json \<Rightarrow> json qmp" where
  "execute io nm arguments =
     (if \<not> is_token nm then throw (Qmp ''QMP command must be a token'')
      else andthen take_id (\<lambda>i.
        timed (''QMP '' @ nm @ '' timed out'')
          (andthen (write_request io i (request_value nm i arguments)) (\<lambda>_. read_reply io i))))"

definition fresh_monitor :: "arrival list \<Rightarrow> monitor" where
  "fresh_monitor xs = \<lparr>incoming = xs, next_id = 1, events = [], sent = []\<rparr>"

text \<open>\<open>AsyncQmp::connect\<close> on a stream that is open.\<close>

definition connect :: "qmp_io \<Rightarrow> unit qmp" where
  "connect io =
     andthen (timed ''QMP greeting timed out'' (read_frame io)) (\<lambda>greeting.
     if jget greeting ''QMP'' = None then throw (Qmp ''QMP greeting is missing'')
     else andthen (execute io ''qmp_capabilities'' JNull) (\<lambda>_. ret ()))"

definition drain_events :: "json list qmp" where
  "drain_events s = (Inr (events s), s\<lparr>events := []\<rparr>)"

definition send_descriptor :: "qmp_io \<Rightarrow> 64 word \<Rightarrow> json \<Rightarrow> unit qmp" where
  "send_descriptor io i v s = (case descriptor_outcome io i of
       Some e \<Rightarrow> (Inl (Qmp (''passing display socket to QEMU failed: '' @ e)), s)
     | None \<Rightarrow> (Inr (), s\<lparr>sent := sent s @ [(v, True)]\<rparr>))"

definition attach_dbus_display :: "qmp_io \<Rightarrow> unit qmp" where
  "attach_dbus_display io =
     andthen take_id (\<lambda>i.
     let fdname = ''me-display-'' @ show_nat (unat i) in
     andthen (send_descriptor io i (request_value ''getfd'' i (json_obj [(''fdname'', JStr fdname)]))) (\<lambda>_.
     andthen (timed ''QMP getfd timed out'' (read_reply io i)) (\<lambda>_.
     andthen (execute io ''add_client'' (json_obj [(''protocol'', JStr ''@dbus-display''), (''fdname'', JStr fdname)])) (\<lambda>_. ret ()))))"

section \<open>Unplug notifications\<close>

definition event_device :: "json \<Rightarrow> string option" where
  "event_device v = Option.bind (Option.bind (jget v ''data'') (\<lambda>d. jget d ''device'')) as_str"

text \<open>The queued events are taken out one by one until one decides the wait for the device.\<close>

datatype unplug = Deleted | Rejected

fun scan_events :: "string \<Rightarrow> json list \<Rightarrow> unplug option \<times> json list" where
  "scan_events dev [] = (None, [])"
| "scan_events dev (v # vs) =
     (if event_device v \<noteq> Some dev then scan_events dev vs
      else if jget_then v ''event'' as_str = Some ''DEVICE_DELETED'' then (Some Deleted, vs)
      else if jget_then v ''event'' as_str = Some ''DEVICE_UNPLUG_GUEST_ERROR'' then (Some Rejected, vs)
      else scan_events dev vs)"

function wait_device_deleted :: "qmp_io \<Rightarrow> string \<Rightarrow> bool qmp" where
  "wait_device_deleted io dev s = (case scan_events dev (events s) of
       (Some Deleted, rest) \<Rightarrow> (Inr True, s\<lparr>events := rest\<rparr>)
     | (Some Rejected, rest) \<Rightarrow> (Inl (Qmp ''guest rejected device removal''), s\<lparr>events := rest\<rparr>)
     | (None, _) \<Rightarrow> (case read_frame io (s\<lparr>events := []\<rparr>) of
           (Inr v, t) \<Rightarrow> wait_device_deleted io dev (if is_event v then t\<lparr>events := events t @ [v]\<rparr> else t)
         | (Inl (Failed e), t) \<Rightarrow> (Inl e, t)
         | (Inl Elapsed, t) \<Rightarrow> (Inr False, t)))"
  by pat_completeness auto
termination
  by (relation "measure (\<lambda>(io, dev, s). length (incoming s))") (auto dest!: read_frame_shorter [OF sym])

declare wait_device_deleted.simps [simp del]

section \<open>The blocking client\<close>

text \<open>A pause is a read that times out; the line may end with the stream.\<close>

fun read_line_blocking :: "8 word list \<Rightarrow> arrival list \<Rightarrow> (interrupt + 8 word list) \<times> arrival list" where
  "read_line_blocking bytes [] = (Inr bytes, [])"
| "read_line_blocking bytes (Pause # rest) = (Inl Elapsed, rest)"
| "read_line_blocking bytes (Byte b # rest) =
     (if b = 10 then (Inr (bytes @ [b]), rest) else read_line_blocking (bytes @ [b]) rest)"

definition parse_line :: "qmp_io \<Rightarrow> 8 word list \<Rightarrow> json option" where
  "parse_line io bytes = parse_frame io (map of_char (trim (map (\<lambda>b. char_of (unat b)) bytes)))"

definition read_message :: "qmp_io \<Rightarrow> json wait" where
  "read_message io s = (case read_line_blocking [] (incoming s) of
       (Inl e, rest) \<Rightarrow> (Inl e, s\<lparr>incoming := rest\<rparr>)
     | (Inr bytes, rest) \<Rightarrow>
         if bytes = [] then (Inl (Failed (Qmp ''QMP socket closed'')), s\<lparr>incoming := rest\<rparr>)
         else (ok_or (parse_line io bytes) (Failed (ManifestJson ''QMP frame'')), s\<lparr>incoming := rest\<rparr>))"

lemma read_line_blocking_shorter:
  "read_line_blocking bytes xs = (r, rest) \<Longrightarrow> length rest \<le> length xs \<and> (r \<noteq> Inr bytes \<longrightarrow> length rest < length xs)"
  by (induction bytes xs rule: read_line_blocking.induct) (fastforce split: if_splits)+

lemma read_message_shorter:
  "read_message io s = (r, t) \<Longrightarrow> (\<exists>v. r = Inr v) \<or> r = Inl Elapsed \<Longrightarrow> length (incoming t) < length (incoming s)"
  by (auto simp: read_message_def dest: read_line_blocking_shorter split: prod.splits sum.splits if_splits)

function read_reply_blocking :: "qmp_io \<Rightarrow> 64 word \<Rightarrow> json wait" where
  "read_reply_blocking io i s = (case read_message io s of
       (Inl e, t) \<Rightarrow> (Inl e, t)
     | (Inr v, t) \<Rightarrow>
         if is_event v then read_reply_blocking io i (store_event v t)
         else if jget v ''id'' \<noteq> Some (json_id i) then read_reply_blocking io i t
         else (case jget v ''error'' of
             Some e \<Rightarrow> (Inl (Failed (Qmp (json_text io e))), t)
           | None \<Rightarrow> (Inr (unwrap_or (jget v ''return'') JNull), t)))"
  by pat_completeness auto
termination
  by (relation "measure (\<lambda>(io, i, s). length (incoming s))") (auto simp: store_event_def dest!: read_message_shorter [OF sym])

declare read_reply_blocking.simps [simp del]

text \<open>A timed out read is an I/O error like the others.\<close>

definition socket_io :: "'a wait \<Rightarrow> 'a qmp" where
  "socket_io m s = (case m s of
       (Inl Elapsed, t) \<Rightarrow> (Inl (Io ''QMP socket'' ''timed out''), t)
     | (Inl (Failed e), t) \<Rightarrow> (Inl e, t)
     | (Inr a, t) \<Rightarrow> (Inr a, t))"

definition execute_blocking :: "qmp_io \<Rightarrow> string \<Rightarrow> json \<Rightarrow> json qmp" where
  "execute_blocking io nm arguments =
     (if \<not> is_token nm then throw (Qmp ''QMP command must be a non-empty token'')
      else andthen take_id (\<lambda>i.
        socket_io (andthen (write_request io i (request_value nm i arguments)) (\<lambda>_. read_reply_blocking io i))))"

definition connect_blocking :: "qmp_io \<Rightarrow> unit qmp" where
  "connect_blocking io =
     andthen (socket_io (read_message io)) (\<lambda>greeting.
     if jget greeting ''QMP'' = None then throw (Qmp ''QMP greeting is missing the QMP field'')
     else andthen (execute_blocking io ''qmp_capabilities'' JNull) (\<lambda>_. ret ()))"

definition attach_dbus_display_blocking :: "qmp_io \<Rightarrow> unit qmp" where
  "attach_dbus_display_blocking io =
     andthen take_id (\<lambda>i.
     let fdname = ''me-display-'' @ show_nat (unat i) in
     andthen (send_descriptor io i (request_value ''getfd'' i (json_obj [(''fdname'', JStr fdname)]))) (\<lambda>_.
     andthen (socket_io (read_reply_blocking io i)) (\<lambda>_.
     andthen (execute_blocking io ''add_client'' (json_obj [(''protocol'', JStr ''@dbus-display''), (''fdname'', JStr fdname)])) (\<lambda>_. ret ()))))"

text \<open>The deadline is given by the number of pauses until it has passed.\<close>

function wait_deleted_blocking :: "qmp_io \<Rightarrow> string \<Rightarrow> nat \<Rightarrow> bool qmp" where
  "wait_deleted_blocking io dev pauses s = (case scan_events dev (events s) of
       (Some Deleted, rest) \<Rightarrow> (Inr True, s\<lparr>events := rest\<rparr>)
     | (Some Rejected, rest) \<Rightarrow> (Inl (Qmp (''guest rejected removal of '' @ dev)), s\<lparr>events := rest\<rparr>)
     | (None, _) \<Rightarrow>
         if pauses = 0 then (Inr False, s\<lparr>events := []\<rparr>)
         else (case read_message io (s\<lparr>events := []\<rparr>) of
           (Inr v, t) \<Rightarrow> wait_deleted_blocking io dev pauses (if is_event v then t\<lparr>events := events t @ [v]\<rparr> else t)
         | (Inl Elapsed, t) \<Rightarrow> wait_deleted_blocking io dev (pauses - 1) t
         | (Inl (Failed e), t) \<Rightarrow> (Inl e, t)))"
  by pat_completeness auto
termination
  by (relation "measure (\<lambda>(io, dev, pauses, s). length (incoming s))") (auto dest!: read_message_shorter [OF sym])

declare wait_deleted_blocking.simps [simp del]

section \<open>The address of the guest\<close>

definition guest_address :: "json \<Rightarrow> string option" where
  "guest_address address =
     (if jget_then address ''ip-address-type'' as_str \<noteq> Some ''ipv4'' then None
      else case jget_then address ''ip-address'' as_str of
          None \<Rightarrow> None
        | Some ip \<Rightarrow> if starts_with ip ''127.'' \<or> starts_with ip ''169.254.'' then None else Some ip)"

definition first_some :: "('a \<Rightarrow> 'b option) \<Rightarrow> 'a list \<Rightarrow> 'b option" where
  "first_some f xs = foldr (\<lambda>x rest. case f x of None \<Rightarrow> rest | Some y \<Rightarrow> Some y) xs None"

definition interfaces_address :: "json list \<Rightarrow> string option" where
  "interfaces_address = first_some (\<lambda>interface.
     Option.bind (jget_then interface ''ip-addresses'' as_array) (first_some guest_address))"

text \<open>At most four lines of the agent are read; those that are not the answer are skipped.\<close>

fun read_addresses :: "qmp_io \<Rightarrow> nat \<Rightarrow> string option wait" where
  "read_addresses io 0 s = (Inr None, s)"
| "read_addresses io (Suc n) s = (case read_line_blocking [] (incoming s) of
       (Inl e, rest) \<Rightarrow> (Inl e, s\<lparr>incoming := rest\<rparr>)
     | (Inr bytes, rest) \<Rightarrow>
         if bytes = [] then (Inr None, s\<lparr>incoming := rest\<rparr>)
         else (case Option.bind (Option.bind (parse_line io bytes) (\<lambda>v. jget v ''return'')) as_array of
             None \<Rightarrow> read_addresses io n (s\<lparr>incoming := rest\<rparr>)
           | Some interfaces \<Rightarrow> (case interfaces_address interfaces of
               Some ip \<Rightarrow> (Inr (Some ip), s\<lparr>incoming := rest\<rparr>)
             | None \<Rightarrow> read_addresses io n (s\<lparr>incoming := rest\<rparr>))))"

definition agent_requests :: "json list" where
  "agent_requests = [json_obj [(''execute'', JStr ''guest-sync''), (''arguments'', json_obj [(''id'', JNum (PosInt 1))])],
     json_obj [(''execute'', JStr ''guest-network-get-interfaces'')]]"

definition guest_ipv4 :: "qmp_io \<Rightarrow> string option qmp" where
  "guest_ipv4 io =
     andthen (modify (\<lambda>s. s\<lparr>sent := sent s @ map (\<lambda>v. (v, False)) agent_requests\<rparr>)) (\<lambda>_. socket_io (read_addresses io 4))"

end
