(* ===== verification/QmpProperties.thy ===== *)
theory QmpProperties
  imports Qmp
begin

text \<open>
  What the QMP clients guarantee: a command gets the reply with its own ID, events met on the way stay queued within
  their bound, the blocking client agrees with the asynchronous one on whole messages, and what a timeout and a wait
  for an unplugged device lose.
\<close>

section \<open>Whole messages\<close>

text \<open>Messages with their bytes, and the stream that delivers them line by line.\<close>

type_synonym delivery = "(8 word list \<times> json) list"

definition framed :: "qmp_io \<Rightarrow> delivery \<Rightarrow> bool" where
  "framed io ms \<longleftrightarrow> (\<forall>(b, v) \<in> set ms. 10 \<notin> set b \<and> length b \<le> MAX_FRAME \<and> parse_frame io b = Some v)"

definition deliver :: "delivery \<Rightarrow> arrival list" where
  "deliver ms = concat (map (\<lambda>(b, v). map Byte b @ [Byte 10]) ms)"

lemma framed_simps [simp]:
  "framed io []"
  "framed io ((b, v) # ms) \<longleftrightarrow> 10 \<notin> set b \<and> length b \<le> MAX_FRAME \<and> parse_frame io b = Some v \<and> framed io ms"
  by (auto simp: framed_def)

lemma deliver_simps [simp]: "deliver [] = []" "deliver ((b, v) # ms) = map Byte b @ Byte 10 # deliver ms"
  by (simp_all add: deliver_def)

lemma framed_append [simp]: "framed io (xs @ ys) \<longleftrightarrow> framed io xs \<and> framed io ys"
  by (auto simp: framed_def)

lemma deliver_append [simp]: "deliver (xs @ ys) = deliver xs @ deliver ys"
  by (simp add: deliver_def)

lemma read_line_whole:
  "10 \<notin> set b \<Longrightarrow> length bytes + length b \<le> MAX_FRAME \<Longrightarrow> read_line_bytes bytes (map Byte b @ Byte 10 # rest) = (Inr (bytes @ b), rest)"
  by (induction b arbitrary: bytes) auto

lemma read_line_half:
  "10 \<notin> set b \<Longrightarrow> length bytes + length b \<le> MAX_FRAME \<Longrightarrow> read_line_bytes bytes (map Byte b @ Pause # rest) = (Inl Elapsed, rest)"
  by (induction b arbitrary: bytes) auto

lemma read_frame_whole:
  "10 \<notin> set b \<Longrightarrow> length b \<le> MAX_FRAME \<Longrightarrow> parse_frame io b = Some v \<Longrightarrow> incoming s = map Byte b @ Byte 10 # rest
    \<Longrightarrow> read_frame io s = (Inr v, s\<lparr>incoming := rest\<rparr>)"
  by (simp add: read_frame_def read_line_whole)

lemma read_frame_half:
  "10 \<notin> set b \<Longrightarrow> length b \<le> MAX_FRAME \<Longrightarrow> incoming s = map Byte b @ Pause # rest
    \<Longrightarrow> read_frame io s = (Inl Elapsed, s\<lparr>incoming := rest\<rparr>)"
  by (simp add: read_frame_def read_line_half)

text \<open>The queue keeps the last 256 events.\<close>

definition last_events :: "json list \<Rightarrow> json list" where "last_events vs = drop (length vs - 256) vs"

lemma last_events_id: "length vs \<le> 256 \<Longrightarrow> last_events vs = vs"
  by (simp add: last_events_def)

lemma length_last_events: "length (last_events vs) \<le> 256"
  by (simp add: last_events_def)

lemma store_event_last: "length (events s) \<le> 256 \<Longrightarrow> store_event v s = s\<lparr>events := last_events (events s @ [v])\<rparr>"
  by (auto simp: store_event_def last_events_def drop_Suc)

lemma last_events_last: "last_events (last_events vs @ ws) = last_events (vs @ ws)"
  by (cases "length vs \<le> 256") (simp_all add: last_events_def add.commute)

definition reply_of :: "qmp_io \<Rightarrow> json \<Rightarrow> interrupt + json" where
  "reply_of io r = (case jget r ''error'' of Some e \<Rightarrow> Inl (Failed (Qmp (json_text io e))) | None \<Rightarrow> Inr (unwrap_or (jget r ''return'') JNull))"

lemma read_reply_step:
  assumes "10 \<notin> set b" "length b \<le> MAX_FRAME" "parse_frame io b = Some v" "incoming s = map Byte b @ Byte 10 # rest"
  shows "read_reply io i s =
    (if is_event v then read_reply io i (store_event v (s\<lparr>incoming := rest\<rparr>))
     else if jget v ''id'' \<noteq> Some (json_id i) then read_reply io i (s\<lparr>incoming := rest\<rparr>)
     else (reply_of io v, s\<lparr>incoming := rest\<rparr>))"
  by (subst read_reply.simps) (auto simp: read_frame_whole [OF assms] reply_of_def split: option.split)

lemma read_reply_skips:
  "framed io (ms @ [(b, r)]) \<Longrightarrow> \<forall>v \<in> snd ` set ms. is_event v \<or> jget v ''id'' \<noteq> Some (json_id i) \<Longrightarrow>
   \<not> is_event r \<Longrightarrow> jget r ''id'' = Some (json_id i) \<Longrightarrow> length (events s) \<le> 256 \<Longrightarrow>
   incoming s = deliver (ms @ [(b, r)]) @ rest \<Longrightarrow>
   read_reply io i s = (reply_of io r, s\<lparr>incoming := rest, events := last_events (events s @ filter is_event (map snd ms))\<rparr>)"
proof (induction ms arbitrary: s)
  case Nil
  then show ?case by (subst read_reply_step [where b = b]) (auto simp: last_events_id)
next
  case (Cons m ms)
  obtain c v where m: "m = (c, v)" by force
  let ?rest = "deliver (ms @ [(b, r)]) @ rest"
  have step: "read_reply io i s = (if is_event v then read_reply io i (store_event v (s\<lparr>incoming := ?rest\<rparr>))
      else read_reply io i (s\<lparr>incoming := ?rest\<rparr>))"
    using Cons.prems m by (subst read_reply_step [where b = c and rest = ?rest]) auto
  show ?case
  proof (cases "is_event v")
    case True
    let ?s = "s\<lparr>incoming := ?rest, events := last_events (events s @ [v])\<rparr>"
    have "read_reply io i ?s = (reply_of io r, ?s\<lparr>incoming := rest, events := last_events (events ?s @ filter is_event (map snd ms))\<rparr>)"
      using Cons.prems m by (intro Cons.IH) (auto simp: length_last_events)
    moreover have "store_event v (s\<lparr>incoming := ?rest\<rparr>) = ?s" using Cons.prems by (simp add: store_event_last)
    ultimately show ?thesis using step True m by (simp add: last_events_last)
  next
    case False
    let ?s = "s\<lparr>incoming := ?rest\<rparr>"
    have "read_reply io i ?s = (reply_of io r, ?s\<lparr>incoming := rest, events := last_events (events ?s @ filter is_event (map snd ms))\<rparr>)"
      using Cons.prems m by (intro Cons.IH) auto
    then show ?thesis using step False m by simp
  qed
qed

text \<open>
  C22: A command gets the reply that carries its own ID. Replies to other requests in between are dropped, events are
  queued in their order with only the last 256 kept, one request is written and one ID used up, and nothing behind the
  reply is read.
\<close>

theorem command_gets_its_reply:
  assumes "framed io (ms @ [(b, r)])" and "incoming s = deliver (ms @ [(b, r)]) @ rest"
    and "\<forall>v \<in> snd ` set ms. is_event v \<or> jget v ''id'' \<noteq> Some (json_id (next_id s))"
    and "\<not> is_event r" and "jget r ''id'' = Some (json_id (next_id s))"
    and "length (events s) \<le> 256" and "is_token nm" and "write_outcome io (next_id s) = None"
  shows "execute io nm arguments s =
    (case jget r ''error'' of Some e \<Rightarrow> Inl (Qmp (json_text io e)) | None \<Rightarrow> Inr (unwrap_or (jget r ''return'') JNull),
     s\<lparr>incoming := rest, next_id := next_id s + 1, events := last_events (events s @ filter is_event (map snd ms)),
       sent := sent s @ [(request_value nm (next_id s) arguments, False)]\<rparr>)"
proof -
  let ?i = "next_id s"
  let ?s = "s\<lparr>next_id := ?i + 1, sent := sent s @ [(request_value nm ?i arguments, False)]\<rparr>"
  have "read_reply io ?i ?s = (reply_of io r, ?s\<lparr>incoming := rest, events := last_events (events ?s @ filter is_event (map snd ms))\<rparr>)"
    using assms by (intro read_reply_skips) simp_all
  then show ?thesis using assms(7,8)
    by (auto simp: execute_def take_id_def andthen_def timed_def write_request_def reply_of_def split: option.split)
qed


section \<open>A sample connection\<close>

text \<open>Messages of one byte, so that the parser is a finite table.\<close>

definition sample_parse :: "8 word list \<Rightarrow> json option" where
  "sample_parse b =
     (if b = [1] then Some (JObj [(''event'', JStr ''RESUME'')])
      else if b = [2] then Some (JObj [(''id'', json_id 1), (''return'', JStr ''old'')])
      else if b = [3] then Some (JObj [(''id'', json_id 2), (''return'', JStr ''new'')])
      else if b = [4] then Some (JObj [(''data'', JObj [(''device'', JStr ''me-net-1'')]), (''event'', JStr ''DEVICE_DELETED'')])
      else None)"

definition sample_qmp :: qmp_io where
  "sample_qmp = \<lparr>parse_frame = sample_parse, json_text = (\<lambda>_. []), write_outcome = (\<lambda>_. None), descriptor_outcome = (\<lambda>_. None)\<rparr>"

definition sample_messages :: delivery where
  "sample_messages = [([1], JObj [(''event'', JStr ''RESUME'')]), ([2], JObj [(''id'', json_id 1), (''return'', JStr ''old'')])]"

definition second_command :: "arrival list \<Rightarrow> monitor" where
  "second_command xs = \<lparr>incoming = xs, next_id = 2, events = [], sent = []\<rparr>"

lemma token_stop: "is_token ''stop''"
  by code_simp

lemma json_id_eq [simp]: "json_id i = json_id j \<longleftrightarrow> i = j"
  unfolding json_id_def by (simp only: json.inject num.inject word_unat_eq_iff)

lemma sample_framed: "framed sample_qmp (sample_messages @ [([3], JObj [(''id'', json_id 2), (''return'', JStr ''new'')])])"
  by (simp add: sample_messages_def sample_qmp_def sample_parse_def MAX_FRAME_def)

theorem command_gets_its_reply_witness:
  "execute sample_qmp ''stop'' JNull (second_command [Byte 1, Byte 10, Byte 2, Byte 10, Byte 3, Byte 10])
    = (Inr (JStr ''new''), (second_command [])\<lparr>next_id := 3, events := [JObj [(''event'', JStr ''RESUME'')]],
         sent := [(request_value ''stop'' 2 JNull, False)]\<rparr>)"
proof -
  let ?s = "second_command [Byte 1, Byte 10, Byte 2, Byte 10, Byte 3, Byte 10]"
  have "incoming ?s = deliver (sample_messages @ [([3], JObj [(''id'', json_id 2), (''return'', JStr ''new'')])]) @ []"
    by (simp add: second_command_def sample_messages_def)
  moreover have "\<forall>v \<in> snd ` set sample_messages. is_event v \<or> jget v ''id'' \<noteq> Some (json_id (next_id ?s))"
    by (simp add: sample_messages_def is_event_def second_command_def)
  moreover have "\<not> is_event (JObj [(''id'', json_id 2), (''return'', JStr ''new'')])" by (simp add: is_event_def)
  moreover have "jget (JObj [(''id'', json_id 2), (''return'', JStr ''new'')]) ''id'' = Some (json_id (next_id ?s))"
    by (simp add: second_command_def)
  moreover have "length (events ?s) \<le> 256" "write_outcome sample_qmp (next_id ?s) = None" by (simp_all add: second_command_def sample_qmp_def)
  ultimately show ?thesis using command_gets_its_reply [OF sample_framed _ _ _ _ _ token_stop]
    by (simp add: second_command_def sample_messages_def is_event_def last_events_def)
qed

section \<open>What a timeout loses\<close>

text \<open>
  C23: A command that times out in the middle of a message poisons the next one: the half that was read is dropped with
  the cancelled read, so the next command takes the other half for a message and fails, although its own reply is
  there to be read.
\<close>

theorem timeout_poisons_next_command:
  assumes "incoming s = map Byte p @ Pause # map Byte q @ Byte 10 # rest" and "10 \<notin> set p" and "10 \<notin> set q"
    and "length p \<le> MAX_FRAME" and "length q \<le> MAX_FRAME" and "parse_frame io q = None"
    and "is_token first" and "is_token second" and "write_outcome io (next_id s) = None" and "write_outcome io (next_id s + 1) = None"
  shows "\<exists>t u. execute io first a s = (Inl (Qmp (''QMP '' @ first @ '' timed out'')), t)
    \<and> execute io second b t = (Inl (ManifestJson ''QMP frame''), u) \<and> incoming u = rest"
proof -
  let ?t = "s\<lparr>next_id := next_id s + 1, sent := sent s @ [(request_value first (next_id s) a, False)], incoming := map Byte q @ Byte 10 # rest\<rparr>"
  let ?u = "?t\<lparr>next_id := next_id s + 1 + 1, sent := sent ?t @ [(request_value second (next_id s + 1) b, False)], incoming := rest\<rparr>"
  have "execute io first a s = (Inl (Qmp (''QMP '' @ first @ '' timed out'')), ?t)" using assms
    by (simp add: execute_def take_id_def andthen_def timed_def write_request_def read_reply.simps read_frame_half [where b = p])
  moreover have "execute io second b ?t = (Inl (ManifestJson ''QMP frame''), ?u)" using assms
    by (simp add: execute_def take_id_def andthen_def timed_def write_request_def read_reply.simps read_frame_def read_line_whole)
  ultimately show ?thesis by (intro exI conjI) (assumption, assumption, simp)
qed

theorem timeout_poisons_next_command_witness:
  "\<exists>t u. execute sample_qmp ''stop'' JNull (second_command [Byte 2, Pause, Byte 9, Byte 10, Byte 3, Byte 10])
      = (Inl (Qmp ''QMP stop timed out''), t)
    \<and> execute sample_qmp ''stop'' JNull t = (Inl (ManifestJson ''QMP frame''), u) \<and> incoming u = [Byte 3, Byte 10]"
  using timeout_poisons_next_command [of "second_command [Byte 2, Pause, Byte 9, Byte 10, Byte 3, Byte 10]" "[2]" "[9]"
    "[Byte 3, Byte 10]" sample_qmp "''stop''" "''stop''"] token_stop
  by (simp add: second_command_def sample_qmp_def sample_parse_def MAX_FRAME_def)


section \<open>Unplug notifications\<close>

text \<open>The messages a stream delivers before a wait on it would be interrupted.\<close>

function messages :: "qmp_io \<Rightarrow> arrival list \<Rightarrow> json list" where
  "messages io xs = (case read_line_bytes [] xs of
       (Inl e, rest) \<Rightarrow> []
     | (Inr b, rest) \<Rightarrow> (case parse_frame io b of None \<Rightarrow> [] | Some v \<Rightarrow> v # messages io rest))"
  by pat_completeness auto
termination by (relation "measure (\<lambda>(io, xs). length xs)") (auto dest!: read_line_shorter [OF sym])

declare messages.simps [simp del]

lemma messages_read_frame: "read_frame io s = (Inr v, t) \<Longrightarrow> messages io (incoming s) = v # messages io (incoming t)"
  by (subst messages.simps) (auto simp: read_frame_def ok_or_def split: prod.splits sum.splits option.splits)

definition reports_deletion :: "string \<Rightarrow> json \<Rightarrow> bool" where
  "reports_deletion dev v \<longleftrightarrow> event_device v = Some dev \<and> jget_then v ''event'' as_str = Some ''DEVICE_DELETED''"

lemma scan_events_Deleted: "scan_events dev vs = (Some Deleted, rest) \<Longrightarrow> \<exists>es v. vs = es @ v # rest \<and> reports_deletion dev v"
  by (induction dev vs rule: scan_events.induct) (fastforce simp: reports_deletion_def split: if_splits)+

lemma scan_events_append: "scan_events dev es = (None, []) \<Longrightarrow> scan_events dev (es @ vs) = scan_events dev vs"
  by (induction dev es rule: scan_events.induct) (auto split: if_splits)

lemma wait_confirmed:
  "wait_device_deleted io dev s = (Inr True, t) \<Longrightarrow>
    \<exists>v \<in> set (events s) \<union> set (messages io (incoming s)). reports_deletion dev v"
proof (induction io dev s rule: wait_device_deleted.induct)
  case (1 io dev s)
  from 1(2) have run: "(case scan_events dev (events s) of
       (Some Deleted, rest) \<Rightarrow> (Inr True, s\<lparr>events := rest\<rparr>)
     | (Some Rejected, rest) \<Rightarrow> (Inl (Qmp ''guest rejected device removal''), s\<lparr>events := rest\<rparr>)
     | (None, _) \<Rightarrow> (case read_frame io (s\<lparr>events := []\<rparr>) of
           (Inr v, t) \<Rightarrow> wait_device_deleted io dev (if is_event v then t\<lparr>events := events t @ [v]\<rparr> else t)
         | (Inl (Failed e), t) \<Rightarrow> (Inl e, t)
         | (Inl Elapsed, t) \<Rightarrow> (Inr False, t))) = (Inr True, t)"
    by (simp add: wait_device_deleted.simps)
  obtain q rest where scan: "scan_events dev (events s) = (q, rest)" by force
  show ?case
  proof (cases q)
    case None
    with run scan obtain v u where read: "read_frame io (s\<lparr>events := []\<rparr>) = (Inr v, u)"
      and go: "wait_device_deleted io dev (if is_event v then u\<lparr>events := events u @ [v]\<rparr> else u) = (Inr True, t)"
      by (auto split: prod.splits sum.splits interrupt.splits)
    have u: "events u = []" using read_frame_frame [OF read] by simp
    have ms: "messages io (incoming s) = v # messages io (incoming u)" using messages_read_frame [OF read] by simp
    from 1(1) [OF scan [symmetric] None read [symmetric] refl go] u ms show ?thesis by (auto split: if_splits)
  next
    case (Some d)
    with run scan have "d = Deleted" by (cases d) auto
    with scan Some obtain es v where "events s = es @ v # rest" "reports_deletion dev v" using scan_events_Deleted by blast
    then show ?thesis by auto
  qed
qed

text \<open>
  A device counts as removed only when QEMU has reported the removal of just this device, in an event that was
  queued or arrived during the wait; but the wait takes every other event before that one out of the queue and
  forgets it.
\<close>

theorem unplug_is_confirmed:
  assumes "wait_device_deleted io dev s = (Inr True, t)"
  shows "(\<exists>v \<in> set (events s) \<union> set (messages io (incoming s)).
      event_device v = Some dev \<and> jget_then v ''event'' as_str = Some ''DEVICE_DELETED'')
    \<and> (\<forall>es v rest. events s = es @ v # rest \<and> scan_events dev es = (None, []) \<and> reports_deletion dev v \<longrightarrow> events t = rest)"
proof (intro conjI allI impI)
  show "\<exists>v \<in> set (events s) \<union> set (messages io (incoming s)). event_device v = Some dev \<and> jget_then v ''event'' as_str = Some ''DEVICE_DELETED''"
    using wait_confirmed [OF assms] unfolding reports_deletion_def .
next
  fix es v rest
  assume "events s = es @ v # rest \<and> scan_events dev es = (None, []) \<and> reports_deletion dev v"
  then have "scan_events dev (events s) = (Some Deleted, rest)" by (simp add: scan_events_append reports_deletion_def)
  with assms have "t = s\<lparr>events := rest\<rparr>" by (subst (asm) wait_device_deleted.simps) auto
  then show "events t = rest" by simp
qed

definition unplugging :: monitor where
  "unplugging = (second_command [])\<lparr>events := [JObj [(''event'', JStr ''SHUTDOWN'')],
     JObj [(''data'', JObj [(''device'', JStr ''me-net-1'')]), (''event'', JStr ''DEVICE_DELETED'')]]\<rparr>"

theorem unplug_is_confirmed_witness:
  "\<exists>t. wait_device_deleted sample_qmp ''me-net-1'' unplugging = (Inr True, t) \<and> events t = []"
proof -
  let ?del = "JObj [(''data'', JObj [(''device'', JStr ''me-net-1'')]), (''event'', JStr ''DEVICE_DELETED'')]"
  have wait: "wait_device_deleted sample_qmp ''me-net-1'' unplugging = (Inr True, unplugging\<lparr>events := []\<rparr>)"
    by (subst wait_device_deleted.simps) (simp add: unplugging_def event_device_def jget_then_def)
  have "events unplugging = [JObj [(''event'', JStr ''SHUTDOWN'')]] @ ?del # []" by (simp add: unplugging_def)
  moreover have "scan_events ''me-net-1'' [JObj [(''event'', JStr ''SHUTDOWN'')]] = (None, [])" "reports_deletion ''me-net-1'' ?del"
    by (simp_all add: event_device_def reports_deletion_def jget_then_def)
  ultimately have "events (unplugging\<lparr>events := []\<rparr>) = []"
    using unplug_is_confirmed [OF wait, THEN conjunct2] by blast
  with wait show ?thesis by blast
qed

section \<open>Every reachable connection\<close>

definition request_id :: "json \<Rightarrow> nat" where
  "request_id v = (case jget_then v ''id'' as_u64 of Some n \<Rightarrow> n | None \<Rightarrow> 0)"

definition monitor_ok :: "monitor \<Rightarrow> bool" where
  "monitor_ok s \<longleftrightarrow> length (events s) \<le> 256 \<and> sorted_wrt (<) (map (\<lambda>(v, _). request_id v) (sent s))
     \<and> (\<forall>(v, _) \<in> set (sent s). request_id v < unat (next_id s))"

text \<open>An operation that uses up at most \<open>k\<close> request IDs and keeps the connection well formed.\<close>

definition advances :: "nat \<Rightarrow> (monitor, 'e, 'a) action \<Rightarrow> bool" where
  "advances k m \<longleftrightarrow> (\<forall>s. monitor_ok s \<and> unat (next_id s) + k < 2 ^ 64 \<longrightarrow>
     monitor_ok (snd (m s)) \<and> unat (next_id (snd (m s))) \<le> unat (next_id s) + k)"

lemma request_id_value: "request_id (request_value nm i a) = unat i"
  by (auto simp: request_id_def request_value_def json_obj_def json_id_def jget_then_def oget_oput)

lemma read_reply_keeps:
  "read_reply io i s = (r, t) \<Longrightarrow> length (events s) \<le> 256 \<Longrightarrow> next_id t = next_id s \<and> sent t = sent s \<and> length (events t) \<le> 256"
proof (induction io i s rule: read_reply.induct)
  case (1 io i s)
  obtain q u where read: "read_frame io s = (q, u)" by force
  note kept = read_frame_frame [OF read]
  show ?case
  proof (cases q)
    case (Inl e)
    with 1(3,4) read kept show ?thesis by (subst (asm) read_reply.simps) auto
  next
    case (Inr v)
    note IH = 1(1,2) [OF read [symmetric] Inr]
    have ev: "length (events (store_event v u)) \<le> 256 \<and> next_id (store_event v u) = next_id s \<and> sent (store_event v u) = sent s"
      using kept 1(4) by (simp add: store_event_last length_last_events)
    from 1(3) read Inr have "(if is_event v then read_reply io i (store_event v u)
         else if jget v ''id'' \<noteq> Some (json_id i) then read_reply io i u else (reply_of io v, u)) = (r, t)"
      by (subst (asm) read_reply.simps) (auto simp: reply_of_def split: option.splits if_splits)
    with IH ev kept 1(4) show ?thesis by (auto split: if_splits)
  qed
qed

lemma monitor_ok_issue:
  assumes "monitor_ok s" "unat (next_id s) + 1 < 2 ^ 64" "v = request_value nm (next_id s) a"
  shows "monitor_ok (s\<lparr>next_id := next_id s + 1, sent := sent s @ [(v, b)]\<rparr>)" "monitor_ok (s\<lparr>next_id := next_id s + 1\<rparr>)"
    "unat (next_id s + 1) = unat (next_id s) + 1"
proof -
  show succ: "unat (next_id s + 1) = unat (next_id s) + 1"
    using assms(2) by (simp add: unat_word_ariths)
  show "monitor_ok (s\<lparr>next_id := next_id s + 1, sent := sent s @ [(v, b)]\<rparr>)" "monitor_ok (s\<lparr>next_id := next_id s + 1\<rparr>)"
    using assms(1,3) by (auto simp: monitor_ok_def succ request_id_value sorted_wrt_append less_Suc_eq)
qed


lemma advancesD: "advances k m \<Longrightarrow> monitor_ok s \<Longrightarrow> unat (next_id s) + k < 2 ^ 64 \<Longrightarrow>
    monitor_ok (snd (m s)) \<and> unat (next_id (snd (m s))) \<le> unat (next_id s) + k"
  unfolding advances_def by blast

lemma advances_andthen:
  assumes "advances j m" and "\<And>a. advances k (f a)"
  shows "advances (j + k) (andthen m f)"
  unfolding advances_def
proof (intro allI impI, elim conjE)
  fix s assume ok: "monitor_ok s" and room: "unat (next_id s) + (j + k) < 2 ^ 64"
  have one: "monitor_ok (snd (m s))" "unat (next_id (snd (m s))) \<le> unat (next_id s) + j"
    using advancesD [OF assms(1) ok] room by auto
  show "monitor_ok (snd (andthen m f s)) \<and> unat (next_id (snd (andthen m f s))) \<le> unat (next_id s) + (j + k)"
  proof (cases "fst (m s)")
    case (Inl e)
    with one show ?thesis by (simp add: andthen_state)
  next
    case (Inr a)
    have "unat (next_id (snd (m s))) + k < 2 ^ 64" using one(2) room by linarith
    from advancesD [OF assms(2) one(1) this, of a] one(2) Inr show ?thesis by (auto simp: andthen_state)
  qed
qed

lemma advances_basic: "advances 0 (ret a)" "advances 0 (throw e)" "advances 0 drain_events"
  by (simp_all add: advances_def drain_events_def monitor_ok_def)

lemma timed_state: "snd (timed message m s) = snd (m s)"
  by (auto simp: timed_def split: prod.split sum.split interrupt.split)

lemma monitor_ok_read:
  assumes "monitor_ok s" and "read_reply io i s = (r, t)"
  shows "monitor_ok t \<and> next_id t = next_id s"
  using assms read_reply_keeps [OF assms(2)] by (simp add: monitor_ok_def)

lemma advances_command:
  assumes "\<And>s. send s = (Inr (), s\<lparr>sent := sent s @ [(request_value nm i a, b)]\<rparr>) \<or> (\<exists>e. send s = (Inl e, s))" and "unat (next_id s) + 1 < 2 ^ 64"
    and "monitor_ok s" and "i = next_id s" and "wait (andthen send (\<lambda>_. read_reply io i)) (s\<lparr>next_id := i + 1\<rparr>) = (r, t)"
    and "\<And>m s. snd (wait m s) = snd (m s)"
  shows "monitor_ok t \<and> unat (next_id t) = unat (next_id s) + 1"
proof -
  let ?s = "s\<lparr>next_id := i + 1\<rparr>"
  have t: "t = snd (andthen send (\<lambda>_. read_reply io i) ?s)" using assms(5,6) by (metis snd_conv)
  from assms(1) [of ?s] show ?thesis
  proof
    assume "send ?s = (Inr (), ?s\<lparr>sent := sent ?s @ [(request_value nm i a, b)]\<rparr>)"
    then obtain q where "read_reply io i (s\<lparr>next_id := i + 1, sent := sent s @ [(request_value nm i a, b)]\<rparr>) = (q, t)"
      using t by (auto simp: prod_eq_iff)
    from monitor_ok_read [OF _ this] monitor_ok_issue(1) [OF assms(3,2), of "request_value nm i a" nm a b] monitor_ok_issue(3) [OF assms(3,2) refl] assms(4) show ?thesis by simp
  next
    assume "\<exists>e. send ?s = (Inl e, ?s)"
    then have "t = ?s" using t by auto
    with monitor_ok_issue(2,3) [OF assms(3,2) refl] assms(4) show ?thesis by simp
  qed
qed

lemma write_request_cases: "write_request io i v s = (Inr (), s\<lparr>sent := sent s @ [(v, False)]\<rparr>) \<or> (\<exists>e. write_request io i v s = (Inl e, s))"
  by (simp add: write_request_def split: option.split)

lemma advances_execute: "advances 1 (execute io nm a)"
proof (cases "is_token nm")
  case True
  show ?thesis unfolding advances_def
  proof (intro allI impI, elim conjE)
    fix s assume ok: "monitor_ok s" "unat (next_id s) + 1 < 2 ^ 64"
    let ?i = "next_id s"
    obtain r t where run: "timed (''QMP '' @ nm @ '' timed out'') (andthen (write_request io ?i (request_value nm ?i a)) (\<lambda>_. read_reply io ?i))
        (s\<lparr>next_id := ?i + 1\<rparr>) = (r, t)" by force
    have "monitor_ok t \<and> unat (next_id t) = unat (next_id s) + 1"
      by (rule advances_command [OF write_request_cases ok(2,1) refl run timed_state])
    then show "monitor_ok (snd (execute io nm a s)) \<and> unat (next_id (snd (execute io nm a s))) \<le> unat (next_id s) + 1"
      using run True by (simp add: execute_def take_id_def andthen_def)
  qed
next
  case False
  then show ?thesis by (simp add: execute_def advances_def)
qed


lemma advances_read_reply: "advances 0 (timed message (read_reply io i))"
  unfolding advances_def timed_state by (metis add_0_right monitor_ok_read order_refl prod.collapse)

lemma advances_display: "advances 2 (attach_dbus_display io)"
  unfolding advances_def
proof (intro allI impI, elim conjE)
  fix s assume ok: "monitor_ok s" and room: "unat (next_id s) + 2 < 2 ^ 64"
  let ?i = "next_id s" and ?t = "attach_dbus_display io s"
  let ?fd = "''me-display-'' @ show_nat (unat ?i)"
  let ?v = "request_value ''getfd'' ?i (json_obj [(''fdname'', JStr ?fd)])"
  let ?more = "andthen (timed ''QMP getfd timed out'' (read_reply io ?i)) (\<lambda>_.
      andthen (execute io ''add_client'' (json_obj [(''protocol'', JStr ''@dbus-display''), (''fdname'', JStr ?fd)])) (\<lambda>_. ret ()))"
  let ?s = "s\<lparr>next_id := ?i + 1, sent := sent s @ [(?v, True)]\<rparr>"
  have room1: "unat ?i + 1 < 2 ^ 64" using room by linarith
  note issue = monitor_ok_issue [OF ok room1 refl]
  show "monitor_ok (snd ?t) \<and> unat (next_id (snd ?t)) \<le> unat ?i + 2"
  proof (cases "descriptor_outcome io ?i")
    case None
    then have t: "?t = ?more ?s" by (simp add: attach_dbus_display_def take_id_def andthen_def send_descriptor_def Let_def)
    have "advances (0 + (1 + 0)) ?more" by (intro advances_andthen advances_read_reply advances_execute advances_basic)
    then have "advances 1 ?more" by simp
    from advancesD [OF this, of ?s] issue(1) [of "''getfd''" "json_obj [(''fdname'', JStr ?fd)]" True] issue(3) room
    show ?thesis unfolding t by auto
  next
    case (Some e)
    then have "snd ?t = s\<lparr>next_id := ?i + 1\<rparr>" by (simp add: attach_dbus_display_def take_id_def andthen_def send_descriptor_def Let_def)
    with issue(2,3) show ?thesis by simp
  qed
qed

lemma scan_events_rest: "scan_events dev vs = (q, rest) \<Longrightarrow> length rest \<le> length vs"
  by (induction dev vs rule: scan_events.induct) (auto split: if_splits)

lemma wait_keeps:
  "wait_device_deleted io dev s = (r, t) \<Longrightarrow> length (events s) \<le> 256 \<Longrightarrow> next_id t = next_id s \<and> sent t = sent s \<and> length (events t) \<le> 256"
proof (induction io dev s rule: wait_device_deleted.induct)
  case (1 io dev s)
  obtain q rest where scan: "scan_events dev (events s) = (q, rest)" by force
  show ?case
  proof (cases q)
    case None
    obtain p u where read: "read_frame io (s\<lparr>events := []\<rparr>) = (p, u)" by force
    note kept = read_frame_frame [OF read]
    show ?thesis
    proof (cases p)
      case (Inl e)
      with 1(2,3) scan None read kept show ?thesis by (subst (asm) wait_device_deleted.simps) (auto split: interrupt.splits)
    next
      case (Inr v)
      note IH = 1(1) [OF scan [symmetric] None read [symmetric] Inr]
      from 1(2) scan None read Inr have "wait_device_deleted io dev (if is_event v then u\<lparr>events := events u @ [v]\<rparr> else u) = (r, t)"
        by (subst (asm) wait_device_deleted.simps) auto
      from IH [OF this] kept show ?thesis by (auto split: if_splits)
    qed
  next
    case (Some d)
    with 1(2,3) scan scan_events_rest [OF scan] show ?thesis by (subst (asm) wait_device_deleted.simps) (auto split: unplug.splits)
  qed
qed

lemma advances_wait: "advances 0 (wait_device_deleted io dev)"
  unfolding advances_def
proof (intro allI impI, elim conjE)
  fix s assume ok: "monitor_ok s"
  obtain r t where run: "wait_device_deleted io dev s = (r, t)" by force
  with wait_keeps [OF run] ok show "monitor_ok (snd (wait_device_deleted io dev s)) \<and>
      unat (next_id (snd (wait_device_deleted io dev s))) \<le> unat (next_id s) + 0"
    by (simp add: monitor_ok_def)
qed

lemma advances_connect: "advances 1 (connect io)"
proof -
  have greeting: "advances 0 (timed message (read_frame io))" for message
    unfolding advances_def timed_state
  proof (intro allI impI)
    fix s assume "monitor_ok s \<and> unat (next_id s) + 0 < 2 ^ 64"
    with read_frame_frame [of io s "fst (read_frame io s)" "snd (read_frame io s)"]
    show "monitor_ok (snd (read_frame io s)) \<and> unat (next_id (snd (read_frame io s))) \<le> unat (next_id s) + 0"
      by (simp add: monitor_ok_def)
  qed
  have "advances 1 (andthen (execute io nm a) (\<lambda>_. ret ()))" for nm a
    using advances_andthen [OF advances_execute advances_basic(1)] by simp
  moreover have "advances 1 (throw e :: unit qmp)" for e by (simp add: advances_def)
  ultimately have "advances (0 + 1) (connect io)" unfolding connect_def by (intro advances_andthen greeting) simp
  then show ?thesis by simp
qed

text \<open>What a connection goes through: the operations of the client, and more of the stream arriving.\<close>

inductive monitor_step :: "qmp_io \<Rightarrow> monitor \<Rightarrow> monitor \<Rightarrow> bool" for io where
  "monitor_step io s (snd (execute io nm a s))"
| "monitor_step io s (snd (attach_dbus_display io s))"
| "monitor_step io s (snd (wait_device_deleted io dev s))"
| "monitor_step io s (snd (connect io s))"
| "monitor_step io s (snd (drain_events s))"
| "monitor_step io s (s\<lparr>incoming := incoming s @ xs\<rparr>)"

lemma step_ok:
  assumes "monitor_step io s t" and "monitor_ok s" and "unat (next_id s) + 2 < 2 ^ 64"
  shows "monitor_ok t \<and> unat (next_id t) \<le> unat (next_id s) + 2"
proof -
  have room: "unat (next_id s) + 1 < 2 ^ 64" "unat (next_id s) + 0 < 2 ^ 64" using assms(3) by linarith+
  from assms(1) show ?thesis
  proof cases
    case (1 nm a)
    then show ?thesis using advancesD [OF advances_execute assms(2) room(1)] by (auto intro: le_SucI)
  next
    case 2
    then show ?thesis using advancesD [OF advances_display assms(2,3)] by simp
  next
    case (3 dev)
    then show ?thesis using advancesD [OF advances_wait assms(2) room(2)] by (auto intro!: le_SucI)
  next
    case 4
    then show ?thesis using advancesD [OF advances_connect assms(2) room(1)] by (auto intro: le_SucI)
  next
    case 5
    then show ?thesis using assms(2) by (simp add: drain_events_def monitor_ok_def)
  next
    case (6 xs)
    then show ?thesis using assms(2) by (simp add: monitor_ok_def)
  qed
qed

text \<open>
  C24: On every connection, for the first 2^63 steps, at most 256 events are queued and the requests carry strictly
  increasing IDs below the next one: no reply can be taken for the reply to another request.
\<close>

theorem connection_stays_ok:
  assumes "(monitor_step io ^^ n) (fresh_monitor xs) s" and "2 * n + 1 < 2 ^ 64"
  shows "length (events s) \<le> 256 \<and> sorted_wrt (<) (map (\<lambda>(v, _). request_id v) (sent s))
    \<and> (\<forall>(v, _) \<in> set (sent s). request_id v < unat (next_id s))"
proof -
  have "(monitor_step io ^^ n) (fresh_monitor xs) s \<Longrightarrow> 2 * n + 1 < 2 ^ 64 \<Longrightarrow> monitor_ok s \<and> unat (next_id s) \<le> 2 * n + 1"
  proof (induction n arbitrary: s)
    case 0
    then show ?case by (auto simp: fresh_monitor_def monitor_ok_def)
  next
    case (Suc n)
    then obtain t where t: "(monitor_step io ^^ n) (fresh_monitor xs) t" "monitor_step io t s" by auto
    have "2 * n + 1 < 2 * Suc n + 1" by simp
    also note Suc.prems(2)
    finally have "2 * n + 1 < 2 ^ 64" .
    from Suc.IH [OF t(1) this] have ok: "monitor_ok t" "unat (next_id t) \<le> 2 * n + 1" by simp_all
    then have "unat (next_id t) + 2 \<le> 2 * Suc n + 1" by simp
    from le_less_trans [OF this Suc.prems(2)] have "unat (next_id t) + 2 < 2 ^ 64" .
    from step_ok [OF t(2) ok(1) this] ok(2) show ?case by simp
  qed
  with assms show ?thesis unfolding monitor_ok_def by blast
qed

theorem connection_stays_ok_witness:
  "length (events (snd (execute sample_qmp ''stop'' JNull (fresh_monitor [Byte 1, Byte 10])))) \<le> 256"
proof -
  have "(monitor_step sample_qmp ^^ 1) (fresh_monitor [Byte 1, Byte 10]) (snd (execute sample_qmp ''stop'' JNull (fresh_monitor [Byte 1, Byte 10])))"
    by (simp add: eq_OO monitor_step.intros(1))
  from connection_stays_ok [OF this] show ?thesis by simp
qed


section \<open>The two clients\<close>

text \<open>The parser ignores the newline and blanks around a message.\<close>

definition framed_lines :: "qmp_io \<Rightarrow> delivery \<Rightarrow> bool" where
  "framed_lines io ms \<longleftrightarrow> framed io ms \<and> (\<forall>(b, v) \<in> set ms. parse_line io (b @ [10]) = Some v)"

lemma read_line_blocking_whole:
  "10 \<notin> set b \<Longrightarrow> read_line_blocking bytes (map Byte b @ Byte 10 # rest) = (Inr (bytes @ b @ [10]), rest)"
  by (induction b arbitrary: bytes) auto

lemma clients_agree_reply:
  "framed_lines io ms \<Longrightarrow> incoming s = deliver ms \<Longrightarrow> read_reply io i s = (r, t) \<Longrightarrow>
    \<exists>q. read_reply_blocking io i s = (q, t) \<and> (\<forall>v. q = Inr v \<longleftrightarrow> r = Inr v)"
proof (induction ms arbitrary: s)
  case Nil
  then show ?case
    by (auto simp: read_reply.simps read_reply_blocking.simps read_frame_def read_message_def)
next
  case (Cons m ms)
  obtain b v where m: "m = (b, v)" by force
  let ?rest = "deliver ms" and ?u = "s\<lparr>incoming := deliver ms\<rparr>"
  from Cons.prems(1) m have b: "10 \<notin> set b" "length b \<le> MAX_FRAME" "parse_frame io b = Some v" "parse_line io (b @ [10]) = Some v"
    and lines: "framed_lines io ms" by (auto simp: framed_lines_def)
  from Cons.prems(2) m have s: "incoming s = map Byte b @ Byte 10 # ?rest" by simp
  have async: "(if is_event v then read_reply io i (store_event v ?u)
     else if jget v ''id'' \<noteq> Some (json_id i) then read_reply io i ?u else (reply_of io v, ?u)) = (r, t)"
    using Cons.prems(3) unfolding read_reply_step [OF b(1,2,3) s] .
  have "read_message io s = (Inr v, ?u)" using b(1,4) s by (simp add: read_message_def read_line_blocking_whole)
  then have block: "read_reply_blocking io i s = (if is_event v then read_reply_blocking io i (store_event v ?u)
     else if jget v ''id'' \<noteq> Some (json_id i) then read_reply_blocking io i ?u else (reply_of io v, ?u))"
    by (subst read_reply_blocking.simps) (auto simp: reply_of_def split: option.split)
  have ev: "incoming (store_event v ?u) = deliver ms" by (simp add: store_event_def)
  show ?case
    using Cons.IH [OF lines ev] Cons.IH [OF lines, of ?u] async unfolding block by (auto split: if_splits)
qed

lemma timed_Inr: "fst (timed message m s) = Inr v \<longleftrightarrow> fst (m s) = Inr v"
  by (auto simp: timed_def split: prod.split sum.split interrupt.split)

lemma socket_io_Inr: "fst (socket_io m s) = Inr v \<longleftrightarrow> fst (m s) = Inr v" "snd (socket_io m s) = snd (m s)"
  by (auto simp: socket_io_def split: prod.split sum.split interrupt.split)

text \<open>
  C25: On a stream of whole messages the blocking client and the asynchronous one do the same: the same reply for every
  command that gets one, the same queued events, requests and unread messages; only the texts of errors differ.
\<close>

theorem clients_agree:
  assumes "framed_lines io ms" and "incoming s = deliver ms"
  shows "snd (execute io nm a s) = snd (execute_blocking io nm a s)
    \<and> (\<forall>v. fst (execute io nm a s) = Inr v \<longleftrightarrow> fst (execute_blocking io nm a s) = Inr v)"
proof (cases "is_token nm")
  case True
  let ?i = "next_id s" and ?s = "s\<lparr>next_id := next_id s + 1\<rparr>"
  let ?v = "request_value nm ?i a"
  show ?thesis
  proof (cases "write_outcome io ?i")
    case None
    let ?w = "?s\<lparr>sent := sent s @ [(?v, False)]\<rparr>"
    obtain r t where rt: "read_reply io ?i ?w = (r, t)" by force
    obtain q where q: "read_reply_blocking io ?i ?w = (q, t)" "\<forall>v. q = Inr v \<longleftrightarrow> r = Inr v"
      using clients_agree_reply [OF assms(1) _ rt] assms(2) by auto
    show ?thesis using True None rt q
      by (cases r; cases q) (auto simp: execute_def execute_blocking_def take_id_def andthen_def write_request_def timed_def
        socket_io_def split: interrupt.split)
  next
    case (Some e)
    with True show ?thesis
      by (simp add: execute_def execute_blocking_def take_id_def andthen_def write_request_def timed_def socket_io_def split: interrupt.split)
  qed
next
  case False
  then show ?thesis by (simp add: execute_def execute_blocking_def)
qed

theorem clients_agree_witness:
  "snd (execute sample_qmp ''stop'' JNull (second_command (deliver sample_messages)))
    = snd (execute_blocking sample_qmp ''stop'' JNull (second_command (deliver sample_messages)))"
proof -
  have bytes: "map (\<lambda>b. char_of (unat b)) ([1, 10] :: 8 word list) = [CHR 0x01, CHR 0x0A]"
    "map (\<lambda>b. char_of (unat b)) ([2, 10] :: 8 word list) = [CHR 0x02, CHR 0x0A]"
    by (simp_all add: char_of_def bit_simps bit_Suc_0_iff)
  have trimmed: "trim [CHR 0x01, CHR 0x0A] = [CHR 0x01]" "trim [CHR 0x02, CHR 0x0A] = [CHR 0x02]"
    by (simp_all add: trim_def white_space_chars trim_prefixes.simps)
  have "parse_line sample_qmp [1, 10] = Some (JObj [(''event'', JStr ''RESUME'')])"
    "parse_line sample_qmp [2, 10] = Some (JObj [(''id'', json_id 1), (''return'', JStr ''old'')])"
    unfolding parse_line_def bytes trimmed by (simp_all add: sample_qmp_def sample_parse_def)
  then have "framed_lines sample_qmp sample_messages"
    by (simp add: framed_lines_def sample_messages_def sample_qmp_def sample_parse_def MAX_FRAME_def)
  moreover have "incoming (second_command (deliver sample_messages)) = deliver sample_messages" by (simp add: second_command_def)
  ultimately show ?thesis using clients_agree by blast
qed

section \<open>The address of the guest\<close>

lemma first_some_mem: "first_some f xs = Some y \<Longrightarrow> \<exists>x \<in> set xs. f x = Some y"
  unfolding first_some_def by (induction xs) (auto split: option.splits)

lemma interfaces_address_mem:
  "interfaces_address is = Some ip \<Longrightarrow> \<exists>i \<in> set is. \<exists>as. jget_then i ''ip-addresses'' as_array = Some as \<and> (\<exists>a \<in> set as. guest_address a = Some ip)"
  unfolding interfaces_address_def by (fastforce dest!: first_some_mem simp: bind_eq_Some_conv)

lemma guest_address_reachable: "guest_address a = Some ip \<Longrightarrow>
    jget_then a ''ip-address'' as_str = Some ip \<and> \<not> starts_with ip ''127.'' \<and> \<not> starts_with ip ''169.254.''"
  by (auto simp: guest_address_def split: if_splits option.splits)

lemma guest_ipv4_reachable: "guest_ipv4 io s = (Inr (Some ip), t) \<Longrightarrow> \<not> starts_with ip ''127.'' \<and> \<not> starts_with ip ''169.254.''"
proof -
  have "read_addresses io n s = (Inr (Some ip), t) \<Longrightarrow> \<not> starts_with ip ''127.'' \<and> \<not> starts_with ip ''169.254.''" for n s t
    by (induction io n s rule: read_addresses.induct)
       (auto split: prod.splits sum.splits if_splits option.splits dest!: interfaces_address_mem guest_address_reachable)
  then show "guest_ipv4 io s = (Inr (Some ip), t) \<Longrightarrow> \<not> starts_with ip ''127.'' \<and> \<not> starts_with ip ''169.254.''"
    by (auto simp: guest_ipv4_def andthen_def socket_io_def split: prod.splits sum.splits interrupt.splits)
qed

end
