(* ===== verification/Devices.thy ===== *)
theory Devices
  imports Qmp
begin

text \<open>
  Hot-plugging of devices: \<open>crates/machineemu-core/src/runtime/devices.rs\<close> and its HTTP side
  \<open>crates/machineemu/src/api/devices.rs\<close>. The operations are sequences of QMP commands; \<open>exec\<close> is the command of the
  connection they run on (\<open>qmp(self, command, arguments)\<close>), so that a connection that keeps a log can be used too.
\<close>

type_synonym 's exec = "string \<Rightarrow> json \<Rightarrow> ('s, core_error, json) action"
type_synonym 's unplug_wait = "string \<Rightarrow> ('s, core_error, bool) action"

section \<open>Requests\<close>

definition jfields :: "(string \<times> string) list \<Rightarrow> json" where
  "jfields kvs = json_obj (map (\<lambda>(k, v). (k, JStr v)) kvs)"

definition jnat :: "nat \<Rightarrow> json" where "jnat n = JNum (PosInt n)"

definition usb_host_device :: "id \<Rightarrow> nat \<Rightarrow> nat \<Rightarrow> json" where
  "usb_host_device i hostbus hostaddr =
     json_obj [(''driver'', JStr ''usb-host''), (''id'', JStr i), (''hostbus'', jnat hostbus), (''hostaddr'', jnat hostaddr)]"

definition block_node :: "string \<Rightarrow> bool \<Rightarrow> path \<Rightarrow> json" where
  "block_node node read_only p =
     json_obj [(''node-name'', JStr node), (''driver'', JStr ''raw''), (''read-only'', JBool read_only),
       (''file'', jfields [(''driver'', ''file''), (''filename'', p)])]"

definition socket_chardev :: "string \<Rightarrow> path \<Rightarrow> json" where
  "socket_chardev chardev p =
     json_obj [(''id'', JStr chardev), (''backend'', json_obj [(''type'', JStr ''socket''), (''data'',
       json_obj [(''addr'', json_obj [(''type'', JStr ''unix''), (''data'', jfields [(''path'', p)])]),
                 (''server'', JBool True), (''wait'', JBool False)])])]"

definition network_device :: "string \<Rightarrow> id \<Rightarrow> string \<Rightarrow> string \<Rightarrow> string option \<Rightarrow> json" where
  "network_device model i backend bus hwaddr =
     jfields ([(''driver'', model), (''id'', i), (''netdev'', backend), (''bus'', bus)] @ (case hwaddr of None \<Rightarrow> [] | Some m \<Rightarrow> [(''mac'', m)]))"

section \<open>Attaching\<close>

text \<open>Undo commands that run when the last step failed; their own errors are ignored.\<close>

fun undo_all :: "'s exec \<Rightarrow> (string \<times> json) list \<Rightarrow> ('s, core_error, unit) action" where
  "undo_all exec [] = ret ()"
| "undo_all exec ((c, a) # rest) = andthen (attempt (exec c a)) (\<lambda>_. undo_all exec rest)"

definition or_undo :: "'s exec \<Rightarrow> string \<times> json \<Rightarrow> (string \<times> json) list \<Rightarrow> ('s, core_error, json) action" where
  "or_undo exec step undo =
     andthen (attempt (exec (fst step) (snd step))) (\<lambda>r. case r of
         Inl e \<Rightarrow> andthen (undo_all exec undo) (\<lambda>_. throw e)
       | Inr v \<Rightarrow> ret v)"

text \<open>\<open>Path::to_str\<close>, given which paths are UTF-8.\<close>

definition utf8_name :: "(path \<Rightarrow> bool) \<Rightarrow> path \<Rightarrow> path core_result" where
  "utf8_name utf8 p = (if utf8 p then Inr p else Inl (Process ''media path is not UTF-8''))"

definition usb_host_attach :: "'s exec \<Rightarrow> id \<Rightarrow> nat \<Rightarrow> nat \<Rightarrow> ('s, core_error, json) action" where
  "usb_host_attach exec i hostbus hostaddr = exec ''device_add'' (usb_host_device i hostbus hostaddr)"

definition usb_image_attach :: "'s exec \<Rightarrow> (path \<Rightarrow> bool) \<Rightarrow> id \<Rightarrow> path \<Rightarrow> bool \<Rightarrow> ('s, core_error, json) action" where
  "usb_image_attach exec utf8 i img read_only =
     (let node = i @ ''-node'' in
      andthen (lift (utf8_name utf8 img)) (\<lambda>fname.
      andthen (exec ''blockdev-add'' (block_node node read_only fname)) (\<lambda>_.
      or_undo exec (''device_add'', jfields [(''driver'', ''usb-storage''), (''id'', i), (''drive'', node)])
        [(''blockdev-del'', jfields [(''node-name'', node)])])))"

text \<open>The file name is looked at only when the controller is already there, and its error leaves at once.\<close>

definition iso_attach :: "'s exec \<Rightarrow> (path \<Rightarrow> bool) \<Rightarrow> id \<Rightarrow> path \<Rightarrow> string \<Rightarrow> ('s, core_error, json) action" where
  "iso_attach exec utf8 i img bus =
     (let controller = i @ ''-ctl''; node = i @ ''-node'' in
      andthen (exec ''device_add'' (jfields [(''driver'', ''virtio-scsi-pci''), (''id'', controller), (''bus'', bus)])) (\<lambda>_.
      andthen (lift (utf8_name utf8 img)) (\<lambda>fname.
      andthen (or_undo exec (''blockdev-add'', block_node node True fname) [(''device_del'', jfields [(''id'', controller)])]) (\<lambda>_.
      or_undo exec (''device_add'', jfields [(''driver'', ''scsi-cd''), (''id'', i), (''bus'', controller @ ''.0''), (''drive'', node)])
        [(''blockdev-del'', jfields [(''node-name'', node)]), (''device_del'', jfields [(''id'', controller)])]))))"

definition iso_change :: "'s exec \<Rightarrow> (path \<Rightarrow> bool) \<Rightarrow> id \<Rightarrow> path \<Rightarrow> ('s, core_error, json) action" where
  "iso_change exec utf8 i img =
     andthen (lift (utf8_name utf8 img)) (\<lambda>fname.
     exec ''blockdev-change-medium'' (jfields [(''id'', i), (''filename'', fname), (''format'', ''raw''), (''read-only-mode'', ''read-only'')]))"

definition iso_eject :: "'s exec \<Rightarrow> id \<Rightarrow> bool \<Rightarrow> ('s, core_error, json) action" where
  "iso_eject exec i force =
     andthen (exec ''blockdev-open-tray'' (json_obj [(''id'', JStr i), (''force'', JBool force)])) (\<lambda>_.
     andthen (exec ''blockdev-remove-medium'' (jfields [(''id'', i)])) (\<lambda>_.
     exec ''blockdev-close-tray'' (jfields [(''id'', i)])))"

definition network_attach :: "'s exec \<Rightarrow> id \<Rightarrow> string \<Rightarrow> string option \<Rightarrow> string \<Rightarrow> ('s, core_error, json) action" where
  "network_attach exec i model hwaddr bus =
     (let backend = i @ ''-netdev'' in
      andthen (exec ''netdev_add'' (jfields [(''type'', ''user''), (''id'', backend)])) (\<lambda>_.
      or_undo exec (''device_add'', network_device model i backend bus hwaddr) [(''netdev_del'', jfields [(''id'', backend)])]))"

definition usbredir_attach :: "'s exec \<Rightarrow> (path \<Rightarrow> bool) \<Rightarrow> id \<Rightarrow> path \<Rightarrow> ('s, core_error, json) action" where
  "usbredir_attach exec utf8 i socket =
     (let chardev = i @ ''-char'' in
      andthen (lift (utf8_name utf8 socket)) (\<lambda>fname.
      andthen (exec ''chardev-add'' (socket_chardev chardev fname)) (\<lambda>_.
      or_undo exec (''device_add'', jfields [(''driver'', ''usb-redir''), (''id'', i), (''chardev'', chardev)])
        [(''chardev-remove'', jfields [(''id'', chardev)])])))"

section \<open>Detaching\<close>

definition detach_cleanup :: "id \<Rightarrow> string \<Rightarrow> (string \<times> json) option core_result" where
  "detach_cleanup i kind =
     (if kind \<in> {''usb-image'', ''iso''} then Inr (Some (''blockdev-del'', jfields [(''node-name'', i @ ''-node'')]))
      else if kind = ''network'' then Inr (Some (''netdev_del'', jfields [(''id'', i @ ''-netdev'')]))
      else if kind = ''usbredir'' then Inr (Some (''chardev-remove'', jfields [(''id'', i @ ''-char'')]))
      else if kind = ''usb-host'' then Inr None
      else Inl (Process ''unknown device kind''))"

definition run_cleanup :: "'s exec \<Rightarrow> (string \<times> json) option \<Rightarrow> ('s, core_error, unit) action" where
  "run_cleanup exec cleanup = (case cleanup of
       None \<Rightarrow> ret () | Some (c, a) \<Rightarrow> andthen (exec c a) (\<lambda>_. ret ()))"

definition remove_controller :: "'s exec \<Rightarrow> 's unplug_wait \<Rightarrow> id \<Rightarrow> ('s, core_error, unit) action" where
  "remove_controller exec wait i =
     andthen (exec ''device_del'' (jfields [(''id'', i @ ''-ctl'')])) (\<lambda>_. andthen (wait (i @ ''-ctl'')) (\<lambda>_. ret ()))"

definition detach_device :: "'s exec \<Rightarrow> 's unplug_wait \<Rightarrow> id \<Rightarrow> string \<Rightarrow> ('s, core_error, bool) action" where
  "detach_device exec wait i kind =
     andthen (exec ''device_del'' (jfields [(''id'', i)])) (\<lambda>_.
     andthen (wait i) (\<lambda>gone.
     if \<not> gone then ret False
     else
       andthen (lift (detach_cleanup i kind)) (\<lambda>cleanup.
       andthen (run_cleanup exec cleanup) (\<lambda>_.
       andthen (if kind = ''iso'' then remove_controller exec wait i else ret ()) (\<lambda>_. ret True)))))"

definition query_usb :: "'s exec \<Rightarrow> ('s, core_error, json) action" where
  "query_usb exec = exec ''human-monitor-command'' (jfields [(''command-line'', ''info usb'')])"

definition query_block :: "'s exec \<Rightarrow> ('s, core_error, json) action" where "query_block exec = exec ''query-block'' JNull"
definition query_network :: "'s exec \<Rightarrow> ('s, core_error, json) action" where "query_network exec = exec ''query-pci'' JNull"

section \<open>The HTTP side\<close>

record device_request =
  hostbus :: "nat option"
  hostaddr :: "nat option"
  media :: "path option"
  media_read_only :: "bool option"
  nic_model :: "string option"
  nic_mac :: "string option"
  pci_port :: "string option"

record media_env =
  canonical :: "path \<Rightarrow> path option"       \<comment> \<open>\<open>fs::canonicalize\<close>\<close>
  regular :: "path \<Rightarrow> bool"
  is_utf8 :: "path \<Rightarrow> bool"

definition refused :: "string \<Rightarrow> 'a core_result" where "refused m = Inl (Process m)"

definition managed_prefix :: "string \<Rightarrow> string option" where
  "managed_prefix kind = map_of [(''usb-host'', ''me-usbh-''), (''usb-image'', ''me-usbi-''), (''iso'', ''me-iso-''),
     (''network'', ''me-net-''), (''usbredir'', ''me-redir-'')] kind"

definition managed_id :: "string \<Rightarrow> string \<Rightarrow> id core_result" where
  "managed_id kind v =
     rbind (id_new ''device'' v) (\<lambda>i.
     case managed_prefix kind of
       None \<Rightarrow> refused ''unknown device kind''
     | Some p \<Rightarrow>
         if \<not> starts_with i p \<or> length i = length p then refused ''device ID must use its managed prefix''
         else if 48 < length i then refused ''device ID is too long'' else Inr i)"

definition pci_bus :: "string option \<Rightarrow> string core_result" where
  "pci_bus v =
     rbind (ok_or v (Process ''bus is required for PCI hotplug; reserve a PCIe root port at VM launch'')) (\<lambda>bus.
     if \<not> starts_with bus ''pcie-root-port-'' \<or> \<not> list_all (\<lambda>c. is_ascii_lowercase c \<or> is_ascii_digit c \<or> c = CHR ''-'') bus
     then refused ''bus must name a reserved pcie-root-port-* device'' else Inr bus)"

definition path_file_name :: "path \<Rightarrow> string option" where
  "path_file_name p = (case rev (filter (\<lambda>c. c \<notin> {'''', ''.''}) (split_on (CHR ''/'') p)) of
       [] \<Rightarrow> None | c # _ \<Rightarrow> if c = ''..'' then None else Some c)"

definition path_extension :: "path \<Rightarrow> string option" where
  "path_extension p = Option.bind (path_file_name p) (\<lambda>n.
     let tail = takeWhile (\<lambda>c. c \<noteq> CHR ''.'') (rev n) in
     if length n \<le> length tail + 1 then None else Some (rev tail))"

text \<open>Every component of a relative path is a plain name.\<close>

definition plain_components :: "path \<Rightarrow> bool" where
  "plain_components p \<longleftrightarrow> \<not> has_parent_dir p \<and> hd (split_on (CHR ''/'') p) \<noteq> ''.''"

definition media_path :: "media_env \<Rightarrow> path \<Rightarrow> path \<Rightarrow> bool \<Rightarrow> path core_result" where
  "media_path env root v cd =
     (if v = [] then refused ''media path is empty''
      else if cd \<and> path_extension v \<noteq> Some ''iso'' then refused ''CD media must have an .iso extension''
      else if \<not> is_absolute v \<and> \<not> plain_components v then refused ''relative media paths must stay inside workspace/media''
      else
        rbind (ok_or (canonical env (if is_absolute v then v else path_join (path_join root ''media'') v)) (Process ''media file does not exist'')) (\<lambda>p.
        if \<not> regular env p then refused ''media path must name a regular file'' else Inr p))"

definition mac_ok :: "string \<Rightarrow> bool" where
  "mac_ok m \<longleftrightarrow> length m = 17 \<and> length (split_on (CHR '':'') m) = 6
     \<and> list_all (\<lambda>octet. length octet = 2 \<and> list_all is_ascii_hexdigit octet) (split_on (CHR '':'') m)"

definition attach_media :: "media_env \<Rightarrow> path \<Rightarrow> device_request \<Rightarrow> bool \<Rightarrow> path core_result" where
  "attach_media env root req cd = rbind (ok_or (media req) (Process ''path is required'')) (\<lambda>p. media_path env root p cd)"

text \<open>The checks of a network card; the bus is what is left to know.\<close>

definition network_model :: "device_request \<Rightarrow> string" where
  "network_model req = unwrap_or (nic_model req) ''virtio-net-pci''"

definition network_bus :: "device_request \<Rightarrow> string core_result" where
  "network_bus req =
     (if network_model req \<notin> {''virtio-net-pci'', ''e1000'', ''rtl8139''} then refused ''unsupported network card model''
      else if (case nic_mac req of None \<Rightarrow> False | Some m \<Rightarrow> \<not> mac_ok m) then refused ''invalid MAC address''
      else pci_bus (pci_port req))"

definition attach_network :: "'s exec \<Rightarrow> id \<Rightarrow> device_request \<Rightarrow> ('s, core_error, json) action" where
  "attach_network exec i req =
     (let backend = i @ ''-netdev'' in
      andthen (lift (network_bus req)) (\<lambda>bus.
      andthen (exec ''netdev_add'' (jfields [(''type'', ''user''), (''id'', backend)])) (\<lambda>_.
      or_undo exec (''device_add'', network_device (network_model req) i backend bus (nic_mac req))
        [(''netdev_del'', jfields [(''id'', backend)])])))"

definition attach_usb_image :: "'s exec \<Rightarrow> media_env \<Rightarrow> path \<Rightarrow> id \<Rightarrow> device_request \<Rightarrow> ('s, core_error, json) action" where
  "attach_usb_image exec env root i req =
     andthen (lift (attach_media env root req False)) (\<lambda>p.
     let node = i @ ''-node'' in
     andthen (lift (utf8_name (is_utf8 env) p)) (\<lambda>fname.
     andthen (exec ''blockdev-add'' (block_node node (unwrap_or (media_read_only req) False) fname)) (\<lambda>_.
     or_undo exec (''device_add'', jfields [(''driver'', ''usb-storage''), (''id'', i), (''drive'', node)])
       [(''blockdev-del'', jfields [(''node-name'', node)])])))"

definition attach_iso :: "'s exec \<Rightarrow> media_env \<Rightarrow> path \<Rightarrow> id \<Rightarrow> device_request \<Rightarrow> ('s, core_error, json) action" where
  "attach_iso exec env root i req =
     andthen (lift (attach_media env root req True)) (\<lambda>p.
     let controller = i @ ''-ctl''; node = i @ ''-node'' in
     andthen (lift (pci_bus (Some (unwrap_or (pci_port req) ''pcie-root-port-iso'')))) (\<lambda>bus.
     andthen (exec ''device_add'' (jfields [(''driver'', ''virtio-scsi-pci''), (''id'', controller), (''bus'', bus)])) (\<lambda>_.
     andthen (lift (utf8_name (is_utf8 env) p)) (\<lambda>fname.
     andthen (or_undo exec (''blockdev-add'', block_node node True fname) [(''device_del'', jfields [(''id'', controller)])]) (\<lambda>_.
     or_undo exec (''device_add'', jfields [(''driver'', ''scsi-cd''), (''id'', i), (''bus'', controller @ ''.0''), (''drive'', node)])
       [(''blockdev-del'', jfields [(''node-name'', node)]), (''device_del'', jfields [(''id'', controller)])])))))"

definition attach_usbredir :: "'s exec \<Rightarrow> media_env \<Rightarrow> path \<Rightarrow> id \<Rightarrow> id \<Rightarrow> ('s, core_error, json) action" where
  "attach_usbredir exec env root inst i =
     (if i \<noteq> ''me-redir-0'' then throw (Process ''USB redirection supports device ID me-redir-0'')
      else
        let socket = path_join (path_join (path_join root ''instances'') inst) ''usbredir.sock''; chardev = i @ ''-char'' in
        andthen (lift (utf8_name (is_utf8 env) socket)) (\<lambda>fname.
        andthen (exec ''chardev-add'' (socket_chardev chardev fname)) (\<lambda>_.
        or_undo exec (''device_add'', jfields [(''driver'', ''usb-redir''), (''id'', i), (''chardev'', chardev)])
          [(''chardev-remove'', jfields [(''id'', chardev)])])))"

definition attach :: "'s exec \<Rightarrow> media_env \<Rightarrow> path \<Rightarrow> id \<Rightarrow> string \<Rightarrow> id \<Rightarrow> device_request \<Rightarrow> ('s, core_error, json) action" where
  "attach exec env root inst kind i req =
     (if kind = ''usb-host'' then
        andthen (lift (ok_or (hostbus req) (Process ''hostbus is required''))) (\<lambda>bus.
        andthen (lift (ok_or (hostaddr req) (Process ''hostaddr is required''))) (\<lambda>addr.
        exec ''device_add'' (usb_host_device i bus addr)))
      else if kind = ''usb-image'' then attach_usb_image exec env root i req
      else if kind = ''iso'' then attach_iso exec env root i req
      else if kind = ''network'' then attach_network exec i req
      else if kind = ''usbredir'' then attach_usbredir exec env root inst i
      else throw (Process ''unknown device kind''))"

text \<open>The removal of the controller is best effort here.\<close>

definition detach :: "'s exec \<Rightarrow> 's unplug_wait \<Rightarrow> id \<Rightarrow> string \<Rightarrow> ('s, core_error, bool) action" where
  "detach exec wait i kind =
     andthen (exec ''device_del'' (jfields [(''id'', i)])) (\<lambda>_.
     andthen (wait i) (\<lambda>gone.
     if \<not> gone then ret False
     else
       andthen (lift (detach_cleanup i kind)) (\<lambda>cleanup.
       andthen (run_cleanup exec cleanup) (\<lambda>_.
       andthen (if kind = ''iso'' then
                  andthen (attempt (exec ''device_del'' (jfields [(''id'', i @ ''-ctl'')]))) (\<lambda>r.
                  if is_ok r then andthen (wait (i @ ''-ctl'')) (\<lambda>_. ret ()) else ret ())
                else ret ()) (\<lambda>_. ret True)))))"

definition device_result :: "id \<Rightarrow> (string \<times> json) list \<Rightarrow> json" where
  "device_result i others = json_obj ((''device_id'', JStr i) # others)"

definition attach_handler :: "'s exec \<Rightarrow> media_env \<Rightarrow> path \<Rightarrow> id \<Rightarrow> string \<Rightarrow> string \<Rightarrow> device_request \<Rightarrow> ('s, core_error, json) action" where
  "attach_handler exec env root inst kind dev req =
     andthen (lift (managed_id kind dev)) (\<lambda>i.
     andthen (attach exec env root inst kind i req) (\<lambda>response.
     ret (device_result i [(''kind'', JStr kind), (''result'', response)])))"

definition detach_handler :: "'s exec \<Rightarrow> 's unplug_wait \<Rightarrow> string \<Rightarrow> string \<Rightarrow> ('s, core_error, json) action" where
  "detach_handler exec wait kind dev =
     andthen (lift (managed_id kind dev)) (\<lambda>i.
     andthen (detach exec wait i kind) (\<lambda>completed.
     ret (device_result i [(''kind'', JStr kind), (''detached'', JBool completed)])))"

definition change_iso :: "'s exec \<Rightarrow> media_env \<Rightarrow> path \<Rightarrow> string \<Rightarrow> path \<Rightarrow> ('s, core_error, json) action" where
  "change_iso exec env root dev p =
     andthen (lift (managed_id ''iso'' dev)) (\<lambda>i.
     andthen (lift (media_path env root p True)) (\<lambda>p.
     andthen (iso_change exec (is_utf8 env) i p) (\<lambda>v. ret (device_result i [(''result'', v)]))))"

definition eject_iso :: "'s exec \<Rightarrow> string \<Rightarrow> bool \<Rightarrow> ('s, core_error, json) action" where
  "eject_iso exec dev force =
     andthen (lift (managed_id ''iso'' dev)) (\<lambda>i.
     andthen (iso_eject exec i force) (\<lambda>v. ret (device_result i [(''result'', v)])))"

definition hotplugged_cd :: "json \<Rightarrow> bool" where
  "hotplugged_cd device \<longleftrightarrow> list_ex (\<lambda>field. case jget_then device field as_str of
       None \<Rightarrow> False | Some i \<Rightarrow> i = ''me-iso'' \<or> starts_with i ''me-iso-'') [''device'', ''qdev'']"

definition list_devices :: "'s exec \<Rightarrow> string \<Rightarrow> ('s, core_error, json) action" where
  "list_devices exec kind =
     (if kind \<in> {''usb-host'', ''usb-image'', ''usbredir''} then query_usb exec
      else if kind = ''iso'' then
        andthen (query_block exec) (\<lambda>v. ret (case v of JArr xs \<Rightarrow> JArr (filter hotplugged_cd xs) | _ \<Rightarrow> v))
      else if kind = ''network'' then query_network exec
      else throw (Process ''unknown device kind''))"

end
