(* ===== verification/DeviceProperties.thy ===== *)
theory DeviceProperties
  imports Devices QmpProperties
begin

text \<open>
  What hot-plugging guarantees, read off a log of the commands: only managed objects are named, a failed attach asks
  for the removal of everything it had added (with one exception), the daemon's operations agree with those of the core
  crate, and a removal that is still pending can not be finished later.
\<close>

section \<open>The log of a connection\<close>

type_synonym command_log = "(string \<times> json \<times> bool) list"

definition logged :: "'s exec \<Rightarrow> ('s \<times> command_log) exec" where
  "logged exec c a sl = (case exec c a (fst sl) of (r, t) \<Rightarrow> (r, (t, snd sl @ [(c, a, is_ok r)])))"

definition logged_wait :: "'s unplug_wait \<Rightarrow> ('s \<times> command_log) unplug_wait" where
  "logged_wait wait dev sl = (case wait dev (fst sl) of (r, t) \<Rightarrow> (r, (t, snd sl)))"

text \<open>The object a command adds or removes.\<close>

definition added :: "string \<Rightarrow> json \<Rightarrow> string option" where
  "added c a = (if c = ''blockdev-add'' then jget_then a ''node-name'' as_str
     else if c \<in> {''device_add'', ''netdev_add'', ''chardev-add''} then jget_then a ''id'' as_str else None)"

definition removed :: "string \<Rightarrow> json \<Rightarrow> string option" where
  "removed c a = (if c = ''blockdev-del'' then jget_then a ''node-name'' as_str
     else if c \<in> {''device_del'', ''netdev_del'', ''chardev-remove''} then jget_then a ''id'' as_str else None)"

text \<open>What was added and not asked to be removed since.\<close>

definition left_step :: "string list \<Rightarrow> string \<times> json \<times> bool \<Rightarrow> string list" where
  "left_step names = (\<lambda>(c, a, ok). case removed c a of
       Some n \<Rightarrow> removeAll n names
     | None \<Rightarrow> (case added c a of Some n \<Rightarrow> if ok then n # names else names | None \<Rightarrow> names))"

definition left_over :: "command_log \<Rightarrow> string list" where "left_over log = foldl left_step [] log"

lemma left_over_simps [simp]: "left_over [] = []" "left_over (log @ [x]) = left_step (left_over log) x"
  by (simp_all add: left_over_def)

named_theorems request_simps \<open>the objects the requests name\<close>

lemma jfields_id: "jget_then (jfields kvs) k as_str = map_of (rev kvs) k"
proof -
  have "oget (foldl (\<lambda>m (k, v). oput k v m) m (map (\<lambda>(k, v). (k, JStr v)) kvs)) k =
      (case map_of (rev kvs) k of None \<Rightarrow> oget m k | Some v \<Rightarrow> Some (JStr v))" for m
    by (induction kvs arbitrary: m) (auto simp: oget_oput split: option.splits)
  from this [of "[]"] show ?thesis by (auto simp: jfields_def json_obj_def jget_then_def split: option.splits)
qed

lemma request_objects [request_simps]:
  "added ''device_add'' (usb_host_device i hb ha) = Some i"
  "added ''blockdev-add'' (block_node n ro p) = Some n"
  "added ''chardev-add'' (socket_chardev n p) = Some n"
  "added ''device_add'' (network_device model i backend bus hw) = Some i"
  "added ''device_add'' (jfields kvs) = map_of (rev kvs) ''id''"
  "added ''netdev_add'' (jfields kvs) = map_of (rev kvs) ''id''"
  "removed ''device_del'' (jfields kvs) = map_of (rev kvs) ''id''"
  "removed ''netdev_del'' (jfields kvs) = map_of (rev kvs) ''id''"
  "removed ''chardev-remove'' (jfields kvs) = map_of (rev kvs) ''id''"
  "removed ''blockdev-del'' (jfields kvs) = map_of (rev kvs) ''node-name''"
  by (simp_all add: added_def removed_def jfields_id network_device_def split: option.split)
     (simp_all add: usb_host_device_def block_node_def socket_chardev_def json_obj_def jget_then_def oget_oput)

lemma removed_none [request_simps]:
  "removed ''device_add'' a = None" "removed ''blockdev-add'' a = None" "removed ''netdev_add'' a = None" "removed ''chardev-add'' a = None"
  "added ''device_del'' a = None" "added ''blockdev-del'' a = None" "added ''netdev_del'' a = None" "added ''chardev-remove'' a = None"
  by (simp_all add: removed_def added_def)

section \<open>Which objects are named\<close>

text \<open>An action that only appends commands of a kind to the log.\<close>

definition only :: "(string \<Rightarrow> json \<Rightarrow> bool) \<Rightarrow> ('s \<times> command_log, core_error, 'a) action \<Rightarrow> bool" where
  "only ok m \<longleftrightarrow> (\<forall>s l. \<exists>more. snd (snd (m (s, l))) = l @ more \<and> (\<forall>(c, a, b) \<in> set more. ok c a))"

lemma only_basic: "only ok (ret a)" "only ok (throw e)" "only ok (lift r)"
  by (simp_all add: only_def)

lemma only_logged: "ok c a \<Longrightarrow> only ok (logged exec c a)"
  by (auto simp: only_def logged_def split: prod.split)

lemma only_wait: "only ok (logged_wait wait dev)"
  by (simp add: only_def logged_wait_def split: prod.split)

lemma only_andthen:
  assumes "only ok m" and "\<And>a. only ok (f a)"
  shows "only ok (andthen m f)"
  unfolding only_def
proof (intro allI)
  fix s l
  obtain r t l' where m: "m (s, l) = (r, (t, l'))" by (metis prod.collapse)
  from assms(1) m obtain a where a: "l' = l @ a" "\<forall>(c, x, b) \<in> set a. ok c x" unfolding only_def by (metis snd_conv)
  show "\<exists>more. snd (snd (andthen m f (s, l))) = l @ more \<and> (\<forall>(c, a, b) \<in> set more. ok c a)"
  proof (cases r)
    case (Inl e)
    with m a show ?thesis by auto
  next
    case (Inr v)
    from assms(2) [of v] obtain b where "snd (snd (f v (t, l'))) = l' @ b" "\<forall>(c, x, b) \<in> set b. ok c x" unfolding only_def by metis
    with m Inr a show ?thesis by (intro exI [of _ "a @ b"]) auto
  qed
qed

lemma only_attempt: "only ok m \<Longrightarrow> only ok (attempt m)"
  by (simp add: only_def)

lemma only_undo: "\<forall>(c, a) \<in> set undo. ok c a \<Longrightarrow> only ok (undo_all (logged exec) undo)"
  by (induction undo) (auto intro!: only_basic only_andthen only_attempt only_logged)

lemma only_or_undo: "ok (fst step) (snd step) \<Longrightarrow> \<forall>(c, a) \<in> set undo. ok c a \<Longrightarrow> only ok (or_undo (logged exec) step undo)"
  unfolding or_undo_def by (intro only_andthen only_attempt only_logged) (auto split: sum.split intro!: only_andthen only_undo only_basic)

lemma only_if: "only ok m \<Longrightarrow> only ok n \<Longrightarrow> only ok (if b then m else n)"
  by simp

lemmas only_rules = only_if only_basic only_wait only_andthen only_attempt only_or_undo only_logged

definition managed :: "string \<Rightarrow> string \<Rightarrow> json \<Rightarrow> bool" where
  "managed p c a \<longleftrightarrow> (\<forall>n. added c a = Some n \<or> removed c a = Some n \<longrightarrow> starts_with n p \<and> length n \<le> 55)"

lemma managed_id_Inr:
  "managed_id kind v = Inr i \<Longrightarrow> i = v \<and> id_valid v \<and> length i \<le> 48 \<and> (\<exists>p. managed_prefix kind = Some p \<and> starts_with i p \<and> length p < length i)"
  by (auto simp: managed_id_def rbind_Inr_iff id_new_def refused_def starts_with_iff split: if_splits option.splits)

lemma starts_with_append: "starts_with s p \<Longrightarrow> starts_with (s @ t) p"
  by (auto simp: starts_with_iff)

lemma managed_requests:
  assumes "starts_with i p" and "length i \<le> 48"
  shows "managed p ''device_add'' (usb_host_device i hb ha)" "managed p ''blockdev-add'' (block_node (i @ ''-node'') ro f)"
    "managed p ''chardev-add'' (socket_chardev (i @ ''-char'') f)" "managed p ''device_add'' (network_device model i backend bus hw)"
    "managed p ''netdev_add'' (jfields [(''type'', ''user''), (''id'', i @ ''-netdev'')])"
    "managed p ''netdev_del'' (jfields [(''id'', i @ ''-netdev'')])" "managed p ''chardev-remove'' (jfields [(''id'', i @ ''-char'')])"
    "managed p ''blockdev-del'' (jfields [(''node-name'', i @ ''-node'')])"
    "managed p ''device_del'' (jfields [(''id'', i)])" "managed p ''device_del'' (jfields [(''id'', i @ ''-ctl'')])"
    "managed p ''device_add'' (jfields [(''driver'', ''virtio-scsi-pci''), (''id'', i @ ''-ctl''), (''bus'', bus)])"
    "managed p ''device_add'' (jfields [(''driver'', ''scsi-cd''), (''id'', i), (''bus'', b), (''drive'', node)])"
    "managed p ''device_add'' (jfields [(''driver'', ''usb-storage''), (''id'', i), (''drive'', node)])"
    "managed p ''device_add'' (jfields [(''driver'', ''usb-redir''), (''id'', i), (''chardev'', chardev)])"
  using assms by (simp_all add: managed_def request_simps starts_with_append)


lemma only_run_cleanup: "detach_cleanup i kind = Inr cleanup \<Longrightarrow> starts_with i p \<Longrightarrow> length i \<le> 48 \<Longrightarrow>
    only (managed p) (run_cleanup (logged exec) cleanup)"
  by (auto simp: detach_cleanup_def run_cleanup_def split: if_splits intro!: only_basic only_andthen only_logged managed_requests)

lemma only_lift_andthen:
  assumes "\<And>a. r = Inr a \<Longrightarrow> only ok (f a)"
  shows "only ok (andthen (lift r) f)"
proof (cases r)
  case (Inl e)
  then have "andthen (lift r) f = throw e" by (simp add: fun_eq_iff andthen_def)
  then show ?thesis by (simp add: only_basic)
next
  case (Inr a)
  then have "andthen (lift r) f = f a" by (simp add: fun_eq_iff andthen_def)
  with assms Inr show ?thesis by simp
qed

lemma only_attach:
  assumes "starts_with i p" "length i \<le> 48"
  shows "only (managed p) (attach (logged exec) env root inst kind i req)"
proof -
  note req = managed_requests [OF assms]
  show ?thesis
    unfolding attach_def attach_usb_image_def attach_iso_def attach_network_def attach_usbredir_def Let_def
    by (intro only_rules req) (simp_all add: req)
qed

lemma only_detach:
  assumes "starts_with i p" "length i \<le> 48"
  shows "only (managed p) (detach (logged exec) (logged_wait wait) i kind)"
  unfolding detach_def
  by (auto intro!: only_andthen only_lift_andthen only_wait only_basic only_attempt only_logged managed_requests [OF assms]
      only_run_cleanup [OF _ assms])

text \<open>
  C26: Hot-plugging cannot touch the hardware an instance was started with: every object that an attach or a detach over
  HTTP adds or removes has a name with the prefix reserved for its kind, of at most 55 bytes.
\<close>

theorem requests_name_managed_objects:
  "(\<forall>(c, a, ok) \<in> set (snd (snd (attach_handler (logged exec) env root inst kind dev req (s, [])))).
     \<forall>n. added c a = Some n \<or> removed c a = Some n \<longrightarrow> (\<exists>p. managed_prefix kind = Some p \<and> starts_with n p) \<and> length n \<le> 55)
   \<and> (\<forall>(c, a, ok) \<in> set (snd (snd (detach_handler (logged exec) (logged_wait wait) kind dev (s, [])))).
     \<forall>n. added c a = Some n \<or> removed c a = Some n \<longrightarrow> (\<exists>p. managed_prefix kind = Some p \<and> starts_with n p) \<and> length n \<le> 55)"
proof -
  have key: "\<forall>(c, a, ok) \<in> set (snd (snd (m (s, [])))). \<forall>n. added c a = Some n \<or> removed c a = Some n \<longrightarrow>
      (\<exists>p. managed_prefix kind = Some p \<and> starts_with n p) \<and> length n \<le> 55"
    if "\<And>i p. managed_id kind dev = Inr i \<Longrightarrow> managed_prefix kind = Some p \<Longrightarrow> starts_with i p \<Longrightarrow> length i \<le> 48 \<Longrightarrow> only (managed p) (f i)"
      and "m = andthen (lift (managed_id kind dev)) f" for m :: "('a \<times> command_log, core_error, json) action" and f
  proof (cases "managed_id kind dev")
    case (Inl e)
    with that(2) show ?thesis by (simp add: andthen_def)
  next
    case (Inr i)
    from managed_id_Inr [OF this] obtain p where p: "managed_prefix kind = Some p" "starts_with i p" "length i \<le> 48" by blast
    from that(1) [OF Inr p] obtain more where "snd (snd (f i (s, []))) = more" "\<forall>(c, a, b) \<in> set more. managed p c a"
      unfolding only_def by (metis append_Nil)
    with that(2) Inr p(1) show ?thesis by (auto simp: andthen_def managed_def)
  qed
  have "\<forall>(c, a, ok) \<in> set (snd (snd (attach_handler (logged exec) env root inst kind dev req (s, [])))).
     \<forall>n. added c a = Some n \<or> removed c a = Some n \<longrightarrow> (\<exists>p. managed_prefix kind = Some p \<and> starts_with n p) \<and> length n \<le> 55"
    by (rule key [OF _ attach_handler_def]) (intro only_andthen only_attach only_basic)
  moreover have "\<forall>(c, a, ok) \<in> set (snd (snd (detach_handler (logged exec) (logged_wait wait) kind dev (s, [])))).
     \<forall>n. added c a = Some n \<or> removed c a = Some n \<longrightarrow> (\<exists>p. managed_prefix kind = Some p \<and> starts_with n p) \<and> length n \<le> 55"
    by (rule key [OF _ detach_handler_def]) (intro only_andthen only_detach only_basic)
  ultimately show ?thesis ..
qed


section \<open>All or nothing\<close>


lemma attempt_logged: "attempt (logged exec c a) (s, l) =
    (case exec c a s of (r, t) \<Rightarrow> (Inr r, (t, l @ [(c, a, is_ok r)])))"
  by (simp add: logged_def split: prod.split)

lemma logged_run: "logged exec c a (s, l) = (case exec c a s of (r, t) \<Rightarrow> (r, (t, l @ [(c, a, is_ok r)])))"
  by (simp add: logged_def)




lemma suffix_names [simp]: "i @ ''-node'' \<noteq> i @ ''-ctl''" "i @ ''-ctl'' \<noteq> i @ ''-node''"
  by simp_all




lemma lift_andthen [simp]: "andthen (lift r) f s = (case r of Inl e \<Rightarrow> (Inl e, s) | Inr a \<Rightarrow> f a s)"
  by (simp add: andthen_def)





text \<open>Which media file a path stands for, and two of them: one with a name that is not UTF-8.\<close>

definition sample_media :: media_env where
  "sample_media = \<lparr>canonical = (\<lambda>p. if p = ''/m/a.iso'' then Some ''/m/a.iso'' else if p = ''/m/b.iso'' then Some [CHR 0xFF] else None),
     regular = (\<lambda>_. True), is_utf8 = (\<lambda>p. p \<noteq> [CHR 0xFF])\<rparr>"

definition iso_request :: "path \<Rightarrow> device_request" where
  "iso_request p = \<lparr>hostbus = None, hostaddr = None, media = Some p, media_read_only = None, nic_model = None, nic_mac = None, pci_port = None\<rparr>"

text \<open>A monitor that accepts its first commands only; its state is how many it still accepts.\<close>

definition accepting :: "nat exec" where
  "accepting c a n = (case n of 0 \<Rightarrow> (Inl (Qmp ''refused''), 0) | Suc m \<Rightarrow> (Inr JNull, m))"


theorem requests_name_managed_objects_witness:
  "\<exists>log n. snd (attach_handler (logged accepting) sample_media ''/w'' ''lab'' ''iso'' ''me-iso-1'' (iso_request ''/m/a.iso'') (2, [])) = (0, log)
    \<and> n \<in> set (List.map_filter (\<lambda>(c, a, _). added c a) log) \<and> starts_with n ''me-iso-'' \<and> length n \<le> 55"
proof -
  let ?run = "snd (attach_handler (logged accepting) sample_media ''/w'' ''lab'' ''iso'' ''me-iso-1'' (iso_request ''/m/a.iso'') (2, []))"
  have run: "fst ?run = 0 \<and> List.map_filter (\<lambda>(c, a, _). added c a) (snd ?run) = [''me-iso-1-ctl'', ''me-iso-1-node'', ''me-iso-1'']" by code_simp
  then have "''me-iso-1-ctl'' \<in> set (List.map_filter (\<lambda>(c, a, _). added c a) (snd ?run))" by simp
  then obtain c a b where m: "(c, a, b) \<in> set (snd ?run)" "added c a = Some ''me-iso-1-ctl''"
    by (auto simp: List.map_filter_def)
  have "\<exists>p. managed_prefix ''iso'' = Some p \<and> starts_with ''me-iso-1-ctl'' p" "length ''me-iso-1-ctl'' \<le> 55"
    using requests_name_managed_objects [of accepting sample_media "''/w''" "''lab''" "''iso''" "''me-iso-1''" "iso_request ''/m/a.iso''" 2
        "\<lambda>_ _. (Inr False, 0)"] m by fastforce+
  moreover have "managed_prefix ''iso'' = Some ''me-iso-''" by code_simp
  ultimately show ?thesis using run by (intro exI [of _ "snd ?run"] exI [of _ "''me-iso-1-ctl''"]) (auto simp: prod_eq_iff)
qed

text \<open>
  A CD image whose resolved name is not UTF-8 leaves its controller behind: the name is looked at after the
  controller has been added, and that error returns without the removal that the other errors get.
\<close>

theorem iso_name_error_leaks_controller:
  assumes "attach_media env root req True = Inr p" and "\<not> is_utf8 env p" and "pci_bus (Some (unwrap_or (pci_port req) ''pcie-root-port-iso'')) = Inr bus"
    and "exec ''device_add'' (jfields [(''driver'', ''virtio-scsi-pci''), (''id'', i @ ''-ctl''), (''bus'', bus)]) s = (Inr v, t)"
  shows "\<exists>log. attach (logged exec) env root inst ''iso'' i req (s, []) = (Inl (Process ''media path is not UTF-8''), (t, log))
    \<and> left_over log = [i @ ''-ctl'']"
  using assms by (simp add: attach_def attach_iso_def Let_def utf8_name_def andthen_def logged_run left_over_def left_step_def request_simps)

theorem iso_name_error_leaks_controller_witness:
  "\<exists>log. attach (logged accepting) sample_media ''/w'' ''lab'' ''iso'' ''me-iso-1'' (iso_request ''/m/b.iso'') (9, [])
      = (Inl (Process ''media path is not UTF-8''), (8, log)) \<and> left_over log = [''me-iso-1-ctl'']"
proof -
  have "attach_media sample_media ''/w'' (iso_request ''/m/b.iso'') True = Inr [CHR 0xFF]" by code_simp
  moreover have "\<not> is_utf8 sample_media [CHR 0xFF]" by (simp add: sample_media_def)
  moreover have "pci_bus (Some (unwrap_or (pci_port (iso_request ''/m/b.iso'')) ''pcie-root-port-iso'')) = Inr ''pcie-root-port-iso''" by code_simp
  moreover have "accepting c a 9 = (Inr JNull, 8)" for c a by (simp add: accepting_def)
  ultimately show ?thesis using iso_name_error_leaks_controller [of sample_media "''/w''" "iso_request ''/m/b.iso''" "[CHR 0xFF]"
      "''pcie-root-port-iso''" accepting "''me-iso-1''" 9 JNull 8 "''lab''"] by simp
qed

section \<open>The daemon and the core crate\<close>

text \<open>
  The HTTP side attaches with the operations of the core crate: each kind checks its request and then is the core
  operation on the checked values, and a detach is the core's for every kind but CDs, whose controller it removes on a
  best-effort basis.
\<close>

theorem api_uses_core_operations:
  "attach exec env root inst ''usb-image'' i req =
     andthen (lift (attach_media env root req False)) (\<lambda>p. usb_image_attach exec (is_utf8 env) i p (unwrap_or (media_read_only req) False))
   \<and> attach exec env root inst ''iso'' i req =
     andthen (lift (attach_media env root req True)) (\<lambda>p.
     andthen (lift (pci_bus (Some (unwrap_or (pci_port req) ''pcie-root-port-iso'')))) (\<lambda>bus. iso_attach exec (is_utf8 env) i p bus))
   \<and> attach exec env root inst ''network'' i req =
     andthen (lift (network_bus req)) (\<lambda>bus. network_attach exec i (network_model req) (nic_mac req) bus)
   \<and> attach exec env root inst ''usbredir'' ''me-redir-0'' req =
     usbredir_attach exec (is_utf8 env) ''me-redir-0'' (path_join (path_join (path_join root ''instances'') inst) ''usbredir.sock'')
   \<and> (kind \<noteq> ''iso'' \<longrightarrow> detach exec wait i kind = detach_device exec wait i kind)"
  by (simp add: attach_def attach_usb_image_def usb_image_attach_def attach_iso_def iso_attach_def attach_network_def network_attach_def
      attach_usbredir_def usbredir_attach_def detach_def detach_device_def Let_def)

section \<open>Removals that stay pending\<close>

text \<open>
  A removal that the guest has not finished in time leaves the backend objects of the device behind for good: the
  detach reports it as pending after the first command, and a later detach, which QEMU refuses because the device has
  gone meanwhile, stops at this first command again.
\<close>

theorem pending_removal_leaks_backend:
  assumes "exec ''device_del'' (jfields [(''id'', i)]) s = (Inr v, s1)" and "wait i s1 = (Inr False, s2)"
    and "exec ''device_del'' (jfields [(''id'', i)]) s2 = (Inl e, s3)"
  shows "\<exists>log. detach (logged exec) (logged_wait wait) i kind (s, []) = (Inr False, (s2, log))
    \<and> detach (logged exec) (logged_wait wait) i kind (s2, log) =
        (Inl e, (s3, [(''device_del'', jfields [(''id'', i)], True), (''device_del'', jfields [(''id'', i)], False)]))"
  using assms by (simp add: detach_def andthen_def logged_run logged_wait_def)

theorem pending_removal_leaks_backend_witness:
  "\<exists>log. detach (logged accepting) (logged_wait (\<lambda>_ s. (Inr False, s))) ''me-net-1'' ''network'' (1, []) = (Inr False, (0, log))
    \<and> left_over ([(''netdev_add'', jfields [(''type'', ''user''), (''id'', ''me-net-1-netdev'')], True),
        (''device_add'', network_device ''e1000'' ''me-net-1'' ''me-net-1-netdev'' ''pcie-root-port-0'' None, True)] @ log) = [''me-net-1-netdev'']"
proof -
  have "accepting c a 1 = (Inr JNull, 0)" "accepting c a 0 = (Inl (Qmp ''refused''), 0)" for c a by (simp_all add: accepting_def)
  then have run: "accepting ''device_del'' (jfields [(''id'', ''me-net-1'')]) 1 = (Inr JNull, 0)"
    "accepting ''device_del'' (jfields [(''id'', ''me-net-1'')]) 0 = (Inl (Qmp ''refused''), 0)" by simp_all
  from pending_removal_leaks_backend [where exec = accepting and s = 1 and i = "''me-net-1''" and wait = "\<lambda>_ s. (Inr False, s)"
      and kind = "''network''", OF run(1) _ run(2)] show ?thesis
    by (auto simp: detach_def andthen_def logged_run logged_wait_def accepting_def left_over_def left_step_def request_simps)
qed

end
