(* ===== verification/Process.thy ===== *)
theory Process
  imports Store Qmp
begin

text \<open>
  \<open>crates/machineemu-core/src/runtime/process.rs\<close>: the processes the daemon starts, adopts and stops, and how a process
  is recognised by its start time. The world of the runtime holds the tables, the connection to QEMU, what the host will
  report about the processes, and what has been announced. A process that was killed is dead; otherwise the set of
  living processes does not change while an operation runs, except as its polls say.
\<close>

datatype notice = OperationNotice operation_row | StateNotice instance_row

record world =
  tables :: store
  conn :: monitor
  dials :: "(core_error + arrival list) list"      \<comment> \<open>the attempts to reach the QMP socket before the deadline\<close>
  polls :: "(string + bool option) list"            \<comment> \<open>what \<open>Child::try_wait\<close> will report, then: still running\<close>
  notices :: "notice list"

text \<open>What the host answers; nothing of it changes while an operation runs.\<close>

datatype spawn_failure = NoSuchProgram | SpawnFailure string
datatype pid_read = PidContents string | PidMissing | PidError string

record host =
  create_error :: "path \<Rightarrow> string option"
  os_spawn :: "string list \<Rightarrow> spawn_failure + nat"
  effective_root :: bool
  temp_dir :: path
  pid_reads :: "pid_read list"                      \<comment> \<open>reads of the pid file before the deadline\<close>
  stat_file :: "nat \<Rightarrow> string option"             \<comment> \<open>\<open>/proc/<pid>/stat\<close>\<close>
  unit_stop :: "string + bool"                      \<comment> \<open>\<open>systemctl stop\<close>\<close>
  kill_error :: "nat \<Rightarrow> string option"
  exit_success :: "string + bool"                   \<comment> \<open>\<open>Child::wait\<close>\<close>
  qmp_io :: qmp_io
  error_text :: "core_error \<Rightarrow> string"
  sha :: "string \<Rightarrow> 8 word list"

type_synonym 'a run = "(world, core_error, 'a) action"

definition on_tables :: "'a act \<Rightarrow> 'a run" where
  "on_tables m w = (case m (tables w) of (r, t) \<Rightarrow> (r, w\<lparr>tables := t\<rparr>))"

definition on_conn :: "'a qmp \<Rightarrow> 'a run" where
  "on_conn m w = (case m (conn w) of (r, t) \<Rightarrow> (r, w\<lparr>conn := t\<rparr>))"

definition notify :: "notice \<Rightarrow> unit run" where
  "notify x = modify (\<lambda>w. w\<lparr>notices := notices w @ [x]\<rparr>)"

section \<open>Identity\<close>

text \<open>The state and the start time, the third and the 22nd field, behind the command name in parentheses.\<close>

definition process_start_identity :: "string option \<Rightarrow> nat option" where
  "process_start_identity contents =
     Option.bind contents (\<lambda>text.
     Option.bind (rsplit_once '') '' text) (\<lambda>(_, rest).
     case split_whitespace rest of
       [] \<Rightarrow> None
     | st # others \<Rightarrow> if st = ''Z'' \<or> st = ''X'' then None
         else if 18 < length others then parse_u64 (others ! 18) else None))"

definition process_identity_matches :: "string option \<Rightarrow> nat \<Rightarrow> bool" where
  "process_identity_matches contents start \<longleftrightarrow> process_start_identity contents = Some start"

definition scope_byte :: "char \<Rightarrow> char" where
  "scope_byte c = (if is_ascii_lowercase c \<or> is_ascii_digit c \<or> c = CHR ''_'' \<or> c = CHR ''-'' then c else CHR ''-'')"

definition systemd_scope_name :: "id \<Rightarrow> string" where
  "systemd_scope_name rid = ''machineemu-'' @ map scope_byte rid @ ''.scope''"

section \<open>Processes\<close>

record managed_process =
  child :: "nat option"                  \<comment> \<open>the process behind the \<open>Child\<close> handle\<close>
  adopted_start :: "nat option"
  preserve_on_drop :: bool
  systemd_scope :: "(string \<times> bool) option"
  mp_pid :: nat
  mp_run :: id

definition reap :: "nat \<Rightarrow> world \<Rightarrow> world" where
  "reap p w = w\<lparr>tables := (tables w)\<lparr>alive := (\<lambda>q st. q \<noteq> p \<and> alive (tables w) q st)\<rparr>\<rparr>"

text \<open>Whether an exit was a success; \<open>None\<close> while the process runs.\<close>

definition try_wait :: "managed_process \<Rightarrow> bool option run" where
  "try_wait p w = (case child p of
       None \<Rightarrow> (Inr (if alive (tables w) (mp_pid p) (unwrap_or (adopted_start p) 0) then None else Some True), w)
     | Some c \<Rightarrow> (case polls w of
          [] \<Rightarrow> (Inr None, w)
        | Inl e # rest \<Rightarrow> (Inl (Process e), w\<lparr>polls := rest\<rparr>)
        | Inr None # rest \<Rightarrow> (Inr None, w\<lparr>polls := rest\<rparr>)
        | Inr (Some ok) # rest \<Rightarrow> (Inr (Some ok), reap c (w\<lparr>polls := rest\<rparr>))))"

definition kill :: "host \<Rightarrow> nat \<Rightarrow> unit run" where
  "kill h p w = (case kill_error h p of Some e \<Rightarrow> (Inl (Process e), w) | None \<Rightarrow> (Inr (), reap p w))"

definition wait_process :: "host \<Rightarrow> managed_process \<Rightarrow> bool run" where
  "wait_process h p = (case child p of
       None \<Rightarrow> andthen (try_wait p) (\<lambda>x. case x of
          Some ok \<Rightarrow> ret ok | None \<Rightarrow> throw (Process ''adopted helper did not exit''))
     | Some c \<Rightarrow> (case exit_success h of
          Inl e \<Rightarrow> throw (Process e) | Inr ok \<Rightarrow> andthen (modify (reap c)) (\<lambda>_. ret ok)))"

definition kill_process :: "host \<Rightarrow> managed_process \<Rightarrow> unit run" where
  "kill_process h p = (case child p of
       Some c \<Rightarrow> kill h c
     | None \<Rightarrow> andthen (try_wait p) (\<lambda>x. if x \<noteq> None then ret () else kill h (mp_pid p)))"

text \<open>Stopping the scope ends every process in it.\<close>

definition stop_scope :: "managed_process \<Rightarrow> world \<Rightarrow> world" where
  "stop_scope p w = reap (mp_pid p) (case child p of Some c \<Rightarrow> reap c w | None \<Rightarrow> w)"

definition terminate :: "host \<Rightarrow> managed_process \<Rightarrow> unit run" where
  "terminate h p = (case systemd_scope p of
       None \<Rightarrow> kill_process h p
     | Some _ \<Rightarrow> (case unit_stop h of
           Inl e \<Rightarrow> throw (Spawn ''systemctl'' e)
         | Inr True \<Rightarrow> modify (stop_scope p)
         | Inr False \<Rightarrow> kill_process h p))"

text \<open>Polls until the process has gone, as long as there are polls before the deadline.\<close>

fun wait_gone :: "nat \<Rightarrow> managed_process \<Rightarrow> bool option run" where
  "wait_gone 0 p = ret None"
| "wait_gone (Suc n) p = andthen (try_wait p) (\<lambda>x. case x of Some ok \<Rightarrow> ret (Some ok) | None \<Rightarrow> wait_gone n p)"

definition terminate_gracefully :: "host \<Rightarrow> managed_process \<Rightarrow> unit run" where
  "terminate_gracefully h p =
     andthen (try_wait p) (\<lambda>x.
     if x \<noteq> None then ret ()
     else case kill_error h (mp_pid p) of
         Some e \<Rightarrow> throw (Process e)
       | None \<Rightarrow> andthen (wait_gone 80 p) (\<lambda>gone.
           if gone \<noteq> None then ret ()
           else andthen (terminate h p) (\<lambda>_. andthen (wait_process h p) (\<lambda>_. ret ()))))"

definition drop_process :: "host \<Rightarrow> managed_process \<Rightarrow> unit run" where
  "drop_process h p =
     (if preserve_on_drop p then ret ()
      else if systemd_scope p \<noteq> None then
        andthen (attempt (terminate h p)) (\<lambda>_. andthen (attempt (wait_process h p)) (\<lambda>_. ret ()))
      else case child p of
          None \<Rightarrow> ret ()
        | Some c \<Rightarrow> andthen (attempt (try_wait p)) (\<lambda>r.
            if r = Inr None then andthen (attempt (kill h c)) (\<lambda>_. andthen (attempt (wait_process h p)) (\<lambda>_. ret ()))
            else ret ()))"

definition adopt :: "id \<Rightarrow> nat \<Rightarrow> nat \<Rightarrow> managed_process run" where
  "adopt rid p start w =
     (if \<not> alive (tables w) p start then (Inl (Process ''helper process identity no longer matches''), w)
      else (Inr \<lparr>child = None, adopted_start = Some start, preserve_on_drop = True, systemd_scope = None, mp_pid = p, mp_run = rid\<rparr>, w))"

definition process_start_of :: "host \<Rightarrow> managed_process \<Rightarrow> nat core_result" where
  "process_start_of h p =
     ok_or (case adopted_start p of Some s \<Rightarrow> Some s | None \<Rightarrow> process_start_identity (stat_file h (mp_pid p)))
       (Process (''cannot read process identity for pid '' @ show_nat (mp_pid p)))"

section \<open>Spawning\<close>

definition stdio_error :: "host \<Rightarrow> path option \<Rightarrow> unit core_result" where
  "stdio_error h p = (case p of None \<Rightarrow> Inr () | Some p \<Rightarrow> (case create_error h p of None \<Rightarrow> Inr () | Some e \<Rightarrow> Inl (Io p e)))"

definition set_stdio :: "host \<Rightarrow> path option \<Rightarrow> path option \<Rightarrow> unit core_result" where
  "set_stdio h out err = rbind (stdio_error h out) (\<lambda>_. stdio_error h err)"

text \<open>A process that has just been started is alive with its start time.\<close>

definition born :: "host \<Rightarrow> nat \<Rightarrow> world \<Rightarrow> world" where
  "born h p w = w\<lparr>tables := (tables w)\<lparr>alive := (\<lambda>q st. if q = p then process_identity_matches (stat_file h p) st else alive (tables w) q st)\<rparr>\<rparr>"

definition spawn :: "host \<Rightarrow> id \<Rightarrow> string list \<Rightarrow> path option \<Rightarrow> path option \<Rightarrow> managed_process run" where
  "spawn h rid argv out err =
     (case argv of
        [] \<Rightarrow> throw (Process ''empty process argv'')
      | executable # _ \<Rightarrow>
          andthen (lift (set_stdio h out err)) (\<lambda>_.
          case os_spawn h argv of
            Inl NoSuchProgram \<Rightarrow> throw (if CHR ''/'' \<in> set executable then Spawn executable ''not found'' else ExecutableNotFound executable)
          | Inl (SpawnFailure e) \<Rightarrow> throw (Spawn executable e)
          | Inr p \<Rightarrow> andthen (modify (born h p)) (\<lambda>_.
              ret \<lparr>child = Some p, adopted_start = None, preserve_on_drop = False, systemd_scope = None, mp_pid = p, mp_run = rid\<rparr>)))"

definition scope_pidfile :: "host \<Rightarrow> id \<Rightarrow> path" where
  "scope_pidfile h rid = path_join (temp_dir h) (''machineemu-'' @ rid @ ''-qemu.pid'')"

definition scope_script :: string where
  "scope_script = ''printf '' @ [CHR 0x27] @ ''%s'' @ [CHR 0x0A] @ [CHR 0x27] @ '' '' @ [CHR 0x22] @ ''$$'' @ [CHR 0x22] @ '' > '' @ [CHR 0x22] @ ''$1''
     @ [CHR 0x22] @ ''; shift; exec '' @ [CHR 0x22] @ ''$@'' @ [CHR 0x22]"

definition scope_argv :: "host \<Rightarrow> id \<Rightarrow> string list \<Rightarrow> string list" where
  "scope_argv h rid argv = [''systemd-run''] @ (if effective_root h then [] else [''--user''])
     @ [''--scope'', ''--quiet'', ''--collect'', ''--unit'', systemd_scope_name rid, ''--'', ''/bin/sh'', ''-c'', scope_script,
        ''machineemu-qemu-scope'', scope_pidfile h rid] @ argv"

definition parse_u32 :: "string \<Rightarrow> nat option" where
  "parse_u32 s = (case parse_u64 s of Some n \<Rightarrow> if int n < 2 ^ 32 then Some n else None | None \<Rightarrow> None)"

text \<open>The loop that waits for the pid file; the process is dropped with every error.\<close>

definition scoped_pid :: "host \<Rightarrow> managed_process \<Rightarrow> string \<Rightarrow> managed_process run" where
  "scoped_pid h p contents = (case parse_u32 (trim contents) of
       None \<Rightarrow> throw (Process (''invalid scoped QEMU pid '' @ quoted contents))
     | Some q \<Rightarrow> (case process_start_identity (stat_file h q) of
           None \<Rightarrow> throw (Process (''cannot read process identity for scoped QEMU pid '' @ show_nat q))
         | Some st \<Rightarrow> andthen (modify (born h q)) (\<lambda>_. ret (p\<lparr>mp_pid := q, adopted_start := Some st\<rparr>))))"

definition if_running :: "managed_process \<Rightarrow> managed_process run \<Rightarrow> managed_process run" where
  "if_running p m = andthen (try_wait p) (\<lambda>x.
     if x \<noteq> None then throw (Process (''systemd scope '' @ (case systemd_scope p of Some (u, _) \<Rightarrow> u | None \<Rightarrow> ''unknown'')
       @ '' exited before QEMU published its pid''))
     else m)"

fun await_pid :: "host \<Rightarrow> managed_process \<Rightarrow> pid_read list \<Rightarrow> managed_process run" where
  "await_pid h p [] = if_running p (andthen (attempt (terminate h p)) (\<lambda>_. throw (Process ''timed out waiting for scoped QEMU pid'')))"
| "await_pid h p (PidContents contents # rest) = scoped_pid h p contents"
| "await_pid h p (PidMissing # rest) = if_running p (await_pid h p rest)"
| "await_pid h p (PidError e # rest) = andthen (attempt (terminate h p)) (\<lambda>_. throw (Io (scope_pidfile h (mp_run p)) e))"

text \<open>A value that owns a process drops it when the rest fails.\<close>

definition or_drop :: "host \<Rightarrow> managed_process \<Rightarrow> 'a run \<Rightarrow> 'a run" where
  "or_drop h p m = andthen (attempt m) (\<lambda>r. case r of
       Inl e \<Rightarrow> andthen (drop_process h p) (\<lambda>_. throw e)
     | Inr a \<Rightarrow> ret a)"

definition spawn_scope_inner :: "host \<Rightarrow> id \<Rightarrow> string list \<Rightarrow> path option \<Rightarrow> path option \<Rightarrow> managed_process run" where
  "spawn_scope_inner h rid argv out err =
     (if argv = [] then throw (Process ''empty process argv'')
      else
        andthen (lift (set_stdio h out err)) (\<lambda>_.
        case os_spawn h (scope_argv h rid argv) of
          Inl NoSuchProgram \<Rightarrow> throw (ExecutableNotFound ''systemd-run'')
        | Inl (SpawnFailure e) \<Rightarrow> throw (Spawn ''systemd-run'' e)
        | Inr c \<Rightarrow>
            let p = \<lparr>child = Some c, adopted_start = None, preserve_on_drop = False,
                     systemd_scope = Some (systemd_scope_name rid, \<not> effective_root h), mp_pid = 0, mp_run = rid\<rparr> in
            andthen (modify (born h c)) (\<lambda>_. or_drop h p (await_pid h p (pid_reads h)))))"

definition scope_unavailable :: "core_error \<Rightarrow> bool" where
  "scope_unavailable e = (case e of
       ExecutableNotFound x \<Rightarrow> x = ''systemd-run''
     | Process m \<Rightarrow> list_ex (contains_str m) [''System has not been booted with systemd'', ''Failed to connect to bus'',
         ''exited before QEMU published its pid'', ''timed out waiting for scoped QEMU pid'', ''invalid scoped QEMU pid'',
         ''Interactive authentication required'']
     | _ \<Rightarrow> False)"

definition spawn_systemd_scope :: "host \<Rightarrow> id \<Rightarrow> string list \<Rightarrow> path option \<Rightarrow> path option \<Rightarrow> managed_process run" where
  "spawn_systemd_scope h rid argv out err =
     andthen (attempt (spawn_scope_inner h rid argv out err)) (\<lambda>r. case r of
         Inr p \<Rightarrow> ret p
       | Inl e \<Rightarrow> if scope_unavailable e then spawn h rid argv out err else throw e)"

end
