(* ===== verification/Lifecycle.thy ===== *)
theory Lifecycle
  imports Process
begin

text \<open>
  \<open>crates/machineemu-core/src/runtime/lifecycle.rs\<close> and \<open>lifecycle_async.rs\<close>: starting, pausing, resuming, resetting,
  stopping and recovering an instance: the tables, the QEMU process and the QMP connection together. Every early return
  drops the process that was started, and a failed start cleans the tables up.
\<close>

record start_request =
  rq_operation :: id
  rq_run :: id
  rq_instance :: id
  rq_key :: string
  rq_input :: string
  rq_argv :: "string list"
  rq_socket :: path
  rq_stdout :: "path option"
  rq_stderr :: "path option"
  rq_complete :: bool

text \<open>\<open>AsyncRunningInstance\<close>; its QMP connection is the one of the world.\<close>

record running_instance =
  vm_process :: "managed_process option"
  vm_run :: id
  vm_recovered :: "(nat \<times> nat) option"

section \<open>Starting\<close>

text \<open>An active run that is still recorded: refuse while its process lives, otherwise close it.\<close>

definition close_stale_run :: "id \<Rightarrow> unit act" where
  "close_stale_run i =
     andthen (active_run i) (\<lambda>a. case a of
         None \<Rightarrow> ret ()
       | Some r \<Rightarrow>
           andthen (reconcile_run (run_id r)) (\<lambda>q.
           if run_status q = ''running'' then throw (ActiveRun i)
           else andthen (finish_run (run_id r) ''failed'') (\<lambda>_. error_if_active i)))"

definition begin_start :: "host \<Rightarrow> start_request \<Rightarrow> operation_row run" where
  "begin_start h rq =
     andthen (on_tables (attempt (get_operation (rq_operation rq)))) (\<lambda>existing.
     andthen (on_tables (begin_operation (sha h) (rq_operation rq) (rq_instance rq) ''start'' (rq_key rq) (rq_input rq))) (\<lambda>op.
     andthen (if \<not> is_ok existing \<and> operation_id op = rq_operation rq then notify (OperationNotice op) else ret ()) (\<lambda>_.
     if status op \<noteq> ''accepted''
     then throw (Process (''start operation '' @ operation_id op @ '' is already '' @ status op))
     else ret op)))"

text \<open>\<open>AsyncQmp::connect\<close>, repeated until the deadline or the exit of the process.\<close>

definition dial :: "host \<Rightarrow> core_error + arrival list \<Rightarrow> unit run" where
  "dial h attempt_result = (case attempt_result of
       Inl e \<Rightarrow> throw e
     | Inr stream \<Rightarrow> andthen (modify (\<lambda>w. w\<lparr>conn := fresh_monitor stream\<rparr>)) (\<lambda>_. on_conn (connect (qmp_io h))))"

fun connect_loop :: "host \<Rightarrow> managed_process \<Rightarrow> (core_error + arrival list) list \<Rightarrow> unit run" where
  "connect_loop h p [] = throw (Qmp ''QMP connection timed out'')"
| "connect_loop h p [x] = dial h x"
| "connect_loop h p (x # rest) =
     andthen (attempt (dial h x)) (\<lambda>r. case r of
         Inr _ \<Rightarrow> ret ()
       | Inl e \<Rightarrow> andthen (try_wait p) (\<lambda>gone. if gone \<noteq> None then throw e else connect_loop h p rest))"

definition query_status :: "host \<Rightarrow> string run" where
  "query_status h =
     andthen (on_conn (execute (qmp_io h) ''query-status'' JNull)) (\<lambda>v.
     lift (ok_or (jget_then v ''status'' as_str) (Qmp ''query-status response has no status'')))"

text \<open>From the recorded run on: reach QEMU, take over the state it reports, complete the operation.\<close>

definition finish_start :: "host \<Rightarrow> start_request \<Rightarrow> operation_row \<Rightarrow> managed_process \<Rightarrow> unit run" where
  "finish_start h rq op p =
     andthen (gets dials) (\<lambda>ds.
     andthen (connect_loop h p ds) (\<lambda>_.
     andthen (query_status h) (\<lambda>st.
     andthen (lift (from_qmp st)) (\<lambda>target.
     andthen (try_wait p) (\<lambda>gone.
     if gone \<noteq> None then throw (Process ''QEMU exited during QMP negotiation'')
     else
       andthen (on_tables (transition_instance (rq_instance rq) (state_as_str target))) (\<lambda>final.
       andthen (notify (StateNotice final)) (\<lambda>_.
       if \<not> rq_complete rq then ret ()
       else
         andthen (on_tables (complete_operation (operation_id op) (json_obj [(''state'', JStr (state_as_str target))]))) (\<lambda>completed.
         notify (OperationNotice completed)))))))))"

definition record_start :: "host \<Rightarrow> start_request \<Rightarrow> managed_process \<Rightarrow> unit run" where
  "record_start h rq p =
     andthen (lift (process_start_of h p)) (\<lambda>start.
     andthen (on_tables (record_run (rq_run rq) (rq_instance rq) (mp_pid p) start (rq_socket rq))) (\<lambda>_. ret ()))"

text \<open>The result of the block with whether the run was recorded; every error drops the process.\<close>

definition connect_started :: "host \<Rightarrow> start_request \<Rightarrow> operation_row \<Rightarrow> managed_process \<Rightarrow> (bool \<times> (core_error + running_instance)) run" where
  "connect_started h rq op p =
     andthen (attempt (finish_start h rq op p)) (\<lambda>r. case r of
         Inl e \<Rightarrow> andthen (drop_process h p) (\<lambda>_. ret (True, Inl e))
       | Inr _ \<Rightarrow> ret (True, Inr \<lparr>vm_process = Some p, vm_run = rq_run rq, vm_recovered = None\<rparr>))"

definition record_started :: "host \<Rightarrow> start_request \<Rightarrow> operation_row \<Rightarrow> managed_process \<Rightarrow> (bool \<times> (core_error + running_instance)) run" where
  "record_started h rq op p =
     andthen (attempt (record_start h rq p)) (\<lambda>r. case r of
         Inl e \<Rightarrow> andthen (drop_process h p) (\<lambda>_. ret (False, Inl e))
       | Inr _ \<Rightarrow> connect_started h rq op p)"

definition launch :: "host \<Rightarrow> start_request \<Rightarrow> operation_row \<Rightarrow> (bool \<times> (core_error + running_instance)) run" where
  "launch h rq op =
     andthen (attempt (on_tables (transition_instance (rq_instance rq) ''starting''))) (\<lambda>r. case r of
         Inl e \<Rightarrow> ret (False, Inl e)
       | Inr starting \<Rightarrow>
     andthen (notify (StateNotice starting)) (\<lambda>_.
     andthen (attempt (spawn_systemd_scope h (rq_run rq) (rq_argv rq) (rq_stdout rq) (rq_stderr rq))) (\<lambda>r. case r of
         Inl e \<Rightarrow> ret (False, Inl e)
       | Inr p \<Rightarrow> record_started h rq op p)))"

text \<open>What is left to do after a failed start; the first error is the one reported.\<close>

definition settle_instance :: "id \<Rightarrow> unit run" where
  "settle_instance i =
     andthen (on_tables (attempt (get_instance i))) (\<lambda>r. case r of
         Inl _ \<Rightarrow> ret ()
       | Inr x \<Rightarrow>
           if state x \<in> {Starting, Running, Paused} then
             andthen (on_tables (attempt (transition_instance i ''error''))) (\<lambda>r. case r of
                 Inl _ \<Rightarrow> ret () | Inr failed \<Rightarrow> notify (StateNotice failed))
           else if state x = Error then notify (StateNotice x)
           else ret ())"

definition clean_up :: "host \<Rightarrow> start_request \<Rightarrow> operation_row \<Rightarrow> bool \<Rightarrow> core_error \<Rightarrow> unit run" where
  "clean_up h rq op recorded e =
     andthen (on_tables (attempt (fail_operation (operation_id op) (error_text h e)))) (\<lambda>r.
     andthen (case r of Inl _ \<Rightarrow> ret () | Inr failed \<Rightarrow> notify (OperationNotice failed)) (\<lambda>_.
     andthen (if recorded then andthen (on_tables (attempt (finish_run (rq_run rq) ''failed''))) (\<lambda>_. ret ()) else ret ()) (\<lambda>_.
     settle_instance (rq_instance rq))))"

definition start_instance :: "host \<Rightarrow> start_request \<Rightarrow> running_instance run" where
  "start_instance h rq =
     andthen (on_tables (close_stale_run (rq_instance rq))) (\<lambda>_.
     andthen (begin_start h rq) (\<lambda>op.
     andthen (launch h rq op) (\<lambda>(recorded, started). case started of
         Inr vm \<Rightarrow> ret vm
       | Inl e \<Rightarrow> andthen (clean_up h rq op recorded e) (\<lambda>_. throw e))))"

section \<open>A running instance\<close>

definition bad_transition :: "instance_row \<Rightarrow> string \<Rightarrow> 'a run" where
  "bad_transition x to = throw (InvalidTransition (state_as_str (state x)) to)"

definition qmp_command :: "host \<Rightarrow> string \<Rightarrow> unit run" where
  "qmp_command h nm = andthen (on_conn (execute (qmp_io h) nm JNull)) (\<lambda>_. ret ())"

definition pause_instance :: "host \<Rightarrow> id \<Rightarrow> instance_row run" where
  "pause_instance h i =
     andthen (on_tables (get_instance i)) (\<lambda>x.
     if state x \<noteq> Running then bad_transition x ''paused''
     else andthen (qmp_command h ''stop'') (\<lambda>_. on_tables (transition_instance i ''paused'')))"

definition resume_instance :: "host \<Rightarrow> id \<Rightarrow> instance_row run" where
  "resume_instance h i =
     andthen (on_tables (get_instance i)) (\<lambda>x.
     if state x \<noteq> Paused then bad_transition x ''running''
     else andthen (qmp_command h ''cont'') (\<lambda>_. on_tables (transition_instance i ''running'')))"

definition reset_instance :: "host \<Rightarrow> id \<Rightarrow> unit run" where
  "reset_instance h i =
     andthen (on_tables (get_instance i)) (\<lambda>x.
     if state x \<noteq> Running \<and> state x \<noteq> Paused then bad_transition x ''running''
     else qmp_command h ''system_reset'')"

text \<open>The wait for an exit: 500 polls of 20 ms, then the process is killed.\<close>

definition await_exit :: "host \<Rightarrow> managed_process \<Rightarrow> bool run" where
  "await_exit h p =
     andthen (wait_gone 500 p) (\<lambda>x. case x of
         Some ok \<Rightarrow> ret ok
       | None \<Rightarrow> andthen (attempt (terminate h p)) (\<lambda>_. wait_process h p))"

text \<open>While a recovered process is waited for, the polls say when it goes.\<close>

definition elapse :: "nat \<Rightarrow> unit run" where
  "elapse p = modify (\<lambda>w. case polls w of
       [] \<Rightarrow> w
     | Inr (Some _) # rest \<Rightarrow> reap p (w\<lparr>polls := rest\<rparr>)
     | _ # rest \<Rightarrow> w\<lparr>polls := rest\<rparr>)"

fun await_recovered :: "nat \<Rightarrow> nat \<Rightarrow> nat \<Rightarrow> unit run" where
  "await_recovered n p start =
     andthen (gets (\<lambda>w. alive (tables w) p start)) (\<lambda>lives.
     if \<not> lives then ret ()
     else case n of
         0 \<Rightarrow> throw (Process ''recovered process did not exit after QMP quit'')
       | Suc m \<Rightarrow> andthen (elapse p) (\<lambda>_. await_recovered m p start))"

declare await_recovered.simps [simp del]

definition stop_process :: "host \<Rightarrow> running_instance \<Rightarrow> string run" where
  "stop_process h vm =
     andthen (attempt (on_conn (execute (qmp_io h) ''quit'' JNull))) (\<lambda>result.
     case vm_process vm of
       Some p \<Rightarrow>
         andthen (if is_ok result then ret () else andthen (attempt (terminate h p)) (\<lambda>_. ret ())) (\<lambda>_.
         andthen (await_exit h p) (\<lambda>ok. ret (if ok then ''exited'' else ''failed'')))
     | None \<Rightarrow> (case vm_recovered vm of
         Some (p, start) \<Rightarrow> andthen (lift result) (\<lambda>_. andthen (await_recovered 500 p start) (\<lambda>_. ret ''exited''))
       | None \<Rightarrow> throw (Process ''run has no process owner'')))"

definition stop_instance :: "host \<Rightarrow> id \<Rightarrow> running_instance \<Rightarrow> instance_row run" where
  "stop_instance h i vm =
     andthen (on_tables (get_instance i)) (\<lambda>x.
     if state x \<notin> {Running, Paused, Stopping} then bad_transition x ''stopped''
     else
       andthen (if state x \<noteq> Stopping then andthen (on_tables (transition_instance i ''stopping'')) (\<lambda>_. ret ()) else ret ()) (\<lambda>_.
       andthen (stop_process h vm) (\<lambda>st.
       andthen (on_tables (finish_run (vm_run vm) st)) (\<lambda>_.
       on_tables (transition_instance i (if st = ''failed'' then ''error'' else ''stopped''))))))"

section \<open>Recovery\<close>

definition recover :: "host \<Rightarrow> run_row \<Rightarrow> running_instance run" where
  "recover h r =
     andthen (gets (\<lambda>w. process_alive (tables w) r)) (\<lambda>lives.
     if \<not> lives then throw (Process ''recorded process is no longer alive'')
     else
       andthen (gets dials) (\<lambda>ds.
       andthen (dial h (case ds of [] \<Rightarrow> Inl (Qmp ''QMP connection timed out'') | d # _ \<Rightarrow> d)) (\<lambda>_.
       ret \<lparr>vm_process = None, vm_run = run_id r, vm_recovered = Some (pid r, process_start r)\<rparr>)))"

definition recover_instance_run :: "host \<Rightarrow> id \<Rightarrow> running_instance option run" where
  "recover_instance_run h i =
     andthen (on_tables (active_run i)) (\<lambda>a. case a of
         None \<Rightarrow> ret None
       | Some r \<Rightarrow>
           andthen (on_tables (reconcile_run (run_id r))) (\<lambda>r.
           if run_status r \<noteq> ''running''
           then andthen (on_tables (andthen (finish_run (run_id r) ''failed'') (\<lambda>_. error_if_active i))) (\<lambda>_. ret None)
           else
             andthen (recover h r) (\<lambda>vm.
             andthen (query_status h) (\<lambda>st.
             andthen (on_tables (observe_run_status r st)) (\<lambda>_. ret (Some vm))))))"

definition poll_exit :: "running_instance \<Rightarrow> bool option run" where
  "poll_exit vm = (case vm_process vm of
       Some p \<Rightarrow> try_wait p
     | None \<Rightarrow> (case vm_recovered vm of
         Some (p, start) \<Rightarrow> gets (\<lambda>w. if alive (tables w) p start then None else Some False)
       | None \<Rightarrow> ret None))"

definition abort_owned_child :: "host \<Rightarrow> running_instance \<Rightarrow> unit run" where
  "abort_owned_child h vm = (case vm_process vm of
       None \<Rightarrow> throw (Process ''cannot abort an adopted process without verified signaling'')
     | Some p \<Rightarrow> andthen (try_wait p) (\<lambda>x.
         if x = None then andthen (terminate h p) (\<lambda>_. andthen (wait_process h p) (\<lambda>_. ret ())) else ret ()))"

end
