(* ===== verification/LifecycleProperties.thy ===== *)
theory LifecycleProperties
  imports Lifecycle ProcessProperties RunProperties
begin

text \<open>
  What the lifecycle guarantees, on the tables, the processes and the connection together: a start that fails leaves
  nothing behind, a start that succeeds is recorded, a stop ends in a final state, and the tables stay consistent.
\<close>

section \<open>Tables and processes\<close>

lemma keeps_on_tables: "keeps P m \<Longrightarrow> keeps (\<lambda>w. P (tables w)) (on_tables m)"
  by (simp add: keeps_def on_tables_def case_prod_beta)

lemma triple_on_tables: "triple (\<lambda>s. P s) m Q E \<Longrightarrow> triple (\<lambda>w. P (tables w)) (on_tables m) (\<lambda>a w. Q a (tables w)) (\<lambda>w. E (tables w))"
  unfolding triple_def on_tables_def by (fastforce split: prod.splits sum.splits)

lemma keeps_on_conn: "(\<And>w c. P w \<Longrightarrow> P (w\<lparr>conn := c\<rparr>)) \<Longrightarrow> keeps P (on_conn m)"
  by (auto simp: keeps_def on_conn_def split: prod.split)

lemma keeps_notify: "(\<And>w c. P w \<Longrightarrow> P (w\<lparr>notices := c\<rparr>)) \<Longrightarrow> keeps P (notify x)"
  unfolding notify_def by (intro keeps_modify) auto

text \<open>Predicates that look at the tables, or at the living processes, only.\<close>

definition on :: "(store \<Rightarrow> bool) \<Rightarrow> world \<Rightarrow> bool" where "on P w \<longleftrightarrow> P (tables w)"

lemma keeps_on_basic: "keeps (on P) (on_conn c)" "keeps (on P) (notify x)" "keeps (on P) (gets f)" "keeps P m \<Longrightarrow> keeps (on P) (on_tables m)"
  unfolding on_def by (auto intro!: keeps_on_conn keeps_notify keeps_gets keeps_on_tables)

definition blind :: "(store \<Rightarrow> bool) \<Rightarrow> bool" where
  "blind P \<longleftrightarrow> (\<forall>s a. P s \<longrightarrow> P (s\<lparr>alive := a\<rparr>))"

lemma keeps_reap: "blind P \<Longrightarrow> keeps (on P) (modify (reap p))" "blind P \<Longrightarrow> keeps (on P) (modify (born h p))" "blind P \<Longrightarrow> keeps (on P) (modify (stop_scope q))"
  by (auto simp: keeps_def blind_def on_def reap_def born_def stop_scope_def split: option.split)

lemma keeps_try_wait: "blind P \<Longrightarrow> keeps (on P) (try_wait p)" "blind P \<Longrightarrow> keeps (on P) (kill h q)"
  by (auto simp: keeps_def blind_def on_def try_wait_def kill_def reap_def split: option.split list.split sum.split)

lemma keeps_wait: assumes "blind P" shows "keeps (on P) (wait_process h p)"
  unfolding wait_process_def by (intro keeps_intros keeps_try_wait keeps_reap assms)

lemma keeps_terminate: assumes "blind P" shows "keeps (on P) (terminate h p)"
proof -
  have "keeps (on P) (kill_process h p)"
    unfolding kill_process_def by (intro keeps_intros keeps_try_wait keeps_reap assms)
  then show ?thesis unfolding terminate_def by (auto intro!: keeps_intros keeps_reap assms split: option.split sum.split bool.split)
qed

lemma keeps_drop: assumes "blind P" shows "keeps (on P) (drop_process h p)"
  unfolding drop_process_def by (intro keeps_intros keeps_terminate keeps_wait keeps_try_wait assms)

lemma keeps_spawn: assumes "blind P" shows "keeps (on P) (spawn h rid argv out err)"
  unfolding spawn_def by (auto intro!: keeps_intros keeps_reap assms split: list.split sum.split spawn_failure.split)

lemma keeps_scoped_pid: assumes "blind P" shows "keeps (on P) (scoped_pid h p contents)"
  unfolding scoped_pid_def by (intro keeps_intros keeps_reap assms)

lemma keeps_await_pid: assumes "blind P" shows "keeps (on P) (await_pid h p rs)"
  by (induction h p rs rule: await_pid.induct; simp only: await_pid.simps if_running_def;
      intro keeps_intros keeps_try_wait keeps_terminate keeps_scoped_pid assms; assumption?)

lemma keeps_spawn_scope: assumes "blind P" shows "keeps (on P) (spawn_systemd_scope h rid argv out err)"
proof -
  have "keeps (on P) (spawn_scope_inner h rid argv out err)"
    unfolding spawn_scope_inner_def or_drop_def Let_def
    by (auto intro!: keeps_intros keeps_reap keeps_drop keeps_await_pid assms split: sum.split spawn_failure.split)
  then show ?thesis unfolding spawn_systemd_scope_def by (intro keeps_intros keeps_spawn assms)
qed

lemma keeps_dial: "keeps (on P) (dial h x)"
  unfolding dial_def by (auto intro!: keeps_intros keeps_on_basic keeps_modify simp: on_def split: sum.split)

lemma keeps_connect_loop: assumes "blind P" shows "keeps (on P) (connect_loop h p ds)"
  by (induction ds rule: induct_list012; simp only: connect_loop.simps;
      intro keeps_intros keeps_dial keeps_try_wait assms; assumption?)

lemma keeps_query: "keeps (on P) (query_status h)" "keeps (on P) (qmp_command h nm)"
  unfolding query_status_def qmp_command_def by (intro keeps_intros keeps_on_basic)+

lemma keeps_wait_gone: assumes "blind P" shows "keeps (on P) (wait_gone n p)"
  by (induction n; simp only: wait_gone.simps; intro keeps_intros keeps_try_wait assms; assumption?)

lemma keeps_stop_process: assumes "blind P" shows "keeps (on P) (stop_process h vm)"
proof -
  have "keeps (on P) (elapse q)" for q
    unfolding elapse_def using assms by (intro keeps_modify) (auto simp: on_def blind_def reap_def split: list.split sum.split option.split)
  then have "keeps (on P) (await_recovered n q st)" for n q st
    by (induction n) (subst await_recovered.simps, auto intro!: keeps_intros)+
  then show ?thesis
    unfolding stop_process_def await_exit_def
    by (intro keeps_intros keeps_on_basic keeps_terminate keeps_wait_gone keeps_wait assms)
qed

lemmas runtime_rules = keeps_intros keeps_on_basic keeps_reap keeps_try_wait keeps_wait keeps_terminate keeps_drop keeps_spawn_scope
  keeps_dial keeps_connect_loop keeps_query keeps_stop_process

section \<open>The tables stay consistent\<close>

lemma blind_store_ok: "blind store_ok"
  unfolding blind_def by (blast intro: store_ok_alive)

lemma sound_close_stale: "sound (close_stale_run i)"
  unfolding close_stale_run_def by (intro keeps_intros)

lemma sound_launch: "keeps (on store_ok) (launch h rq op)"
  unfolding launch_def record_started_def connect_started_def record_start_def finish_start_def by (intro runtime_rules blind_store_ok)

lemma sound_start: "keeps (on store_ok) (start_instance h rq)"
  unfolding start_instance_def begin_start_def clean_up_def settle_instance_def
  by (intro runtime_rules sound_close_stale sound_launch blind_store_ok)

lemma sound_lifecycle:
  "keeps (on store_ok) (pause_instance h i)" "keeps (on store_ok) (resume_instance h i)" "keeps (on store_ok) (reset_instance h i)"
  "keeps (on store_ok) (stop_instance h i vm)" "keeps (on store_ok) (recover_instance_run h i)"
  unfolding pause_instance_def resume_instance_def reset_instance_def stop_instance_def recover_instance_run_def recover_def bad_transition_def
  by (intro runtime_rules blind_store_ok)+

lemma sound_polls: "keeps (on store_ok) (poll_exit vm)" "keeps (on store_ok) (abort_owned_child h vm)"
  unfolding poll_exit_def abort_owned_child_def by (intro runtime_rules blind_store_ok)+


section \<open>Which processes are alive\<close>

text \<open>
  Beyond those that were alive before, only the processes of a set are; and no poll will fail. The host obeys when it
  can stop a unit and kill a process.
\<close>

definition own :: "(nat \<Rightarrow> nat \<Rightarrow> bool) \<Rightarrow> nat set \<Rightarrow> world \<Rightarrow> bool" where
  "own A S w \<longleftrightarrow> (\<forall>x \<in> set (polls w). \<exists>b. x = Inr b) \<and> (\<forall>q st. alive (tables w) q st \<longrightarrow> A q st \<or> q \<in> S)"

definition obeys :: "host \<Rightarrow> bool" where
  "obeys h \<longleftrightarrow> unit_stop h = Inr True \<and> (\<forall>p. kill_error h p = None)"

definition pids :: "managed_process \<Rightarrow> nat set" where "pids p = insert (mp_pid p) (set_option (child p))"

definition fresh :: "managed_process \<Rightarrow> bool" where
  "fresh p \<longleftrightarrow> \<not> preserve_on_drop p \<and> (systemd_scope p \<noteq> None \<or> child p = Some (mp_pid p))"

lemma own_mono: "own A S w \<Longrightarrow> S \<subseteq> T \<Longrightarrow> own A T w"
  by (auto simp: own_def)

lemma own_reap: "own A S w \<Longrightarrow> own A (S - {p}) (reap p w)" "own A S w \<Longrightarrow> own A S (reap p w)"
  by (auto simp: own_def reap_def)

lemma own_born: "own A S w \<Longrightarrow> own A (insert p S) (born h p w)"
  by (auto simp: own_def born_def)

lemma keeps_own_try_wait: "keeps (own A S) (try_wait p)"
  by (auto simp: keeps_def own_def try_wait_def reap_def split: option.split list.split sum.split)

lemma attempt_keeps: "keeps P m \<Longrightarrow> triple P (attempt m) (\<lambda>_. P) (\<lambda>_. False)"
  by (auto simp: triple_def keeps_def)

lemma triple_conj_keeps: "triple P m Q E \<Longrightarrow> keeps R m \<Longrightarrow> triple (\<lambda>s. P s \<and> R s) m (\<lambda>a s. Q a s \<and> R s) (\<lambda>s. E s \<and> R s)"
  unfolding triple_def keeps_def by (fastforce split: prod.splits sum.splits)

lemma triple_sum:
  "(\<And>e. triple (Q (Inl e)) (f e) R E) \<Longrightarrow> (\<And>a. triple (Q (Inr a)) (g a) R E) \<Longrightarrow>
    triple (Q r) (case r of Inl e \<Rightarrow> f e | Inr a \<Rightarrow> g a) R E"
  by (cases r) simp_all

lemma triple_fact: "(c \<Longrightarrow> triple P m Q E) \<Longrightarrow> triple (\<lambda>s. P s \<and> c) m Q E"
  by (cases c) (simp_all add: triple_def)

lemma keeps_own_wait: "keeps (own A S) (wait_process h p)"
  unfolding wait_process_def by (intro keeps_intros keeps_own_try_wait keeps_modify own_reap)

lemma keeps_own_kill: "keeps (own A S) (kill h q)"
  by (auto simp: keeps_def kill_def own_reap split: option.split)

lemma keeps_own_terminate: "keeps (own A S) (terminate h p)"
proof -
  have "keeps (own A S) (kill_process h p)"
    unfolding kill_process_def by (intro keeps_intros keeps_own_try_wait keeps_own_kill)
  moreover have "keeps (own A S) (modify (stop_scope p))"
    by (intro keeps_modify) (auto simp: stop_scope_def own_reap split: option.split)
  ultimately show ?thesis unfolding terminate_def
    by (auto intro!: keeps_intros split: option.split sum.split bool.split)
qed

text \<open>Dropping a process that is not to be preserved ends it.\<close>

lemma stop_scope_own:
  assumes "own A (pids p) w"
  shows "own A {} (stop_scope p w)"
proof (cases "child p")
  case None
  then show ?thesis using own_reap(1) [OF assms, of "mp_pid p"] by (simp add: stop_scope_def pids_def)
next
  case (Some c)
  have "own A (pids p - {c} - {mp_pid p}) (reap (mp_pid p) (reap c w))" by (intro own_reap(1) assms)
  then show ?thesis using Some by (auto simp: stop_scope_def pids_def elim: own_mono)
qed

lemma drop_ends:
  assumes "obeys h" and "fresh p"
  shows "triple (own A (pids p)) (drop_process h p) (\<lambda>_. own A {}) (\<lambda>_. False)"
proof (cases "systemd_scope p")
  case (Some u)
  have "triple (own A (pids p)) (attempt (terminate h p)) (\<lambda>_. own A {}) (\<lambda>_. False)"
    using assms(1) Some by (auto simp: triple_def terminate_def obeys_def stop_scope_own)
  moreover have "triple (own A {}) (andthen (attempt (wait_process h p)) (\<lambda>_. ret ())) (\<lambda>_. own A {}) (\<lambda>_. False)"
    by (rule triple_andthen [OF attempt_keeps [OF keeps_own_wait] triple_ret])
  ultimately show ?thesis using assms(2) Some unfolding drop_process_def fresh_def by (auto intro: triple_andthen)
next
  case None
  with assms(2) have c: "child p = Some (mp_pid p)" "\<not> preserve_on_drop p" by (auto simp: fresh_def)
  then have pids: "pids p = {mp_pid p}" by (simp add: pids_def)
  have "triple (own A {mp_pid p}) (attempt (try_wait p)) (\<lambda>r. if r = Inr None then own A {mp_pid p} else own A {}) (\<lambda>_. False)"
    using c by (auto simp: triple_def try_wait_def own_def reap_def split: list.split sum.split option.split)
  moreover have "triple (if r = Inr None then own A {mp_pid p} else own A {})
      (if r = Inr None then andthen (attempt (kill h (mp_pid p))) (\<lambda>_. andthen (attempt (wait_process h p)) (\<lambda>_. ret ())) else ret ())
      (\<lambda>_. own A {}) (\<lambda>_. False)" for r :: "core_error + bool option"
  proof (cases "r = Inr None")
    case True
    have "triple (own A {mp_pid p}) (attempt (kill h (mp_pid p))) (\<lambda>_. own A {}) (\<lambda>_. False)"
      using assms(1) own_reap(1) [of A "{mp_pid p}" _ "mp_pid p"] by (auto simp: triple_def kill_def obeys_def)
    moreover have "triple (own A {}) (andthen (attempt (wait_process h p)) (\<lambda>_. ret ())) (\<lambda>_. own A {}) (\<lambda>_. False)"
      by (rule triple_andthen [OF attempt_keeps [OF keeps_own_wait] triple_ret])
    ultimately show ?thesis using True by (simp add: triple_andthen)
  next
    case False
    then show ?thesis by (auto intro: triple_ret)
  qed
  ultimately show ?thesis using c None unfolding drop_process_def pids by (auto intro: triple_andthen)
qed

lemma os_spawn_owned:
  "triple (own A {}) (case r of
            Inl NoSuchProgram \<Rightarrow> throw e1
          | Inl (SpawnFailure e) \<Rightarrow> throw (f e)
          | Inr p \<Rightarrow> andthen (modify (born h p)) (\<lambda>_.
              ret \<lparr>child = Some p, adopted_start = None, preserve_on_drop = False, systemd_scope = None, mp_pid = p, mp_run = rid\<rparr>))
      (\<lambda>p w. fresh p \<and> own A (pids p) w) (own A {})"
proof (cases r)
  case (Inl e)
  then show ?thesis by (cases e) (simp_all add: triple_throw)
next
  case (Inr p)
  have "triple (own A {}) (modify (born h p)) (\<lambda>_. own A {p}) (own A {})" using own_born [of A "{}"] by (intro triple_modify) auto
  then show ?thesis using Inr by (auto intro!: triple_andthen triple_ret simp: fresh_def pids_def)
qed

lemma spawn_owned:
  "triple (own A {}) (spawn h rid argv out err) (\<lambda>p w. fresh p \<and> own A (pids p) w) (own A {})"
proof (cases argv)
  case (Cons x xs)
  have "triple (own A {}) (lift (set_stdio h out err)) (\<lambda>_. own A {}) (own A {})"
    by (simp add: triple_keeps keeps_lift)
  then show ?thesis unfolding spawn_def Cons list.case by (rule triple_andthen) (rule os_spawn_owned)
qed (simp add: spawn_def triple_throw)

lemma if_running_owned:
  assumes "triple (own A S) m Q (own A S)"
  shows "triple (own A S) (if_running p m) Q (own A S)"
  unfolding if_running_def
proof (rule triple_andthen)
  show "triple (own A S) (try_wait p) (\<lambda>_. own A S) (own A S)" by (simp add: triple_keeps keeps_own_try_wait)
  show "triple (own A S) (if x \<noteq> None then throw e else m) Q (own A S)" for x e
    using assms by (cases x) (simp_all add: triple_throw)
qed

lemma terminate_throw_owned: "triple (own A S) (andthen (attempt (terminate h p)) (\<lambda>_. throw e)) Q (own A S)"
proof (rule triple_andthen)
  show "triple (own A S) (attempt (terminate h p)) (\<lambda>_. own A S) (own A S)"
    by (rule triple_weaken [OF attempt_keeps [OF keeps_own_terminate]]) auto
  show "triple (own A S) (throw e) Q (own A S)" for e by (rule triple_throw)
qed

lemma scoped_pid_owned:
  assumes "\<not> preserve_on_drop p" and "systemd_scope p \<noteq> None"
  shows "triple (own A (set_option (child p))) (scoped_pid h p contents) (\<lambda>q w. fresh q \<and> own A (pids q) w) (own A (set_option (child p)))"
proof -
  have "triple (own A (set_option (child p))) (andthen (modify (born h q)) (\<lambda>_. ret (p\<lparr>mp_pid := q, adopted_start := Some st\<rparr>)))
      (\<lambda>q w. fresh q \<and> own A (pids q) w) (own A (set_option (child p)))" for q st
  proof (rule triple_andthen)
    show "triple (own A (set_option (child p))) (modify (born h q)) (\<lambda>_. own A (insert q (set_option (child p)))) (own A (set_option (child p)))"
      by (rule triple_modify) (rule own_born)
  qed (use assms in \<open>auto intro!: triple_ret simp: fresh_def pids_def\<close>)
  then show ?thesis unfolding scoped_pid_def by (auto intro!: triple_throw split: option.split)
qed

lemma await_owned:
  "\<not> preserve_on_drop p \<Longrightarrow> systemd_scope p \<noteq> None \<Longrightarrow>
   triple (own A (set_option (child p))) (await_pid h p rs) (\<lambda>q w. fresh q \<and> own A (pids q) w) (own A (set_option (child p)))"
proof (induction h p rs rule: await_pid.induct)
  case (1 h p)
  show ?case unfolding await_pid.simps by (rule if_running_owned) (rule terminate_throw_owned)
next
  case (2 h p contents rest)
  then show ?case unfolding await_pid.simps by (rule scoped_pid_owned)
next
  case (3 h p rest)
  then show ?case unfolding await_pid.simps by (intro if_running_owned) blast
next
  case (4 h p e rest)
  show ?case unfolding await_pid.simps by (rule terminate_throw_owned)
qed

text \<open>A process owned by a block is gone when the block fails.\<close>

lemma or_drop_owned:
  assumes "obeys h" and "fresh p" and "triple (own A S) m Q (own A (pids p))"
  shows "triple (own A S) (or_drop h p m) Q (own A {})"
  unfolding or_drop_def
proof (rule triple_andthen)
  show "triple (own A S) (attempt m) (\<lambda>r w. case r of Inl _ \<Rightarrow> own A (pids p) w | Inr a \<Rightarrow> Q a w) (own A {})"
    by (rule triple_attempt) (rule triple_weaken [OF assms(3)], auto)
next
  fix r
  have "triple (own A (pids p)) (andthen (drop_process h p) (\<lambda>_. throw e)) Q (own A {})" for e
    by (rule triple_andthen [OF triple_weaken [OF drop_ends [OF assms(1,2)]] triple_throw]) auto
  then show "triple (\<lambda>w. case r of Inl _ \<Rightarrow> own A (pids p) w | Inr a \<Rightarrow> Q a w)
      (case r of Inl e \<Rightarrow> andthen (drop_process h p) (\<lambda>_. throw e) | Inr a \<Rightarrow> ret a) Q (own A {})"
    by (cases r) (simp_all add: triple_ret)
qed

lemma spawn_scope_owned:
  assumes "obeys h"
  shows "triple (own A {}) (spawn_systemd_scope h rid argv out err) (\<lambda>p w. fresh p \<and> own A (pids p) w) (own A {})"
proof -
  let ?Q = "\<lambda>p w. fresh p \<and> own A (pids p) w"
  have keep: "triple (own A {}) (lift (set_stdio h out err)) (\<lambda>_. own A {}) (own A {})"
    by (simp add: triple_keeps keeps_lift)
  have started: "triple (own A {}) (case r of
          Inl NoSuchProgram \<Rightarrow> throw e1
        | Inl (SpawnFailure e) \<Rightarrow> throw (f e)
        | Inr c \<Rightarrow>
            let p = \<lparr>child = Some c, adopted_start = None, preserve_on_drop = False,
                     systemd_scope = Some u, mp_pid = 0, mp_run = rid\<rparr> in
            andthen (modify (born h c)) (\<lambda>_. or_drop h p (await_pid h p (pid_reads h)))) ?Q (own A {})" for r e1 f u
  proof (cases r)
    case (Inl e)
    then show ?thesis by (cases e) (simp_all add: triple_throw)
  next
    case (Inr c)
    let ?p = "\<lparr>child = Some c, adopted_start = None, preserve_on_drop = False, systemd_scope = Some u, mp_pid = 0, mp_run = rid\<rparr>"
    have "triple (own A {c}) (await_pid h ?p (pid_reads h)) ?Q (own A {c})"
      using await_owned [of ?p A h] by simp
    then have "triple (own A {c}) (await_pid h ?p (pid_reads h)) ?Q (own A (pids ?p))"
      by (rule triple_weaken) (auto simp: pids_def elim: own_mono)
    then have "triple (own A {c}) (or_drop h ?p (await_pid h ?p (pid_reads h))) ?Q (own A {})"
      by (intro or_drop_owned assms) (auto simp: fresh_def)
    note rest = this
    have born: "triple (own A {}) (modify (born h c)) (\<lambda>_. own A {c}) (own A {})"
      using own_born [of A "{}"] by (intro triple_modify) auto
    show ?thesis unfolding Inr sum.case Let_def by (rule triple_andthen [OF born rest])
  qed
  have inner: "triple (own A {}) (spawn_scope_inner h rid argv out err) ?Q (own A {})"
  proof (cases "argv = []")
    case False
    then show ?thesis unfolding spawn_scope_inner_def by simp (rule triple_andthen [OF keep started])
  qed (simp add: spawn_scope_inner_def triple_throw)
  show ?thesis
    unfolding spawn_systemd_scope_def
  proof (rule triple_andthen)
    show "triple (own A {}) (attempt (spawn_scope_inner h rid argv out err))
       (\<lambda>r w. case r of Inl _ \<Rightarrow> own A {} w | Inr p \<Rightarrow> ?Q p w) (own A {})"
      by (rule triple_attempt) (rule triple_weaken [OF inner], auto)
    show "triple (\<lambda>w. case r of Inl _ \<Rightarrow> own A {} w | Inr p \<Rightarrow> ?Q p w)
       (case r of Inl e \<Rightarrow> if scope_unavailable e then spawn h rid argv out err else throw e | Inr p \<Rightarrow> ret p) ?Q (own A {})" for r
      by (cases r) (simp_all add: triple_ret triple_throw spawn_owned)
  qed
qed

text \<open>The tables and the connection leave the processes alone.\<close>

abbreviation living :: "(nat \<Rightarrow> nat \<Rightarrow> bool) \<Rightarrow> store \<Rightarrow> bool" where "living a s \<equiv> alive s = a"

lemma living_tables:
  "keeps (living a) (transition_instance i nm)" "keeps (living a) (finish_run r st)" "keeps (living a) (reconcile_run r)"
  "keeps (living a) (complete_operation oid res)" "keeps (living a) (fail_operation oid msg)"
  "keeps (living a) (observe_run_status rr st)"
  unfolding transition_instance_def finish_run_def reconcile_run_def complete_operation_def fail_operation_def observe_run_status_def
  by (intro keeps_intros keeps_modify; simp add: set_lifecycle_def set_run_status_def set_operation_def)+

lemma living_record: "keeps (living a) (record_run rid i p st sock)" "keeps (living a) (begin_operation f oid i k key input)"
  unfolding record_run_def begin_operation_def
  by (auto intro!: keeps_intros simp: Let_def split: option.split prod.split) (auto simp: keeps_def)

lemma own_on_tables: "(\<And>a. keeps (living a) m) \<Longrightarrow> keeps (own A S) (on_tables m)"
  unfolding keeps_def on_tables_def own_def by (auto simp: case_prod_beta)

lemma own_basic: "keeps (own A S) (notify n)" "keeps (own A S) (on_conn c)" "keeps (own A S) (gets f)"
  by (auto simp: keeps_def notify_def on_conn_def own_def case_prod_beta)

lemmas own_rules = keeps_intros own_basic own_on_tables living_tables living_record keeps_own_try_wait

lemma own_close_stale: "keeps (living a) (close_stale_run i)"
  unfolding close_stale_run_def error_if_active_def by (intro keeps_intros living_tables)

lemma own_dial: "keeps (own A S) (dial h x)"
  unfolding dial_def by (intro own_rules keeps_modify) (simp add: own_def)

lemma own_connect_loop: "keeps (own A S) (connect_loop h p ds)"
  by (induction ds rule: induct_list012; simp only: connect_loop.simps; intro own_rules own_dial; assumption?)

lemma own_record_finish: "keeps (own A S) (record_start h rq p)" "keeps (own A S) (finish_start h rq op p)"
  unfolding record_start_def finish_start_def query_status_def by (intro own_rules own_connect_loop)+

lemma own_clean_up: "keeps (own A S) (clean_up h rq op b e)"
  unfolding clean_up_def settle_instance_def by (intro own_rules)

lemma own_begin: "keeps (own A S) (begin_start h rq)"
  unfolding begin_start_def by (intro own_rules)

text \<open>A result with a value keeps its processes; one with an error has none left.\<close>

lemma own_after:
  assumes "triple (own A S) (attempt m) (\<lambda>_. own A S) (own A {})"
    and "\<And>e. triple (own A S) (f e) Q (own A {})" and "\<And>a. triple (own A S) (g a) Q (own A {})"
  shows "triple (own A S) (andthen (attempt m) (\<lambda>r. case r of Inl e \<Rightarrow> f e | Inr a \<Rightarrow> g a)) Q (own A {})"
  by (rule triple_andthen [OF assms(1)]) (rule triple_sum [where Q = "\<lambda>_. own A S"], rule assms(2), rule assms(3))

lemma own_attempt: "keeps (own A S) m \<Longrightarrow> triple (own A S) (attempt m) (\<lambda>_. own A S) E"
  by (rule triple_weaken [OF attempt_keeps]) auto

abbreviation settled :: "(nat \<Rightarrow> nat \<Rightarrow> bool) \<Rightarrow> bool \<times> (core_error + 'a) \<Rightarrow> world \<Rightarrow> bool" where
  "settled A r w \<equiv> is_ok (snd r) \<or> own A {} w"

lemma drop_settles:
  assumes "obeys h" and "fresh p"
  shows "triple (own A (pids p)) (andthen (drop_process h p) (\<lambda>_. ret (b, Inl e))) (settled A) (own A {})"
  by (rule triple_andthen [OF triple_weaken [OF drop_ends [OF assms]] triple_ret]) auto

lemma started_owned:
  assumes "obeys h" and "fresh p"
  shows "triple (own A (pids p)) (connect_started h rq op p) (settled A) (own A {})"
    and "triple (own A (pids p)) (record_started h rq op p) (settled A) (own A {})"
proof -
  show c: "triple (own A (pids p)) (connect_started h rq op p) (settled A) (own A {})"
    unfolding connect_started_def
    by (rule own_after [OF own_attempt [OF own_record_finish(2)] drop_settles [OF assms] triple_ret]) simp
  show "triple (own A (pids p)) (record_started h rq op p) (settled A) (own A {})"
    unfolding record_started_def
    by (rule own_after [OF own_attempt [OF own_record_finish(1)] drop_settles [OF assms] c])
qed

lemma launch_owned:
  assumes "obeys h"
  shows "triple (own A {}) (launch h rq op) (settled A) (own A {})"
proof -
  have spawned: "triple (own A {}) (andthen (attempt (spawn_systemd_scope h rid argv out err)) (\<lambda>r. case r of
         Inl e \<Rightarrow> ret (False, Inl e) | Inr p \<Rightarrow> record_started h rq op p)) (settled A) (own A {})" for rid argv out err
  proof (rule triple_andthen)
    show "triple (own A {}) (attempt (spawn_systemd_scope h rid argv out err))
       (\<lambda>r w. case r of Inl _ \<Rightarrow> own A {} w | Inr p \<Rightarrow> fresh p \<and> own A (pids p) w) (own A {})"
      by (rule triple_attempt) (rule triple_weaken [OF spawn_scope_owned [OF assms]], auto)
    show "triple (\<lambda>w. case r of Inl _ \<Rightarrow> own A {} w | Inr p \<Rightarrow> fresh p \<and> own A (pids p) w)
       (case r of Inl e \<Rightarrow> ret (False, Inl e) | Inr p \<Rightarrow> record_started h rq op p) (settled A) (own A {})" for r
    proof (cases r)
      case (Inr p)
      then show ?thesis using started_owned(2) [OF assms, of p A rq op]
        by (cases "fresh p") (simp_all add: triple_def)
    qed (simp add: triple_ret)
  qed
  have notified: "triple (own A {}) (andthen (notify n) (\<lambda>_. m)) (settled A) (own A {})"
    if "triple (own A {}) m (settled A) (own A {})" for n and m :: "(bool \<times> (core_error + running_instance)) run"
    by (rule triple_andthen [OF _ that]) (simp add: triple_keeps own_basic)
  show ?thesis
    unfolding launch_def
    by (rule own_after [OF own_attempt [OF own_on_tables [OF living_tables(1)]] triple_ret notified [OF spawned]]) simp
qed

text \<open>
  C28: A start that fails leaves no process behind: if the host stops a unit and kills a process when it is told to, and
  polling a child never fails, every process that is alive after a failed \<open>start\<close> was alive before it.
\<close>

theorem failed_start_leaves_nothing_running:
  assumes "obeys h" and "\<forall>x \<in> set (polls w). is_ok x"
    and "start_instance h rq w = (Inl e, w')" and "alive (tables w') q st"
  shows "alive (tables w) q st"
proof -
  let ?A = "alive (tables w)"
  have end_: "triple (settled ?A r) (case r of (recorded, started) \<Rightarrow> case started of
         Inr vm \<Rightarrow> ret vm | Inl e \<Rightarrow> andthen (clean_up h rq op recorded e) (\<lambda>_. throw e)) (\<lambda>_ _. True) (own ?A {})" for r op
  proof (cases r)
    case (Pair b s)
    have "triple (own ?A {}) (andthen (clean_up h rq op b e) (\<lambda>_. throw e)) (\<lambda>_ _. True) (own ?A {})" for e
      by (rule triple_andthen [where R = "\<lambda>_. own ?A {}"]) (simp_all add: triple_keeps own_clean_up triple_throw)
    then show ?thesis using Pair by (cases s) (simp_all add: triple_ret is_ok_def)
  qed
  have "triple (own ?A {}) (start_instance h rq) (\<lambda>_ _. True) (own ?A {})"
    unfolding start_instance_def
    by (rule triple_andthen [where R = "\<lambda>_. own ?A {}"], simp add: triple_keeps own_on_tables own_close_stale,
        rule triple_andthen [where R = "\<lambda>_. own ?A {}"], simp add: triple_keeps own_begin,
        rule triple_andthen [OF launch_owned [OF assms(1)] end_])
  moreover have "own ?A {} w" using assms(2) by (auto simp: own_def is_ok_def split: sum.splits) (metis sum.exhaust)
  ultimately have "own ?A {} w'" using assms(3) by (auto simp: triple_def dest: spec [of _ w])
  then show ?thesis using assms(4) by (auto simp: own_def)
qed

section \<open>A sample host\<close>

text \<open>
  QEMU greets, accepts the capabilities and answers; its process is 7, with start time 99.
\<close>

definition stat_line :: "nat \<Rightarrow> string \<Rightarrow> string" where
  "stat_line p st = show_nat p @ '' (qemu) S 1 1 1 0 -1 0 0 0 0 0 0 0 0 0 20 0 1 0 '' @ st @ '' 0''"

definition sample_reply :: "64 word \<Rightarrow> json \<Rightarrow> json" where
  "sample_reply i v = JObj [(''id'', json_id i), (''return'', v)]"

definition sample_frames :: "8 word list \<Rightarrow> json option" where
  "sample_frames b =
     (if b = [1] then Some (JObj [(''QMP'', JNull)])
      else if b = [2] then Some (sample_reply 1 JNull)
      else if b = [3] then Some (sample_reply 2 (JObj [(''status'', JStr ''running'')]))
      else None)"

definition sample_host :: host where
  "sample_host = \<lparr>create_error = (\<lambda>_. None), os_spawn = (\<lambda>_. Inr 7), effective_root = False, temp_dir = ''/tmp'',
     pid_reads = [PidMissing, PidContents ''7''], stat_file = (\<lambda>p. Some (stat_line p ''99'')), unit_stop = Inr True,
     kill_error = (\<lambda>_. None), exit_success = Inr True,
     qmp_io = \<lparr>parse_frame = sample_frames, json_text = (\<lambda>_. []), write_outcome = (\<lambda>_. None), descriptor_outcome = (\<lambda>_. None)\<rparr>,
     error_text = (\<lambda>_. ''failed''), sha = (\<lambda>_. [])\<rparr>"

definition sample_world :: "(core_error + arrival list) list \<Rightarrow> world" where
  "sample_world ds = \<lparr>tables = one_instance\<lparr>alive := (\<lambda>p st. p = 1 \<and> st = 5)\<rparr>, conn = fresh_monitor [], dials = ds, polls = [],
     notices = []\<rparr>"

definition sample_start :: start_request where
  "sample_start = \<lparr>rq_operation = ''op-1'', rq_run = ''run-1'', rq_instance = ''lab'', rq_key = ''k'', rq_input = ''{}'',
     rq_argv = [''qemu''], rq_socket = ''/run/q'', rq_stdout = None, rq_stderr = None, rq_complete = True\<rparr>"

definition refusing :: "core_error + arrival list" where "refusing = Inl (Qmp ''connection refused'')"
definition answering :: "core_error + arrival list" where "answering = Inr (map Byte [1, 10, 2, 10, 3, 10])"

lemma sample_obeys: "obeys sample_host"
  by (simp add: obeys_def sample_host_def)

text \<open>The bound of a frame, compared as an integer when it is evaluated.\<close>

lemma read_line_code [code]:
  "read_line_bytes bytes [] = (Inl (Failed (Qmp ''QMP I/O failed: early eof'')), [])"
  "read_line_bytes bytes (Pause # rest) = (Inl Elapsed, rest)"
  "read_line_bytes bytes (Byte b # rest) =
     (if b = 10 then (Inr bytes, rest)
      else if 1048576 \<le> int (length bytes) then (Inl (Failed (Qmp ''QMP frame exceeds size limit'')), rest)
      else read_line_bytes (bytes @ [b]) rest)"
  by (simp_all add: MAX_FRAME_def)

theorem failed_start_leaves_nothing_running_witness:
  "is_ok (fst (start_instance sample_host sample_start (sample_world [refusing]))) = False
   \<and> \<not> alive (tables (snd (start_instance sample_host sample_start (sample_world [refusing])))) 7 99"
proof -
  have failed: "fst (start_instance sample_host sample_start (sample_world [refusing])) = Inl (Qmp ''connection refused'')"
    by code_simp
  obtain w' where w: "start_instance sample_host sample_start (sample_world [refusing]) = (Inl (Qmp ''connection refused''), w')"
    using failed by (cases "start_instance sample_host sample_start (sample_world [refusing])") simp
  have "\<not> alive (tables w') 7 99"
    using failed_start_leaves_nothing_running [OF sample_obeys _ w, of 7 99] by (auto simp: sample_world_def)
  then show ?thesis using w by (simp add: is_ok_def)
qed

section \<open>What a start records\<close>

lemma instance_of_lifecycle: "instance_of (set_lifecycle i t s) i = map_option (\<lambda>r. r\<lparr>state := t, revision := revision r + 1\<rparr>) (instance_of s i)"
proof -
  have "find (\<lambda>r. instance_id r = i) (map (\<lambda>r. if instance_id r = i then r\<lparr>state := t, revision := revision r + 1\<rparr> else r) xs)
    = map_option (\<lambda>r. r\<lparr>state := t, revision := revision r + 1\<rparr>) (find (\<lambda>r. instance_id r = i) xs)" for xs
    by (induction xs) auto
  then show ?thesis by (simp add: instance_of_def set_lifecycle_def)
qed

text \<open>A transition that succeeds leaves the instance in the state asked for.\<close>

lemma transition_reaches:
  "transition_instance i nm s = (Inr x, t) \<Longrightarrow> instance_of t i = Some x \<and> state_from_str nm = Inr (state x)"
  by (auto simp: transition_instance_def andthen_def get_instance_run instance_of_lifecycle
      split: option.splits sum.splits if_splits)

definition in_state :: "id \<Rightarrow> instance_state set \<Rightarrow> world \<Rightarrow> bool" where
  "in_state i S w \<longleftrightarrow> (\<exists>x. instance_of (tables w) i = Some x \<and> state x \<in> S)"

definition has_run :: "start_request \<Rightarrow> managed_process \<Rightarrow> world \<Rightarrow> bool" where
  "has_run rq p w \<longleftrightarrow> (\<exists>r. run_of (tables w) (rq_run rq) = Some r \<and> run_instance r = rq_instance rq \<and> pid r = mp_pid p
     \<and> run_status r = ''running'' \<and> qmp_socket r = rq_socket rq)"

lemma find_last_added: "find P xs = None \<Longrightarrow> P x \<Longrightarrow> find P (xs @ [x]) = Some x"
  by (induction xs) (auto split: if_splits)

lemma record_run_recorded:
  assumes "record_run rid i p st sock s = (Inr r, t)"
  shows "run_of t rid = Some \<lparr>run_id = rid, run_instance = i, pid = p, process_start = st, qmp_socket = sock, run_status = ''running''\<rparr>"
proof -
  have "rid \<notin> (run_id \<circ> fst) ` set (runs s)" using assms
    by (auto simp: record_run_def andthen_def get_instance_run split: option.splits if_splits)
  then have "find (\<lambda>(r, _). run_id r = rid) (runs s) = None" by (force simp: find_None_iff)
  then have "find (\<lambda>(r, _). run_id r = rid) (runs s @ [(q, c)]) = Some (q, c)" if "run_id q = rid" for q c
    using that by (intro find_last_added) auto
  then show ?thesis using assms
    by (auto simp: record_run_def andthen_def get_instance_run get_run_run run_of_def split: option.splits if_splits)
qed


lemma record_start_records: "triple (\<lambda>_. True) (record_start h rq p) (\<lambda>_. has_run rq p) (\<lambda>_. True)"
proof -
  have "triple (\<lambda>_. True) (on_tables (record_run (rq_run rq) (rq_instance rq) (mp_pid p) st (rq_socket rq))) (\<lambda>_. has_run rq p) (\<lambda>_. True)" for st
    by (auto simp: triple_def on_tables_def has_run_def dest: record_run_recorded split: prod.split sum.split)
  then show ?thesis unfolding record_start_def
    by (intro triple_andthen [OF _ triple_andthen] triple_weaken [OF triple_lift] triple_ret) auto
qed

text \<open>Everything after the record leaves it alone.\<close>

lemma keeps_recorded:
  "keeps (has_run rq p) (on_tables (transition_instance i nm))" "keeps (has_run rq p) (on_tables (complete_operation oid res))"
  "keeps (has_run rq p) (on_conn c)" "keeps (has_run rq p) (notify n)" "keeps (has_run rq p) (gets f)" "keeps (has_run rq p) (try_wait q)"
proof -
  have "keeps (\<lambda>s. runs s = rs) (transition_instance i nm)" "keeps (\<lambda>s. runs s = rs) (complete_operation oid res)" for rs
    unfolding transition_instance_def complete_operation_def
    by (intro keeps_intros keeps_modify; simp add: set_lifecycle_def set_operation_def)+
  then show "keeps (has_run rq p) (on_tables (transition_instance i nm))" "keeps (has_run rq p) (on_tables (complete_operation oid res))"
    by (simp_all add: keeps_def has_run_def run_of_def on_tables_def case_prod_beta)
qed (auto simp: keeps_def has_run_def run_of_def on_conn_def notify_def try_wait_def reap_def case_prod_beta split: option.split list.split sum.split)

lemma keeps_recorded_dial: "keeps (has_run rq p) (dial h x)"
  unfolding dial_def by (intro keeps_intros keeps_recorded keeps_modify) (simp add: has_run_def run_of_def)

lemma keeps_recorded_connect: "keeps (has_run rq p) (connect_loop h q ds)"
  by (induction ds rule: induct_list012; simp only: connect_loop.simps; intro keeps_intros keeps_recorded keeps_recorded_dial; assumption?)

definition up :: "start_request \<Rightarrow> managed_process \<Rightarrow> world \<Rightarrow> bool" where
  "up rq p w \<longleftrightarrow> has_run rq p w \<and> in_state (rq_instance rq) {Running, Paused} w"

lemma finish_start_up: "triple (has_run rq p) (finish_start h rq op q) (\<lambda>_. up rq p) (\<lambda>_. True)"
proof -
  let ?H = "has_run rq p"
  have any: "triple P m (\<lambda>_. P) (\<lambda>_. True)" if "keeps P m" for P and m :: "'a run"
    using that by (simp add: triple_keeps triple_weaken [of P m "\<lambda>_. P" P])
  have step: "triple ?H (on_tables (transition_instance (rq_instance rq) (state_as_str target))) (\<lambda>_. up rq p) (\<lambda>_. True)"
    if "from_qmp st = Inr target" for st target
  proof -
    have target: "target \<in> {Running, Paused}" using that by (auto simp: from_qmp_def split: if_splits)
    have "state_from_str ''running'' = Inr Running" "state_from_str ''paused'' = Inr Paused" by (simp_all add: state_from_str_def)
    with target have "triple (\<lambda>_. True) (on_tables (transition_instance (rq_instance rq) (state_as_str target)))
        (\<lambda>_. in_state (rq_instance rq) {Running, Paused}) (\<lambda>_. True)"
      by (auto simp: triple_def on_tables_def in_state_def dest!: transition_reaches split: prod.split sum.split)
    from triple_conj_keeps [OF this keeps_recorded(1)] show ?thesis
      by (rule triple_weaken) (auto simp: up_def)
  qed
  have rest: "keeps (up rq p) (notify n)" "keeps (up rq p) (on_tables (complete_operation oid res))" for n oid res
  proof -
    have "keeps (\<lambda>s. instances s = xs) (complete_operation oid res)" for xs
      unfolding complete_operation_def by (intro keeps_intros keeps_modify) (simp add: set_operation_def)
    then have "keeps (in_state i S) (on_tables (complete_operation oid res))" for i S
      by (simp add: keeps_def in_state_def instance_of_def on_tables_def case_prod_beta)
    then show "keeps (up rq p) (on_tables (complete_operation oid res))"
      using keeps_recorded(2) [of rq p oid res] by (simp add: keeps_def up_def)
    show "keeps (up rq p) (notify n)" by (simp add: keeps_def notify_def up_def has_run_def in_state_def)
  qed
  show ?thesis
    unfolding finish_start_def query_status_def
    by (rule triple_andthen [OF any [OF keeps_recorded(5)]], rule triple_andthen [OF any [OF keeps_recorded_connect]],
        rule triple_andthen [OF any], intro keeps_intros keeps_recorded, rule triple_andthen [OF triple_lift], simp, rule triple_fact,
        rule triple_andthen [OF any [OF keeps_recorded(6)]], rule triple_if, rule triple_throw, simp,
        rule triple_andthen [OF step], assumption, rule triple_andthen [OF any [OF rest(1)]], rule triple_if, rule triple_ret, assumption,
        rule triple_andthen [OF any [OF rest(2)] any [OF rest(1)]])
qed


definition started_up :: "start_request \<Rightarrow> running_instance \<Rightarrow> world \<Rightarrow> bool" where
  "started_up rq vm w \<longleftrightarrow> vm_run vm = rq_run rq \<and> (\<exists>p. vm_process vm = Some p \<and> up rq p w)"

lemma record_started_up:
  "triple (\<lambda>_. True) (record_started h rq op p) (\<lambda>r w. \<forall>vm. snd r = Inr vm \<longrightarrow> started_up rq vm w) (\<lambda>_. True)"
proof -
  let ?R = "\<lambda>r w. \<forall>vm. snd r = Inr vm \<longrightarrow> started_up rq vm w"
  have trial: "triple P (attempt m) (\<lambda>r w. case r of Inl _ \<Rightarrow> True | Inr _ \<Rightarrow> Q w) (\<lambda>_. True)"
    if "triple P m (\<lambda>_. Q) (\<lambda>_. True)" for P Q and m :: "unit run"
    by (rule triple_attempt) (rule triple_weaken [OF that], auto)
  have err: "triple P (andthen (drop_process h p) (\<lambda>_. ret (b, Inl e))) ?R (\<lambda>_. True)" for P b e
    by (rule triple_andthen [where R = "\<lambda>_ _. True"]) (auto simp: triple_def split: prod.split sum.split)
  have finish: "triple (has_run rq p) (connect_started h rq op p) ?R (\<lambda>_. True)"
    unfolding connect_started_def
  proof (rule triple_andthen [OF trial [OF finish_start_up]])
    show "triple (\<lambda>w. case r of Inl _ \<Rightarrow> True | Inr _ \<Rightarrow> up rq p w)
       (case r of Inl e \<Rightarrow> andthen (drop_process h p) (\<lambda>_. ret (True, Inl e))
        | Inr _ \<Rightarrow> ret (True, Inr \<lparr>vm_process = Some p, vm_run = rq_run rq, vm_recovered = None\<rparr>)) ?R (\<lambda>_. True)" for r
      by (cases r) (simp_all only: sum.case err, rule triple_ret, simp add: started_up_def)
  qed
  show ?thesis
    unfolding record_started_def
  proof (rule triple_andthen [OF trial [OF record_start_records]])
    show "triple (\<lambda>w. case r of Inl _ \<Rightarrow> True | Inr _ \<Rightarrow> has_run rq p w)
       (case r of Inl e \<Rightarrow> andthen (drop_process h p) (\<lambda>_. ret (False, Inl e)) | Inr _ \<Rightarrow> connect_started h rq op p) ?R (\<lambda>_. True)" for r
      by (cases r) (auto intro: err finish)
  qed
qed

lemma launch_up: "triple (\<lambda>_. True) (launch h rq op) (\<lambda>r w. \<forall>vm. snd r = Inr vm \<longrightarrow> started_up rq vm w) (\<lambda>_. True)"
proof -
  have any: "triple (\<lambda>_. True) m (\<lambda>_ _. True) (\<lambda>_. True)" for m :: "'a run"
    by (simp add: triple_def split: prod.split sum.split)
  show ?thesis unfolding launch_def
    by (rule triple_andthen [OF any], rule triple_sum [where Q = "\<lambda>_ _. True"], rule triple_ret, simp,
        rule triple_andthen [OF any], rule triple_andthen [OF any], rule triple_sum [where Q = "\<lambda>_ _. True"],
        rule triple_ret, simp, rule record_started_up)
qed

text \<open>
  C29: A start that succeeds is recorded: the run is in the table under the requested identifier, for this instance, with
  the process of the handle that is returned, its socket and the status \<open>running\<close>; and the instance is running or paused.
\<close>

theorem successful_start_is_recorded:
  assumes "start_instance h rq w = (Inr vm, w')"
  shows "vm_run vm = rq_run rq \<and> (\<exists>p r x. vm_process vm = Some p \<and> run_of (tables w') (rq_run rq) = Some r
    \<and> run_instance r = rq_instance rq \<and> pid r = mp_pid p \<and> run_status r = ''running'' \<and> qmp_socket r = rq_socket rq
    \<and> instance_of (tables w') (rq_instance rq) = Some x \<and> state x \<in> {Running, Paused})"
proof -
  have any: "triple (\<lambda>_. True) m (\<lambda>_ _. True) (\<lambda>_. True)" for m :: "'a run"
    by (simp add: triple_def split: prod.split sum.split)
  have end_: "triple (\<lambda>w. \<forall>vm. snd r = Inr vm \<longrightarrow> started_up rq vm w) (case r of (recorded, started) \<Rightarrow> case started of
         Inr vm \<Rightarrow> ret vm | Inl e \<Rightarrow> andthen (clean_up h rq op recorded e) (\<lambda>_. throw e)) (started_up rq) (\<lambda>_. True)" for r op
  proof (cases r)
    case (Pair b s)
    have "triple P (andthen (clean_up h rq op b e) (\<lambda>_. throw e)) (started_up rq) (\<lambda>_. True)" for P e
      by (rule triple_andthen [where R = "\<lambda>_ _. True"]) (auto simp: triple_def split: prod.split sum.split)
    then show ?thesis using Pair by (cases s) (auto intro: triple_ret)
  qed
  have "triple (\<lambda>_. True) (start_instance h rq) (started_up rq) (\<lambda>_. True)"
    unfolding start_instance_def
    by (rule triple_andthen [OF any], rule triple_andthen [OF any], rule triple_andthen [OF launch_up end_])
  from tripleD [OF this _ assms] have "started_up rq vm w'" by simp
  then show ?thesis by (auto simp: started_up_def up_def has_run_def in_state_def)
qed

theorem successful_start_is_recorded_witness:
  "\<exists>vm. fst (start_instance sample_host sample_start (sample_world [refusing, answering])) = Inr vm \<and> vm_run vm = ''run-1''"
proof -
  have ok: "is_ok (fst (start_instance sample_host sample_start (sample_world [refusing, answering])))" by code_simp
  then obtain vm w' where w: "start_instance sample_host sample_start (sample_world [refusing, answering]) = (Inr vm, w')"
    by (cases "start_instance sample_host sample_start (sample_world [refusing, answering])") (auto simp: is_ok_def split: sum.splits)
  from successful_start_is_recorded [OF this] w show ?thesis by (auto simp: sample_start_def)
qed

section \<open>What a failed start leaves in the tables\<close>

definition closed_op :: "id \<Rightarrow> store \<Rightarrow> bool" where
  "closed_op oid s \<longleftrightarrow> (\<forall>(q, _) \<in> set (operations s). operation_id q = oid \<longrightarrow> status q \<noteq> ''accepted'')"

definition closed_run :: "id \<Rightarrow> store \<Rightarrow> bool" where
  "closed_run rid s \<longleftrightarrow> (\<forall>r \<in> set (run_rows s). run_id r = rid \<longrightarrow> run_status r = ''failed'')"

definition not_active :: "id \<Rightarrow> store \<Rightarrow> bool" where
  "not_active i s \<longleftrightarrow> (\<forall>x. instance_of s i = Some x \<longrightarrow> state x \<notin> {Starting, Running, Paused})"

lemma lifecycle_tables [simp]: "operations (set_lifecycle i t s) = operations s" "run_rows (set_lifecycle i t s) = run_rows s"
  by (simp_all add: set_lifecycle_def run_rows_def)

lemma transition_settles:
  assumes "instance_of s i = Some x" and "state x \<in> {Starting, Running, Paused}"
  shows "\<exists>y. transition_instance i ''error'' s = (Inr y, set_lifecycle i Error s)"
proof -
  have "state_from_str ''error'' = Inr Error" by (simp add: state_from_str_def)
  moreover have "allows (state x) Error" using assms(2) by (auto simp: allows_def)
  ultimately show ?thesis using assms(1)
    by (simp add: transition_instance_def andthen_def get_instance_run instance_of_lifecycle)
qed

lemma settle_instance_settles:
  "\<exists>w'. settle_instance i w = (Inr (), w') \<and> not_active i (tables w') \<and> operations (tables w') = operations (tables w)
     \<and> run_rows (tables w') = run_rows (tables w)"
proof (cases "instance_of (tables w) i")
  case None
  then show ?thesis by (simp add: settle_instance_def andthen_def on_tables_def get_instance_run not_active_def)
next
  case (Some x)
  show ?thesis
  proof (cases "state x \<in> {Starting, Running, Paused}")
    case True
    from transition_settles [OF Some this] obtain y where "transition_instance i ''error'' (tables w) = (Inr y, set_lifecycle i Error (tables w))" ..
    then show ?thesis using Some True
      by (auto simp: settle_instance_def andthen_def on_tables_def get_instance_run notify_def not_active_def instance_of_lifecycle)
  next
    case False
    then show ?thesis using Some
      by (auto simp: settle_instance_def andthen_def on_tables_def get_instance_run notify_def not_active_def)
  qed
qed

lemma fail_operation_closes:
  assumes "fail_operation oid reason s = (r, t)"
  shows "closed_op oid t"
proof -
  have "snd (fail_operation oid reason s)
    = set_operation (\<lambda>r. operation_id r = oid \<and> status r = ''accepted'') ''failed'' (json_obj [(''error'', JStr reason)]) s"
    by (simp only: fail_operation_def andthen_state modify_def gets_def get_operation_run throw_def prod.case sum.case snd_conv if_distrib [of snd] if_distribR)
      (simp add: throw_def get_operation_run)
  then have "t = set_operation (\<lambda>r. operation_id r = oid \<and> status r = ''accepted'') ''failed'' (json_obj [(''error'', JStr reason)]) s"
    using assms by (metis snd_conv)
  note t = this
  have "status q \<noteq> ''accepted''" if mem: "(q, z) \<in> set (operations t)" and oid: "operation_id q = oid" for q z
  proof -
    obtain x g c where x: "(q, z) = (if operation_id x = oid \<and> status x = ''accepted''
        then (x\<lparr>status := ''failed'', result_json := Some (json_obj [(''error'', JStr reason)])\<rparr>, g, c) else (x, g, c))"
      using mem unfolding t set_operation_def by (force simp: image_iff)
    show ?thesis
    proof (cases "operation_id x = oid \<and> status x = ''accepted''")
      case True
      with x have "q = x\<lparr>status := ''failed'', result_json := Some (json_obj [(''error'', JStr reason)])\<rparr>" by simp
      then show ?thesis by simp
    next
      case False
      with x oid show ?thesis by auto
    qed
  qed
  then show ?thesis by (auto simp: closed_op_def)
qed

lemma finish_run_closes:
  assumes "finish_run rid ''failed'' s = (r, t)"
  shows "closed_run rid t \<and> operations t = operations s"
proof -
  have "snd (finish_run rid ''failed'' s) = set_run_status rid ''failed'' s"
    by (simp add: finish_run_def andthen_def get_run_run)
  then have t: "t = set_run_status rid ''failed'' s" using assms by (metis snd_conv)
  have "run_status q = ''failed''" if mem: "q \<in> set (run_rows t)" and rid: "run_id q = rid" for q
  proof -
    obtain x where "q = (if run_id x = rid then x\<lparr>run_status := ''failed''\<rparr> else x)"
      using mem unfolding t run_rows_set_run_status set_map image_iff by blast
    with rid show ?thesis by (cases "run_id x = rid") simp_all
  qed
  then show ?thesis unfolding closed_run_def by (simp add: t set_run_status_def)
qed

text \<open>
  C30: The clean-up after a failed start never fails, and whatever it meets the tables are settled: the operation is no
  longer accepted, a recorded run is no longer active, and the instance, if it is there, is neither starting, running nor paused.
\<close>

theorem failed_start_is_settled:
  "\<exists>w'. clean_up h rq op recorded e w = (Inr (), w')
     \<and> (\<forall>(q, _) \<in> set (operations (tables w')). operation_id q = operation_id op \<longrightarrow> status q \<noteq> ''accepted'')
     \<and> (recorded \<longrightarrow> (\<forall>r \<in> set (run_rows (tables w')). run_id r = rq_run rq \<longrightarrow> run_status r = ''failed''))
     \<and> (\<forall>x. instance_of (tables w') (rq_instance rq) = Some x \<longrightarrow> state x \<notin> {Starting, Running, Paused})"
proof -
  obtain r1 t1 where f: "fail_operation (operation_id op) (error_text h e) (tables w) = (r1, t1)" by fastforce
  note c1 = fail_operation_closes [OF f]
  obtain w2 where w2: "andthen (on_tables (attempt (fail_operation (operation_id op) (error_text h e))))
      (\<lambda>r. case r of Inl _ \<Rightarrow> ret () | Inr failed \<Rightarrow> notify (OperationNotice failed)) w = (Inr (), w2)" "tables w2 = t1"
    using f by (cases r1) (auto simp: andthen_def on_tables_def notify_def)
  let ?runs = "\<lambda>t. recorded \<longrightarrow> closed_run (rq_run rq) t"
  obtain w3 where w3: "(if recorded then andthen (on_tables (attempt (finish_run (rq_run rq) ''failed''))) (\<lambda>_. ret ()) else ret ()) w2 = (Inr (), w3)"
      "closed_op (operation_id op) (tables w3)" "?runs (tables w3)"
  proof (cases recorded)
    case True
    obtain r2 t2 where g: "finish_run (rq_run rq) ''failed'' (tables w2) = (r2, t2)" by fastforce
    from finish_run_closes [OF this] c1 w2(2) have "closed_run (rq_run rq) t2" "closed_op (operation_id op) t2" by (auto simp: closed_op_def)
    with True g show ?thesis by (intro that [of "w2\<lparr>tables := t2\<rparr>"]) (simp_all add: andthen_def on_tables_def)
  next
    case False
    then show ?thesis using c1 w2(2) by (intro that [of w2]) simp_all
  qed
  obtain w4 where w4: "settle_instance (rq_instance rq) w3 = (Inr (), w4)" "not_active (rq_instance rq) (tables w4)"
      "operations (tables w4) = operations (tables w3)" "run_rows (tables w4) = run_rows (tables w3)"
    using settle_instance_settles [of "rq_instance rq" w3] by blast
  have "clean_up h rq op recorded e w = (Inr (), w4)"
    using w2(1) w3(1) w4(1) by (auto simp: clean_up_def andthen_def split: prod.splits sum.splits)
  then show ?thesis using w3(2,3) w4(2,3,4) by (auto simp: closed_op_def closed_run_def not_active_def)
qed


definition sample_op :: operation_row where
  "sample_op = \<lparr>operation_id = ''op-1'', op_instance = ''lab'', op_kind = ''start'', idempotency_key = ''k'', status = ''accepted'', result_json = None\<rparr>"

definition starting_world :: world where
  "starting_world = (sample_world [])\<lparr>tables := snd (transition_instance ''lab'' ''starting'' one_instance)\<rparr>"

theorem failed_start_is_settled_witness:
  "\<exists>w' x. clean_up sample_host sample_start sample_op True (Process ''x'') starting_world = (Inr (), w')
     \<and> instance_of (tables w') ''lab'' = Some x \<and> state x \<notin> {Starting, Running, Paused}"
proof -
  obtain w' where w: "clean_up sample_host sample_start sample_op True (Process ''x'') starting_world = (Inr (), w')"
      "\<forall>x. instance_of (tables w') ''lab'' = Some x \<longrightarrow> state x \<notin> {Starting, Running, Paused}"
    using failed_start_is_settled [of sample_host sample_start sample_op True "Process ''x''" starting_world]
    by (auto simp: sample_start_def)
  have "instance_of (tables (snd (clean_up sample_host sample_start sample_op True (Process ''x'') starting_world))) ''lab'' = None \<longleftrightarrow> False"
    by code_simp
  with w show ?thesis by auto
qed

section \<open>Stopping\<close>

text \<open>The process a handle stands for is gone.\<close>

definition gone :: "running_instance \<Rightarrow> world \<Rightarrow> bool" where
  "gone vm w \<longleftrightarrow> (case vm_process vm of
      Some p \<Rightarrow> (case child p of Some c \<Rightarrow> \<forall>st. \<not> alive (tables w) c st | None \<Rightarrow> \<not> alive (tables w) (mp_pid p) (unwrap_or (adopted_start p) 0))
    | None \<Rightarrow> (case vm_recovered vm of Some (p, st) \<Rightarrow> \<not> alive (tables w) p st | None \<Rightarrow> False))"

lemma anything: "triple P m (\<lambda>_ _. True) (\<lambda>_. True)"
  by (simp add: triple_def split: prod.split sum.split)

lemma try_wait_gone: "triple P (try_wait p) (\<lambda>x w. x \<noteq> None \<longrightarrow> gone \<lparr>vm_process = Some p, vm_run = r, vm_recovered = q\<rparr> w) (\<lambda>_. True)"
  by (auto simp: triple_def try_wait_def gone_def reap_def split: option.split list.split sum.split)

lemma wait_process_gone: "triple P (wait_process h p) (\<lambda>_. gone \<lparr>vm_process = Some p, vm_run = r, vm_recovered = q\<rparr>) (\<lambda>_. True)"
proof (cases "child p")
  case None
  then show ?thesis unfolding wait_process_def
    by (auto intro!: triple_andthen [OF try_wait_gone [where r = r and q = q]] split: option.split) (auto simp: triple_def)
next
  case (Some c)
  then show ?thesis by (auto simp: wait_process_def triple_def gone_def reap_def andthen_def split: sum.split)
qed

lemma wait_gone_gone: "triple P (wait_gone n p) (\<lambda>x w. x \<noteq> None \<longrightarrow> gone \<lparr>vm_process = Some p, vm_run = r, vm_recovered = q\<rparr> w) (\<lambda>_. True)"
proof (induction n arbitrary: P)
  case (Suc n)
  have "triple (\<lambda>w. x \<noteq> None \<longrightarrow> gone \<lparr>vm_process = Some p, vm_run = r, vm_recovered = q\<rparr> w) (case x of Some ok \<Rightarrow> ret (Some ok) | None \<Rightarrow> wait_gone n p)
      (\<lambda>x w. x \<noteq> None \<longrightarrow> gone \<lparr>vm_process = Some p, vm_run = r, vm_recovered = q\<rparr> w) (\<lambda>_. True)" for x
    using Suc [of "\<lambda>_. True"] by (cases x) (simp_all add: triple_ret)
  then show ?case unfolding wait_gone.simps by (rule triple_andthen [OF try_wait_gone])
qed (simp add: triple_ret)

lemma await_recovered_gone: "triple P (await_recovered n p st) (\<lambda>_ w. \<not> alive (tables w) p st) (\<lambda>_. True)"
proof (induction n arbitrary: P)
  case 0
  show ?case by (subst await_recovered.simps) (auto simp: triple_def andthen_def)
next
  case (Suc n)
  have step: "triple (\<lambda>w. P w \<and> lives = alive (tables w) p st) (if \<not> lives then ret () else andthen (elapse p) (\<lambda>_. await_recovered n p st))
     (\<lambda>_ w. \<not> alive (tables w) p st) (\<lambda>_. True)" for lives
    by (rule triple_if, rule triple_ret, simp, rule triple_andthen [OF anything], rule Suc)
  show ?case
    by (subst await_recovered.simps, rule triple_andthen [OF triple_gets], subst nat.case(2), rule step)
qed

lemma stop_process_gone:
  "triple P (stop_process h vm) (\<lambda>st w. st \<in> {''exited'', ''failed''} \<and> gone vm w) (\<lambda>_. True)"
proof -
  let ?Q = "\<lambda>st w. st \<in> {''exited'', ''failed''} \<and> gone vm w"
  have owned: "triple P (andthen (if ok then ret () else andthen (attempt (terminate h p)) (\<lambda>_. ret ())) (\<lambda>_.
      andthen (await_exit h p) (\<lambda>ok. ret (if ok then ''exited'' else ''failed'')))) ?Q (\<lambda>_. True)"
    if "vm_process vm = Some p" for p ok P
  proof -
    have eq: "gone vm = gone \<lparr>vm_process = Some p, vm_run = [], vm_recovered = None\<rparr>"
      using that by (simp add: gone_def fun_eq_iff)
    have "triple (\<lambda>w. x \<noteq> None \<longrightarrow> gone vm w) (case x of Some ok \<Rightarrow> ret ok
       | None \<Rightarrow> andthen (attempt (terminate h p)) (\<lambda>_. wait_process h p)) (\<lambda>_. gone vm) (\<lambda>_. True)" for x
      unfolding eq by (cases x) (simp_all add: triple_ret triple_andthen [OF anything wait_process_gone])
    then have "triple (\<lambda>_. True) (await_exit h p) (\<lambda>_. gone vm) (\<lambda>_. True)"
      unfolding await_exit_def eq by (rule triple_andthen [OF wait_gone_gone])
    then have "triple (\<lambda>_. True) (andthen (await_exit h p) (\<lambda>ok. ret (if ok then ''exited'' else ''failed''))) ?Q (\<lambda>_. True)"
      by (rule triple_andthen) (rule triple_ret, simp)
    then show ?thesis by (rule triple_andthen [OF anything])
  qed
  have recovered: "triple P (andthen (lift r) (\<lambda>_. andthen (await_recovered 500 p st) (\<lambda>_. ret ''exited''))) ?Q (\<lambda>_. True)"
    if "vm_process vm = None" "vm_recovered vm = Some (p, st)" for p st r P
    using that by (intro triple_andthen [OF anything] triple_andthen [OF await_recovered_gone] triple_ret) (simp add: gone_def)
  show ?thesis unfolding stop_process_def
  proof (rule triple_andthen [OF anything])
    fix r
    show "triple (\<lambda>_. True) (case vm_process vm of
       Some p \<Rightarrow> andthen (if is_ok r then ret () else andthen (attempt (terminate h p)) (\<lambda>_. ret ())) (\<lambda>_.
         andthen (await_exit h p) (\<lambda>ok. ret (if ok then ''exited'' else ''failed'')))
     | None \<Rightarrow> (case vm_recovered vm of
         Some (p, start) \<Rightarrow> andthen (lift r) (\<lambda>_. andthen (await_recovered 500 p start) (\<lambda>_. ret ''exited''))
       | None \<Rightarrow> throw (Process ''run has no process owner''))) ?Q (\<lambda>_. True)"
    proof (cases "vm_process vm")
      case (Some p)
      show ?thesis unfolding Some option.case by (rule owned [OF Some])
    next
      case None
      note N = this
      show ?thesis
      proof (cases "vm_recovered vm")
        case (Some q)
        obtain p st where q: "q = (p, st)" by fastforce
        show ?thesis unfolding N option.case Some q prod.case by (rule recovered) (simp_all add: N Some q)
      qed (simp add: N triple_throw)
    qed
  qed
qed


lemma finish_run_finished:
  assumes "finish_run rid st s = (Inr r, t)"
  shows "run_of t rid = Some r \<and> run_status r = st \<and> alive t = alive s"
proof -
  have t: "t = set_run_status rid st s" and r: "run_of t rid = Some r"
    using assms by (auto simp: finish_run_def andthen_def get_run_run split: if_splits option.splits)
  have "r \<in> set (run_rows t)" "run_id r = rid"
    using r unfolding run_of_run_rows find_Some_iff by (auto dest: nth_mem)
  then obtain x where "r = (if run_id x = rid then x\<lparr>run_status := st\<rparr> else x)"
    unfolding t run_rows_set_run_status set_map image_iff by blast
  with \<open>run_id r = rid\<close> have "run_status r = st" by (cases "run_id x = rid") simp_all
  with r show ?thesis by (simp add: t set_run_status_def)
qed

lemma transition_frame: "transition_instance i nm s = (r, t) \<Longrightarrow> alive t = alive s \<and> runs t = runs s"
  by (auto simp: transition_instance_def andthen_def get_instance_run set_lifecycle_def split: option.splits sum.splits if_splits)

text \<open>
  C31: A stop that succeeds is final: the process of the run is gone, the run is recorded as exited or failed, and the
  instance is stopped after an exit and in error after a failure.
\<close>

theorem stop_is_final:
  assumes "stop_instance h i vm w = (Inr x, w')"
  shows "gone vm w' \<and> instance_of (tables w') i = Some x
    \<and> (\<exists>r. run_of (tables w') (vm_run vm) = Some r
        \<and> (run_status r = ''exited'' \<and> state x = Stopped \<or> run_status r = ''failed'' \<and> state x = Error))"
proof -
  obtain a t where "(if state a \<notin> {Running, Paused, Stopping} then bad_transition a ''stopped''
     else andthen (if state a \<noteq> Stopping then andthen (on_tables (transition_instance i ''stopping'')) (\<lambda>_. ret ()) else ret ()) (\<lambda>_.
       andthen (stop_process h vm) (\<lambda>st.
       andthen (on_tables (finish_run (vm_run vm) st)) (\<lambda>_.
       on_tables (transition_instance i (if st = ''failed'' then ''error'' else ''stopped'')))))) t = (Inr x, w')"
    using assms unfolding stop_instance_def andthen_Inr_iff [of "on_tables (get_instance i)"] by blast
  moreover from this have "state a \<in> {Running, Paused, Stopping}" by (cases "state a") (simp_all add: bad_transition_def)
  ultimately obtain w1 where "andthen (stop_process h vm) (\<lambda>st.
       andthen (on_tables (finish_run (vm_run vm) st)) (\<lambda>_.
       on_tables (transition_instance i (if st = ''failed'' then ''error'' else ''stopped'')))) w1 = (Inr x, w')"
    by (simp only: if_P if_not_P not_not) (unfold andthen_Inr_iff, blast)
  then obtain st w2 r w3 where stop: "stop_process h vm w1 = (Inr st, w2)"
    and fin: "on_tables (finish_run (vm_run vm) st) w2 = (Inr r, w3)"
    and tr: "on_tables (transition_instance i (if st = ''failed'' then ''error'' else ''stopped'')) w3 = (Inr x, w')"
    unfolding andthen_Inr_iff by blast
  let ?t = "tables w3"
  have st: "st \<in> {''exited'', ''failed''}" "gone vm w2" using tripleD [OF stop_process_gone _ stop, of "\<lambda>_. True"] by auto
  from fin have f: "finish_run (vm_run vm) st (tables w2) = (Inr r, ?t)" by (auto simp: on_tables_def split: prod.splits)
  from tr have g: "transition_instance i (if st = ''failed'' then ''error'' else ''stopped'') ?t = (Inr x, tables w')"
    by (auto simp: on_tables_def split: prod.splits)
  have "state_from_str ''error'' = Inr Error" "state_from_str ''stopped'' = Inr Stopped" by (simp_all add: state_from_str_def)
  with transition_reaches [OF g] st(1) have x: "instance_of (tables w') i = Some x" "state x = (if st = ''failed'' then Error else Stopped)" by auto
  from finish_run_finished [OF f] transition_frame [OF g]
  have run: "run_of (tables w') (vm_run vm) = Some r" "run_status r = st" and alive: "alive (tables w') = alive (tables w2)" by (auto simp: run_of_def)
  from st(2) alive have "gone vm w'" by (auto simp: gone_def split: option.splits)
  with x run st(1) show ?thesis by auto
qed

definition running_world :: world where
  "running_world = snd (start_instance sample_host sample_start (sample_world [refusing, answering]))\<lparr>polls := [Inr (Some True)]\<rparr>"

definition sample_handle :: running_instance where
  "sample_handle = \<lparr>vm_process = Some \<lparr>child = Some 7, adopted_start = Some 99, preserve_on_drop = False,
     systemd_scope = Some (systemd_scope_name ''run-1'', True), mp_pid = 7, mp_run = ''run-1''\<rparr>, vm_run = ''run-1'', vm_recovered = None\<rparr>"

theorem stop_is_final_witness:
  "\<exists>x w'. stop_instance sample_host ''lab'' sample_handle running_world = (Inr x, w') \<and> state x = Stopped \<and> \<not> alive (tables w') 7 99"
proof -
  have x: "case fst (stop_instance sample_host ''lab'' sample_handle running_world) of Inr x \<Rightarrow> state x = Stopped | Inl _ \<Rightarrow> False"
    by code_simp
  then obtain x w' where w: "stop_instance sample_host ''lab'' sample_handle running_world = (Inr x, w')"
    by (cases "stop_instance sample_host ''lab'' sample_handle running_world") (auto split: sum.splits)
  from stop_is_final [OF w] w x show ?thesis by (auto simp: gone_def sample_handle_def)
qed

section \<open>Reachable worlds\<close>

text \<open>
  A step of the daemon: one lifecycle operation, whatever its result, one operation on the tables alone, or a change of
  what surrounds it.
\<close>

inductive runtime_step :: "world \<Rightarrow> world \<Rightarrow> bool" where
  start: "runtime_step w (snd (start_instance h rq w))"
| pause: "runtime_step w (snd (pause_instance h i w))"
| resume: "runtime_step w (snd (resume_instance h i w))"
| reset: "runtime_step w (snd (reset_instance h i w))"
| stop: "runtime_step w (snd (stop_instance h i vm w))"
| recover: "runtime_step w (snd (recover_instance_run h i w))"
| poll: "runtime_step w (snd (poll_exit vm w))"
| abort: "runtime_step w (snd (abort_owned_child h vm w))"
| tables: "store_step (tables w) t \<Longrightarrow> runtime_step w (w\<lparr>tables := t\<rparr>)"
| surroundings: "runtime_step w (w\<lparr>conn := c, dials := ds, polls := ps\<rparr>)"

definition runtime_init :: world where
  "runtime_init = \<lparr>tables = store_init, conn = fresh_monitor [], dials = [], polls = [], notices = []\<rparr>"

lemma runtime_step_ok: "runtime_step w w' \<Longrightarrow> on store_ok w \<Longrightarrow> on store_ok w'"
proof (induction rule: runtime_step.induct)
  case (tables w t)
  then show ?case by (simp add: on_def store_ok_step)
next
  case (surroundings w c ds ps)
  then show ?case by (simp add: on_def)
qed (blast intro: keepsD [OF _ _ surjective_pairing] sound_start sound_lifecycle sound_polls)+

interpretation runtime: invariant_system runtime_init runtime_step "on store_ok"
  by unfold_locales (simp add: on_def runtime_init_def store_ok_init, rule runtime_step_ok)

text \<open>
  C32: Whatever the daemon does with instances, processes and QEMU, and however it fails, the tables stay consistent: keys
  are unique, references point to rows, and states and revisions are legal.
\<close>

theorem runtime_tables_consistent:
  assumes "runtime_step\<^sup>*\<^sup>* runtime_init w"
  shows "store_ok (tables w)"
  using runtime.inv_reachable [OF assms] by (simp add: on_def)

theorem runtime_tables_consistent_witness:
  "store_ok (tables (snd (start_instance sample_host sample_start runtime_init)))"
  by (rule runtime_tables_consistent) (intro r_into_rtranclp start)

end
