(* ===== verification/Capabilities.thy ===== *)
theory Capabilities
  imports LaunchText
begin

text \<open>
  \<open>crates/machineemu-core/src/engine/capabilities.rs\<close>: what a QEMU binary offers, read from its help texts, and the
  checks of a profile and of a legacy board against it. Running the binary is a parameter.
\<close>

record qemu_options =
  qo_executable :: path
  qo_version :: "string option"
  qo_machines :: "string list"
  qo_cpus :: "string list"
  qo_accelerators :: "string list"
  qo_devices :: "string list"
  qo_display_backends :: "string list"
  qo_chardev_backends :: "string list"
  qo_tpm_backends :: "string list"
  qo_audio_drivers :: "string list"
  qo_machine_properties :: "string list"
  qo_analysis_properties :: "string list"
  qo_device_properties :: "string list"

record board_report =
  br_valid :: bool
  br_machine :: "string option"
  br_errors :: "string list"

record validation_report =
  vr_valid :: bool
  vr_qemu :: path
  vr_boards :: "(string \<times> board_report) list"

section \<open>Help texts\<close>

definition push_new :: "string list \<Rightarrow> string \<Rightarrow> string list" where
  "push_new vs v = (if v \<in> set vs then vs else vs @ [v])"

definition name_char :: "char \<Rightarrow> bool" where
  "name_char c \<longleftrightarrow> is_ascii_alphanumeric c \<or> c = CHR ''_'' \<or> c = CHR ''-'' \<or> c = CHR ''.''"

definition ends_colon :: "string \<Rightarrow> bool" where "ends_colon s \<longleftrightarrow> s \<noteq> [] \<and> last s = CHR '':''"

definition first_word :: "string \<Rightarrow> string option" where
  "first_word s = (case split_whitespace s of [] \<Rightarrow> None | w # _ \<Rightarrow> Some w)"

text \<open>The name on a line of \<open>-machine help\<close>, \<open>-cpu help\<close> and \<open>-accel help\<close>.\<close>

definition named_line :: "string \<Rightarrow> string option" where
  "named_line line =
     (let t = trim line in
      if t = [] \<or> starts_with t ''-'' \<or> ends_colon t \<or> starts_with t ''Supported '' then None
      else Option.bind (first_word t) (\<lambda>nm. if list_all name_char nm then Some nm else None))"

definition parse_named_help :: "string \<Rightarrow> string list" where
  "parse_named_help text = foldl push_new [] (List.map_filter named_line (lines text))"

text \<open>A list of backends: it begins behind an \<open>Available\<close> line, if there is one, and ends with an empty line.\<close>

definition single_word :: "string \<Rightarrow> string option" where
  "single_word s = (case split_whitespace s of [w] \<Rightarrow> if list_all name_char w then Some w else None | _ \<Rightarrow> None)"

fun indented_lines :: "bool \<Rightarrow> string list \<Rightarrow> string list \<Rightarrow> string list" where
  "indented_lines collecting vs [] = vs"
| "indented_lines collecting vs (line # rest) =
     (let t = trim line in
      if starts_with t ''Available '' then indented_lines True vs rest
      else if \<not> collecting then indented_lines collecting vs rest
      else if t = [] then (if vs \<noteq> [] then vs else indented_lines collecting vs rest)
      else indented_lines collecting (case single_word t of None \<Rightarrow> vs | Some nm \<Rightarrow> push_new vs nm) rest)"

definition parse_indented_list :: "string \<Rightarrow> string list" where
  "parse_indented_list text =
     indented_lines (\<not> list_ex (\<lambda>line. starts_with (trim line) ''Available '') (lines text)) [] (lines text)"

text \<open>The name and the alias of a line of \<open>-device help\<close>.\<close>

definition quote :: string where "quote = [CHR 0x22]"

definition device_line :: "string \<Rightarrow> string list" where
  "device_line line =
     (case strip_prefix (trim line) (''name '' @ quote) of
        None \<Rightarrow> []
      | Some rest \<Rightarrow>
          (case split_once quote rest of
             None \<Rightarrow> []
           | Some (nm, behind) \<Rightarrow>
               nm # (case split_once ('', alias '' @ quote) behind of
                       None \<Rightarrow> []
                     | Some (_, more_text) \<Rightarrow>
                         (case split_once quote more_text of
                            Some (alias, _) \<Rightarrow> if alias = [] then [] else [alias]
                          | None \<Rightarrow> []))))"

definition parse_device_help :: "string \<Rightarrow> string list" where
  "parse_device_help text = foldl push_new [] (concat (map device_line (lines text)))"

definition property_line :: "string \<Rightarrow> string option" where
  "property_line line =
     (let t = trim line in
      if t = [] \<or> ends_colon t then None
      else Option.bind (first_word t) (\<lambda>token.
        let nm = hd (split_on (CHR ''='') token) in if list_all name_char nm then Some nm else None))"

definition parse_property_help :: "string \<Rightarrow> string list" where
  "parse_property_help text = foldl push_new [] (List.map_filter property_line (lines text))"

section \<open>Running the binary\<close>

text \<open>One run: it could not be started, or its success, status, standard output and standard error as text.\<close>

record qemu_env =
  qe_is_file :: "path \<Rightarrow> bool"
  qe_output :: "path \<Rightarrow> string list \<Rightarrow> string + (bool \<times> string \<times> string \<times> string)"

definition debug_args :: "string list \<Rightarrow> string" where
  "debug_args args = ''['' @ join_with '', '' (map debug_str args) @ '']''"

definition run_qemu_help :: "qemu_env \<Rightarrow> path \<Rightarrow> string list \<Rightarrow> string plan_result" where
  "run_qemu_help env exe args =
     (case qe_output env exe args of
        Inl source \<Rightarrow> Inl (EngineIo exe source)
      | Inr (success, st, out, err) \<Rightarrow>
          if \<not> success then invalid (exe @ '' '' @ debug_args args @ '' failed with '' @ st @ '': '' @ trim err)
          else Inr (out @ err))"

definition optional_named_help :: "qemu_env \<Rightarrow> path \<Rightarrow> string list \<Rightarrow> string list" where
  "optional_named_help env exe args =
     (case run_qemu_help env exe args of
        Inl _ \<Rightarrow> []
      | Inr text \<Rightarrow>
          if args = [''-device'', ''help''] then parse_device_help text
          else if length args = 2 \<and> args ! 1 = ''help'' then parse_indented_list text
          else parse_property_help text)"

definition version_line :: "string \<Rightarrow> string option" where
  "version_line text = find (\<lambda>line. contains_str line ''QEMU emulator version'') (lines text)"

definition is_analysis_property :: "string \<Rightarrow> bool" where
  "is_analysis_property nm \<longleftrightarrow> nm = ''analysis-profile'' \<or> starts_with nm ''x-analysis-''"

definition property_help :: "qemu_env \<Rightarrow> path \<Rightarrow> string \<Rightarrow> string option \<Rightarrow> string list" where
  "property_help env exe opt nm = (case nm of None \<Rightarrow> [] | Some n \<Rightarrow> optional_named_help env exe [opt, n @ '',help''])"

definition inspect_qemu :: "qemu_env \<Rightarrow> path \<Rightarrow> string option \<Rightarrow> string option \<Rightarrow> qemu_options plan_result" where
  "inspect_qemu env exe machine device =
     (if \<not> qe_is_file env exe then invalid (''QEMU executable is missing: '' @ exe)
      else
        let version = (case run_qemu_help env exe [''--version''] of Inl _ \<Rightarrow> None | Inr text \<Rightarrow> version_line text) in
        rbind (run_qemu_help env exe [''-machine'', ''help'']) (\<lambda>machines.
        rbind (run_qemu_help env exe [''-cpu'', ''help'']) (\<lambda>cpus.
        rbind (run_qemu_help env exe [''-accel'', ''help'']) (\<lambda>accels.
        rbind (run_qemu_help env exe [''-device'', ''help'']) (\<lambda>devices.
        let properties = property_help env exe ''-machine'' machine in
        Inr \<lparr>qo_executable = exe, qo_version = version, qo_machines = parse_named_help machines, qo_cpus = parse_named_help cpus,
          qo_accelerators = parse_named_help accels, qo_devices = parse_device_help devices,
          qo_display_backends = optional_named_help env exe [''-display'', ''help''],
          qo_chardev_backends = optional_named_help env exe [''-chardev'', ''help''],
          qo_tpm_backends = optional_named_help env exe [''-tpmdev'', ''help''],
          qo_audio_drivers = optional_named_help env exe [''-audiodev'', ''help''],
          qo_machine_properties = properties, qo_analysis_properties = filter is_analysis_property properties,
          qo_device_properties = property_help env exe ''-device'' device\<rparr>)))))"

section \<open>A profile against the binary\<close>

definition base_name :: "string \<Rightarrow> string" where "base_name s = hd (split_on (CHR '','') s)"

definition unsupported :: "qemu_options \<Rightarrow> string \<Rightarrow> string \<Rightarrow> unit plan_result" where
  "unsupported opts what nm = invalid (''QEMU '' @ qo_executable opts @ '' does not support '' @ what @ '' '' @ debug_str nm)"

definition offered :: "qemu_options \<Rightarrow> string list \<Rightarrow> string \<Rightarrow> string option \<Rightarrow> unit plan_result" where
  "offered opts names what nm = (case nm of
       None \<Rightarrow> Inr () | Some n \<Rightarrow> if n \<in> set names then Inr () else unsupported opts what n)"

definition video_device :: "string \<Rightarrow> string" where
  "video_device v = (if v = ''vga'' then ''VGA'' else if v = ''virtio-gl'' then ''virtio-vga-gl'' else v)"

definition audio_device :: "string \<Rightarrow> string" where
  "audio_device a = (if a = ''ich9'' then ''ich9-intel-hda'' else a)"

definition model_of :: "obj \<Rightarrow> string \<Rightarrow> string option" where
  "model_of m k = get_then m k (\<lambda>v. jget_then v ''model'' as_str)"

text \<open>\<open>.filter(|model| *model != "none")\<close>.\<close>

definition audio_of :: "obj \<Rightarrow> string option" where
  "audio_of m = Option.bind (model_of m ''audio'') (\<lambda>a. if a = ''none'' then None else Some (audio_device a))"

definition lcd_devices :: "string list" where "lcd_devices = [''qemu-xhci'', ''unifi-lcm'']"
definition analysis_names :: "string list" where "analysis_names = [''analysis-profile'', ''x-analysis-profile-json-base64'']"

definition check_profile_devices :: "qemu_options \<Rightarrow> obj \<Rightarrow> unit plan_result" where
  "check_profile_devices opts d =
     rbind (if get_then d ''vsock'' as_bool = Some True \<and> ''vhost-vsock-pci'' \<notin> set (qo_devices opts)
            then invalid ''QEMU does not support vsock device vhost-vsock-pci'' else Inr ()) (\<lambda>_.
     rbind (if get_then d ''lcd'' as_bool = Some True
            then check_all lcd_devices (\<lambda>v. if v \<in> set (qo_devices opts) then Inr () else invalid (''QEMU does not support LCD device '' @ v))
            else Inr ()) (\<lambda>_.
     rbind (offered opts (qo_devices opts) ''NIC device'' (get_then d ''nic'' as_str)) (\<lambda>_.
     rbind (offered opts (qo_devices opts) ''video device'' (map_option video_device (model_of d ''video''))) (\<lambda>_.
     offered opts (qo_devices opts) ''audio device'' (audio_of d)))))"

definition wants_analysis :: "obj \<Rightarrow> bool" where
  "wants_analysis m \<longleftrightarrow> get_then m ''analysis'' (\<lambda>v. jget_then v ''enabled'' as_bool) = Some True"

definition check_analysis_properties :: "qemu_options \<Rightarrow> unit plan_result" where
  "check_analysis_properties opts =
     check_all analysis_names (\<lambda>p. if p \<in> set (qo_machine_properties opts) then Inr () else unsupported opts ''analysis property'' p)"

definition validate_profile_against_qemu :: "json \<Rightarrow> qemu_options \<Rightarrow> unit plan_result" where
  "validate_profile_against_qemu profile opts =
     rbind (object profile ''profile'') (\<lambda>p.
     rbind (string_field p ''machine'') (\<lambda>machine.
     rbind (offered opts (qo_machines opts) ''machine'' (Some (base_name machine))) (\<lambda>_.
     rbind (offered opts (qo_cpus opts) ''CPU'' (map_option base_name (get_then p ''cpu'' as_str))) (\<lambda>_.
     rbind (object (unwrap_or (oget p ''resources'') (JObj [])) ''profile.resources'') (\<lambda>r.
     rbind (offered opts (qo_accelerators opts) ''accelerator'' (map_option base_name (get_then r ''accelerator'' as_str))) (\<lambda>_.
     rbind (case oget p ''devices'' of
              None \<Rightarrow> Inr ()
            | Some d \<Rightarrow> rbind (object d ''profile.devices'') (check_profile_devices opts)) (\<lambda>_.
     rbind (offered opts (qo_devices opts) ''TPM device'' (model_of p ''tpm'')) (\<lambda>_.
     if wants_analysis p then check_analysis_properties opts else Inr ()))))))))"

section \<open>A legacy configuration against the binary\<close>

definition board_machine :: "obj \<Rightarrow> string plan_result" where
  "board_machine board = needs
     (case get_then board ''os'' (\<lambda>os. Option.bind (jget os ''type'') (\<lambda>kind. jget_then kind ''machine'' as_str)) of
        Some m \<Rightarrow> Some m
      | None \<Rightarrow> get_then board ''machine'' (\<lambda>machine. jget_then machine ''type'' as_str))
     ''legacy board machine is missing''"

text \<open>One complaint about a name that is not offered.\<close>

definition complaint :: "string list \<Rightarrow> string \<Rightarrow> string option \<Rightarrow> string list" where
  "complaint names what nm = (case nm of
       None \<Rightarrow> [] | Some n \<Rightarrow> if n \<in> set names then [] else [''QEMU does not support '' @ what @ '' '' @ debug_str n])"

definition board_video :: "obj \<Rightarrow> string option" where
  "board_video board = get_then board ''video'' (\<lambda>v. Option.bind (jget v ''model'') (\<lambda>x. jget_then x ''type'' as_str))"

definition board_disk_bus :: "obj \<Rightarrow> string option" where
  "board_disk_bus board = get_then board ''storage'' (\<lambda>v. Option.bind (jget v ''disk'') (\<lambda>d. Option.bind (jget d ''target'') (\<lambda>t.
     jget_then t ''bus'' as_str)))"

definition board_errors :: "obj \<Rightarrow> qemu_options \<Rightarrow> string option \<Rightarrow> string list" where
  "board_errors board opts machine =
     (case machine of
        None \<Rightarrow> [''board machine is missing'']
      | Some m \<Rightarrow> complaint (qo_machines opts) ''machine'' (Some m))
     @ complaint (qo_cpus opts) ''CPU'' (map_option base_name (model_of board ''cpu''))
     @ complaint (qo_accelerators opts) ''accelerator'' (get_then board ''accelerator'' (\<lambda>v. jget_then v ''type'' as_str))
     @ complaint (qo_devices opts) ''video device'' (map_option video_device (board_video board))
     @ complaint (qo_devices opts) ''audio device'' (audio_of board)
     @ complaint (qo_devices opts) ''TPM device'' (model_of board ''tpm'')
     @ (if board_disk_bus board = Some ''sata'' \<and> ''ich9-ahci'' \<notin> set (qo_devices opts)
        then [''QEMU does not support the SATA controller ich9-ahci''] else [])
     @ (if wants_analysis board
        then concat (map (\<lambda>p. if p \<in> set (qo_machine_properties opts) then []
               else [''QEMU machine does not support analysis property '' @ debug_str p]) analysis_names)
        else [])"

definition validate_legacy_board :: "obj \<Rightarrow> qemu_options \<Rightarrow> string option \<Rightarrow> board_report" where
  "validate_legacy_board board opts machine =
     (let errors = board_errors board opts machine
      in \<lparr>br_valid = (errors = []), br_machine = machine, br_errors = errors\<rparr>)"

definition selected_boards :: "obj \<Rightarrow> obj \<Rightarrow> string option \<Rightarrow> string list plan_result" where
  "selected_boards root boards inst = (case inst of
       None \<Rightarrow> Inr (map fst boards)
     | Some nm \<Rightarrow>
         rbind (needs (oget root ''instances'') ''legacy configuration instances is required'') (\<lambda>v.
         rbind (object v ''instances'') (\<lambda>insts.
         rbind (needs (oget insts nm) (''legacy instance not found: '' @ nm)) (\<lambda>v.
         rbind (object v ''instance'') (\<lambda>i.
         rbind (string_field i ''board'') (\<lambda>b. Inr [b]))))))"

definition board_report_of :: "qemu_env \<Rightarrow> path \<Rightarrow> obj \<Rightarrow> (string \<times> board_report) list \<Rightarrow> string
    \<Rightarrow> (string \<times> board_report) list plan_result" where
  "board_report_of env exe boards reports nm =
     rbind (needs (oget boards nm) (''legacy board not found: '' @ nm)) (\<lambda>v.
     rbind (object v ''board'') (\<lambda>board.
     let machine = (case board_machine board of Inl _ \<Rightarrow> None | Inr m \<Rightarrow> Some m) in
     rbind (inspect_qemu env exe machine None) (\<lambda>opts.
     Inr (oput nm (validate_legacy_board board opts machine) reports))))"

definition validate_legacy_config :: "qemu_env \<Rightarrow> json \<Rightarrow> path \<Rightarrow> string option \<Rightarrow> validation_report plan_result" where
  "validate_legacy_config env document exe inst =
     rbind (object document ''legacy configuration'') (\<lambda>root.
     if get_then root ''version'' as_i64 \<noteq> Some 1 then invalid ''legacy configuration version must be 1''
     else
       rbind (needs (oget root ''boards'') ''legacy configuration boards is required'') (\<lambda>v.
       rbind (object v ''boards'') (\<lambda>boards.
       rbind (selected_boards root boards inst) (\<lambda>selected.
       rbind (for_each selected (board_report_of env exe boards) []) (\<lambda>reports.
       Inr \<lparr>vr_valid = list_all (\<lambda>(_, r). br_valid r) reports, vr_qemu = exe, vr_boards = reports\<rparr>)))))"

end
