(* ===== verification/CapabilityProperties.thy ===== *)
theory CapabilityProperties
  imports Capabilities
begin

text \<open>
  What the check of a profile promises about the binary it is checked against, and what the readers of the help texts
  can return.
\<close>

section \<open>Help texts\<close>














text \<open>
  The flags that \<open>-cpu help\<close> lists behind the CPUs are read as CPUs: the heading ends a line with a colon and is skipped,
  but the lines below it are names like any other.
\<close>

definition cpu_help :: string where
  "cpu_help = ''Available CPUs:'' @ [CHR 0x0A] @ ''  qemu64     QEMU Virtual CPU'' @ [CHR 0x0A] @ [CHR 0x0A]
     @ ''Recognized CPUID flags:'' @ [CHR 0x0A] @ ''  fpu vme de'' @ [CHR 0x0A]"

lemma cpu_flags_count_as_cpus: "parse_named_help cpu_help = [''qemu64'', ''fpu'']"
  by code_simp

section \<open>Profiles\<close>

lemma offered_Inr_iff [result_simps]: "offered opts names what nm = Inr () \<longleftrightarrow> (\<forall>n. nm = Some n \<longrightarrow> n \<in> set names)"
  by (auto simp: offered_def unsupported_def split: option.splits)

lemma check_profile_devices_iff:
  "check_profile_devices opts d = Inr () \<longleftrightarrow>
     (get_then d ''vsock'' as_bool = Some True \<longrightarrow> ''vhost-vsock-pci'' \<in> set (qo_devices opts))
     \<and> (get_then d ''lcd'' as_bool = Some True \<longrightarrow> set lcd_devices \<subseteq> set (qo_devices opts))
     \<and> set_option (get_then d ''nic'' as_str) \<subseteq> set (qo_devices opts)
     \<and> video_device ` set_option (model_of d ''video'') \<subseteq> set (qo_devices opts)
     \<and> set_option (audio_of d) \<subseteq> set (qo_devices opts)"
  by (auto simp: check_profile_devices_def result_simps lcd_devices_def split: if_splits option.splits)


text \<open>What a profile names, as the lists it is looked up in and the names that have to be there.\<close>

definition requests :: "obj \<Rightarrow> obj \<Rightarrow> obj \<Rightarrow> string \<Rightarrow> qemu_options \<Rightarrow> (string list \<times> string set) list" where
  "requests p r d machine opts =
     [(qo_machines opts, {base_name machine}),
      (qo_cpus opts, base_name ` set_option (get_then p ''cpu'' as_str)),
      (qo_accelerators opts, base_name ` set_option (get_then r ''accelerator'' as_str)),
      (qo_devices opts, (if get_then d ''vsock'' as_bool = Some True then {''vhost-vsock-pci''} else {})
         \<union> (if get_then d ''lcd'' as_bool = Some True then set lcd_devices else {})
         \<union> set_option (get_then d ''nic'' as_str) \<union> video_device ` set_option (model_of d ''video'') \<union> set_option (audio_of d)
         \<union> set_option (model_of p ''tpm'')),
      (qo_machine_properties opts, if wants_analysis p then set analysis_names else {})]"

text \<open>
  The check of a profile is complete and asks for nothing else: a profile whose machine, resources and devices are
  well-formed passes exactly when the binary offers every machine, CPU, accelerator, device and machine property that the
  profile names, under the names QEMU uses for them.
\<close>

theorem profile_check_is_exact:
  assumes "string_field p ''machine'' = Inr machine" and "unwrap_or (oget p ''resources'') (JObj []) = JObj r"
    and "unwrap_or (oget p ''devices'') (JObj []) = JObj d"
  shows "validate_profile_against_qemu (JObj p) opts = Inr () \<longleftrightarrow>
    (\<forall>(names, needed) \<in> set (requests p r d machine opts). needed \<subseteq> set names)"
proof -
  have none: "get_then [] k f = None" for k and f :: "json \<Rightarrow> 'a option" by (simp add: get_then_def)
  have dev: "(case oget p ''devices'' of None \<Rightarrow> Inr () | Some v \<Rightarrow> rbind (object v ''profile.devices'') (check_profile_devices opts)) = Inr ()
    \<longleftrightarrow> check_profile_devices opts d = Inr ()"
  proof (cases "oget p ''devices''")
    case None
    with assms(3) have "d = []" by (simp add: unwrap_or_def)
    with None show ?thesis by (simp add: check_profile_devices_iff none audio_of_def model_of_def)
  next
    case (Some v)
    with assms(3) show ?thesis by (simp add: unwrap_or_def object_def result_simps)
  qed
  have ana: "check_analysis_properties opts = Inr () \<longleftrightarrow> set analysis_names \<subseteq> set (qo_machine_properties opts)"
    by (auto simp: check_analysis_properties_def result_simps unsupported_def split: if_splits)
  have "validate_profile_against_qemu (JObj p) opts = Inr () \<longleftrightarrow>
      base_name machine \<in> set (qo_machines opts)
    \<and> base_name ` set_option (get_then p ''cpu'' as_str) \<subseteq> set (qo_cpus opts)
    \<and> base_name ` set_option (get_then r ''accelerator'' as_str) \<subseteq> set (qo_accelerators opts)
    \<and> check_profile_devices opts d = Inr ()
    \<and> set_option (model_of p ''tpm'') \<subseteq> set (qo_devices opts)
    \<and> (wants_analysis p \<longrightarrow> set analysis_names \<subseteq> set (qo_machine_properties opts))"
    unfolding validate_profile_against_qemu_def assms(1,2) rbind_Inr_iff dev
    by (auto simp: result_simps assms(1,2) dev ana)
  then show ?thesis unfolding requests_def check_profile_devices_iff by auto
qed

definition sample_options :: qemu_options where
  "sample_options = \<lparr>qo_executable = ''/q'', qo_version = None, qo_machines = [''q35''], qo_cpus = [''host''], qo_accelerators = [''kvm''],
     qo_devices = [''virtio-vga-gl'', ''e1000''], qo_display_backends = [], qo_chardev_backends = [], qo_tpm_backends = [],
     qo_audio_drivers = [], qo_machine_properties = [], qo_analysis_properties = [], qo_device_properties = []\<rparr>"

definition sample_profile :: "string \<Rightarrow> obj" where
  "sample_profile nic = [(''cpu'', JStr ''host,+vmx''), (''devices'', JObj [(''nic'', JStr nic), (''video'', JObj [(''model'', JStr ''virtio-gl'')])]),
     (''machine'', JStr ''q35,smm=on'')]"

theorem profile_check_is_exact_witness:
  "validate_profile_against_qemu (JObj (sample_profile ''e1000'')) sample_options = Inr ()
   \<and> validate_profile_against_qemu (JObj (sample_profile ''rtl8139'')) sample_options \<noteq> Inr ()"
proof -
  let ?d = "\<lambda>nic. [(''nic'', JStr nic), (''video'', JObj [(''model'', JStr ''virtio-gl'')])]"
  have shape: "string_field (sample_profile nic) ''machine'' = Inr ''q35,smm=on''"
    "unwrap_or (oget (sample_profile nic) ''resources'') (JObj []) = JObj []"
    "unwrap_or (oget (sample_profile nic) ''devices'') (JObj []) = JObj (?d nic)" for nic
    by (simp_all add: sample_profile_def string_field_def get_then_def nonempty_def unwrap_or_def)
  have req: "requests (sample_profile nic) [] (?d nic) ''q35,smm=on'' sample_options =
    [([''q35''], {''q35''}), ([''host''], {''host''}), ([''kvm''], {}), ([''virtio-vga-gl'', ''e1000''], {nic, ''virtio-vga-gl''}), ([], {})]" for nic
    by (simp add: requests_def sample_options_def sample_profile_def get_then_def base_name_def model_of_def jget_then_def audio_of_def
        video_device_def wants_analysis_def insert_commute)
  show ?thesis
    unfolding profile_check_is_exact [OF shape] req by auto
qed

end
