(* ===== verification/Images.thy ===== *)
theory Images
  imports Configuration
begin

text \<open>
  \<open>crates/machineemu-core/src/storage/images.rs\<close>: the images of a workspace, each a directory below \<open>images/\<close> with its
  manifest and its component files, and the index of identifiers in the database. Files outside the workspace, the hash,
  the text of a manifest and what the file system refuses are parameters.
\<close>

section \<open>Manifests\<close>

definition as_id :: "json \<Rightarrow> id option" where
  "as_id v = (case as_str v of Some s \<Rightarrow> if id_valid s then Some s else None | None \<Rightarrow> None)"

definition as_ids :: "json \<Rightarrow> id list option" where
  "as_ids v = Option.bind (as_array v) (\<lambda>xs. those (map as_id xs))"

definition component_from_value :: "json \<Rightarrow> image_component option" where
  "component_from_value v = Option.bind (as_object v) (\<lambda>m.
     Option.bind (get_then m ''path'' as_str) (\<lambda>p.
     Option.bind (get_then m ''sha256'' as_str) (\<lambda>d.
     Some \<lparr>component_path = p, component_sha256 = d\<rparr>)))"

definition components_from_value :: "json \<Rightarrow> (string \<times> image_component) list option" where
  "components_from_value v = Option.bind (as_object v) (\<lambda>m.
     those (map (\<lambda>(k, c). map_option (Pair k) (component_from_value c)) m))"

definition manifest_from_value :: "json \<Rightarrow> image_manifest option" where
  "manifest_from_value v = Option.bind (as_object v) (\<lambda>m.
     Option.bind (get_then m ''image_id'' as_id) (\<lambda>i.
     Option.bind (get_then m ''engine_track'' as_id) (\<lambda>t.
     Option.bind (default_field m ''supported_engine_tracks'' as_ids []) (\<lambda>ts.
     Option.bind (get_then m ''target'' as_str) (\<lambda>g.
     Option.bind (default_field m ''components'' components_from_value []) (\<lambda>cs.
     Option.bind (default_field m ''disk_sha256'' as_str []) (\<lambda>d.
     Option.bind (opt_field m ''firmware_sha256'' as_str) (\<lambda>f.
     Option.bind (opt_field m ''tpm_state_sha256'' as_str) (\<lambda>p.
     Some \<lparr>im_image_id = i, engine_track = t, supported_engine_tracks = ts, im_target = g, im_components = cs,
           disk_sha256 = d, firmware_sha256 = f, tpm_state_sha256 = p\<rparr>)))))))))"

definition component_value :: "image_component \<Rightarrow> json" where
  "component_value c = json_obj [(''path'', JStr (component_path c)), (''sha256'', JStr (component_sha256 c))]"

text \<open>The manifest as \<open>serde\<close> writes it: fields with an empty default are skipped.\<close>

definition manifest_value :: "image_manifest \<Rightarrow> json" where
  "manifest_value m = json_obj
     ([(''image_id'', JStr (im_image_id m)), (''engine_track'', JStr (engine_track m))]
      @ (if supported_engine_tracks m = [] then [] else [(''supported_engine_tracks'', JArr (map JStr (supported_engine_tracks m)))])
      @ [(''target'', JStr (im_target m))]
      @ (if im_components m = [] then [] else [(''components'', JObj (map (\<lambda>(k, c). (k, component_value c)) (im_components m)))])
      @ (if disk_sha256 m = [] then [] else [(''disk_sha256'', JStr (disk_sha256 m))])
      @ (case firmware_sha256 m of None \<Rightarrow> [] | Some d \<Rightarrow> [(''firmware_sha256'', JStr d)])
      @ (case tpm_state_sha256 m of None \<Rightarrow> [] | Some d \<Rightarrow> [(''tpm_state_sha256'', JStr d)]))"

definition bare_digest :: "string \<Rightarrow> string" where
  "bare_digest d = unwrap_or (strip_prefix d ''sha256:'') d"

definition digest_valid :: "string \<Rightarrow> bool" where
  "digest_valid d \<longleftrightarrow> length (bare_digest d) = 64 \<and> list_all is_ascii_hexdigit (bare_digest d)"

definition manifest_digests :: "image_manifest \<Rightarrow> string list" where
  "manifest_digests m = map (component_sha256 \<circ> snd) (im_components m) @ (if disk_sha256 m = [] then [] else [disk_sha256 m])
     @ (case firmware_sha256 m of None \<Rightarrow> [] | Some d \<Rightarrow> [d]) @ (case tpm_state_sha256 m of None \<Rightarrow> [] | Some d \<Rightarrow> [d])"

definition validate_manifest :: "image_manifest \<Rightarrow> string \<Rightarrow> unit core_result" where
  "validate_manifest m expected =
     rbind (id_new ''image'' (im_image_id m)) (\<lambda>_.
     rbind (id_new ''engine track'' (engine_track m)) (\<lambda>_.
     rbind (check_all (supported_engine_tracks m) (\<lambda>t. rbind (id_new ''engine track'' t) (\<lambda>_. Inr ()))) (\<lambda>_.
     if im_image_id m \<noteq> expected
     then Inl (InvalidBundlePath (''manifest image_id '' @ quoted (im_image_id m) @ '' must match directory '' @ quoted expected))
     else check_all (manifest_digests m) (\<lambda>d. if digest_valid d then Inr () else Inl (InvalidBundlePath ''image manifest contains an invalid SHA-256 digest'')))))"

text \<open>A digest that the manifest leaves out is taken from the component of that name.\<close>

definition component_digest :: "image_manifest \<Rightarrow> string \<Rightarrow> string option" where
  "component_digest m nm = map_option (\<lambda>c. bare_digest (component_sha256 c)) (oget (im_components m) nm)"

definition fill_digests :: "image_manifest \<Rightarrow> image_manifest" where
  "fill_digests m = m\<lparr>disk_sha256 := (if disk_sha256 m = [] then unwrap_or (component_digest m ''disk'') [] else disk_sha256 m),
     firmware_sha256 := (if firmware_sha256 m = None then component_digest m ''firmware'' else firmware_sha256 m),
     tpm_state_sha256 := (if tpm_state_sha256 m = None then component_digest m ''tpm_state'' else tpm_state_sha256 m)\<rparr>"

section \<open>The image store\<close>

text \<open>\<open>manifest.yaml\<close> as the value it parses to (\<open>None\<close> when it does not), if it is there; and the files of \<open>components/\<close>.\<close>

record image_dir =
  manifest_doc :: "json option option"
  component_files :: "(string \<times> string) list"

record image_world =
  image_index :: "id list"
  legacy_rows :: "(string \<times> json option) list option"      \<comment> \<open>the column \<open>manifest_json\<close>, until it is migrated\<close>
  image_dirs :: "(id \<times> image_dir) list"

type_synonym 'a image_act = "(image_world, core_error, 'a) action"

record image_io =
  file_bytes :: "path \<Rightarrow> string option"             \<comment> \<open>a regular file outside the image store\<close>
  bytes_sha :: "string \<Rightarrow> 8 word list"
  manifest_yaml :: "image_manifest \<Rightarrow> string"        \<comment> \<open>\<open>serde_yaml::to_string\<close>\<close>
  image_mkdir_ok :: "id \<Rightarrow> bool"
  component_write_ok :: "id \<Rightarrow> string \<Rightarrow> bool"
  manifest_write_ok :: "id \<Rightarrow> bool"
  image_dir_inside :: "id \<Rightarrow> bool"                   \<comment> \<open>the directory resolves inside the workspace\<close>

definition empty_image_dir :: image_dir where "empty_image_dir = \<lparr>manifest_doc = None, component_files = []\<rparr>"

definition dir_of :: "id \<Rightarrow> image_world \<Rightarrow> image_dir" where
  "dir_of i w = unwrap_or (oget (image_dirs w) i) empty_image_dir"

definition put_dir :: "id \<Rightarrow> image_dir \<Rightarrow> image_world \<Rightarrow> image_world" where
  "put_dir i d w = w\<lparr>image_dirs := oput i d (image_dirs w)\<rparr>"

definition manifest_path :: "id \<Rightarrow> path" where "manifest_path i = ''images/'' @ i @ ''/manifest.yaml''"

definition parse_manifest :: "id \<Rightarrow> json option \<Rightarrow> image_manifest core_result" where
  "parse_manifest i doc =
     rbind (ok_or doc (InvalidBundlePath (manifest_path i))) (\<lambda>v.
     rbind (ok_or (manifest_from_value (unwrap_or (jget v ''spec'') v)) (InvalidBundlePath (manifest_path i))) (\<lambda>m.
     let m = (if im_components m \<noteq> [] then fill_digests m else m) in
     rbind (validate_manifest m i) (\<lambda>_. Inr m)))"

definition read_manifest :: "id \<Rightarrow> image_manifest image_act" where
  "read_manifest i w = (case manifest_doc (dir_of i w) of
       None \<Rightarrow> (Inl (Io (manifest_path i) ''read''), w)
     | Some doc \<Rightarrow> (parse_manifest i doc, w))"

definition image_of :: "id \<Rightarrow> image_manifest image_act" where "image_of i = read_manifest i"

definition publish_manifest :: "image_io \<Rightarrow> image_manifest \<Rightarrow> unit image_act" where
  "publish_manifest io m w =
     (let i = im_image_id m in
      if \<not> image_mkdir_ok io i then (Inl (Io (''images/'' @ i) ''create_dir_all''), w)
      else if \<not> manifest_write_ok io i then (Inl (Io (manifest_path i) ''publish''), put_dir i (dir_of i w) w)
      else (Inr (), put_dir i ((dir_of i w)\<lparr>manifest_doc := Some (Some (manifest_value m))\<rparr>) w))"

text \<open>Entries below \<open>images/\<close> that have no manifest yet are imports under way.\<close>

definition published :: "image_world \<Rightarrow> (id \<times> json option) list" where
  "published w = List.map_filter (\<lambda>(i, d). map_option (Pair i) (manifest_doc d)) (image_dirs w)"

definition list_images :: "image_manifest list image_act" where
  "list_images w = (rbind (collect (\<lambda>(i, doc). parse_manifest i doc) (published w)) (\<lambda>ms. Inr (sort_key im_image_id ms)), w)"

definition image_digest :: "image_io \<Rightarrow> image_manifest \<Rightarrow> string" where
  "image_digest io m = hex_digest (bytes_sha io) (manifest_yaml io m)"

definition add_index :: "id \<Rightarrow> image_world \<Rightarrow> image_world" where
  "add_index i w = w\<lparr>image_index := (if i \<in> set (image_index w) then image_index w else image_index w @ [i])\<rparr>"

definition register_image :: "image_io \<Rightarrow> image_manifest \<Rightarrow> string image_act" where
  "register_image io m =
     andthen (lift (validate_manifest m (im_image_id m))) (\<lambda>_.
     andthen (gets (\<lambda>w. manifest_doc (dir_of (im_image_id m) w) \<noteq> None)) (\<lambda>exists.
     andthen (if exists then andthen (read_manifest (im_image_id m)) (\<lambda>old.
                if old \<noteq> m then throw (ImageConflict (im_image_id m)) else ret ())
              else publish_manifest io m) (\<lambda>_.
     andthen (modify (add_index (im_image_id m))) (\<lambda>_.
     ret (image_digest io m)))))"

definition replace_image_manifest :: "image_io \<Rightarrow> image_manifest \<Rightarrow> string image_act" where
  "replace_image_manifest io m =
     andthen (lift (validate_manifest m (im_image_id m))) (\<lambda>_.
     andthen (gets (\<lambda>w. manifest_doc (dir_of (im_image_id m) w) \<noteq> None)) (\<lambda>exists.
     if \<not> exists then throw (NotFound ''image'' (im_image_id m))
     else if \<not> image_dir_inside io (im_image_id m) then throw (InvalidBundlePath ''image manifest directory escapes the workspace'')
     else if \<not> manifest_write_ok io (im_image_id m) then throw (Io (manifest_path (im_image_id m)) ''replace'')
     else
       andthen (modify (\<lambda>w. put_dir (im_image_id m) ((dir_of (im_image_id m) w)\<lparr>manifest_doc := Some (Some (manifest_value m))\<rparr>) w)) (\<lambda>_.
       ret (image_digest io m))))"

section \<open>Components\<close>

definition component_target :: "id \<Rightarrow> string \<Rightarrow> path" where "component_target i nm = ''images/'' @ i @ ''/components/'' @ nm"

definition check_digest :: "string option \<Rightarrow> string \<Rightarrow> string core_result" where
  "check_digest expected actual = (case expected of
       None \<Rightarrow> Inr actual
     | Some e \<Rightarrow> if actual \<noteq> bare_digest e then Inl (DigestMismatch (bare_digest e) actual) else Inr actual)"

text \<open>A component that is already there is kept and only checked.\<close>

definition publish_component :: "image_io \<Rightarrow> id \<Rightarrow> string \<Rightarrow> string \<Rightarrow> string option \<Rightarrow> string image_act" where
  "publish_component io i nm bytes expected w =
     (case oget (component_files (dir_of i w)) nm of
        Some old \<Rightarrow> (check_digest expected (hex_digest (bytes_sha io) old), w)
      | None \<Rightarrow>
          if \<not> component_write_ok io i nm then (Inl (Io (component_target i nm) ''write''), w)
          else (case check_digest expected (hex_digest (bytes_sha io) bytes) of
                  Inl e \<Rightarrow> (Inl e, w)
                | Inr d \<Rightarrow> (Inr d, put_dir i ((dir_of i w)\<lparr>component_files := oput nm bytes (component_files (dir_of i w))\<rparr>) w)))"

definition make_image_dir :: "image_io \<Rightarrow> id \<Rightarrow> unit image_act" where
  "make_image_dir io i w =
     (if \<not> image_mkdir_ok io i then (Inl (Io (''images/'' @ i @ ''/components'') ''create_dir_all''), w)
      else (Inr (), put_dir i (dir_of i w) w))"

definition optional_component :: "image_io \<Rightarrow> id \<Rightarrow> string \<Rightarrow> path \<Rightarrow> string option image_act" where
  "optional_component io i nm p = (case file_bytes io p of
       None \<Rightarrow> ret None | Some bytes \<Rightarrow> andthen (publish_component io i nm bytes None) (\<lambda>d. ret (Some d)))"

definition sha_component :: "path \<Rightarrow> string \<Rightarrow> image_component" where
  "sha_component p d = \<lparr>component_path = p, component_sha256 = ''sha256:'' @ d\<rparr>"

definition vmmanager_manifest :: "id \<Rightarrow> id \<Rightarrow> string \<Rightarrow> string \<Rightarrow> string option \<Rightarrow> string option \<Rightarrow> image_manifest" where
  "vmmanager_manifest i track target disk fw tpm =
     \<lparr>im_image_id = i, engine_track = track, supported_engine_tracks = [], im_target = target,
      im_components = [(''disk'', sha_component ''components/disk.qcow2'' disk)]
        @ (case fw of None \<Rightarrow> [] | Some d \<Rightarrow> [(''firmware'', sha_component ''components/firmware.fd'' d)])
        @ (case tpm of None \<Rightarrow> [] | Some d \<Rightarrow> [(''tpm_state'', sha_component ''components/tpm-state'' d)]),
      disk_sha256 = disk, firmware_sha256 = fw, tpm_state_sha256 = tpm\<rparr>"

definition import_vmmanager_base :: "image_io \<Rightarrow> path \<Rightarrow> id \<Rightarrow> id \<Rightarrow> string \<Rightarrow> image_manifest image_act" where
  "import_vmmanager_base io source i track target =
     (case file_bytes io (path_join source ''disk.qcow2'') of
        None \<Rightarrow> throw (InvalidBundlePath (path_join source ''disk.qcow2''))
      | Some disk \<Rightarrow>
          andthen (lift (id_new ''image'' i)) (\<lambda>_.
          andthen (make_image_dir io i) (\<lambda>_.
          andthen (publish_component io i ''disk.qcow2'' disk None) (\<lambda>disk.
          andthen (optional_component io i ''firmware.fd'' (path_join source ''OVMF_VARS.fd'')) (\<lambda>fw.
          andthen (optional_component io i ''tpm-state'' (path_join source ''tpm/tpm2-00.permall'')) (\<lambda>tpm.
          let m = vmmanager_manifest i track target disk fw tpm in
          andthen (register_image io m) (\<lambda>_. ret m)))))))"

section \<open>Bundles\<close>

record image_bundle =
  ib_schema_version :: int
  ib_image_id :: id
  ib_engine_track :: id
  ib_supported_tracks :: "id list"
  ib_target :: string
  ib_components :: "(string \<times> image_component) list"

text \<open>A bundle on disk: its manifest as it parses, and its files by path below the bundle.\<close>

record bundle_dir =
  bundle_manifest :: "image_bundle option option"
  bundle_files :: "(path \<times> string) list"

definition bundle_layout :: "(string \<times> string \<times> path) list" where
  "bundle_layout = [(''disk'', ''disk.qcow2'', ''components/disk.qcow2''), (''firmware'', ''firmware.fd'', ''components/firmware.fd''),
     (''tpm_state'', ''tpm-state'', ''components/tpm-state'')]"

definition manifest_digest_of :: "image_manifest \<Rightarrow> string \<Rightarrow> string option" where
  "manifest_digest_of m nm = (if nm = ''disk'' then Some (disk_sha256 m) else if nm = ''firmware'' then firmware_sha256 m
     else if nm = ''tpm_state'' then tpm_state_sha256 m else None)"

text \<open>One component of an export: verified against the digest of the manifest, then copied.\<close>

definition export_component :: "image_io \<Rightarrow> image_dir \<Rightarrow> image_manifest \<Rightarrow>
    (path \<times> string) list \<times> (string \<times> image_component) list \<Rightarrow> string \<times> string \<times> path \<Rightarrow>
    ((path \<times> string) list \<times> (string \<times> image_component) list) core_result" where
  "export_component io d m = (\<lambda>(fs, cs) (nm, source_name, p).
     case manifest_digest_of m nm of
       None \<Rightarrow> Inr (fs, cs)
     | Some expected \<Rightarrow>
         rbind (ok_or (oget (component_files d) source_name) (Io (component_target (im_image_id m) source_name) ''open'')) (\<lambda>bytes.
         rbind (check_digest (Some (bare_digest expected)) (hex_digest (bytes_sha io) bytes)) (\<lambda>_.
         Inr (oput p bytes fs, oput nm (sha_component p (bare_digest expected)) cs))))"

definition export_image_bundle :: "image_io \<Rightarrow> bool \<Rightarrow> path \<Rightarrow> id \<Rightarrow> (image_bundle \<times> bundle_dir) image_act" where
  "export_image_bundle io destination_exists destination i =
     (if destination_exists then throw (BundleExists destination)
      else
        andthen (read_manifest i) (\<lambda>m.
        andthen (gets (dir_of i)) (\<lambda>d.
        andthen (lift (for_each bundle_layout (export_component io d m) ([], []))) (\<lambda>(fs, cs).
        let b = \<lparr>ib_schema_version = 1, ib_image_id = im_image_id m, ib_engine_track = engine_track m,
                 ib_supported_tracks = supported_engine_tracks m, ib_target = im_target m, ib_components = cs\<rparr>
        in ret (b, \<lparr>bundle_manifest = Some (Some b), bundle_files = fs\<rparr>)))))"

definition import_component :: "image_io \<Rightarrow> bundle_dir \<Rightarrow> image_bundle \<Rightarrow> string \<Rightarrow> string \<Rightarrow> string option image_act" where
  "import_component io src b nm destination_name =
     (case oget (ib_components b) nm of
        None \<Rightarrow> ret None
      | Some c \<Rightarrow>
          if is_absolute (component_path c) \<or> has_parent_dir (component_path c) then throw (InvalidBundlePath (component_path c))
          else (case oget (bundle_files src) (component_path c) of
                  None \<Rightarrow> throw (InvalidBundlePath (component_path c))
                | Some bytes \<Rightarrow>
                    andthen (publish_component io (ib_image_id b) destination_name bytes (Some (component_sha256 c))) (\<lambda>d. ret (Some d))))"

definition import_image_bundle :: "image_io \<Rightarrow> path \<Rightarrow> bundle_dir \<Rightarrow> (image_manifest \<times> string) image_act" where
  "import_image_bundle io source src =
     (case bundle_manifest src of
        None \<Rightarrow> throw (Io (path_join source ''manifest.yaml'') ''read'')
      | Some None \<Rightarrow> throw (InvalidBundlePath (path_join source ''manifest.yaml''))
      | Some (Some b) \<Rightarrow>
          if ib_schema_version b \<noteq> 1 then throw (InvalidBundlePath ''unsupported schema_version'')
          else
            andthen (lift (id_new ''image'' (ib_image_id b))) (\<lambda>_.
            andthen (make_image_dir io (ib_image_id b)) (\<lambda>_.
            andthen (import_component io src b ''disk'' ''disk.qcow2'') (\<lambda>disk.
            andthen (lift (ok_or disk (InvalidBundlePath ''disk component is required''))) (\<lambda>disk.
            andthen (import_component io src b ''firmware'' ''firmware.fd'') (\<lambda>fw.
            andthen (import_component io src b ''tpm_state'' ''tpm-state'') (\<lambda>tpm.
            let m = \<lparr>im_image_id = ib_image_id b, engine_track = ib_engine_track b, supported_engine_tracks = ib_supported_tracks b,
                     im_target = ib_target b, im_components = ib_components b, disk_sha256 = disk, firmware_sha256 = fw,
                     tpm_state_sha256 = tpm\<rparr> in
            andthen (register_image io m) (\<lambda>d. ret (m, d)))))))))"

section \<open>Legacy metadata\<close>

definition migrate_image :: "image_io \<Rightarrow> string \<times> json option \<Rightarrow> unit image_act" where
  "migrate_image io = (\<lambda>(i, doc).
     andthen (lift (ok_or (Option.bind doc manifest_from_value) (ManifestJson ''manifest_json''))) (\<lambda>m.
     andthen (lift (validate_manifest m i)) (\<lambda>_.
     andthen (gets (\<lambda>w. manifest_doc (dir_of i w) \<noteq> None)) (\<lambda>exists.
     if exists then andthen (read_manifest i) (\<lambda>_. ret ()) else publish_manifest io m))))"

definition migrate_image_manifests :: "image_io \<Rightarrow> unit image_act" where
  "migrate_image_manifests io =
     andthen (gets legacy_rows) (\<lambda>rows. case rows of
         None \<Rightarrow> ret ()
       | Some rows \<Rightarrow>
           andthen (map_act (migrate_image io) (sort_key fst rows)) (\<lambda>_.
           modify (\<lambda>w. w\<lparr>image_index := map fst rows, legacy_rows := None\<rparr>)))"

end
