(* ===== verification/ImageProperties.thy ===== *)
theory ImageProperties
  imports Images StoreInvariant
begin

text \<open>
  What the image store keeps: manifests read back as they were written, a published manifest is never overwritten by a
  registration, and a bundle carries an image over.
\<close>

section \<open>Manifests as values\<close>

lemma those_map_Some: "(\<And>x. x \<in> set xs \<Longrightarrow> f x = Some (g x)) \<Longrightarrow> those (map f xs) = Some (map g xs)"
  by (induction xs) auto

definition manifest_ok :: "image_manifest \<Rightarrow> bool" where
  "manifest_ok m \<longleftrightarrow> id_valid (im_image_id m) \<and> id_valid (engine_track m) \<and> list_all id_valid (supported_engine_tracks m)"

lemma component_round_trip: "component_from_value (component_value c) = Some c"
  by (simp add: component_from_value_def component_value_def json_obj_def get_then_def)

lemma components_round_trip: "components_from_value (JObj (map (\<lambda>(k, c). (k, component_value c)) cs)) = Some cs"
proof -
  have "those (map (\<lambda>x. map_option (Pair (fst x)) (component_from_value (component_value (snd x)))) cs) = Some (map (\<lambda>x. x) cs)"
    by (rule those_map_Some) (simp add: component_round_trip)
  then show ?thesis by (simp add: components_from_value_def comp_def case_prod_beta)
qed

lemma ids_round_trip: "list_all id_valid xs \<Longrightarrow> as_ids (JArr (map JStr xs)) = Some xs"
  using those_map_Some [of xs "\<lambda>x. as_id (JStr x)" "\<lambda>x. x"]
  by (simp add: as_ids_def as_id_def list_all_iff comp_def)

text \<open>
  A manifest reads back from the document it is written as, whichever of its optional fields are left out.
\<close>

theorem manifest_reads_back:
  assumes "manifest_ok m"
  shows "manifest_from_value (manifest_value m) = Some m"
proof -
  obtain kvs where kvs: "manifest_value m = JObj kvs"
    "oget kvs ''image_id'' = Some (JStr (im_image_id m))" "oget kvs ''engine_track'' = Some (JStr (engine_track m))"
    "oget kvs ''supported_engine_tracks'' = (if supported_engine_tracks m = [] then None else Some (JArr (map JStr (supported_engine_tracks m))))"
    "oget kvs ''target'' = Some (JStr (im_target m))"
    "oget kvs ''components'' = (if im_components m = [] then None else Some (JObj (map (\<lambda>(k, c). (k, component_value c)) (im_components m))))"
    "oget kvs ''disk_sha256'' = (if disk_sha256 m = [] then None else Some (JStr (disk_sha256 m)))"
    "oget kvs ''firmware_sha256'' = map_option JStr (firmware_sha256 m)"
    "oget kvs ''tpm_state_sha256'' = map_option JStr (tpm_state_sha256 m)"
    by (rule that [of "the (as_object (manifest_value m))"])
      (simp_all add: manifest_value_def json_obj_def oget_oput split: option.split)
  show ?thesis
    using assms unfolding kvs(1) manifest_from_value_def
    by (cases "firmware_sha256 m"; cases "tpm_state_sha256 m")
      (simp_all add: kvs get_then_def default_field_def opt_field_def as_id_def manifest_ok_def ids_round_trip components_round_trip)
qed


definition sample_digest :: string where "sample_digest = replicate 64 CHR ''a''"

definition sample_manifest :: image_manifest where
  "sample_manifest = \<lparr>im_image_id = ''win'', engine_track = ''v9'', supported_engine_tracks = [], im_target = ''q35'',
     im_components = [(''disk'', sha_component ''components/disk.qcow2'' sample_digest)], disk_sha256 = [], firmware_sha256 = None,
     tpm_state_sha256 = None\<rparr>"

theorem manifest_reads_back_witness: "manifest_from_value (manifest_value sample_manifest) = Some sample_manifest"
proof (rule manifest_reads_back)
  show "manifest_ok sample_manifest" by code_simp
qed

definition sample_image_io :: image_io where
  "sample_image_io = \<lparr>file_bytes = (\<lambda>_. None), bytes_sha = (\<lambda>_. replicate 32 0), manifest_yaml = (\<lambda>_. []), image_mkdir_ok = (\<lambda>_. True),
     component_write_ok = (\<lambda>_ _. True), manifest_write_ok = (\<lambda>_. True), image_dir_inside = (\<lambda>_. True)\<rparr>"

definition empty_images :: image_world where
  "empty_images = \<lparr>image_index = [], legacy_rows = None, image_dirs = []\<rparr>"

section \<open>Registration\<close>

lemma hex_not_s: "\<not> is_ascii_hexdigit CHR ''s''"
  by code_simp

lemma bare_digest_bare: "digest_valid d \<Longrightarrow> bare_digest (bare_digest d) = bare_digest d"
proof -
  assume "digest_valid d"
  then have "\<not> starts_with (bare_digest d) ''sha256:''"
    using hex_not_s by (auto simp: digest_valid_def starts_with_iff list_all_iff)
  then show ?thesis by (subst bare_digest_def) (simp add: strip_prefix_def unwrap_or_def)
qed

lemma digest_valid_bare: "digest_valid d \<Longrightarrow> digest_valid (bare_digest d)"
  by (simp add: digest_valid_def [of "bare_digest d"] bare_digest_bare) (simp add: digest_valid_def)

lemma validate_manifest_iff:
  "validate_manifest m i = Inr () \<longleftrightarrow> manifest_ok m \<and> im_image_id m = i \<and> list_all digest_valid (manifest_digests m)"
  by (auto simp: validate_manifest_def result_simps id_new_def manifest_ok_def list_all_iff split: if_splits)

lemma component_digest_valid:
  "list_all digest_valid (manifest_digests m) \<Longrightarrow> component_digest m nm = Some d \<Longrightarrow> digest_valid d"
  by (force simp: component_digest_def manifest_digests_def list_all_iff intro: digest_valid_bare dest: oget_in_set)

lemma fill_fields [simp]:
  "im_image_id (fill_digests m) = im_image_id m" "engine_track (fill_digests m) = engine_track m"
  "supported_engine_tracks (fill_digests m) = supported_engine_tracks m" "im_components (fill_digests m) = im_components m"
  "component_digest (fill_digests m) nm = component_digest m nm" "manifest_ok (fill_digests m) = manifest_ok m"
  by (simp_all add: fill_digests_def component_digest_def manifest_ok_def)

lemma fill_idem: "fill_digests (fill_digests m) = fill_digests m"
  unfolding fill_digests_def [of "fill_digests m"]
  by (cases m) (auto simp: fill_digests_def component_digest_def unwrap_or_def split: option.splits)

lemma fill_digests_valid:
  assumes "list_all digest_valid (manifest_digests m)"
  shows "list_all digest_valid (manifest_digests (fill_digests m))"
proof -
  have old: "d \<in> set (manifest_digests m) \<Longrightarrow> digest_valid d" for d using assms by (simp add: list_all_iff)
  have "d \<in> set (manifest_digests (fill_digests m)) \<Longrightarrow> d \<in> set (manifest_digests m) \<or> (\<exists>nm. component_digest m nm = Some d)" for d
    by (auto simp: manifest_digests_def fill_digests_def unwrap_or_def split: if_splits option.splits)
  then show ?thesis using old component_digest_valid [OF assms] by (auto simp: list_all_iff)
qed

lemma fill_none: "im_components m = [] \<Longrightarrow> fill_digests m = m"
  by (cases m) (simp add: fill_digests_def component_digest_def unwrap_or_def)

lemma parse_manifest_value:
  assumes "validate_manifest m i = Inr ()"
  shows "parse_manifest i (Some (manifest_value m)) = Inr (fill_digests m)"
proof -
  from assms have v: "manifest_ok m" "im_image_id m = i" "list_all digest_valid (manifest_digests m)"
    by (simp_all add: validate_manifest_iff)
  have "jget (manifest_value m) ''spec'' = None"
    by (simp add: manifest_value_def json_obj_def oget_oput split: option.split)
  moreover have "(if im_components m \<noteq> [] then fill_digests m else m) = fill_digests m" by (simp add: fill_none)
  moreover have "validate_manifest (fill_digests m) i = Inr ()"
    unfolding validate_manifest_iff using v fill_digests_valid by simp
  ultimately show ?thesis
    by (simp add: parse_manifest_def manifest_reads_back [OF v(1)] unwrap_or_def Let_def)
qed

lemma parse_manifest_filled: "parse_manifest i doc = Inr m \<Longrightarrow> fill_digests m = m"
  by (auto simp: parse_manifest_def result_simps Let_def fill_idem fill_none split: if_splits)

lemma dir_of_put [simp]: "dir_of j (put_dir i d w) = (if j = i then d else dir_of j w)"
  by (simp add: dir_of_def put_dir_def oget_oput unwrap_or_def)

lemma dir_of_index [simp]: "dir_of j (add_index i w) = dir_of j w" "i \<in> set (image_index (add_index i w))"
  by (simp_all add: dir_of_def add_index_def)

definition keeps_manifests :: "image_world \<Rightarrow> image_world \<Rightarrow> bool" where
  "keeps_manifests w w' \<longleftrightarrow> (\<forall>i doc. manifest_doc (dir_of i w) = Some doc \<longrightarrow> manifest_doc (dir_of i w') = Some doc)"

lemma registered_reads_back:
  assumes "register_image io m w = (Inr d, w')"
  shows "read_manifest (im_image_id m) w' = (Inr (fill_digests m), w') \<and> d = image_digest io m
    \<and> im_image_id m \<in> set (image_index w')"
proof -
  have v: "validate_manifest m (im_image_id m) = Inr ()"
    using assms by (auto simp: register_image_def andthen_def lift_def split: sum.splits)
  show ?thesis
  proof (cases "manifest_doc (dir_of (im_image_id m) w)")
    case None
    have "read_manifest (im_image_id m) w1 = (Inr (fill_digests m), w1)"
      if "manifest_doc (dir_of (im_image_id m) w1) = Some (Some (manifest_value m))" for w1
      using that parse_manifest_value [OF v] by (simp add: read_manifest_def)
    with assms None v show ?thesis
      by (auto simp: register_image_def andthen_def publish_manifest_def Let_def split: if_splits)
  next
    case (Some doc)
    with assms v have "parse_manifest (im_image_id m) doc = Inr m"
      by (auto simp: register_image_def andthen_def read_manifest_def split: sum.splits if_splits)
    with assms Some v parse_manifest_filled show ?thesis
      by (auto simp: register_image_def andthen_def read_manifest_def)
  qed
qed

text \<open>
  C34: Registering an image never touches a published manifest, its own or another, whatever the outcome. When it
  succeeds, the identifier is in the index, the digest is that of the manifest, and the image reads back as the manifest
  with the digests it left out taken from its components.
\<close>

theorem register_publishes_once:
  assumes "register_image io m w = (r, w')"
  shows "keeps_manifests w w'
    \<and> (\<forall>d. r = Inr d \<longrightarrow> d = image_digest io m \<and> im_image_id m \<in> set (image_index w')
        \<and> read_manifest (im_image_id m) w' = (Inr (fill_digests m), w'))"
proof
  show "keeps_manifests w w'"
  proof (cases "manifest_doc (dir_of (im_image_id m) w)")
    case None
    with assms show ?thesis
      by (auto simp: register_image_def andthen_def lift_def publish_manifest_def Let_def keeps_manifests_def split: if_splits sum.splits)
  next
    case (Some doc)
    with assms show ?thesis
      by (auto simp: register_image_def andthen_def lift_def read_manifest_def keeps_manifests_def split: if_splits sum.splits)
  qed
  show "\<forall>d. r = Inr d \<longrightarrow> d = image_digest io m \<and> im_image_id m \<in> set (image_index w')
        \<and> read_manifest (im_image_id m) w' = (Inr (fill_digests m), w')"
    using assms registered_reads_back by blast
qed

theorem register_publishes_once_witness:
  "keeps_manifests empty_images (snd (register_image sample_image_io sample_manifest empty_images))"
  using register_publishes_once [of sample_image_io sample_manifest empty_images] by (cases "register_image sample_image_io sample_manifest empty_images") simp

text \<open>
  Registering a manifest that leaves a digest to its components is not repeatable: the same request, sent again, is
  refused as a conflict with the image it made itself.
\<close>

theorem registered_image_conflicts_with_itself:
  assumes "validate_manifest m (im_image_id m) = Inr ()" and "fill_digests m \<noteq> m"
    and "register_image io m w = (Inr d, w')"
  shows "register_image io m w' = (Inl (ImageConflict (im_image_id m)), w')"
proof -
  have "read_manifest (im_image_id m) w' = (Inr (fill_digests m), w')"
    using registered_reads_back [OF assms(3)] by blast
  moreover from this have "manifest_doc (dir_of (im_image_id m) w') \<noteq> None"
    by (auto simp: read_manifest_def split: option.splits)
  ultimately show ?thesis using assms(1,2) by (simp add: register_image_def andthen_def)
qed


theorem registered_image_conflicts_with_itself_witness:
  "\<exists>w' d. register_image sample_image_io sample_manifest empty_images = (Inr d, w')
    \<and> register_image sample_image_io sample_manifest w' = (Inl (ImageConflict ''win''), w')"
proof -
  have v: "validate_manifest sample_manifest (im_image_id sample_manifest) = Inr ()" by code_simp
  have f: "fill_digests sample_manifest \<noteq> sample_manifest" by code_simp
  have "is_ok (fst (register_image sample_image_io sample_manifest empty_images))" by code_simp
  then obtain d w' where r: "register_image sample_image_io sample_manifest empty_images = (Inr d, w')"
    by (cases "register_image sample_image_io sample_manifest empty_images") (auto simp: is_ok_iff)
  from registered_image_conflicts_with_itself [OF v f r] r show ?thesis by (simp add: sample_manifest_def)
qed

section \<open>Bundles\<close>

lemma bare_prefixed [simp]: "bare_digest (''sha256:'' @ d) = d"
proof -
  have "starts_with (''sha256:'' @ d) ''sha256:''" by (simp add: starts_with_iff)
  then show ?thesis by (simp add: bare_digest_def strip_prefix_def unwrap_or_def)
qed

lemmas bare_cons [simp] = bare_prefixed [unfolded append_Cons append_Nil]

lemma check_digest_Inr: "check_digest (Some e) a = Inr x \<longleftrightarrow> a = bare_digest e \<and> x = a"
  by (auto simp: check_digest_def)

text \<open>What is copied for one component, and a map that gains an entry when there is one.\<close>

definition carried :: "image_io \<Rightarrow> image_dir \<Rightarrow> image_manifest \<Rightarrow> string \<Rightarrow> string \<Rightarrow> string option \<Rightarrow> bool" where
  "carried io d m nm source_name bytes \<longleftrightarrow> (case manifest_digest_of m nm of
      None \<Rightarrow> bytes = None
    | Some e \<Rightarrow> \<exists>b. bytes = Some b \<and> oget (component_files d) source_name = Some b \<and> hex_digest (bytes_sha io) b = bare_digest e)"

definition put_opt :: "'k :: linorder \<Rightarrow> 'v option \<Rightarrow> ('k \<times> 'v) list \<Rightarrow> ('k \<times> 'v) list" where
  "put_opt k x kvs = (case x of None \<Rightarrow> kvs | Some v \<Rightarrow> oput k v kvs)"

lemma oget_put_opt: "oget (put_opt k x kvs) k' = (if k' = k \<and> x \<noteq> None then x else oget kvs k')"
  by (simp add: put_opt_def oget_oput split: option.split)

lemma set_put_opt: "y \<in> set (put_opt k x kvs) \<Longrightarrow> y \<in> set kvs \<or> (\<exists>v. x = Some v \<and> y = (k, v))"
  using set_oput_subset [of k "the x" kvs] by (auto simp: put_opt_def split: option.splits)

definition shipped :: "image_io \<Rightarrow> path \<Rightarrow> string option \<Rightarrow> image_component option" where
  "shipped io p bytes = map_option (\<lambda>b. sha_component p (hex_digest (bytes_sha io) b)) bytes"

lemma export_component_carries:
  assumes "export_component io d m (fs, cs) (nm, sn, p) = Inr (fs', cs')"
    and "\<forall>e. manifest_digest_of m nm = Some e \<longrightarrow> bare_digest (bare_digest e) = bare_digest e"
  shows "\<exists>bytes. carried io d m nm sn bytes \<and> fs' = put_opt p bytes fs \<and> cs' = put_opt nm (shipped io p bytes) cs"
proof (cases "manifest_digest_of m nm")
  case None
  with assms(1) show ?thesis by (intro exI [of _ None]) (simp add: export_component_def carried_def put_opt_def shipped_def)
next
  case (Some e)
  with assms obtain b where "oget (component_files d) sn = Some b" "hex_digest (bytes_sha io) b = bare_digest e"
      "fs' = oput p b fs" "cs' = oput nm (sha_component p (bare_digest e)) cs"
    by (auto simp: export_component_def result_simps check_digest_Inr)
  with Some show ?thesis by (intro exI [of _ "Some b"]) (simp add: carried_def put_opt_def shipped_def)
qed

definition with_file :: "string \<Rightarrow> string option \<Rightarrow> image_dir \<Rightarrow> image_dir" where
  "with_file nm bytes d = d\<lparr>component_files := put_opt nm bytes (component_files d)\<rparr>"

lemma with_file_fields [simp]:
  "manifest_doc (with_file nm bytes d) = manifest_doc d"
  "component_files (with_file nm bytes d) = put_opt nm bytes (component_files d)"
  by (simp_all add: with_file_def)

lemma import_component_carries:
  assumes "oget (ib_components b) nm = shipped io p bytes"
    and "\<forall>x. bytes = Some x \<longrightarrow> oget (bundle_files src) p = Some x"
    and "\<not> is_absolute p" "\<not> has_parent_dir p"
    and "oget (component_files (dir_of (ib_image_id b) v)) dest = None" and "component_write_ok io (ib_image_id b) dest"
  shows "\<exists>v'. import_component io src b nm dest v = (Inr (map_option (hex_digest (bytes_sha io)) bytes), v')
    \<and> dir_of (ib_image_id b) v' = with_file dest bytes (dir_of (ib_image_id b) v)"
proof (cases bytes)
  case None
  with assms(1) show ?thesis by (simp add: import_component_def shipped_def with_file_def put_opt_def)
next
  case (Some x)
  with assms show ?thesis
    by (simp add: import_component_def shipped_def with_file_def put_opt_def sha_component_def publish_component_def check_digest_def andthen_def)
qed

lemma stored_digest_bare:
  assumes "parse_manifest i doc = Inr m" and "manifest_digest_of m nm = Some e"
  shows "bare_digest (bare_digest e) = bare_digest e"
proof -
  from assms(1) have "list_all digest_valid (manifest_digests m)"
    by (auto simp: parse_manifest_def result_simps Let_def validate_manifest_iff split: if_splits)
  moreover have "e = [] \<or> e \<in> set (manifest_digests m)"
    using assms(2) by (auto simp: manifest_digest_of_def manifest_digests_def split: if_splits)
  moreover have "bare_digest [] = []" by (simp add: bare_digest_def strip_prefix_def unwrap_or_def)
  ultimately show ?thesis by (auto simp: list_all_iff bare_digest_bare)
qed

text \<open>What an export holds, component by component.\<close>

definition layout_files :: "string option \<Rightarrow> string option \<Rightarrow> string option \<Rightarrow> (path \<times> string) list" where
  "layout_files b1 b2 b3 = put_opt ''components/tpm-state'' b3 (put_opt ''components/firmware.fd'' b2 (put_opt ''components/disk.qcow2'' b1 []))"

definition layout_components :: "image_io \<Rightarrow> string option \<Rightarrow> string option \<Rightarrow> string option \<Rightarrow> (string \<times> image_component) list" where
  "layout_components io b1 b2 b3 = put_opt ''tpm_state'' (shipped io ''components/tpm-state'' b3)
     (put_opt ''firmware'' (shipped io ''components/firmware.fd'' b2) (put_opt ''disk'' (shipped io ''components/disk.qcow2'' b1) []))"

lemma layout_get:
  "oget (layout_files b1 b2 b3) ''components/disk.qcow2'' = b1"
  "oget (layout_files b1 b2 b3) ''components/firmware.fd'' = b2"
  "oget (layout_files b1 b2 b3) ''components/tpm-state'' = b3"
  "oget (layout_components io b1 b2 b3) ''disk'' = shipped io ''components/disk.qcow2'' b1"
  "oget (layout_components io b1 b2 b3) ''firmware'' = shipped io ''components/firmware.fd'' b2"
  "oget (layout_components io b1 b2 b3) ''tpm_state'' = shipped io ''components/tpm-state'' b3"
  by (simp_all add: layout_files_def layout_components_def oget_put_opt shipped_def)

lemma export_layout:
  assumes "for_each bundle_layout (export_component io d m) ([], []) = Inr (fs, cs)"
    and "\<forall>nm e. manifest_digest_of m nm = Some e \<longrightarrow> bare_digest (bare_digest e) = bare_digest e"
  shows "\<exists>b1 b2 b3. carried io d m ''disk'' ''disk.qcow2'' b1 \<and> carried io d m ''firmware'' ''firmware.fd'' b2
    \<and> carried io d m ''tpm_state'' ''tpm-state'' b3 \<and> fs = layout_files b1 b2 b3 \<and> cs = layout_components io b1 b2 b3"
proof -
  obtain f1 c1 f2 c2 where
    one: "export_component io d m ([], []) (''disk'', ''disk.qcow2'', ''components/disk.qcow2'') = Inr (f1, c1)"
    and two: "export_component io d m (f1, c1) (''firmware'', ''firmware.fd'', ''components/firmware.fd'') = Inr (f2, c2)"
    and three: "export_component io d m (f2, c2) (''tpm_state'', ''tpm-state'', ''components/tpm-state'') = Inr (fs, cs)"
    using assms(1) by (auto simp: bundle_layout_def rbind_Inr_iff)
  from assms(2) have bare: "\<forall>e. manifest_digest_of m nm = Some e \<longrightarrow> bare_digest (bare_digest e) = bare_digest e" for nm by simp
  obtain b1 where b1: "carried io d m ''disk'' ''disk.qcow2'' b1" "f1 = put_opt ''components/disk.qcow2'' b1 []"
    "c1 = put_opt ''disk'' (shipped io ''components/disk.qcow2'' b1) []"
    using export_component_carries [OF one bare] by (elim exE conjE)
  obtain b2 where b2: "carried io d m ''firmware'' ''firmware.fd'' b2" "f2 = put_opt ''components/firmware.fd'' b2 f1"
    "c2 = put_opt ''firmware'' (shipped io ''components/firmware.fd'' b2) c1"
    using export_component_carries [OF two bare] by (elim exE conjE)
  obtain b3 where b3: "carried io d m ''tpm_state'' ''tpm-state'' b3" "fs = put_opt ''components/tpm-state'' b3 f2"
    "cs = put_opt ''tpm_state'' (shipped io ''components/tpm-state'' b3) c2"
    using export_component_carries [OF three bare] by (elim exE conjE)
  have "fs = layout_files b1 b2 b3" unfolding layout_files_def b3(2) b2(2) b1(2) ..
  moreover have "cs = layout_components io b1 b2 b3" unfolding layout_components_def b3(3) b2(3) b1(3) ..
  ultimately show ?thesis using b1(1) b2(1) b3(1) by (intro exI conjI)
qed

text \<open>The manifest that an import registers names digests that its components carry.\<close>

lemma hex_digest_valid:
  assumes "length (f x) = 32"
  shows "digest_valid (hex_digest f x)" "bare_digest (hex_digest f x) = hex_digest f x" "hex_digest f x \<noteq> []"
proof -
  have len: "length (hex_digest f x) = 64" using assms by (simp add: hex_digest_def length_hex_bytes)
  have "is_ascii_hexdigit c" if "c \<in> set (hex_digest f x)" for c
    using that by (auto simp: hex_digest_def hex_bytes_def hex2_def hex_char_lower_hexdigit unat_byte_div16)
  then have hex: "list_all is_ascii_hexdigit (hex_digest f x)" by (simp add: list_all_iff)
  then have "\<not> starts_with (hex_digest f x) ''sha256:''" using hex_not_s by (auto simp: starts_with_iff)
  then show b: "bare_digest (hex_digest f x) = hex_digest f x" by (simp add: bare_digest_def strip_prefix_def unwrap_or_def)
  show "digest_valid (hex_digest f x)" using len hex by (simp add: digest_valid_def b)
  show "hex_digest f x \<noteq> []" using len by auto
qed

definition imported :: "image_io \<Rightarrow> image_manifest \<Rightarrow> string \<Rightarrow> string option \<Rightarrow> string option \<Rightarrow> image_manifest" where
  "imported io m b1 b2 b3 = \<lparr>im_image_id = im_image_id m, engine_track = engine_track m, supported_engine_tracks = supported_engine_tracks m,
     im_target = im_target m, im_components = layout_components io (Some b1) b2 b3, disk_sha256 = hex_digest (bytes_sha io) b1,
     firmware_sha256 = map_option (hex_digest (bytes_sha io)) b2, tpm_state_sha256 = map_option (hex_digest (bytes_sha io)) b3\<rparr>"

lemma imported_valid:
  assumes "manifest_ok m" and "\<forall>x. length (bytes_sha io x) = 32"
  shows "validate_manifest (imported io m b1 b2 b3) (im_image_id m) = Inr ()"
    and "fill_digests (imported io m b1 b2 b3) = imported io m b1 b2 b3"
proof -
  have valid: "digest_valid (hex_digest (bytes_sha io) x)" "bare_digest (hex_digest (bytes_sha io) x) = hex_digest (bytes_sha io) x"
    "hex_digest (bytes_sha io) x \<noteq> []" for x
    using hex_digest_valid [of "bytes_sha io" x] assms(2) by simp_all
  have "digest_valid (component_sha256 c)" if "(nm, c) \<in> set (layout_components io (Some b1) b2 b3)" for nm c
  proof -
    from that have "\<exists>p x. c = sha_component p (hex_digest (bytes_sha io) x)"
      by (auto simp: layout_components_def shipped_def dest!: set_put_opt)
    then obtain p x where c: "c = sha_component p (hex_digest (bytes_sha io) x)" by blast
    have "component_sha256 c = ''sha256:'' @ hex_digest (bytes_sha io) x" by (simp add: c sha_component_def)
    with valid [of x] show ?thesis unfolding digest_valid_def by (simp only: bare_prefixed)
  qed
  then have "list_all digest_valid (manifest_digests (imported io m b1 b2 b3))"
    using valid by (cases b2; cases b3) (auto simp: list_all_iff manifest_digests_def imported_def)
  with assms(1) show "validate_manifest (imported io m b1 b2 b3) (im_image_id m) = Inr ()"
    unfolding validate_manifest_iff by (simp add: imported_def manifest_ok_def)
  show "fill_digests (imported io m b1 b2 b3) = imported io m b1 b2 b3"
    using valid(3)
    by (cases b2; cases b3) (simp_all add: fill_digests_def imported_def component_digest_def layout_get shipped_def)
qed

lemma register_new:
  assumes "validate_manifest m (im_image_id m) = Inr ()" and "fill_digests m = m"
    and "manifest_doc (dir_of (im_image_id m) v) = None" and "image_mkdir_ok io (im_image_id m)" "manifest_write_ok io (im_image_id m)"
  shows "\<exists>d v'. register_image io m v = (Inr d, v') \<and> read_manifest (im_image_id m) v' = (Inr m, v')
    \<and> component_files (dir_of (im_image_id m) v') = component_files (dir_of (im_image_id m) v)"
  using assms parse_manifest_value [OF assms(1)]
  by (simp add: register_image_def andthen_def publish_manifest_def Let_def read_manifest_def)

lemma import_carries:
  assumes sha: "\<forall>x. length (bytes_sha io x) = 32" and m: "manifest_ok m"
    and ok: "image_mkdir_ok io (im_image_id m)" "\<forall>nm. component_write_ok io (im_image_id m) nm" "manifest_write_ok io (im_image_id m)"
    and fresh: "dir_of (im_image_id m) v = empty_image_dir"
    and b: "b = \<lparr>ib_schema_version = 1, ib_image_id = im_image_id m, ib_engine_track = engine_track m,
              ib_supported_tracks = supported_engine_tracks m, ib_target = im_target m, ib_components = layout_components io (Some b1) b2 b3\<rparr>"
    and src: "src = \<lparr>bundle_manifest = Some (Some b), bundle_files = layout_files (Some b1) b2 b3\<rparr>"
  shows "\<exists>d v'. import_image_bundle io source src v = (Inr (imported io m b1 b2 b3, d), v')
    \<and> read_manifest (im_image_id m) v' = (Inr (imported io m b1 b2 b3), v')
    \<and> component_files (dir_of (im_image_id m) v')
      = put_opt ''tpm-state'' b3 (put_opt ''firmware.fd'' b2 (put_opt ''disk.qcow2'' (Some b1) []))"
proof -
  let ?i = "im_image_id m"
  have bi: "ib_image_id b = ?i" and comps: "ib_components b = layout_components io (Some b1) b2 b3"
    and files: "bundle_files src = layout_files (Some b1) b2 b3" by (simp_all add: b src)
  have safe: "\<not> is_absolute ''components/disk.qcow2''" "\<not> has_parent_dir ''components/disk.qcow2''"
    "\<not> is_absolute ''components/firmware.fd''" "\<not> has_parent_dir ''components/firmware.fd''"
    "\<not> is_absolute ''components/tpm-state''" "\<not> has_parent_dir ''components/tpm-state''" by code_simp+
  obtain v0 where v0: "make_image_dir io ?i v = (Inr (), v0)" "dir_of ?i v0 = empty_image_dir"
    using ok(1) fresh by (simp add: make_image_dir_def)
  obtain v1 where v1: "import_component io src b ''disk'' ''disk.qcow2'' v0 = (Inr (Some (hex_digest (bytes_sha io) b1)), v1)"
    "dir_of ?i v1 = with_file ''disk.qcow2'' (Some b1) empty_image_dir"
    using import_component_carries [of b "''disk''" io "''components/disk.qcow2''" "Some b1" src v0 "''disk.qcow2''"] safe ok(2) v0(2)
    by (auto simp: bi comps files layout_get empty_image_dir_def)
  have free: "oget (component_files (dir_of ?i v1)) ''firmware.fd'' = None"
    by (simp add: v1(2) oget_put_opt empty_image_dir_def)
  obtain v2 where v2: "import_component io src b ''firmware'' ''firmware.fd'' v1 = (Inr (map_option (hex_digest (bytes_sha io)) b2), v2)"
    "dir_of ?i v2 = with_file ''firmware.fd'' b2 (dir_of ?i v1)"
    using import_component_carries [of b "''firmware''" io "''components/firmware.fd''" b2 src v1 "''firmware.fd''"] safe ok(2) free
    by (auto simp: bi comps files layout_get empty_image_dir_def)
  have free: "oget (component_files (dir_of ?i v2)) ''tpm-state'' = None"
    by (simp add: v2(2) v1(2) oget_put_opt empty_image_dir_def)
  obtain v3 where v3: "import_component io src b ''tpm_state'' ''tpm-state'' v2 = (Inr (map_option (hex_digest (bytes_sha io)) b3), v3)"
    "dir_of ?i v3 = with_file ''tpm-state'' b3 (dir_of ?i v2)"
    using import_component_carries [of b "''tpm_state''" io "''components/tpm-state''" b3 src v2 "''tpm-state''"] safe ok(2) free
    by (auto simp: bi comps files layout_get empty_image_dir_def)
  let ?m = "imported io m b1 b2 b3"
  have im: "im_image_id ?m = ?i" by (simp add: imported_def)
  note valid = imported_valid [OF m sha, of b1 b2 b3]
  obtain d v4 where v4: "register_image io ?m v3 = (Inr d, v4)" "read_manifest ?i v4 = (Inr ?m, v4)"
    "component_files (dir_of ?i v4) = component_files (dir_of ?i v3)"
    using register_new [of ?m v3 io] valid ok v3(2) v2(2) v1(2) by (auto simp: im empty_image_dir_def)
  have idv: "id_new ''image'' ?i = Inr ?i" using m by (simp add: id_new_def manifest_ok_def)
  have "import_image_bundle io source src v = (Inr (?m, d), v4)"
    using idv v0 v1(1) v2(1) v3(1) v4(1)
    by (simp add: import_image_bundle_def src andthen_def b imported_def Let_def)
  with v4 v3(2) v2(2) v1(2) show ?thesis by (auto simp: empty_image_dir_def)
qed

text \<open>
  C35: A bundle carries an image over: what one workspace exports, another one that does not have the image imports, with
  the same engine track, target and supported tracks, and with the same bytes for the disk, the firmware and the TPM state.
\<close>

theorem bundle_carries_image:
  assumes "export_image_bundle io False dst i w = (Inr (b, src), w1)"
    and "\<forall>x. length (bytes_sha io x) = 32" and "bytes_sha io' = bytes_sha io"
    and "image_mkdir_ok io' i" "\<forall>nm. component_write_ok io' i nm" "manifest_write_ok io' i"
    and "dir_of i v = empty_image_dir"
  shows "\<exists>m0 m d v'. read_manifest i w = (Inr m0, w) \<and> import_image_bundle io' source src v = (Inr (m, d), v')
    \<and> read_manifest i v' = (Inr m, v') \<and> im_image_id m = i \<and> engine_track m = engine_track m0 \<and> im_target m = im_target m0
    \<and> supported_engine_tracks m = supported_engine_tracks m0
    \<and> (\<forall>(nm, part, p) \<in> set bundle_layout. oget (component_files (dir_of i v')) part =
          (if manifest_digest_of m0 nm = None then None else oget (component_files (dir_of i w)) part))"
proof -
  obtain m0 where m0: "read_manifest i w = (Inr m0, w)"
    using assms(1) by (auto simp: export_image_bundle_def andthen_Inr_iff read_manifest_def split: option.splits)
  then obtain doc where doc: "parse_manifest i doc = Inr m0" by (auto simp: read_manifest_def split: option.splits)
  then have ok: "manifest_ok m0" and id0: "im_image_id m0 = i"
    by (auto simp: parse_manifest_def result_simps Let_def validate_manifest_iff split: if_splits)
  from assms(1) m0 obtain fs cs where ex: "for_each bundle_layout (export_component io (dir_of i w) m0) ([], []) = Inr (fs, cs)"
    and b: "b = \<lparr>ib_schema_version = 1, ib_image_id = i, ib_engine_track = engine_track m0,
                 ib_supported_tracks = supported_engine_tracks m0, ib_target = im_target m0, ib_components = cs\<rparr>"
    and src: "src = \<lparr>bundle_manifest = Some (Some b), bundle_files = fs\<rparr>"
    using id0 by (auto simp: export_image_bundle_def andthen_def lift_def gets_def ret_def Let_def split: sum.splits)
  obtain b1 b2 b3 where c: "carried io (dir_of i w) m0 ''disk'' ''disk.qcow2'' b1" "carried io (dir_of i w) m0 ''firmware'' ''firmware.fd'' b2"
    "carried io (dir_of i w) m0 ''tpm_state'' ''tpm-state'' b3" and fs: "fs = layout_files b1 b2 b3" and cs: "cs = layout_components io b1 b2 b3"
    using export_layout [OF ex] stored_digest_bare [OF doc] by blast
  from c(1) obtain x where x: "b1 = Some x" by (auto simp: carried_def manifest_digest_of_def)
  have layout: "layout_components io = layout_components io'"
    by (simp add: fun_eq_iff layout_components_def shipped_def assms(3))
  obtain d v' where v': "import_image_bundle io' source src v = (Inr (imported io' m0 x b2 b3, d), v')"
    "read_manifest i v' = (Inr (imported io' m0 x b2 b3), v')"
    "component_files (dir_of i v') = put_opt ''tpm-state'' b3 (put_opt ''firmware.fd'' b2 (put_opt ''disk.qcow2'' b1 []))"
    using import_carries [of io' m0 v b x b2 b3 src source] assms(2-7) ok by (auto simp: id0 b src fs cs x layout)
  have "oget (component_files (dir_of i v')) ''disk.qcow2'' = b1" "oget (component_files (dir_of i v')) ''firmware.fd'' = b2"
    "oget (component_files (dir_of i v')) ''tpm-state'' = b3" by (simp_all add: v'(3) oget_put_opt)
  moreover have "bytes = (if manifest_digest_of m0 nm = None then None else oget (component_files (dir_of i w)) sn)"
    if "carried io (dir_of i w) m0 nm sn bytes" for nm sn bytes using that by (auto simp: carried_def split: option.splits)
  ultimately have "\<forall>(nm, part, p) \<in> set bundle_layout. oget (component_files (dir_of i v')) part =
      (if manifest_digest_of m0 nm = None then None else oget (component_files (dir_of i w)) part)"
    using c by (simp add: bundle_layout_def)
  with m0 v'(1,2) show ?thesis
    by (intro exI [of _ m0] exI [of _ "imported io' m0 x b2 b3"] exI [of _ d] exI [of _ v']) (simp add: imported_def id0)
qed

definition zero_manifest :: image_manifest where
  "zero_manifest = sample_manifest\<lparr>im_components := [(''disk'', sha_component ''components/disk.qcow2'' (replicate 64 CHR ''0''))]\<rparr>"

definition full_images :: image_world where
  "full_images = empty_images\<lparr>image_index := [''win''],
     image_dirs := [(''win'', \<lparr>manifest_doc = Some (Some (manifest_value zero_manifest)), component_files = [(''disk.qcow2'', ''DATA'')]\<rparr>)]\<rparr>"

theorem bundle_carries_image_witness:
  "\<exists>b src w1 m d v'. export_image_bundle sample_image_io False ''/tmp/win'' ''win'' full_images = (Inr (b, src), w1)
    \<and> import_image_bundle sample_image_io ''/tmp/win'' src empty_images = (Inr (m, d), v')
    \<and> oget (component_files (dir_of ''win'' v')) ''disk.qcow2'' = Some ''DATA''"
proof -
  have "is_ok (fst (export_image_bundle sample_image_io False ''/tmp/win'' ''win'' full_images))" by code_simp
  then obtain b src w1 where ex: "export_image_bundle sample_image_io False ''/tmp/win'' ''win'' full_images = (Inr (b, src), w1)"
    by (cases "export_image_bundle sample_image_io False ''/tmp/win'' ''win'' full_images") (auto simp: is_ok_iff)
  have "dir_of ''win'' empty_images = empty_image_dir" by code_simp
  moreover have "oget (component_files (dir_of ''win'' full_images)) ''disk.qcow2'' = Some ''DATA''" by code_simp
  ultimately show ?thesis
    using bundle_carries_image [OF ex, of sample_image_io empty_images "''/tmp/win''"] ex
    by (auto simp: sample_image_io_def bundle_layout_def manifest_digest_of_def)
qed

end
