(* ===== verification/Lock.thy ===== *)
theory Lock
  imports Process
begin

text \<open>
  \<open>crates/machineemu-core/src/storage/lock.rs\<close> and the lease of \<open>storage/mod.rs\<close>: which process owns a workspace.
  Every call that touches \<open>workspace.lock\<close> is a step of its own, so that openers interleave. A file is known by an
  inode: whoever holds it open goes on writing to it when its name is removed.
\<close>

section \<open>The lock file\<close>

text \<open>Where an opener is: the next call it makes, or how it ended. From the creation on it has the file open.\<close>

datatype phase =
    Trying
  | Inspecting
  | Removing
  | Recreating
  | Writing nat
  | Connecting nat
  | Migrating nat
  | Holding nat
  | Refused core_error
  | Closed
  | Killed

record lock_world =
  at_path :: "nat option"                           \<comment> \<open>the inode that \<open>workspace.lock\<close> names\<close>
  contents :: "nat \<Rightarrow> string"
  next_inode :: nat
  phase_of :: "nat \<Rightarrow> phase"                      \<comment> \<open>by opener\<close>
  proc_stat :: "nat \<Rightarrow> string option"             \<comment> \<open>\<open>/proc/<pid>/stat\<close>\<close>

definition lock_path :: path where "lock_path = ''workspace.lock''"

definition lock_error :: "string \<Rightarrow> phase" where "lock_error source = Refused (Io lock_path source)"

definition set_phase :: "nat \<Rightarrow> phase \<Rightarrow> lock_world \<Rightarrow> lock_world" where
  "set_phase i p w = w\<lparr>phase_of := (phase_of w)(i := p)\<rparr>"

definition unlink :: "lock_world \<Rightarrow> lock_world" where "unlink w = w\<lparr>at_path := None\<rparr>"

text \<open>\<open>create_new\<close>: a new, empty file below the name.\<close>

definition create_new :: "nat \<Rightarrow> lock_world \<Rightarrow> lock_world" where
  "create_new i w = set_phase i (Writing (next_inode w))
     (w\<lparr>at_path := Some (next_inode w), contents := (contents w)(next_inode w := []), next_inode := next_inode w + 1\<rparr>)"

text \<open>The process that wrote the lock is gone. A lock that does not name a process is never stale.\<close>

definition lock_stale :: "(nat \<Rightarrow> string option) \<Rightarrow> string option \<Rightarrow> bool" where
  "lock_stale stat text =
     (case Option.bind text (\<lambda>s. case split_whitespace s of
         first # second # _ \<Rightarrow> Option.bind (parse_u32 first) (\<lambda>p. Option.bind (parse_u64 second) (\<lambda>start.
           Some (\<not> process_identity_matches (stat p) start)))
       | _ \<Rightarrow> None) of None \<Rightarrow> False | Some b \<Rightarrow> b)"

definition lock_text :: "(nat \<Rightarrow> string option) \<Rightarrow> nat \<Rightarrow> string" where
  "lock_text stat p = show_nat p @ '' '' @ show_nat (unwrap_or (process_start_identity (stat p)) 0) @ [CHR 0x0A]"

section \<open>Opening\<close>

text \<open>The next call of opener \<open>i\<close>, of process \<open>pids i\<close>, when the operating system does not refuse it.\<close>

definition advance :: "(nat \<Rightarrow> nat) \<Rightarrow> nat \<Rightarrow> lock_world \<Rightarrow> lock_world" where
  "advance pids i w = (case phase_of w i of
       Trying \<Rightarrow> if at_path w = None then create_new i w else set_phase i Inspecting w
     | Inspecting \<Rightarrow>
         if lock_stale (proc_stat w) (map_option (contents w) (at_path w)) then set_phase i Removing w
         else set_phase i (Refused (WorkspaceLocked lock_path)) w
     | Removing \<Rightarrow> if at_path w = None then set_phase i (lock_error ''remove_file'') w else set_phase i Recreating (unlink w)
     | Recreating \<Rightarrow> if at_path w = None then create_new i w else set_phase i (lock_error ''open'') w
     | Writing n \<Rightarrow> set_phase i (Connecting n) (w\<lparr>contents := (contents w)(n := lock_text (proc_stat w) (pids i))\<rparr>)
     | Connecting n \<Rightarrow> set_phase i (Migrating n) w
     | Migrating n \<Rightarrow> set_phase i (Holding n) w
     | _ \<Rightarrow> w)"

text \<open>The next call fails: only from \<open>migrate\<close> on is there a lease, whose drop removes the name.\<close>

definition break_off :: "nat \<Rightarrow> lock_world \<Rightarrow> lock_world" where
  "break_off i w = (case phase_of w i of
       Trying \<Rightarrow> set_phase i (lock_error ''open'') w
     | Inspecting \<Rightarrow> set_phase i (Refused (WorkspaceLocked lock_path)) w
     | Removing \<Rightarrow> set_phase i (lock_error ''remove_file'') w
     | Recreating \<Rightarrow> set_phase i (lock_error ''open'') w
     | Writing n \<Rightarrow> set_phase i (lock_error ''write'') w
     | Connecting n \<Rightarrow> set_phase i (Refused (Sqlite ''open'')) w
     | Migrating n \<Rightarrow> set_phase i (Refused (Sqlite ''migrate'')) (unlink w)
     | _ \<Rightarrow> w)"

text \<open>\<open>Drop for WorkspaceLease\<close>.\<close>

definition drop_lease :: "nat \<Rightarrow> lock_world \<Rightarrow> lock_world" where
  "drop_lease i w = (case phase_of w i of Holding n \<Rightarrow> set_phase i Closed (unlink w) | _ \<Rightarrow> w)"

text \<open>A process ends without running destructors.\<close>

definition process_exit :: "(nat \<Rightarrow> nat) \<Rightarrow> nat \<Rightarrow> lock_world \<Rightarrow> lock_world" where
  "process_exit pids p w = w\<lparr>phase_of := (\<lambda>i. if pids i = p then Killed else phase_of w i), proc_stat := (proc_stat w)(p := None)\<rparr>"

datatype lock_event = Advance nat | BreakOff nat | DropLease nat | ProcessExit nat

fun lock_step :: "(nat \<Rightarrow> nat) \<Rightarrow> lock_world \<Rightarrow> lock_event \<Rightarrow> lock_world" where
  "lock_step pids w (Advance i) = advance pids i w"
| "lock_step pids w (BreakOff i) = break_off i w"
| "lock_step pids w (DropLease i) = drop_lease i w"
| "lock_step pids w (ProcessExit p) = process_exit pids p w"

definition lock_run :: "(nat \<Rightarrow> nat) \<Rightarrow> lock_event list \<Rightarrow> lock_world \<Rightarrow> lock_world" where
  "lock_run pids es w = foldl (lock_step pids) w es"

text \<open>The file an opener has created and not given up.\<close>

fun lease :: "phase \<Rightarrow> nat option" where
  "lease (Writing n) = Some n"
| "lease (Connecting n) = Some n"
| "lease (Migrating n) = Some n"
| "lease (Holding n) = Some n"
| "lease _ = None"

definition free_workspace :: "(nat \<Rightarrow> string option) \<Rightarrow> lock_world" where
  "free_workspace stat = \<lparr>at_path = None, contents = (\<lambda>_. []), next_inode = 0, phase_of = (\<lambda>_. Trying), proc_stat = stat\<rparr>"

end
