(* ===== verification/LockProperties.thy ===== *)
theory LockProperties
  imports Lock ProcessProperties
begin

text \<open>
  Who owns a workspace: as long as no process ends without closing it, the lock excludes; a stale lock can be taken by
  two openers at once; and an opener that dies before it has written its lock keeps everybody out.
\<close>

section \<open>What an opener writes is read back\<close>

lemma parse_show_u32: "int n < 2 ^ 32 \<Longrightarrow> parse_u32 (show_nat n) = Some n"
  using parse_show_nat [of n] by (simp add: parse_u32_def)

lemma show_nat_word: "word (show_nat n)"
  using show_nat_digits [of n] by (auto simp: word_def list_all_iff visible_def is_ascii_digit_def)

lemma split_newline: "word w \<Longrightarrow> split_whitespace (w @ [CHR 0x0A]) = [w]"
proof -
  assume "word w"
  then obtain c v where w: "w = c # v" "visible c" "list_all visible v" by (cases w) (auto simp: word_def)
  have white: "starts_white [CHR 0x0A]" by (simp add: starts_white_def white_space_chars)
  have "until_white (v @ [CHR 0x0A]) = (v, [CHR 0x0A])"
    using w(3) by (induction v) (auto simp: white visible_not_white)
  moreover have "split_whitespace [CHR 0x0A] = []"
    by (simp add: split_whitespace.simps trim_prefixes.simps white_space_chars)
  ultimately show ?thesis using w by (subst split_whitespace.simps) (simp add: trim_prefixes_visible)
qed

lemma lock_text_live:
  assumes "process_start_identity (stat p) = Some start" and "int start < 2 ^ 64" and "int p < 2 ^ 32"
  shows "\<not> lock_stale stat (Some (lock_text stat p))"
proof -
  have "split_whitespace (lock_text stat p) = [show_nat p, show_nat start]"
    using assms(1) split_newline [OF show_nat_word] by (simp add: lock_text_def unwrap_or_def split_word(1) [OF show_nat_word])
  then show ?thesis
    using assms by (simp add: lock_stale_def parse_show_u32 parse_show_nat process_identity_matches_def)
qed

section \<open>Exclusion\<close>

text \<open>What the processes of the openers look like while none of them ends.\<close>

definition living :: "(nat \<Rightarrow> nat) \<Rightarrow> (nat \<Rightarrow> string option) \<Rightarrow> bool" where
  "living pids stat \<longleftrightarrow> (\<forall>i. int (pids i) < 2 ^ 32
     \<and> (\<exists>start. process_start_identity (stat (pids i)) = Some start \<and> int start < 2 ^ 64))"

definition lock_ok :: "(nat \<Rightarrow> string option) \<Rightarrow> lock_world \<Rightarrow> bool" where
  "lock_ok stat w \<longleftrightarrow> proc_stat w = stat \<and> (\<forall>i n. lease (phase_of w i) = Some n \<longrightarrow> at_path w = Some n)
     \<and> (\<forall>i j. lease (phase_of w i) \<noteq> None \<and> lease (phase_of w j) \<noteq> None \<longrightarrow> i = j)
     \<and> \<not> lock_stale stat (map_option (contents w) (at_path w))
     \<and> (\<forall>i. phase_of w i \<noteq> Removing \<and> phase_of w i \<noteq> Recreating)"

lemma empty_not_stale: "\<not> lock_stale stat None" "\<not> lock_stale stat (Some [])"
  by (simp_all add: lock_stale_def split_whitespace.simps trim_prefixes.simps white_space_chars)

lemma owner_alone:
  assumes "lock_ok stat w" and "lease (phase_of w i) = Some n"
  shows "at_path w = Some n" "j \<noteq> i \<Longrightarrow> lease (phase_of w j) = None"
proof -
  from assms show "at_path w = Some n" by (simp add: lock_ok_def)
  show "lease (phase_of w j) = None" if "j \<noteq> i"
    using assms that by (cases "lease (phase_of w j)") (auto simp: lock_ok_def)
qed

lemma free_unowned: "lock_ok stat w \<Longrightarrow> at_path w = None \<Longrightarrow> lease (phase_of w j) = None"
  by (cases "lease (phase_of w j)") (auto simp: lock_ok_def)

lemma lock_ok_stale: "lock_ok stat w \<Longrightarrow> proc_stat w = stat" "lock_ok stat w \<Longrightarrow> \<not> lock_stale stat (map_option (contents w) (at_path w))"
  "lock_ok stat w \<Longrightarrow> phase_of w i \<noteq> Removing" "lock_ok stat w \<Longrightarrow> phase_of w i \<noteq> Recreating"
  by (simp_all add: lock_ok_def)

text \<open>The invariant where one opener moves: by who else owns the lock and what it says.\<close>

lemma lock_okI:
  assumes "lock_ok stat w" and "proc_stat w' = stat" and "phase_of w' = (phase_of w)(i := p)"
    and "p \<noteq> Removing" "p \<noteq> Recreating"
    and "\<And>j. j \<noteq> i \<Longrightarrow> lease (phase_of w j) = None \<or> lease p = None \<and> at_path w' = at_path w"
    and "\<And>n. lease p = Some n \<Longrightarrow> at_path w' = Some n"
    and "\<not> lock_stale stat (map_option (contents w') (at_path w'))"
  shows "lock_ok stat w'"
  unfolding lock_ok_def
proof (intro conjI allI impI)
  show "proc_stat w' = stat" by (fact assms(2))
  show "\<not> lock_stale stat (map_option (contents w') (at_path w'))" by (fact assms(8))
  fix j
  show "phase_of w' j \<noteq> Removing" "phase_of w' j \<noteq> Recreating" using assms(3-5) lock_ok_stale [OF assms(1)] by auto
  show "at_path w' = Some n" if "lease (phase_of w' j) = Some n" for n
    using that assms(3) assms(6) [of j] assms(7) [of n] owner_alone(1) [OF assms(1), of j n] by (auto split: if_splits)
  fix k
  assume "lease (phase_of w' j) \<noteq> None \<and> lease (phase_of w' k) \<noteq> None"
  then show "j = k"
    using assms(1,3) assms(6) [of j] assms(6) [of k] by (auto simp: lock_ok_def split: if_splits)
qed

lemma quiet_ok:
  assumes "lock_ok stat w" and "lease p = None" "p \<noteq> Removing" "p \<noteq> Recreating"
  shows "lock_ok stat (set_phase i p w)"
  by (rule lock_okI [OF assms(1)]) (use assms lock_ok_stale [OF assms(1)] in \<open>auto simp: set_phase_def\<close>)

lemma owner_moves_ok:
  assumes "lock_ok stat w" and "lease (phase_of w i) = Some n" "lease p = Some n"
  shows "lock_ok stat (set_phase i p w)"
  by (rule lock_okI [OF assms(1)])
    (use assms lock_ok_stale [OF assms(1)] owner_alone [OF assms(1,2)] in \<open>auto simp: set_phase_def\<close>)

lemma create_new_ok: "lock_ok stat w \<Longrightarrow> at_path w = None \<Longrightarrow> lock_ok stat (create_new i w)"
  by (rule lock_okI [of _ w _ i])
    (auto simp: create_new_def set_phase_def free_unowned empty_not_stale lock_ok_stale)

lemma unlink_ok:
  assumes "lock_ok stat w" and "lease (phase_of w i) = Some n" and "lease p = None" "p \<noteq> Removing" "p \<noteq> Recreating"
  shows "lock_ok stat (set_phase i p (unlink w))"
  by (rule lock_okI [OF assms(1)])
    (use assms lock_ok_stale [OF assms(1)] owner_alone [OF assms(1,2)] in \<open>auto simp: set_phase_def unlink_def empty_not_stale\<close>)

lemma write_ok:
  assumes "living pids stat" and "lock_ok stat w" and "phase_of w i = Writing n"
  shows "lock_ok stat (set_phase i (Connecting n) (w\<lparr>contents := (contents w)(n := lock_text (proc_stat w) (pids i))\<rparr>))"
proof -
  have n: "at_path w = Some n" "\<And>j. j \<noteq> i \<Longrightarrow> lease (phase_of w j) = None"
    using owner_alone [OF assms(2), of i n] assms(3) by auto
  have "\<not> lock_stale stat (Some (lock_text stat (pids i)))"
    using assms(1) lock_text_live unfolding living_def by blast
  then show ?thesis
    by (intro lock_okI [OF assms(2), of _ i "Connecting n"]) (use n lock_ok_stale(1) [OF assms(2)] in \<open>auto simp: set_phase_def\<close>)
qed

lemma advance_ok:
  assumes "living pids stat" and ok: "lock_ok stat w"
  shows "lock_ok stat (advance pids i w)"
proof (cases "phase_of w i")
  case Trying
  then show ?thesis using ok by (simp add: advance_def create_new_ok quiet_ok)
next
  case Inspecting
  then show ?thesis using ok by (simp add: advance_def quiet_ok lock_ok_stale)
next
  case (Writing n)
  then show ?thesis using write_ok [OF assms] by (simp add: advance_def)
next
  case (Connecting n)
  then show ?thesis using owner_moves_ok [OF ok, of i n] by (simp add: advance_def)
next
  case (Migrating n)
  then show ?thesis using owner_moves_ok [OF ok, of i n] by (simp add: advance_def)
qed (use ok lock_ok_stale(3,4) [OF ok, of i] in \<open>auto simp: advance_def\<close>)

lemma break_off_ok: "lock_ok stat w \<Longrightarrow> lock_ok stat (break_off i w)"
  by (cases "phase_of w i") (auto simp: break_off_def lock_error_def intro: quiet_ok unlink_ok)

lemma drop_lease_ok: "lock_ok stat w \<Longrightarrow> lock_ok stat (drop_lease i w)"
  by (cases "phase_of w i") (auto simp: drop_lease_def intro: unlink_ok)

lemma lock_run_ok:
  "living pids stat \<Longrightarrow> \<forall>p. ProcessExit p \<notin> set es \<Longrightarrow> lock_ok stat w \<Longrightarrow> lock_ok stat (lock_run pids es w)"
proof (induction es arbitrary: w)
  case (Cons e es)
  then have "lock_ok stat (lock_step pids w e)"
    by (cases e) (auto intro: advance_ok break_off_ok drop_lease_ok)
  with Cons show ?case by (simp add: lock_run_def)
qed (simp add: lock_run_def)

text \<open>
  C36: The lock excludes: however the calls of any number of openers interleave, also when calls fail, at most one of them
  owns the workspace at a time, and it is the one whose file the lock name refers to - provided that no process ends
  without closing the workspace.
\<close>

theorem workspace_lock_excludes:
  assumes "living pids stat" and "\<forall>p. ProcessExit p \<notin> set es"
    and "w = lock_run pids es (free_workspace stat)"
    and "lease (phase_of w i) = Some n"
  shows "at_path w = Some n \<and> (\<forall>j. j \<noteq> i \<longrightarrow> lease (phase_of w j) = None)"
proof -
  have "lock_ok stat (free_workspace stat)"
    by (simp add: lock_ok_def free_workspace_def empty_not_stale)
  from lock_run_ok [OF assms(1,2) this] have "lock_ok stat w" by (simp add: assms(3))
  from owner_alone [OF this assms(4)] show ?thesis by blast
qed

text \<open>Two processes, and the third whose lock was left behind.\<close>

definition sample_stat :: "nat \<Rightarrow> string option" where
  "sample_stat p = (if p < 3 then Some (''1 (d) '' @ join_with '' '' (''S'' # replicate 18 ''0'' @ [''7''])) else None)"

lemma sample_identity: "process_start_identity (Some (''1 (d) '' @ join_with '' '' (''S'' # replicate 18 ''0'' @ [''7'']))) = Some 7"
  by code_simp

lemma sample_living: "living (\<lambda>i. i mod 3) sample_stat"
  by (auto simp: living_def sample_stat_def sample_identity [unfolded append_Cons append_Nil])

theorem workspace_lock_excludes_witness:
  "phase_of (lock_run (\<lambda>i. i mod 3) [Advance 1, Advance 2, Advance 1, Advance 1, Advance 2, Advance 1] (free_workspace sample_stat)) 1 = Holding 0
   \<and> lease (phase_of (lock_run (\<lambda>i. i mod 3) [Advance 1, Advance 2, Advance 1, Advance 1, Advance 2, Advance 1] (free_workspace sample_stat)) 2) = None"
proof -
  let ?w = "lock_run (\<lambda>i. i mod 3) [Advance 1, Advance 2, Advance 1, Advance 1, Advance 2, Advance 1] (free_workspace sample_stat)"
  have h: "phase_of ?w 1 = Holding 0"
    by (simp add: lock_run_def advance_def create_new_def set_phase_def free_workspace_def)
  then show ?thesis
    using workspace_lock_excludes [OF sample_living _ refl, of "[Advance 1, Advance 2, Advance 1, Advance 1, Advance 2, Advance 1]" 1 0] by simp
qed

section \<open>When a process dies\<close>

definition barred :: "lock_world \<Rightarrow> bool" where
  "barred w \<longleftrightarrow> at_path w = Some 0 \<and> contents w 0 = []
     \<and> (\<forall>j. phase_of w j \<in> {Trying, Inspecting, Killed} \<or> (\<exists>e. phase_of w j = Refused e))"

lemma barred_stale: "barred w \<Longrightarrow> \<not> lock_stale (proc_stat w) (map_option (contents w) (at_path w))"
  by (simp add: barred_def empty_not_stale)

lemma barred_phase: "barred w \<Longrightarrow> p \<in> {Trying, Inspecting, Killed} \<or> (\<exists>e. p = Refused e) \<Longrightarrow> barred (set_phase i p w)"
  by (auto simp: barred_def set_phase_def)

lemma barred_step: "barred w \<Longrightarrow> barred (lock_step pids w e)"
proof (cases e)
  case (Advance i)
  assume b: "barred w"
  then have "phase_of w i \<in> {Trying, Inspecting, Killed} \<or> (\<exists>e. phase_of w i = Refused e)" "at_path w \<noteq> None"
    by (auto simp: barred_def)
  with b barred_stale [OF b] Advance show ?thesis by (auto simp: advance_def barred_phase)
next
  case (BreakOff i)
  assume b: "barred w"
  then have "phase_of w i \<in> {Trying, Inspecting, Killed} \<or> (\<exists>e. phase_of w i = Refused e)" by (simp add: barred_def)
  with b BreakOff show ?thesis by (auto simp: break_off_def lock_error_def barred_phase)
next
  case (DropLease i)
  assume b: "barred w"
  then have "phase_of w i \<in> {Trying, Inspecting, Killed} \<or> (\<exists>e. phase_of w i = Refused e)" by (simp add: barred_def)
  with b DropLease show ?thesis by (auto simp: drop_lease_def)
qed (auto simp: process_exit_def barred_def)

lemma barred_run: "barred w \<Longrightarrow> barred (lock_run pids es w)"
  by (induction es arbitrary: w) (simp_all add: lock_run_def barred_step)

lemma lock_run_simps [simp]:
  "lock_run pids [] w = w" "lock_run pids (e # es) w = lock_run pids es (lock_step pids w e)"
  by (simp_all add: lock_run_def)

text \<open>
  A lock that was never written keeps everybody out: when a process ends between creating the file and writing its
  identity, no opener ever gets the workspace again, whatever happens, until somebody removes the file by hand.
\<close>

theorem unwritten_lock_blocks:
  "at_path (lock_run pids (Advance i # ProcessExit (pids i) # es) (free_workspace stat)) = Some 0
   \<and> lease (phase_of (lock_run pids (Advance i # ProcessExit (pids i) # es) (free_workspace stat)) j) = None"
proof -
  let ?w = "lock_run pids (Advance i # ProcessExit (pids i) # es) (free_workspace stat)"
  have "barred (process_exit pids (pids i) (advance pids i (free_workspace stat)))"
    by (auto simp: barred_def process_exit_def advance_def free_workspace_def create_new_def set_phase_def)
  then have "barred ?w" by (simp add: barred_run)
  then have "at_path ?w = Some 0" and "phase_of ?w j \<in> {Trying, Inspecting, Killed} \<or> (\<exists>e. phase_of ?w j = Refused e)"
    unfolding barred_def by blast+
  then show ?thesis by auto
qed



end
