(* ===== verification/Events.thy ===== *)
theory Events
  imports Domain Text
begin

text \<open>
  \<open>crates/machineemu/src/api/events.rs\<close>: the event hub of the daemon. Each instance has a bounded history of numbered
  records, which is replayed to a client that names the last record it has seen, and a bounded channel per subscriber.
  Records hold the JSON text of their event; the number of records and bytes stays far below the width of their counters.
\<close>

section \<open>Records and histories\<close>

definition MAX_EVENT_BYTES :: nat where "MAX_EVENT_BYTES = 16 * 1024"
definition INSTANCE_HISTORY_BYTES :: nat where "INSTANCE_HISTORY_BYTES = 1024 * 1024"
definition GLOBAL_HISTORY_BYTES :: nat where "GLOBAL_HISTORY_BYTES = 32 * 1024 * 1024"
definition HISTORY_EVENTS :: nat where "HISTORY_EVENTS = 256"
definition INSTANCE_SUBSCRIBERS :: nat where "INSTANCE_SUBSCRIBERS = 8"
definition GLOBAL_SUBSCRIBERS :: nat where "GLOBAL_SUBSCRIBERS = 128"
definition CHANNEL_EVENTS :: nat where "CHANNEL_EVENTS = 64"

record event_record =
  ev_sequence :: nat
  ev_order :: nat
  ev_kind :: string
  ev_id :: string
  ev_data :: string

definition record_bytes :: "event_record \<Rightarrow> nat" where
  "record_bytes r = length (ev_id r) + length (ev_data r) + 32"

record history =
  next_sequence :: nat
  history_bytes :: nat
  history_records :: "event_record list"
  subscribers :: "nat list"

definition empty_history :: history where
  "empty_history = \<lparr>next_sequence = 0, history_bytes = 0, history_records = [], subscribers = []\<rparr>"

text \<open>
  What a client has still to read: the records replayed to it and the channel, as long as the receiver lives. The
  channel outlives its sender.
\<close>

record channel =
  backlog :: "event_record list"
  queue :: "event_record list"
  receiver_open :: bool

record event_hub =
  generation :: string
  histories :: "(string \<times> history) list"
  hub_bytes :: nat
  next_order :: nat
  next_subscriber :: nat
  channels :: "nat \<Rightarrow> channel"

definition new_hub :: "8 word list \<Rightarrow> event_hub" where
  "new_hub random = \<lparr>generation = hex_bytes random, histories = [], hub_bytes = 0, next_order = 0, next_subscriber = 0,
     channels = (\<lambda>_. \<lparr>backlog = [], queue = [], receiver_open = False\<rparr>)\<rparr>"

definition history_of :: "string \<Rightarrow> event_hub \<Rightarrow> history" where
  "history_of i h = unwrap_or (oget (histories h) i) empty_history"

definition put_history :: "string \<Rightarrow> history \<Rightarrow> event_hub \<Rightarrow> event_hub" where
  "put_history i x h = h\<lparr>histories := oput i x (histories h)\<rparr>"

section \<open>Publishing\<close>

definition event_id :: "string \<Rightarrow> string \<Rightarrow> nat \<Rightarrow> string" where
  "event_id i gen n = i @ '':'' @ gen @ '':'' @ show_nat n"

definition can_send :: "channel \<Rightarrow> bool" where
  "can_send c \<longleftrightarrow> receiver_open c \<and> length (queue c) < CHANNEL_EVENTS"

text \<open>\<open>subscribers.retain(|_, sender| sender.try_send(record).is_ok())\<close>.\<close>

definition broadcast :: "event_record \<Rightarrow> nat list \<Rightarrow> (nat \<Rightarrow> channel) \<Rightarrow> nat list \<times> (nat \<Rightarrow> channel)" where
  "broadcast r subs cs = (filter (\<lambda>s. can_send (cs s)) subs,
     \<lambda>s. if s \<in> set subs \<and> can_send (cs s) then (cs s)\<lparr>queue := queue (cs s) @ [r]\<rparr> else cs s)"

text \<open>The loop over one history; it has no end when nothing is left to drop.\<close>

fun trim_history :: "event_record list \<Rightarrow> nat \<Rightarrow> nat \<Rightarrow> (event_record list \<times> nat \<times> nat) option" where
  "trim_history [] bytes in_hub = (if INSTANCE_HISTORY_BYTES < bytes then None else Some ([], bytes, in_hub))"
| "trim_history (old # rest) bytes in_hub =
     (if HISTORY_EVENTS < length (old # rest) \<or> INSTANCE_HISTORY_BYTES < bytes
      then trim_history rest (bytes - record_bytes old) (in_hub - record_bytes old)
      else Some (old # rest, bytes, in_hub))"

text \<open>The oldest record of all histories, by the order of publication.\<close>

definition front_orders :: "(string \<times> history) list \<Rightarrow> (string \<times> nat) list" where
  "front_orders hs = List.map_filter (\<lambda>(i, x). case history_records x of [] \<Rightarrow> None | r # _ \<Rightarrow> Some (i, ev_order r)) hs"

fun min_by_order :: "(string \<times> nat) list \<Rightarrow> (string \<times> nat) option" where
  "min_by_order [] = None"
| "min_by_order ((i, n) # rest) = (case min_by_order rest of
       None \<Rightarrow> Some (i, n) | Some (j, k) \<Rightarrow> if n \<le> k then Some (i, n) else Some (j, k))"

function trim_hub :: "event_hub \<Rightarrow> event_hub" where
  "trim_hub h =
     (if GLOBAL_HISTORY_BYTES < hub_bytes h then
        case min_by_order (front_orders (histories h)) of
          None \<Rightarrow> h
        | Some (i, _) \<Rightarrow>
            (case history_records (history_of i h) of
               [] \<Rightarrow> h
             | old # rest \<Rightarrow>
                 trim_hub (put_history i ((history_of i h)\<lparr>history_records := rest, history_bytes := history_bytes (history_of i h) - record_bytes old\<rparr>)
                   (h\<lparr>hub_bytes := hub_bytes h - record_bytes old\<rparr>)))
      else h)"
  by pat_completeness auto
termination
  by (relation "measure hub_bytes") (auto simp: put_history_def record_bytes_def)

declare trim_hub.simps [simp del]

definition new_record :: "string \<Rightarrow> string \<Rightarrow> string \<Rightarrow> event_hub \<Rightarrow> event_record" where
  "new_record i kind_name text h =
     (let n = next_sequence (history_of i h) + 1
      in \<lparr>ev_sequence = n, ev_order = next_order h + 1, ev_kind = kind_name, ev_id = event_id i (generation h) n, ev_data = text\<rparr>)"

definition publish :: "string \<Rightarrow> string \<Rightarrow> string \<Rightarrow> bool \<Rightarrow> event_hub \<Rightarrow> (bool \<times> event_hub) option" where
  "publish i kind_name text to_all h =
     (if MAX_EVENT_BYTES < length text then Some (False, h)
      else
        let x = history_of i h; r = new_record i kind_name text h;
            (subs, cs) = (if to_all then broadcast r (subscribers x) (channels h) else (subscribers x, channels h))
        in map_option (\<lambda>(rs, bytes, in_hub).
             (True, trim_hub (put_history i \<lparr>next_sequence = ev_sequence r, history_bytes = bytes, history_records = rs, subscribers = subs\<rparr>
                (h\<lparr>next_order := ev_order r, channels := cs, hub_bytes := in_hub\<rparr>))))
           (trim_history (history_records x @ [r]) (history_bytes x + record_bytes r) (hub_bytes h + record_bytes r)))"

section \<open>Subscribing\<close>

record cursor_at =
  cursor_instance :: string
  cursor_generation :: string
  cursor_sequence :: nat

definition parse_cursor :: "string \<Rightarrow> cursor_at option" where
  "parse_cursor text = (case split_on (CHR '':'') text of
       [i, gen, n] \<Rightarrow>
         if \<not> id_valid i \<or> length gen \<noteq> 32 \<or> \<not> list_all is_ascii_hexdigit gen \<or> n = [] \<or> \<not> list_all is_ascii_digit n then None
         else (case parse_u64 n of
                 None \<Rightarrow> None
               | Some k \<Rightarrow> if k = 0 then None else Some \<lparr>cursor_instance = i, cursor_generation = gen, cursor_sequence = k\<rparr>)
     | _ \<Rightarrow> None)"

definition first_sequence :: "history \<Rightarrow> nat" where
  "first_sequence x = (case history_records x of [] \<Rightarrow> next_sequence x + 1 | r # _ \<Rightarrow> ev_sequence r)"

definition replayable :: "string \<Rightarrow> cursor_at \<Rightarrow> event_hub \<Rightarrow> bool" where
  "replayable i c h \<longleftrightarrow> cursor_instance c = i \<and> cursor_generation c = generation h
     \<and> (case oget (histories h) i of
          None \<Rightarrow> False
        | Some x \<Rightarrow> first_sequence x - 1 \<le> cursor_sequence c \<and> cursor_sequence c \<le> next_sequence x)"

datatype subscribe_error = TooManyRequests | ServiceUnavailable

definition subscriber_total :: "event_hub \<Rightarrow> nat" where
  "subscriber_total h = sum_list (map (\<lambda>(_, x). length (subscribers x)) (histories h))"

text \<open>The records a new subscriber starts with, behind the snapshot that is published for it when it cannot be replayed.\<close>

definition add_subscriber :: "string \<Rightarrow> event_record list \<Rightarrow> event_hub \<Rightarrow> nat \<times> event_hub" where
  "add_subscriber i initial h =
     (let s = next_subscriber h + 1; x = history_of i h
      in (s, put_history i (x\<lparr>subscribers := subscribers x @ [s]\<rparr>)
               (h\<lparr>next_subscriber := s, channels := (channels h)(s := \<lparr>backlog = initial, queue = [], receiver_open = True\<rparr>)\<rparr>)))"

definition last_records :: "event_record list \<Rightarrow> event_record list" where
  "last_records rs = (if rs = [] then [] else [last rs])"

definition replay_from :: "string \<Rightarrow> cursor_at option \<Rightarrow> event_hub \<Rightarrow> cursor_at option" where
  "replay_from i at h = (case at of None \<Rightarrow> None | Some c \<Rightarrow> if replayable i c h then Some c else None)"

definition no_room :: "string \<Rightarrow> event_hub \<Rightarrow> bool" where
  "no_room i h \<longleftrightarrow> GLOBAL_SUBSCRIBERS \<le> subscriber_total h \<or> INSTANCE_SUBSCRIBERS \<le> length (subscribers (history_of i h))"

definition subscribe :: "string \<Rightarrow> cursor_at option \<Rightarrow> string \<Rightarrow> event_hub \<Rightarrow> ((subscribe_error + nat) \<times> event_hub) option" where
  "subscribe i at snapshot h =
     (if no_room i h then Some (Inl TooManyRequests, h)
      else
        (case replay_from i at h of
           Some c \<Rightarrow>
             (case add_subscriber i (filter (\<lambda>r. cursor_sequence c < ev_sequence r) (history_records (history_of i h))) h of
                (s, t) \<Rightarrow> Some (Inr s, t))
         | None \<Rightarrow>
             map_option (\<lambda>(ok, t).
               if \<not> ok then (Inl ServiceUnavailable, t)
               else (case add_subscriber i (last_records (history_records (history_of i t))) t of (s, u) \<Rightarrow> (Inr s, u)))
             (publish i ''snapshot'' snapshot False h)))"

definition unsubscribe :: "string \<Rightarrow> nat \<Rightarrow> event_hub \<Rightarrow> event_hub" where
  "unsubscribe i s h = (case oget (histories h) i of
       None \<Rightarrow> h
     | Some x \<Rightarrow> put_history i (x\<lparr>subscribers := filter (\<lambda>t. t \<noteq> s) (subscribers x)\<rparr>) h)"

text \<open>\<open>Drop for Subscription\<close>: the receiver goes with it.\<close>

definition drop_subscription :: "string \<Rightarrow> nat \<Rightarrow> event_hub \<Rightarrow> event_hub" where
  "drop_subscription i s h = (let t = unsubscribe i s h in t\<lparr>channels := (channels t)(s := (channels t s)\<lparr>receiver_open := False\<rparr>)\<rparr>)"

definition close_instance :: "string \<Rightarrow> event_hub \<Rightarrow> event_hub" where
  "close_instance i h = (case oget (histories h) i of
       None \<Rightarrow> h
     | Some x \<Rightarrow> h\<lparr>histories := odel i (histories h), hub_bytes := hub_bytes h - history_bytes x\<rparr>)"

section \<open>Reading\<close>

datatype stream_poll = Ready event_record | Pending | Finished

text \<open>One poll of the stream of a subscriber: first what was replayed, then the channel, which ends when its sender is gone.\<close>

definition poll_stream :: "string \<Rightarrow> nat \<Rightarrow> event_hub \<Rightarrow> stream_poll \<times> event_hub" where
  "poll_stream i s h =
     (let c = channels h s in
      case backlog c of
        r # rest \<Rightarrow> (Ready r, h\<lparr>channels := (channels h)(s := c\<lparr>backlog := rest\<rparr>)\<rparr>)
      | [] \<Rightarrow>
          (case queue c of
             r # rest \<Rightarrow> (Ready r, h\<lparr>channels := (channels h)(s := c\<lparr>queue := rest\<rparr>)\<rparr>)
           | [] \<Rightarrow> (if s \<in> set (subscribers (history_of i h)) then Pending else Finished, h)))"

section \<open>Operations of clients and of the daemon\<close>

datatype hub_op =
    Publish string string string bool
  | Subscribe string "cursor_at option" string
  | DropSubscription string nat
  | CloseInstance string
  | Poll string nat

text \<open>An operation; one that would not return leaves the hub as it is.\<close>

fun hub_step :: "hub_op \<Rightarrow> event_hub \<Rightarrow> event_hub" where
  "hub_step (Publish i k t to_all) h = (case publish i k t to_all h of None \<Rightarrow> h | Some (_, h') \<Rightarrow> h')"
| "hub_step (Subscribe i at t) h = (case subscribe i at t h of None \<Rightarrow> h | Some (_, h') \<Rightarrow> h')"
| "hub_step (DropSubscription i s) h = drop_subscription i s h"
| "hub_step (CloseInstance i) h = close_instance i h"
| "hub_step (Poll i s) h = snd (poll_stream i s h)"

fun hub_run :: "hub_op list \<Rightarrow> event_hub \<Rightarrow> event_hub" where
  "hub_run [] h = h"
| "hub_run (op # ops) h = hub_run ops (hub_step op h)"

end
