(* ===== verification/EventProperties.thy ===== *)
theory EventProperties
  imports Events StoreInvariant
begin

text \<open>
  What clients of the event hub may rely on: histories stay bounded, publishing ends, a replay holds every record behind
  the one the client names, and each stream is in order.
\<close>

section \<open>Sums over an ordered map\<close>

definition sum_of :: "('v \<Rightarrow> nat) \<Rightarrow> ('k \<times> 'v) list \<Rightarrow> nat" where "sum_of f m = sum_list (map (\<lambda>(_, x). f x) m)"

lemma sum_of_simps [simp]: "sum_of f [] = 0" "sum_of f ((k, v) # m) = f v + sum_of f m"
  by (simp_all add: sum_of_def)

lemma sum_of_put:
  "ordered m \<Longrightarrow> sum_of f (oput k v m) + (case oget m k of None \<Rightarrow> 0 | Some w \<Rightarrow> f w) = sum_of f m + f v"
proof (induction k v m rule: oput.induct)
  case (2 k v a b m)
  have "k < a \<Longrightarrow> oget m k = None"
    using "2.prems" by (auto simp: ordered_Cons oget_None_iff)
  with 2 show ?case by (auto simp: ordered_Cons)
qed simp

lemma sum_of_del: "ordered m \<Longrightarrow> sum_of f (odel k m) + (case oget m k of None \<Rightarrow> 0 | Some w \<Rightarrow> f w) = sum_of f m"
proof (induction k m rule: odel.induct)
  case (2 k a b m)
  then show ?case by (auto simp: ordered_Cons)
qed simp

lemma sum_of_ge: "oget m k = Some v \<Longrightarrow> f v \<le> sum_of f m"
  by (induction m) (auto split: if_splits)

lemma sum_of_zero_iff: "sum_of f m = 0 \<longleftrightarrow> (\<forall>(k, v) \<in> set m. f v = 0)"
  by (induction m) auto

lemma sum_of_pos: "0 < sum_of f m \<Longrightarrow> \<exists>k v. (k, v) \<in> set m \<and> 0 < f v"
  using sum_of_zero_iff [of f m] by auto

lemma sum_of_single:
  "ordered m \<Longrightarrow> oget m k = Some v \<Longrightarrow> (\<And>j w. j \<noteq> k \<Longrightarrow> oget m j = Some w \<Longrightarrow> f w = 0) \<Longrightarrow> sum_of f m = f v"
proof -
  assume m: "ordered m" "oget m k = Some v" and z: "\<And>j w. j \<noteq> k \<Longrightarrow> oget m j = Some w \<Longrightarrow> f w = 0"
  have "sum_of f (odel k m) = 0"
  proof (rule ccontr)
    assume "sum_of f (odel k m) \<noteq> 0"
    then obtain j w where "(j, w) \<in> set (odel k m)" "0 < f w" using sum_of_pos by blast
    moreover from this have "oget (odel k m) j = Some w" using m(1) by (intro ordered_in_oget ordered_odel)
    ultimately show False using z [of j w] m(1) by (auto simp: oget_odel split: if_splits)
  qed
  with sum_of_del [OF m(1), of f k] m(2) show ?thesis by simp
qed

section \<open>The invariant\<close>

definition bytes_of :: "event_record list \<Rightarrow> nat" where "bytes_of rs = sum_list (map record_bytes rs)"

lemma bytes_of_simps [simp]: "bytes_of [] = 0" "bytes_of (r # rs) = record_bytes r + bytes_of rs" "bytes_of (rs @ qs) = bytes_of rs + bytes_of qs"
  by (simp_all add: bytes_of_def)

text \<open>The records of a history are the last ones published, without a gap.\<close>

definition records_ok :: "string \<Rightarrow> string \<Rightarrow> nat \<Rightarrow> event_record list \<Rightarrow> bool" where
  "records_ok gen i n rs \<longleftrightarrow> length rs \<le> n \<and> map ev_sequence rs = [n + 1 - length rs ..< n + 1]
     \<and> (\<forall>r \<in> set rs. length (ev_data r) \<le> MAX_EVENT_BYTES \<and> ev_id r = event_id i gen (ev_sequence r))"

definition in_order :: "nat \<Rightarrow> event_record list \<Rightarrow> bool" where
  "in_order n rs \<longleftrightarrow> sorted_wrt (<) (map ev_sequence rs) \<and> (\<forall>r \<in> set rs. ev_sequence r \<le> n)"

definition streams_ok :: "event_hub \<Rightarrow> history \<Rightarrow> bool" where
  "streams_ok h x \<longleftrightarrow> (\<forall>s \<in> set (subscribers x). s \<le> next_subscriber h
     \<and> in_order (next_sequence x) (backlog (channels h s) @ queue (channels h s)) \<and> length (queue (channels h s)) \<le> CHANNEL_EVENTS)"

definition history_ok :: "event_hub \<Rightarrow> string \<Rightarrow> history \<Rightarrow> bool" where
  "history_ok h i x \<longleftrightarrow> records_ok (generation h) i (next_sequence x) (history_records x)
     \<and> history_bytes x = bytes_of (history_records x) \<and> length (history_records x) \<le> HISTORY_EVENTS
     \<and> history_bytes x \<le> INSTANCE_HISTORY_BYTES \<and> length (subscribers x) \<le> INSTANCE_SUBSCRIBERS \<and> distinct (subscribers x)"

definition counts_ok :: "event_hub \<Rightarrow> bool" where
  "counts_ok h \<longleftrightarrow> ordered (histories h) \<and> hub_bytes h = sum_of history_bytes (histories h)
     \<and> sum_of (length \<circ> subscribers) (histories h) \<le> GLOBAL_SUBSCRIBERS
     \<and> (\<forall>i x. oget (histories h) i = Some x \<longrightarrow> history_ok h i x \<and> streams_ok h x)
     \<and> (\<forall>i j x y. oget (histories h) i = Some x \<and> oget (histories h) j = Some y \<and> i \<noteq> j \<longrightarrow> set (subscribers x) \<inter> set (subscribers y) = {})
     \<and> (\<forall>i x r. oget (histories h) i = Some x \<and> r \<in> set (history_records x) \<longrightarrow> ev_order r \<le> next_order h)"

definition hub_ok :: "event_hub \<Rightarrow> bool" where
  "hub_ok h \<longleftrightarrow> counts_ok h \<and> hub_bytes h \<le> GLOBAL_HISTORY_BYTES"

section \<open>Dropping old records\<close>

lemma records_ok_drop: "records_ok gen i n rs \<Longrightarrow> records_ok gen i n (drop k rs)"
  by (cases "k \<le> length rs") (auto simp: records_ok_def drop_map [symmetric] dest: in_set_dropD)

lemma records_ok_Cons: "records_ok gen i n (r # rs) \<Longrightarrow> records_ok gen i n rs"
  using records_ok_drop [of gen i n "r # rs" 1] by simp

lemma records_ok_snoc:
  assumes "records_ok gen i n rs" and "ev_sequence r = n + 1" "ev_id r = event_id i gen (n + 1)" "length (ev_data r) \<le> MAX_EVENT_BYTES"
  shows "records_ok gen i (n + 1) (rs @ [r])"
proof -
  have "[n + 1 - length rs ..< n + 1] @ [n + 1] = [n + 1 - length rs ..< n + 2]" by simp
  with assms show ?thesis by (auto simp: records_ok_def)
qed

lemma trim_history_keeps:
  "bytes = bytes_of rs \<Longrightarrow> bytes \<le> in_hub \<Longrightarrow>
   \<exists>k. trim_history rs bytes in_hub = Some (drop k rs, bytes_of (drop k rs), in_hub - bytes + bytes_of (drop k rs))
     \<and> length (drop k rs) \<le> HISTORY_EVENTS \<and> bytes_of (drop k rs) \<le> INSTANCE_HISTORY_BYTES
     \<and> (rs \<noteq> [] \<and> record_bytes (last rs) \<le> INSTANCE_HISTORY_BYTES \<longrightarrow> k < length rs)"
proof (induction rs bytes in_hub rule: trim_history.induct)
  case (2 old rest bytes in_hub)
  show ?case
  proof (cases "HISTORY_EVENTS < length (old # rest) \<or> INSTANCE_HISTORY_BYTES < bytes")
    case True
    have b: "bytes - record_bytes old = bytes_of rest" "bytes_of rest \<le> in_hub - record_bytes old"
      "in_hub - record_bytes old - bytes_of rest = in_hub - bytes" using "2.prems" by auto
    from "2.IH" [OF True] b obtain k where k: "trim_history rest (bytes_of rest) (in_hub - record_bytes old)
        = Some (drop k rest, bytes_of (drop k rest), in_hub - bytes + bytes_of (drop k rest))"
      "length (drop k rest) \<le> HISTORY_EVENTS" "bytes_of (drop k rest) \<le> INSTANCE_HISTORY_BYTES"
      "rest \<noteq> [] \<and> record_bytes (last rest) \<le> INSTANCE_HISTORY_BYTES \<longrightarrow> k < length rest" by metis
    have step: "trim_history (old # rest) bytes in_hub = trim_history rest (bytes_of rest) (in_hub - record_bytes old)"
      using True b(1) by simp
    have keeps_last: "k < length rest" if "record_bytes (last (old # rest)) \<le> INSTANCE_HISTORY_BYTES"
    proof (cases "rest = []")
      case True
      with that \<open>HISTORY_EVENTS < length (old # rest) \<or> INSTANCE_HISTORY_BYTES < bytes\<close> "2.prems" show ?thesis
        by (simp add: HISTORY_EVENTS_def)
    qed (use that k(4) in simp)
    show ?thesis unfolding step by (rule exI [of _ "Suc k"]) (use k(1-3) keeps_last in simp)
  next
    case False
    with "2.prems" show ?thesis by (intro exI [of _ 0]) auto
  qed
qed (auto intro!: exI [of _ 0])

lemma front_orders_iff: "(i, n) \<in> set (front_orders hs) \<longleftrightarrow> (\<exists>x r rest. (i, x) \<in> set hs \<and> history_records x = r # rest \<and> n = ev_order r)"
  by (induction hs) (auto simp: front_orders_def List.map_filter_def split: list.splits)

lemma min_by_order_Some: "min_by_order l = Some (i, n) \<Longrightarrow> (i, n) \<in> set l \<and> (\<forall>(j, k) \<in> set l. n \<le> k)"
proof (induction l arbitrary: i n rule: min_by_order.induct)
  case (2 a k rest)
  show ?case
  proof (cases "min_by_order rest")
    case None
    then have "rest = []" by (cases rest) (auto split: option.splits if_splits)
    with 2 show ?thesis by simp
  next
    case (Some y)
    obtain b m where y: "y = (b, m)" by (cases y)
    with 2 Some have "(b, m) \<in> set rest" "\<forall>(j, k) \<in> set rest. m \<le> k" by auto
    with "2.prems" Some y show ?thesis by (auto split: if_splits)
  qed
qed simp

lemma min_by_order_None: "min_by_order l = None \<longleftrightarrow> l = []"
  by (induction l rule: min_by_order.induct) (auto split: option.splits)

definition drop_front :: "string \<Rightarrow> event_hub \<Rightarrow> event_hub" where
  "drop_front i h = (let x = history_of i h; old = hd (history_records x) in
     put_history i (x\<lparr>history_records := tl (history_records x), history_bytes := history_bytes x - record_bytes old\<rparr>)
       (h\<lparr>hub_bytes := hub_bytes h - record_bytes old\<rparr>))"

lemma put_history_fields [simp]:
  "generation (put_history i x h) = generation h" "hub_bytes (put_history i x h) = hub_bytes h"
  "next_order (put_history i x h) = next_order h" "next_subscriber (put_history i x h) = next_subscriber h"
  "channels (put_history i x h) = channels h" "histories (put_history i x h) = oput i x (histories h)"
  by (simp_all add: put_history_def)

lemma history_of_put [simp]: "history_of j (put_history i x h) = (if j = i then x else history_of j h)"
  by (simp add: history_of_def oget_oput unwrap_or_def)

lemma history_of_updates [simp]: "history_of j (h\<lparr>hub_bytes := b\<rparr>) = history_of j h" "history_of j (h\<lparr>next_order := n\<rparr>) = history_of j h"
  "history_of j (h\<lparr>channels := cs\<rparr>) = history_of j h" "history_of j (h\<lparr>next_subscriber := n\<rparr>) = history_of j h"
  by (simp_all add: history_of_def)

lemma trim_hub_unfold:
  "trim_hub h = (if GLOBAL_HISTORY_BYTES < hub_bytes h then
     (case min_by_order (front_orders (histories h)) of None \<Rightarrow> h
      | Some (i, _) \<Rightarrow> if history_records (history_of i h) = [] then h else trim_hub (drop_front i h)) else h)"
  by (subst trim_hub.simps) (auto simp: drop_front_def Let_def split: option.split list.split)

lemma counts_okD:
  assumes "counts_ok h"
  shows "ordered (histories h)" "hub_bytes h = sum_of history_bytes (histories h)"
    "sum_of (length \<circ> subscribers) (histories h) \<le> GLOBAL_SUBSCRIBERS"
    "oget (histories h) i = Some x \<Longrightarrow> history_ok h i x" "oget (histories h) i = Some x \<Longrightarrow> streams_ok h x"
    "oget (histories h) i = Some x \<Longrightarrow> oget (histories h) j = Some y \<Longrightarrow> i \<noteq> j \<Longrightarrow> set (subscribers x) \<inter> set (subscribers y) = {}"
    "oget (histories h) i = Some x \<Longrightarrow> r \<in> set (history_records x) \<Longrightarrow> ev_order r \<le> next_order h"
  using assms unfolding counts_ok_def by blast+

lemma history_of_cases: "oget (histories h) i = Some (history_of i h) \<or> oget (histories h) i = None \<and> history_of i h = empty_history"
  by (cases "oget (histories h) i") (simp_all add: history_of_def unwrap_or_def)

lemma history_of_ok:
  assumes "counts_ok h"
  shows "history_ok h i (history_of i h)" "streams_ok h (history_of i h)"
    "r \<in> set (history_records (history_of i h)) \<Longrightarrow> ev_order r \<le> next_order h"
proof -
  note D = counts_okD [OF assms]
  have e: "history_ok h i empty_history" "streams_ok h empty_history" "history_records empty_history = []"
    by (simp_all add: empty_history_def history_ok_def streams_ok_def records_ok_def)
  show "history_ok h i (history_of i h)" using history_of_cases [of h i] D(4) e(1) by metis
  show "streams_ok h (history_of i h)" using history_of_cases [of h i] D(5) e(2) by metis
  show "ev_order r \<le> next_order h" if "r \<in> set (history_records (history_of i h))"
    using history_of_cases [of h i] D(7) e(3) that by (metis empty_iff set_empty)
qed

lemma sum_of_history:
  "ordered (histories h) \<Longrightarrow> f empty_history = 0 \<Longrightarrow> sum_of f (oput i y (histories h)) + f (history_of i h) = sum_of f (histories h) + f y"
  using sum_of_put [of "histories h" f i y] by (cases "oget (histories h) i") (simp_all add: history_of_def unwrap_or_def)

text \<open>The invariant where one history changes.\<close>

lemma counts_update:
  assumes ok: "counts_ok h" and hs: "histories h' = oput i y (histories h)" and gen: "generation h' = generation h"
    and bytes: "hub_bytes h' + history_bytes (history_of i h) = hub_bytes h + history_bytes y"
    and subs: "sum_of (length \<circ> subscribers) (histories h) + length (subscribers y) \<le> GLOBAL_SUBSCRIBERS + length (subscribers (history_of i h))"
    and y: "history_ok h' i y" "streams_ok h' y"
    and others: "\<And>j x. j \<noteq> i \<Longrightarrow> oget (histories h) j = Some x \<Longrightarrow> streams_ok h' x \<and> set (subscribers y) \<inter> set (subscribers x) = {}"
    and orders: "next_order h \<le> next_order h'" "\<And>r. r \<in> set (history_records y) \<Longrightarrow> ev_order r \<le> next_order h'"
  shows "counts_ok h'"
  unfolding counts_ok_def
proof (intro conjI allI impI)
  note D = counts_okD [OF ok]
  show "ordered (histories h')" unfolding hs by (rule ordered_oput [OF D(1)])
  show "hub_bytes h' = sum_of history_bytes (histories h')"
    using sum_of_history [OF D(1), of history_bytes i y] bytes D(2) by (simp add: hs empty_history_def)
  show "sum_of (length \<circ> subscribers) (histories h') \<le> GLOBAL_SUBSCRIBERS"
    using sum_of_history [OF D(1), of "length \<circ> subscribers" i y] subs by (simp add: hs empty_history_def)
  fix j x assume j: "oget (histories h') j = Some x"
  then show "history_ok h' j x" using y(1) D(4) [of j x] gen by (auto simp: hs oget_oput history_ok_def split: if_splits)
  from j show "streams_ok h' x" using y(2) others [of j x] by (auto simp: hs oget_oput split: if_splits)
next
  note D = counts_okD [OF ok]
  fix j k x z assume "oget (histories h') j = Some x \<and> oget (histories h') k = Some z \<and> j \<noteq> k"
  then show "set (subscribers x) \<inter> set (subscribers z) = {}"
    using others [of j x] others [of k z] D(6) [of j x k z] by (auto simp: hs oget_oput split: if_splits)
next
  note D = counts_okD [OF ok]
  fix j x r assume "oget (histories h') j = Some x \<and> r \<in> set (history_records x)"
  then show "ev_order r \<le> next_order h'"
    using orders D(7) [of j x r] by (auto simp: hs oget_oput split: if_splits)
qed

lemma records_ok_tl: "records_ok gen i n rs \<Longrightarrow> records_ok gen i n (tl rs)"
  by (cases rs) (auto dest: records_ok_Cons)

lemma drop_front_ok:
  assumes ok: "counts_ok h" and r: "history_records (history_of i h) = old # rest"
  shows "counts_ok (drop_front i h)"
proof (rule counts_update [OF ok, of _ i])
  let ?x = "history_of i h" and ?h = "drop_front i h"
  let ?y = "?x\<lparr>history_records := rest, history_bytes := history_bytes ?x - record_bytes old\<rparr>"
  have i: "oget (histories h) i = Some ?x" using history_of_cases [of h i] r by (auto simp: empty_history_def)
  note x = history_of_ok(1,2) [OF ok, of i] history_of_ok(3) [OF ok, of _ i]
  have b: "record_bytes old \<le> history_bytes ?x" "history_bytes ?x \<le> hub_bytes h"
    using x(1) r sum_of_ge [OF i, of history_bytes] counts_okD(2) [OF ok] by (simp_all add: history_ok_def)
  show "histories ?h = oput i ?y (histories h)" by (simp add: drop_front_def Let_def r)
  show "generation ?h = generation h" "next_order h \<le> next_order ?h" by (simp_all add: drop_front_def Let_def)
  show "hub_bytes ?h + history_bytes ?x = hub_bytes h + history_bytes ?y" using b by (simp add: drop_front_def Let_def r)
  show "sum_of (length \<circ> subscribers) (histories h) + length (subscribers ?y) \<le> GLOBAL_SUBSCRIBERS + length (subscribers ?x)"
    using counts_okD(3) [OF ok] by simp
  show "history_ok ?h i ?y" using x(1) r by (auto simp: history_ok_def drop_front_def Let_def dest: records_ok_Cons)
  show "streams_ok ?h ?y" using x(2) by (simp add: streams_ok_def drop_front_def Let_def)
  show "streams_ok ?h z \<and> set (subscribers ?y) \<inter> set (subscribers z) = {}" if "j \<noteq> i" "oget (histories h) j = Some z" for j z
    using counts_okD(5,6) [OF ok] that i by (force simp: streams_ok_def drop_front_def Let_def)
  show "ev_order q \<le> next_order ?h" if "q \<in> set (history_records ?y)" for q
    using x(3) [of q] that r by (simp add: drop_front_def Let_def)
qed

text \<open>What trimming does to the hub: only records at the front go, and the newest one stays.\<close>

definition trimmed :: "event_hub \<Rightarrow> event_hub \<Rightarrow> bool" where
  "trimmed h h' \<longleftrightarrow> generation h' = generation h \<and> next_order h' = next_order h \<and> next_subscriber h' = next_subscriber h
     \<and> channels h' = channels h \<and> subscriber_total h' = subscriber_total h
     \<and> (\<forall>j. subscribers (history_of j h') = subscribers (history_of j h)
        \<and> next_sequence (history_of j h') = next_sequence (history_of j h)
        \<and> (oget (histories h) j \<noteq> None \<longrightarrow> oget (histories h') j \<noteq> None)
        \<and> (\<exists>k. history_records (history_of j h') = drop k (history_records (history_of j h))))"

definition newest :: "string \<Rightarrow> event_record \<Rightarrow> event_hub \<Rightarrow> bool" where
  "newest i r h \<longleftrightarrow> (\<exists>rs. history_records (history_of i h) = rs @ [r])
     \<and> (\<forall>j q. j \<noteq> i \<and> q \<in> set (history_records (history_of j h)) \<longrightarrow> ev_order q < ev_order r)"

lemma trimmed_refl: "trimmed h h"
  unfolding trimmed_def by (auto intro: exI [of _ 0])

lemma trimmed_trans:
  assumes "trimmed a b" and "trimmed b c"
  shows "trimmed a c"
proof -
  have "\<exists>k. history_records (history_of j c) = drop k (history_records (history_of j a))" for j
  proof -
    from assms obtain k l where "history_records (history_of j b) = drop k (history_records (history_of j a))"
      "history_records (history_of j c) = drop l (history_records (history_of j b))" unfolding trimmed_def by metis
    then show ?thesis by (intro exI [of _ "l + k"]) simp
  qed
  with assms show ?thesis by (simp add: trimmed_def)
qed

lemma subscriber_total_sum: "subscriber_total h = sum_of (length \<circ> subscribers) (histories h)"
  by (simp add: subscriber_total_def sum_of_def)

lemma subscriber_total_put:
  "ordered (histories h) \<Longrightarrow> subscriber_total (put_history i y h) + length (subscribers (history_of i h)) = subscriber_total h + length (subscribers y)"
  using sum_of_history [of h "length \<circ> subscribers" i y] by (simp add: subscriber_total_sum empty_history_def)

lemma subscriber_total_updates [simp]:
  "subscriber_total (h\<lparr>hub_bytes := b\<rparr>) = subscriber_total h" "subscriber_total (h\<lparr>next_order := n\<rparr>) = subscriber_total h"
  "subscriber_total (h\<lparr>channels := cs\<rparr>) = subscriber_total h" "subscriber_total (h\<lparr>next_subscriber := n\<rparr>) = subscriber_total h"
  by (simp_all add: subscriber_total_def)

lemma drop_front_trimmed:
  assumes "ordered (histories h)" and "history_records (history_of i h) = old # rest"
  shows "trimmed h (drop_front i h)"
proof -
  have "subscriber_total (drop_front i h) = subscriber_total h"
    using subscriber_total_put [of "h\<lparr>hub_bytes := hub_bytes h - record_bytes old\<rparr>" i
      "(history_of i h)\<lparr>history_records := rest, history_bytes := history_bytes (history_of i h) - record_bytes old\<rparr>"] assms
    by (simp add: drop_front_def Let_def)
  with assms(2) show ?thesis
    by (auto simp: trimmed_def drop_front_def Let_def oget_oput intro: exI [of _ 0] exI [of _ "Suc 0"])
qed

lemma oldest_found:
  assumes "counts_ok h" and "GLOBAL_HISTORY_BYTES < hub_bytes h"
  obtains i old rest where "min_by_order (front_orders (histories h)) = Some (i, ev_order old)"
    "history_records (history_of i h) = old # rest" "oget (histories h) i = Some (history_of i h)"
    "\<And>j q qs. oget (histories h) j = Some (history_of j h) \<Longrightarrow> history_records (history_of j h) = q # qs \<Longrightarrow> ev_order old \<le> ev_order q"
proof -
  note D = counts_okD [OF assms(1)]
  have found: "history_of j h = x" if "oget (histories h) j = Some x" for j x
    using that by (simp add: history_of_def unwrap_or_def)
  from assms(2) D(2) obtain k x where "(k, x) \<in> set (histories h)" "0 < history_bytes x"
    using sum_of_pos [of history_bytes "histories h"] by auto
  moreover from this have "history_records x \<noteq> []"
    using D(4) [OF ordered_in_oget [OF D(1)]] by (auto simp: history_ok_def)
  ultimately have "front_orders (histories h) \<noteq> []"
    by (metis front_orders_iff list.exhaust list.set_cases empty_iff list.set(1))
  then obtain i n where m: "min_by_order (front_orders (histories h)) = Some (i, n)"
    using min_by_order_None by (cases "min_by_order (front_orders (histories h))") auto
  from min_by_order_Some [OF m] obtain y old rest where y: "(i, y) \<in> set (histories h)" "history_records y = old # rest" "n = ev_order old"
    by (auto simp: front_orders_iff)
  have i: "oget (histories h) i = Some y" by (rule ordered_in_oget [OF D(1) y(1)])
  have "ev_order old \<le> ev_order q" if "oget (histories h) j = Some (history_of j h)" "history_records (history_of j h) = q # qs" for j q qs
  proof -
    have "(j, ev_order q) \<in> set (front_orders (histories h))"
      using oget_in_set [OF that(1)] that(2) by (auto simp: front_orders_iff)
    with min_by_order_Some [OF m] y(3) show ?thesis by blast
  qed
  with that [of i old rest] m y i found [OF i] show thesis by simp
qed

lemma drop_front_newest:
  assumes ok: "counts_ok h" and big: "GLOBAL_HISTORY_BYTES < hub_bytes h" and r: "newest i r h" "record_bytes r \<le> GLOBAL_HISTORY_BYTES"
    and k: "history_records (history_of k h) = old # rest" "oget (histories h) k = Some (history_of k h)"
    and least: "\<And>j q qs. oget (histories h) j = Some (history_of j h) \<Longrightarrow> history_records (history_of j h) = q # qs \<Longrightarrow> ev_order old \<le> ev_order q"
  shows "newest i r (drop_front k h)"
proof -
  from r(1) obtain rs where rs: "history_records (history_of i h) = rs @ [r]"
    and less: "\<And>j q. j \<noteq> i \<Longrightarrow> q \<in> set (history_records (history_of j h)) \<Longrightarrow> ev_order q < ev_order r"
    by (auto simp: newest_def)
  have "k = i \<Longrightarrow> rs \<noteq> []"
  proof
    assume "k = i" "rs = []"
    with k rs have old: "old = r" "rest = []" "history_records (history_of i h) = [r]" by auto
    have empty: "history_bytes w = 0" if "j \<noteq> k" "oget (histories h) j = Some w" for j w
    proof (cases "history_records w")
      case Nil
      with counts_okD(4) [OF ok that(2)] show ?thesis by (simp add: history_ok_def)
    next
      case (Cons q qs)
      with that have "history_of j h = w" by (simp add: history_of_def unwrap_or_def)
      with least [of j q qs] less [of j q] that Cons old \<open>k = i\<close> show ?thesis by auto
    qed
    have "hub_bytes h = history_bytes (history_of k h)"
      using sum_of_single [OF counts_okD(1) [OF ok] k(2), of history_bytes] empty counts_okD(2) [OF ok] by simp
    also have "\<dots> = record_bytes r"
      using history_of_ok(1) [OF ok, of k] old \<open>k = i\<close> by (simp add: history_ok_def)
    finally show False using big r(2) by simp
  qed
  then have "\<exists>rs. history_records (history_of i (drop_front k h)) = rs @ [r]"
    using rs by (cases rs) (auto simp: drop_front_def Let_def)
  moreover have "q \<in> set (history_records (history_of j h))" if "q \<in> set (history_records (history_of j (drop_front k h)))" for j q
    using that k(1) by (auto simp: drop_front_def Let_def split: if_splits)
  ultimately show ?thesis unfolding newest_def using less by blast
qed

lemma trim_hub_keeps:
  "counts_ok h \<Longrightarrow> hub_ok (trim_hub h) \<and> trimmed h (trim_hub h)
     \<and> (newest i r h \<and> record_bytes r \<le> GLOBAL_HISTORY_BYTES \<longrightarrow> newest i r (trim_hub h))"
proof (induction "hub_bytes h" arbitrary: h rule: less_induct)
  case less
  show ?case
  proof (cases "GLOBAL_HISTORY_BYTES < hub_bytes h")
    case False
    then have "trim_hub h = h" by (subst trim_hub_unfold) simp
    with less.prems False show ?thesis by (simp add: hub_ok_def trimmed_refl)
  next
    case True
    obtain k old rest where k: "min_by_order (front_orders (histories h)) = Some (k, ev_order old)"
      "history_records (history_of k h) = old # rest" "oget (histories h) k = Some (history_of k h)"
      and least: "\<And>j q qs. oget (histories h) j = Some (history_of j h) \<Longrightarrow> history_records (history_of j h) = q # qs \<Longrightarrow> ev_order old \<le> ev_order q"
      using oldest_found [OF less.prems True] by metis
    have step: "trim_hub h = trim_hub (drop_front k h)" by (subst trim_hub_unfold) (use True k in simp)
    have small: "hub_bytes (drop_front k h) < hub_bytes h"
      using True k(2) by (simp add: drop_front_def Let_def record_bytes_def)
    have "newest i r h \<Longrightarrow> record_bytes r \<le> GLOBAL_HISTORY_BYTES \<Longrightarrow> newest i r (drop_front k h)"
      by (rule drop_front_newest [OF less.prems True _ _ k(2,3)]) (assumption, assumption, rule least)
    with less.hyps [OF small drop_front_ok [OF less.prems k(2)]]
    show ?thesis unfolding step using trimmed_trans [OF drop_front_trimmed [OF counts_okD(1) [OF less.prems] k(2)]] by blast
  qed
qed

section \<open>Publishing\<close>

lemma in_order_snoc: "in_order n rs \<Longrightarrow> ev_sequence r = n + 1 \<Longrightarrow> in_order (n + 1) (rs @ [r])"
  by (auto simp: in_order_def sorted_wrt_append)

lemma in_order_mono: "in_order n rs \<Longrightarrow> n \<le> m \<Longrightarrow> in_order m rs"
  by (auto simp: in_order_def)

lemma new_record_fields [simp]:
  "ev_sequence (new_record i k t h) = next_sequence (history_of i h) + 1" "ev_order (new_record i k t h) = next_order h + 1"
  "ev_kind (new_record i k t h) = k" "ev_data (new_record i k t h) = t"
  "ev_id (new_record i k t h) = event_id i (generation h) (next_sequence (history_of i h) + 1)"
  by (simp_all add: new_record_def Let_def)

text \<open>The hub between the two loops.\<close>

definition appended :: "string \<Rightarrow> event_record \<Rightarrow> nat list \<Rightarrow> (nat \<Rightarrow> channel) \<Rightarrow> nat \<Rightarrow> event_hub \<Rightarrow> event_hub" where
  "appended i r subs cs k h = (let rs = drop k (history_records (history_of i h) @ [r]) in
     put_history i \<lparr>next_sequence = ev_sequence r, history_bytes = bytes_of rs, history_records = rs, subscribers = subs\<rparr>
       (h\<lparr>next_order := ev_order r, channels := cs, hub_bytes := hub_bytes h - history_bytes (history_of i h) + bytes_of rs\<rparr>))"

lemma appended_ok:
  assumes ok: "counts_ok h" and r: "r = new_record i kind_name text h" and small: "length text \<le> MAX_EVENT_BYTES"
    and cut: "length (drop k (history_records (history_of i h) @ [r])) \<le> HISTORY_EVENTS"
      "bytes_of (drop k (history_records (history_of i h) @ [r])) \<le> INSTANCE_HISTORY_BYTES"
    and subs: "distinct subs" "set subs \<subseteq> set (subscribers (history_of i h))"
    and cs: "\<And>s. s \<notin> set (subscribers (history_of i h)) \<Longrightarrow> cs s = channels h s"
      "\<And>s. s \<in> set subs \<Longrightarrow> in_order (next_sequence (history_of i h) + 1) (backlog (cs s) @ queue (cs s)) \<and> length (queue (cs s)) \<le> CHANNEL_EVENTS"
  shows "counts_ok (appended i r subs cs k h)"
proof (rule counts_update [OF ok, of _ i])
  let ?x = "history_of i h" and ?h = "appended i r subs cs k h"
  let ?rs = "drop k (history_records ?x @ [r])"
  let ?y = "\<lparr>next_sequence = ev_sequence r, history_bytes = bytes_of ?rs, history_records = ?rs, subscribers = subs\<rparr>"
  note x = history_of_ok(1,2) [OF ok, of i] history_of_ok(3) [OF ok, of _ i]
  have few: "length subs \<le> length (subscribers ?x)"
    using subs x(1) by (metis card_mono distinct_card history_ok_def finite_set)
  have b: "history_bytes ?x \<le> hub_bytes h"
    using history_of_cases [of h i] sum_of_ge [of "histories h" i ?x history_bytes] counts_okD(2) [OF ok] by (auto simp: empty_history_def)
  show "histories ?h = oput i ?y (histories h)" "generation ?h = generation h" "next_order h \<le> next_order ?h"
    by (simp_all add: appended_def Let_def r)
  show "hub_bytes ?h + history_bytes ?x = hub_bytes h + history_bytes ?y" using b by (simp add: appended_def Let_def)
  show "sum_of (length \<circ> subscribers) (histories h) + length (subscribers ?y) \<le> GLOBAL_SUBSCRIBERS + length (subscribers ?x)"
    using counts_okD(3) [OF ok] few by simp
  have "records_ok (generation h) i (ev_sequence r) ?rs"
    using x(1) small unfolding r new_record_fields by (intro records_ok_drop records_ok_snoc) (simp_all add: history_ok_def)
  then show "history_ok ?h i ?y"
    using cut subs(1) few x(1) by (simp add: history_ok_def appended_def Let_def)
  show "streams_ok ?h ?y" using x(2) subs(2) cs(2) by (auto simp: streams_ok_def appended_def Let_def r)
  show "streams_ok ?h z \<and> set (subscribers ?y) \<inter> set (subscribers z) = {}" if "j \<noteq> i" "oget (histories h) j = Some z" for j z
  proof -
    have apart: "set (subscribers ?x) \<inter> set (subscribers z) = {}"
      using history_of_cases [of h i] counts_okD(6) [OF ok, of i ?x j z] that by (auto simp: empty_history_def)
    then have "cs s = channels h s" if "s \<in> set (subscribers z)" for s using cs(1) that by blast
    with counts_okD(5) [OF ok that(2)] apart subs(2) show ?thesis by (auto simp: streams_ok_def appended_def Let_def)
  qed
  show "ev_order q \<le> next_order ?h" if "q \<in> set (history_records ?y)" for q
    using that x(3) [of q] by (auto simp: appended_def Let_def r dest!: in_set_dropD)
qed

lemma broadcast_ok:
  assumes "counts_ok h" and "r = new_record i kind_name text h" and "broadcast r (subscribers (history_of i h)) (channels h) = (subs, cs)"
  shows "distinct subs" "set subs \<subseteq> set (subscribers (history_of i h))"
    "\<And>s. s \<notin> set (subscribers (history_of i h)) \<Longrightarrow> cs s = channels h s"
    "\<And>s. s \<in> set subs \<Longrightarrow> in_order (next_sequence (history_of i h) + 1) (backlog (cs s) @ queue (cs s)) \<and> length (queue (cs s)) \<le> CHANNEL_EVENTS"
proof -
  note x = history_of_ok(1,2) [OF assms(1), of i]
  from assms(3) have b: "subs = filter (\<lambda>s. can_send (channels h s)) (subscribers (history_of i h))"
    "cs = (\<lambda>s. if s \<in> set (subscribers (history_of i h)) \<and> can_send (channels h s)
           then (channels h s)\<lparr>queue := queue (channels h s) @ [r]\<rparr> else channels h s)" by (simp_all add: broadcast_def)
  show "distinct subs" "set subs \<subseteq> set (subscribers (history_of i h))" using x(1) b(1) by (auto simp: history_ok_def)
  show "cs s = channels h s" if "s \<notin> set (subscribers (history_of i h))" for s using that b(2) by simp
  show "in_order (next_sequence (history_of i h) + 1) (backlog (cs s) @ queue (cs s)) \<and> length (queue (cs s)) \<le> CHANNEL_EVENTS"
    if "s \<in> set subs" for s
  proof -
    from that b(1) have s: "s \<in> set (subscribers (history_of i h))" "can_send (channels h s)" by auto
    with x(2) have "in_order (next_sequence (history_of i h)) (backlog (channels h s) @ queue (channels h s))" by (simp add: streams_ok_def)
    from in_order_snoc [OF this, of r] assms(2) s b(2) show ?thesis by (auto simp: can_send_def)
  qed
qed

text \<open>What a publication does, to the instance and to the others.\<close>

definition published :: "string \<Rightarrow> event_record \<Rightarrow> bool \<Rightarrow> event_hub \<Rightarrow> event_hub \<Rightarrow> bool" where
  "published i r to_all h h' \<longleftrightarrow> next_sequence (history_of i h') = ev_sequence r \<and> oget (histories h') i \<noteq> None
     \<and> generation h' = generation h \<and> next_order h' = ev_order r \<and> next_subscriber h' = next_subscriber h
     \<and> (subscribers (history_of i h'), channels h') = (if to_all then broadcast r (subscribers (history_of i h)) (channels h)
          else (subscribers (history_of i h), channels h))
     \<and> subscriber_total h' + length (subscribers (history_of i h)) = subscriber_total h + length (subscribers (history_of i h'))
     \<and> (\<exists>k. history_records (history_of i h') = drop k (history_records (history_of i h) @ [r]))
     \<and> (\<forall>j. j \<noteq> i \<longrightarrow> subscribers (history_of j h') = subscribers (history_of j h) \<and> next_sequence (history_of j h') = next_sequence (history_of j h))
     \<and> (record_bytes r \<le> INSTANCE_HISTORY_BYTES \<longrightarrow> (\<exists>rs. history_records (history_of i h') = rs @ [r]))"

lemma appended_history:
  "history_of j (appended i r subs cs k h) = (if j = i then (let rs = drop k (history_records (history_of i h) @ [r]) in
     \<lparr>next_sequence = ev_sequence r, history_bytes = bytes_of rs, history_records = rs, subscribers = subs\<rparr>) else history_of j h)"
  "generation (appended i r subs cs k h) = generation h" "next_order (appended i r subs cs k h) = ev_order r"
  "next_subscriber (appended i r subs cs k h) = next_subscriber h" "channels (appended i r subs cs k h) = cs"
  "oget (histories (appended i r subs cs k h)) i \<noteq> None"
  by (simp_all add: appended_def Let_def oget_oput)

lemma publish_ok:
  assumes ok: "hub_ok h" and small: "length text \<le> MAX_EVENT_BYTES"
  shows "\<exists>h'. publish i kind_name text to_all h = Some (True, h') \<and> hub_ok h' \<and> published i (new_record i kind_name text h) to_all h h'"
proof -
  from ok have c: "counts_ok h" by (simp add: hub_ok_def)
  let ?x = "history_of i h"
  define r where "r = new_record i kind_name text h"
  obtain subs cs where sc: "(subs, cs) = (if to_all then broadcast r (subscribers ?x) (channels h) else (subscribers ?x, channels h))"
    by (metis surj_pair)
  note x = history_of_ok(1,2) [OF c, of i]
  have b: "history_bytes ?x = bytes_of (history_records ?x)" "history_bytes ?x \<le> hub_bytes h"
    using x(1) history_of_cases [of h i] sum_of_ge [of "histories h" i ?x history_bytes] counts_okD(2) [OF c]
    by (auto simp: history_ok_def empty_history_def)
  from trim_history_keeps [of "history_bytes ?x + record_bytes r" "history_records ?x @ [r]" "hub_bytes h + record_bytes r"] b
  obtain k where k: "trim_history (history_records ?x @ [r]) (history_bytes ?x + record_bytes r) (hub_bytes h + record_bytes r)
      = Some (drop k (history_records ?x @ [r]), bytes_of (drop k (history_records ?x @ [r])),
          hub_bytes h - history_bytes ?x + bytes_of (drop k (history_records ?x @ [r])))"
    and cut: "length (drop k (history_records ?x @ [r])) \<le> HISTORY_EVENTS" "bytes_of (drop k (history_records ?x @ [r])) \<le> INSTANCE_HISTORY_BYTES"
    and stays: "record_bytes r \<le> INSTANCE_HISTORY_BYTES \<Longrightarrow> k < length (history_records ?x @ [r])"
    by auto
  let ?h = "appended i r subs cs k h"
  have subs: "distinct subs" "set subs \<subseteq> set (subscribers ?x)" "\<And>s. s \<notin> set (subscribers ?x) \<Longrightarrow> cs s = channels h s"
    "\<And>s. s \<in> set subs \<Longrightarrow> in_order (next_sequence ?x + 1) (backlog (cs s) @ queue (cs s)) \<and> length (queue (cs s)) \<le> CHANNEL_EVENTS"
    using broadcast_ok [OF c r_def, of subs cs] sc x
    by (cases to_all; auto simp: history_ok_def streams_ok_def intro: in_order_mono)+
  have c': "counts_ok ?h" by (rule appended_ok [OF c r_def small cut subs])
  have run: "publish i kind_name text to_all h = Some (True, trim_hub ?h)"
    using small sc k by (auto simp: publish_def Let_def r_def [symmetric] appended_def split: prod.splits)
  have new: "newest i r ?h" if "record_bytes r \<le> INSTANCE_HISTORY_BYTES"
  proof -
    have "ev_order q < ev_order r" if "q \<in> set (history_records (history_of j h))" for j q
      using history_of_ok(3) [OF c that] by (simp add: r_def)
    moreover have "drop k (history_records ?x @ [r]) = drop k (history_records ?x) @ [r]" using stays [OF that] by simp
    ultimately show ?thesis by (simp add: newest_def appended_history Let_def)
  qed
  have glob: "INSTANCE_HISTORY_BYTES \<le> GLOBAL_HISTORY_BYTES" by (simp add: INSTANCE_HISTORY_BYTES_def GLOBAL_HISTORY_BYTES_def)
  from trim_hub_keeps [OF c', of i r] have t: "hub_ok (trim_hub ?h)" "trimmed ?h (trim_hub ?h)"
    "record_bytes r \<le> INSTANCE_HISTORY_BYTES \<Longrightarrow> newest i r (trim_hub ?h)" using new glob by auto
  from t(2) obtain l where l: "history_records (history_of i (trim_hub ?h)) = drop l (drop k (history_records ?x @ [r]))"
    unfolding trimmed_def by (metis (no_types, lifting) appended_history(1) history.select_convs(3))
  have ex: "\<exists>m. history_records (history_of i (trim_hub ?h)) = drop m (history_records ?x @ [r])"
    unfolding l drop_drop by (rule exI) (rule refl)
  have "published i r to_all h (trim_hub ?h)"
    unfolding published_def
  proof (intro conjI allI impI)
    show "\<exists>m. history_records (history_of i (trim_hub ?h)) = drop m (history_records ?x @ [r])" by (fact ex)
    show "\<exists>rs. history_records (history_of i (trim_hub ?h)) = rs @ [r]" if "record_bytes r \<le> INSTANCE_HISTORY_BYTES"
      using t(3) [OF that] by (simp add: newest_def)
    have "subscriber_total ?h + length (subscribers ?x) = subscriber_total h + length subs"
      using subscriber_total_put [OF counts_okD(1) [OF c]] counts_okD(1) [OF c] subscriber_total_put [of "h\<lparr>next_order := ev_order r, channels := cs,
          hub_bytes := hub_bytes h - history_bytes ?x + bytes_of (drop k (history_records ?x @ [r]))\<rparr>" i]
      by (simp add: appended_def Let_def)
    then show "subscriber_total (trim_hub ?h) + length (subscribers ?x) = subscriber_total h + length (subscribers (history_of i (trim_hub ?h)))"
      using t(2) by (simp add: trimmed_def appended_history(1) Let_def)
    show "oget (histories (trim_hub ?h)) i \<noteq> None"
      using t(2) appended_history(6) [of i r subs cs k h] unfolding trimmed_def by blast
    show "subscribers (history_of j (trim_hub ?h)) = subscribers (history_of j h)"
      "next_sequence (history_of j (trim_hub ?h)) = next_sequence (history_of j h)" if "j \<noteq> i" for j
      using t(2) that by (simp_all add: trimmed_def appended_history(1))
  qed (use t(2) sc in \<open>simp_all add: trimmed_def appended_history Let_def\<close>)
  with run t(1) show ?thesis by (auto simp: r_def)
qed

section \<open>Subscribing\<close>

lemma add_subscriber_ok:
  assumes ok: "hub_ok h" and room: "subscriber_total h < GLOBAL_SUBSCRIBERS" "length (subscribers (history_of i h)) < INSTANCE_SUBSCRIBERS"
    and initial: "in_order (next_sequence (history_of i h)) initial" and run: "add_subscriber i initial h = (s, h')"
  shows "hub_ok h' \<and> s \<in> set (subscribers (history_of i h')) \<and> channels h' s = \<lparr>backlog = initial, queue = [], receiver_open = True\<rparr>
    \<and> history_records (history_of i h') = history_records (history_of i h)"
proof -
  from ok have c: "counts_ok h" by (simp add: hub_ok_def)
  let ?x = "history_of i h" and ?s = "next_subscriber h + 1"
  let ?y = "?x\<lparr>subscribers := subscribers ?x @ [?s]\<rparr>"
  from run have h': "h' = put_history i ?y (h\<lparr>next_subscriber := ?s, channels := (channels h)(?s := \<lparr>backlog = initial, queue = [], receiver_open = True\<rparr>)\<rparr>)"
    and s: "s = ?s" by (auto simp: add_subscriber_def Let_def)
  note x = history_of_ok(1,2) [OF c, of i] history_of_ok(3) [OF c, of _ i]
  have old: "\<forall>t \<in> set (subscribers (history_of j h)). t \<le> next_subscriber h" for j
    using history_of_ok(2) [OF c, of j] by (auto simp: streams_ok_def)
  have "counts_ok h'"
  proof (rule counts_update [OF c, of _ i])
    show "histories h' = oput i ?y (histories h)" "generation h' = generation h" "next_order h \<le> next_order h'"
      "hub_bytes h' + history_bytes ?x = hub_bytes h + history_bytes ?y" by (simp_all add: h')
    show "sum_of (length \<circ> subscribers) (histories h) + length (subscribers ?y) \<le> GLOBAL_SUBSCRIBERS + length (subscribers ?x)"
      using room(1) by (simp add: subscriber_total_sum)
    show "history_ok h' i ?y" using x(1) room(2) old [of i] by (auto simp: history_ok_def h')
    show "streams_ok h' ?y" using x(2) old [of i] initial by (auto simp: streams_ok_def h' CHANNEL_EVENTS_def)
    show "streams_ok h' z \<and> set (subscribers ?y) \<inter> set (subscribers z) = {}" if "j \<noteq> i" "oget (histories h) j = Some z" for j z
    proof -
      have z: "history_of j h = z" using that by (simp add: history_of_def unwrap_or_def)
      have "set (subscribers ?x) \<inter> set (subscribers z) = {}"
        using history_of_cases [of h i] counts_okD(6) [OF c, of i ?x j z] that by (auto simp: empty_history_def)
      with counts_okD(5) [OF c that(2)] old [of j] z show ?thesis by (auto simp: streams_ok_def h')
    qed
    show "ev_order q \<le> next_order h'" if "q \<in> set (history_records ?y)" for q using that x(3) [of q] by (simp add: h')
  qed
  with ok show ?thesis by (simp add: hub_ok_def h' s)
qed

lemma records_in_order: "records_ok gen i n rs \<Longrightarrow> in_order n (filter P rs)"
proof -
  assume ok: "records_ok gen i n rs"
  then have "sorted_wrt (<) (map ev_sequence rs)" by (simp add: records_ok_def del: upt_Suc)
  moreover have "\<forall>r \<in> set rs. ev_sequence r \<le> n"
  proof
    fix r assume "r \<in> set rs"
    then have "ev_sequence r \<in> set (map ev_sequence rs)" by simp
    also have "\<dots> = set [n + 1 - length rs ..< n + 1]" using ok by (simp add: records_ok_def del: upt_Suc)
    finally show "ev_sequence r \<le> n" by (simp del: upt_Suc)
  qed
  ultimately show ?thesis
    by (auto simp: in_order_def sorted_wrt_map intro: sorted_wrt_filter)
qed

lemma replayed_numbers:
  assumes ok: "records_ok gen i n rs" and first: "first_sequence x - 1 \<le> c" "c \<le> n" and x: "history_records x = rs" "next_sequence x = n"
  shows "map ev_sequence (filter (\<lambda>r. c < ev_sequence r) rs) = [c + 1 ..< n + 1]"
proof -
  have "map ev_sequence (filter (\<lambda>r. c < ev_sequence r) rs) = filter (\<lambda>k. c < k) (map ev_sequence rs)"
    by (simp add: filter_map comp_def)
  also have "\<dots> = filter (\<lambda>k. c < k) [n + 1 - length rs ..< n + 1]" using ok by (simp add: records_ok_def del: upt_Suc)
  also have "\<dots> = [c + 1 ..< n + 1]"
  proof -
    have "n + 1 - length rs \<le> c + 1"
    proof (cases rs)
      case Nil
      with first x show ?thesis by (simp add: first_sequence_def)
    next
      case (Cons r qs)
      have "ev_sequence r = hd (map ev_sequence rs)" by (simp add: Cons)
      also have "\<dots> = n + 1 - length rs" using ok Cons by (simp add: records_ok_def del: upt_Suc)
      finally show ?thesis using first(1) x Cons by (simp add: first_sequence_def)
    qed
    then have "[n + 1 - length rs ..< n + 1] = [n + 1 - length rs ..< c + 1] @ [c + 1 ..< n + 1]"
      using upt_add_eq_append [of "n + 1 - length rs" "c + 1" "n - c"] first(2) by (simp del: upt_Suc)
    moreover have "filter (\<lambda>k. c < k) [n + 1 - length rs ..< c + 1] = []" by (auto simp: filter_empty_conv)
    moreover have "filter (\<lambda>k. c < k) [c + 1 ..< n + 1] = [c + 1 ..< n + 1]" by (auto intro: filter_True)
    ultimately show ?thesis by simp
  qed
  finally show ?thesis .
qed

lemma published_silent:
  assumes "published i r False h h'"
  shows "subscribers (history_of i h') = subscribers (history_of i h)" "subscriber_total h' = subscriber_total h" "no_room i h' = no_room i h"
proof -
  from assms have s: "subscribers (history_of i h') = subscribers (history_of i h)"
    and t: "subscriber_total h' + length (subscribers (history_of i h)) = subscriber_total h + length (subscribers (history_of i h'))"
    unfolding published_def by (simp_all del: drop_append)
  from s t show "subscriber_total h' = subscriber_total h" by simp
  with s show "subscribers (history_of i h') = subscribers (history_of i h)" "no_room i h' = no_room i h" by (simp_all add: no_room_def)
qed

lemma last_record_in_order: "records_ok gen i n rs \<Longrightarrow> in_order n (last_records rs)"
  using records_in_order [of gen i n rs "\<lambda>_. True"] by (auto simp: last_records_def in_order_def)

lemma hub_records_ok: "hub_ok h \<Longrightarrow> records_ok (generation h) i (next_sequence (history_of i h)) (history_records (history_of i h))"
  using history_of_ok(1) [of h i] by (simp add: hub_ok_def history_ok_def)

text \<open>The three ways a subscription goes.\<close>

lemma subscribe_full: "no_room i h \<Longrightarrow> subscribe i at snapshot h = Some (Inl TooManyRequests, h)"
  by (simp add: subscribe_def)

lemma subscribe_replay:
  assumes "hub_ok h" and "\<not> no_room i h" and "replay_from i at h = Some c"
  defines "b \<equiv> filter (\<lambda>r. cursor_sequence c < ev_sequence r) (history_records (history_of i h))"
  obtains s h' where "subscribe i at snapshot h = Some (Inr s, h')" "hub_ok h'" "s \<in> set (subscribers (history_of i h'))"
    "channels h' s = \<lparr>backlog = b, queue = [], receiver_open = True\<rparr>"
proof -
  obtain s h' where a: "add_subscriber i b h = (s, h')" by (cases "add_subscriber i b h")
  have "in_order (next_sequence (history_of i h)) b" unfolding b_def by (rule records_in_order [OF hub_records_ok [OF assms(1)]])
  from add_subscriber_ok [OF assms(1) _ _ this a] assms(2) have "hub_ok h'" "s \<in> set (subscribers (history_of i h'))"
    "channels h' s = \<lparr>backlog = b, queue = [], receiver_open = True\<rparr>" by (simp_all add: no_room_def)
  moreover have "subscribe i at snapshot h = Some (Inr s, h')" using assms(2,3) a by (simp add: subscribe_def b_def)
  ultimately show thesis by (intro that)
qed

lemma subscribe_snapshot:
  assumes "hub_ok h" and "\<not> no_room i h" and "replay_from i at h = None" and "length snapshot \<le> MAX_EVENT_BYTES"
  defines "r \<equiv> new_record i ''snapshot'' snapshot h"
  obtains s h' where "subscribe i at snapshot h = Some (Inr s, h')" "hub_ok h'" "s \<in> set (subscribers (history_of i h'))"
    "record_bytes r \<le> INSTANCE_HISTORY_BYTES \<Longrightarrow> channels h' s = \<lparr>backlog = [r], queue = [], receiver_open = True\<rparr>"
proof -
  from publish_ok [OF assms(1,4), of i "''snapshot''" False]
  obtain t where t: "publish i ''snapshot'' snapshot False h = Some (True, t)" "hub_ok t" "published i r False h t"
    unfolding r_def by blast
  let ?b = "last_records (history_records (history_of i t))"
  obtain s h' where a: "add_subscriber i ?b t = (s, h')" by (cases "add_subscriber i ?b t")
  have "\<not> no_room i t" using published_silent(3) [OF t(3)] assms(2) by simp
  with add_subscriber_ok [OF t(2) _ _ last_record_in_order [OF hub_records_ok [OF t(2)]] a]
  have h': "hub_ok h'" "s \<in> set (subscribers (history_of i h'))" "channels h' s = \<lparr>backlog = ?b, queue = [], receiver_open = True\<rparr>"
    by (simp_all add: no_room_def)
  have "?b = [r]" if "record_bytes r \<le> INSTANCE_HISTORY_BYTES"
    using t(3) that unfolding published_def by (auto simp: last_records_def simp del: drop_append)
  moreover have "subscribe i at snapshot h = Some (Inr s, h')" using assms(2,3) t(1) a by (simp add: subscribe_def)
  ultimately show thesis using h' by (intro that) simp_all
qed

lemma subscribe_refused:
  "\<not> no_room i h \<Longrightarrow> replay_from i at h = None \<Longrightarrow> MAX_EVENT_BYTES < length snapshot \<Longrightarrow>
   subscribe i at snapshot h = Some (Inl ServiceUnavailable, h)"
  by (simp add: subscribe_def publish_def)

lemma subscribe_ok:
  assumes ok: "hub_ok h"
  shows "\<exists>r h'. subscribe i at snapshot h = Some (r, h') \<and> hub_ok h'"
proof (cases "no_room i h")
  case False
  show ?thesis
  proof (cases "replay_from i at h")
    case (Some c)
    from subscribe_replay [OF ok False this] show ?thesis by metis
  next
    case None
    then show ?thesis
      using subscribe_snapshot [OF ok False None] subscribe_refused [OF False None] ok by (metis not_le)
  qed
qed (use ok subscribe_full in auto)

text \<open>
  C39: A subscription begins complete: a client whose cursor can be replayed gets exactly the records behind the one it has
  seen, numbered without a gap up to the last one published; any other client gets one snapshot, the newest record of
  its instance. The subscriber is registered with an empty channel, so that nothing published later is missed.
\<close>

theorem subscription_starts_complete:
  assumes ok: "hub_ok h" and run: "subscribe i at snapshot h = Some (Inr s, h')"
    and fits: "record_bytes (new_record i ''snapshot'' snapshot h) \<le> INSTANCE_HISTORY_BYTES"
  shows "s \<in> set (subscribers (history_of i h')) \<and> queue (channels h' s) = [] \<and> receiver_open (channels h' s)
    \<and> (case replay_from i at h of
         Some c \<Rightarrow> map ev_sequence (backlog (channels h' s)) = [cursor_sequence c + 1 ..< next_sequence (history_of i h) + 1]
           \<and> set (backlog (channels h' s)) \<subseteq> set (history_records (history_of i h))
       | None \<Rightarrow> backlog (channels h' s) = [new_record i ''snapshot'' snapshot h])"
proof -
  have room: "\<not> no_room i h" using run subscribe_full by (cases "no_room i h") auto
  show ?thesis
  proof (cases "replay_from i at h")
    case (Some c)
    then have "replayable i c h" by (auto simp: replay_from_def split: option.splits if_splits)
    then have bounds: "first_sequence (history_of i h) - 1 \<le> cursor_sequence c" "cursor_sequence c \<le> next_sequence (history_of i h)"
      by (auto simp: replayable_def history_of_def unwrap_or_def split: option.splits)
    obtain s1 h1 where h1: "subscribe i at snapshot h = Some (Inr s1, h1)" "s1 \<in> set (subscribers (history_of i h1))"
      "channels h1 s1 = \<lparr>backlog = filter (\<lambda>r. cursor_sequence c < ev_sequence r) (history_records (history_of i h)), queue = [], receiver_open = True\<rparr>"
      using subscribe_replay [OF ok room Some, of snapshot] by metis
    with run have "s1 = s" "h1 = h'" by simp_all
    with h1(2,3) replayed_numbers [OF hub_records_ok [OF ok] bounds refl refl] show ?thesis by (simp add: Some del: upt_Suc)
  next
    case None
    have "length snapshot \<le> MAX_EVENT_BYTES"
      using run subscribe_refused [OF room None, of snapshot] by (cases "length snapshot \<le> MAX_EVENT_BYTES") auto
    then obtain s1 h1 where h1: "subscribe i at snapshot h = Some (Inr s1, h1)" "s1 \<in> set (subscribers (history_of i h1))"
      "channels h1 s1 = \<lparr>backlog = [new_record i ''snapshot'' snapshot h], queue = [], receiver_open = True\<rparr>"
      using subscribe_snapshot [OF ok room None] fits by metis
    with run have "s1 = s" "h1 = h'" by simp_all
    with h1(2,3) show ?thesis by (simp add: None)
  qed
qed

section \<open>Every operation keeps the hub in order\<close>

lemma channels_ok:
  assumes "hub_ok h" and "\<And>s n. in_order n (backlog (channels h s) @ queue (channels h s)) \<Longrightarrow> in_order n (backlog (cs s) @ queue (cs s))"
    and "\<And>s. length (queue (cs s)) \<le> length (queue (channels h s))"
  shows "hub_ok (h\<lparr>channels := cs\<rparr>)"
proof -
  have "streams_ok (h\<lparr>channels := cs\<rparr>) x" if "streams_ok h x" for x
    using that assms(2,3) le_trans unfolding streams_ok_def by fastforce
  moreover have "history_ok (h\<lparr>channels := cs\<rparr>) i x = history_ok h i x" for i x by (simp add: history_ok_def)
  ultimately show ?thesis using assms(1) by (simp add: hub_ok_def counts_ok_def)
qed

lemma unsubscribe_ok:
  assumes ok: "hub_ok h"
  shows "hub_ok (unsubscribe i s h)"
proof (cases "oget (histories h) i")
  case (Some x)
  from ok have c: "counts_ok h" by (simp add: hub_ok_def)
  let ?y = "x\<lparr>subscribers := filter (\<lambda>t. t \<noteq> s) (subscribers x)\<rparr>"
  have x: "history_of i h = x" using Some by (simp add: history_of_def unwrap_or_def)
  note X = counts_okD(4,5) [OF c Some] counts_okD(7) [OF c Some]
  have "counts_ok (put_history i ?y h)"
  proof (rule counts_update [OF c, of _ i])
    show "sum_of (length \<circ> subscribers) (histories h) + length (subscribers ?y) \<le> GLOBAL_SUBSCRIBERS + length (subscribers (history_of i h))"
      using counts_okD(3) [OF c] by (simp add: x add_mono)
    show "history_ok (put_history i ?y h) i ?y"
      using X(1) by (auto simp: history_ok_def intro: le_trans [OF length_filter_le])
    show "streams_ok (put_history i ?y h) ?y" using X(2) by (simp add: streams_ok_def)
    show "streams_ok (put_history i ?y h) z \<and> set (subscribers ?y) \<inter> set (subscribers z) = {}"
      if "j \<noteq> i" "oget (histories h) j = Some z" for j z
      using counts_okD(5,6) [OF c that(2)] counts_okD(6) [OF c Some that(2)] that(1) by (auto simp: streams_ok_def)
  qed (use X x in auto)
  with ok Some show ?thesis by (simp add: hub_ok_def unsubscribe_def)
qed (use ok in \<open>simp add: unsubscribe_def\<close>)

lemma drop_subscription_ok: "hub_ok h \<Longrightarrow> hub_ok (drop_subscription i s h)"
  unfolding drop_subscription_def Let_def by (rule channels_ok [OF unsubscribe_ok]) (auto split: if_splits)

lemma close_instance_ok:
  assumes ok: "hub_ok h"
  shows "hub_ok (close_instance i h)"
proof (cases "oget (histories h) i")
  case (Some x)
  from ok have c: "counts_ok h" by (simp add: hub_ok_def)
  note D = counts_okD [OF c]
  let ?h = "h\<lparr>histories := odel i (histories h), hub_bytes := hub_bytes h - history_bytes x\<rparr>"
  have sum: "sum_of f (odel i (histories h)) + f x = sum_of f (histories h)" for f :: "history \<Rightarrow> nat"
    using sum_of_del [OF D(1), of f i] Some by simp
  have old: "oget (odel i (histories h)) j = Some z \<Longrightarrow> oget (histories h) j = Some z" for j z
    using D(1) by (simp add: oget_odel split: if_splits)
  have "counts_ok ?h"
    unfolding counts_ok_def
  proof (intro conjI allI impI)
    show "ordered (histories ?h)" by (simp add: ordered_odel [OF D(1)])
    show "hub_bytes ?h = sum_of history_bytes (histories ?h)" using sum [of history_bytes] D(2) by simp
    show "sum_of (length \<circ> subscribers) (histories ?h) \<le> GLOBAL_SUBSCRIBERS" using sum [of "length \<circ> subscribers"] D(3) by simp
    show "history_ok ?h j z" "streams_ok ?h z" if "oget (histories ?h) j = Some z" for j z
      using D(4,5) [OF old [of j z]] that by (simp_all add: history_ok_def streams_ok_def)
    show "set (subscribers y) \<inter> set (subscribers z) = {}" if "oget (histories ?h) j = Some y \<and> oget (histories ?h) k = Some z \<and> j \<noteq> k" for j k y z
      using D(6) [OF old [of j y] old [of k z]] that by simp
    show "ev_order r \<le> next_order ?h" if "oget (histories ?h) j = Some y \<and> r \<in> set (history_records y)" for j y r
      using D(7) [OF old [of j y]] that by simp
  qed
  with ok Some show ?thesis by (auto simp: hub_ok_def close_instance_def)
qed (use ok in \<open>simp add: close_instance_def\<close>)

lemma poll_stream_ok: "hub_ok h \<Longrightarrow> hub_ok (snd (poll_stream i s h))"
  by (cases "backlog (channels h s)"; cases "queue (channels h s)")
    (auto simp: poll_stream_def Let_def in_order_def split: if_splits intro!: channels_ok)

lemma publish_hub_ok: "hub_ok h \<Longrightarrow> publish i k t to_all h = Some (b, h') \<Longrightarrow> hub_ok h'"
  using publish_ok [of h t i k to_all] by (cases "length t \<le> MAX_EVENT_BYTES") (auto simp: publish_def)

lemma hub_step_ok: "hub_ok h \<Longrightarrow> hub_ok (hub_step op h)"
proof (cases op)
  case (Subscribe i at t)
  assume "hub_ok h"
  from subscribe_ok [OF this, of i at t] Subscribe show ?thesis by auto
qed (auto simp: drop_subscription_ok close_instance_ok poll_stream_ok split: option.split dest: publish_hub_ok)

lemma new_hub_ok: "hub_ok (new_hub random)"
  by (simp add: hub_ok_def counts_ok_def new_hub_def GLOBAL_HISTORY_BYTES_def)

lemma hub_run_ok: "hub_ok h \<Longrightarrow> hub_ok (hub_run ops h)"
  by (induction ops h rule: hub_run.induct) (simp_all add: hub_step_ok)

interpretation hub: invariant_system "new_hub random" "\<lambda>h h'. \<exists>op. h' = hub_step op h" hub_ok for random
  by unfold_locales (auto simp: new_hub_ok hub_step_ok)

lemma hub_reachable: "(\<lambda>h h'. \<exists>op. h' = hub_step op h)\<^sup>*\<^sup>* (new_hub random) (hub_run ops (new_hub random))"
proof -
  have "(\<lambda>h h'. \<exists>op. h' = hub_step op h)\<^sup>*\<^sup>* h (hub_run ops h)" for h
    by (induction ops h rule: hub_run.induct) (auto intro: converse_rtranclp_into_rtranclp)
  then show ?thesis .
qed

text \<open>
  C38: Whatever clients and the daemon do, the hub stays within its limits: per instance at most 256 records, 1 MiB and 8
  subscribers, in all 32 MiB and 128 subscribers, and 64 records in a channel; the byte counters are exact; what a
  subscriber has still to read is in the order of publication; and publishing and subscribing always return.
\<close>

theorem event_hub_stays_bounded:
  fixes ops random
  defines "h \<equiv> hub_run ops (new_hub random)"
  shows "hub_bytes h = sum_of (bytes_of \<circ> history_records) (histories h) \<and> hub_bytes h \<le> GLOBAL_HISTORY_BYTES
    \<and> subscriber_total h \<le> GLOBAL_SUBSCRIBERS
    \<and> length (history_records (history_of i h)) \<le> HISTORY_EVENTS \<and> bytes_of (history_records (history_of i h)) \<le> INSTANCE_HISTORY_BYTES
    \<and> length (subscribers (history_of i h)) \<le> INSTANCE_SUBSCRIBERS
    \<and> list_all (\<lambda>s. length (queue (channels h s)) \<le> CHANNEL_EVENTS
        \<and> sorted_wrt (<) (map ev_sequence (backlog (channels h s) @ queue (channels h s)))) (subscribers (history_of i h))
    \<and> publish i k t to_all h \<noteq> None \<and> subscribe i at t h \<noteq> None"
proof -
  have ok: "hub_ok h" unfolding h_def by (rule hub.inv_reachable [OF hub_reachable])
  then have c: "counts_ok h" by (simp add: hub_ok_def)
  note x = history_of_ok(1,2) [OF c, of i]
  have "sum_of history_bytes (histories h) = sum_of (bytes_of \<circ> history_records) (histories h)"
    unfolding sum_of_def using counts_okD(4) [OF c ordered_in_oget [OF counts_okD(1) [OF c]]]
    by (intro arg_cong [of _ _ sum_list] map_cong) (auto simp: history_ok_def)
  moreover have "publish i k t to_all h \<noteq> None"
    using publish_ok [OF ok, of t i k to_all] by (cases "length t \<le> MAX_EVENT_BYTES") (auto simp: publish_def)
  moreover have "subscribe i at t h \<noteq> None" using subscribe_ok [OF ok, of i at t] by auto
  ultimately show ?thesis
    using ok c x counts_okD(2,3) [OF c]
    by (simp add: hub_ok_def history_ok_def streams_ok_def in_order_def list_all_iff subscriber_total_sum)
qed

section \<open>Nothing is lost\<close>

definition unread :: "nat \<Rightarrow> event_hub \<Rightarrow> event_record list" where
  "unread s h = backlog (channels h s) @ queue (channels h s)"

text \<open>The records an operation sends to the subscribers of an instance, and the ones it gives to a subscriber.\<close>

fun sent :: "string \<Rightarrow> hub_op \<Rightarrow> event_hub \<Rightarrow> event_record list" where
  "sent i (Publish j k t to_all) h = (if j = i \<and> to_all \<and> length t \<le> MAX_EVENT_BYTES then [new_record j k t h] else [])"
| "sent i _ h = []"

fun given :: "nat \<Rightarrow> hub_op \<Rightarrow> event_hub \<Rightarrow> event_record list" where
  "given s (Poll j r) h = (if r = s then (case fst (poll_stream j r h) of Ready q \<Rightarrow> [q] | _ \<Rightarrow> []) else [])"
| "given s _ h = []"

fun all_sent :: "string \<Rightarrow> hub_op list \<Rightarrow> event_hub \<Rightarrow> event_record list" where
  "all_sent i [] h = []"
| "all_sent i (op # ops) h = sent i op h @ all_sent i ops (hub_step op h)"

fun all_given :: "nat \<Rightarrow> hub_op list \<Rightarrow> event_hub \<Rightarrow> event_record list" where
  "all_given s [] h = []"
| "all_given s (op # ops) h = given s op h @ all_given s ops (hub_step op h)"

abbreviation subscribed :: "string \<Rightarrow> nat \<Rightarrow> event_hub \<Rightarrow> bool" where
  "subscribed i s h \<equiv> s \<in> set (subscribers (history_of i h))"

lemma subscribed_old: "hub_ok h \<Longrightarrow> subscribed i s h \<Longrightarrow> s \<le> next_subscriber h"
  using history_of_ok(2) [of h i] by (auto simp: hub_ok_def streams_ok_def)

lemma subscribed_once: "hub_ok h \<Longrightarrow> subscribed i s h \<Longrightarrow> subscribed j s h \<Longrightarrow> i = j"
proof (rule ccontr)
  assume h: "hub_ok h" "subscribed i s h" "subscribed j s h" "i \<noteq> j"
  have "oget (histories h) i = Some (history_of i h)" "oget (histories h) j = Some (history_of j h)"
    using history_of_cases [of h i] history_of_cases [of h j] h(2,3) by (auto simp: empty_history_def)
  with h show False using counts_okD(6) [of h i "history_of i h" j "history_of j h"] by (auto simp: hub_ok_def)
qed

text \<open>What an operation means for a subscriber that exists: number, channel and membership.\<close>

definition follows :: "string \<Rightarrow> nat \<Rightarrow> hub_op \<Rightarrow> event_hub \<Rightarrow> event_hub \<Rightarrow> bool" where
  "follows i s op h h' \<longleftrightarrow> next_subscriber h \<le> next_subscriber h' \<and> (subscribed i s h' \<longrightarrow> subscribed i s h
     \<and> given s op h @ unread s h' = unread s h @ sent i op h)"

lemma publish_follows:
  assumes ok: "hub_ok h" and s: "s \<le> next_subscriber h" and small: "length t \<le> MAX_EVENT_BYTES"
    and h': "published j (new_record j k t h) to_all h h'"
  shows "follows i s (Publish j k t to_all) h h'"
proof -
  let ?r = "new_record j k t h"
  have p: "(subscribers (history_of j h'), channels h') = (if to_all then broadcast ?r (subscribers (history_of j h)) (channels h)
      else (subscribers (history_of j h), channels h))"
    and others: "\<And>l. l \<noteq> j \<Longrightarrow> subscribers (history_of l h') = subscribers (history_of l h)"
    and n: "next_subscriber h' = next_subscriber h" using h' by (simp_all add: published_def del: drop_append)
  show ?thesis
  proof (cases "i = j")
    case True
    with p n small show ?thesis by (auto simp: follows_def unread_def broadcast_def split: if_splits)
  next
    case False
    have "channels h' s = channels h s" if "subscribed i s h"
      using p subscribed_once [OF ok that, of j] False by (auto simp: broadcast_def split: if_splits)
    with False others [of i] n show ?thesis by (auto simp: follows_def unread_def)
  qed
qed

lemma unchanged_follows:
  "next_subscriber h \<le> next_subscriber h' \<Longrightarrow> (subscribed i s h' \<Longrightarrow> subscribed i s h \<and> unread s h' = unread s h) \<Longrightarrow>
   given s op h = [] \<Longrightarrow> sent i op h = [] \<Longrightarrow> follows i s op h h'"
  by (simp add: follows_def)

lemma add_subscriber_follows:
  "add_subscriber j b h = (n, h') \<Longrightarrow> s \<le> next_subscriber h \<Longrightarrow>
   next_subscriber h \<le> next_subscriber h' \<and> (subscribed i s h' \<longrightarrow> subscribed i s h \<and> unread s h' = unread s h)"
  by (auto simp: add_subscriber_def Let_def unread_def split: if_splits)

lemma subscribe_follows:
  assumes ok: "hub_ok h" and s: "s \<le> next_subscriber h" and run: "subscribe j at t h = Some (r, h')"
  shows "follows i s (Subscribe j at t) h h'"
proof (rule unchanged_follows)
  have "next_subscriber h \<le> next_subscriber h' \<and> (subscribed i s h' \<longrightarrow> subscribed i s h \<and> unread s h' = unread s h)"
  proof (cases "no_room j h")
    case True
    with run subscribe_full [OF True] show ?thesis by auto
  next
    case room: False
    show ?thesis
    proof (cases "replay_from j at h")
      case (Some c)
      obtain n h1 where "add_subscriber j (filter (\<lambda>r. cursor_sequence c < ev_sequence r) (history_records (history_of j h))) h = (n, h1)"
        by fastforce
      with add_subscriber_follows [OF this s, of i] run room Some show ?thesis by (auto simp: subscribe_def)
    next
      case None
      show ?thesis
      proof (cases "length t \<le> MAX_EVENT_BYTES")
        case False
        with run room None show ?thesis using subscribe_refused [OF room None, of t] by auto
      next
        case True
        from publish_ok [OF ok this, of j "''snapshot''" False]
        obtain u where u: "publish j ''snapshot'' t False h = Some (True, u)" "published j (new_record j ''snapshot'' t h) False h u" by blast
        have "follows i s (Publish j ''snapshot'' t False) h u" by (rule publish_follows [OF ok s True u(2)])
        then have f: "subscribed i s u \<longrightarrow> subscribed i s h \<and> unread s u = unread s h" by (simp add: follows_def)
        have n: "next_subscriber u = next_subscriber h" using u(2) by (simp add: published_def del: drop_append)
        obtain n h1 where a: "add_subscriber j (last_records (history_records (history_of j u))) u = (n, h1)" by fastforce
        have "h1 = h'" using run room None u(1) a by (simp add: subscribe_def)
        with add_subscriber_follows [OF a, of s i] f n s show ?thesis by auto
      qed
    qed
  qed
  then show "next_subscriber h \<le> next_subscriber h'" "subscribed i s h' \<Longrightarrow> subscribed i s h \<and> unread s h' = unread s h" by auto
qed simp_all

lemma step_follows:
  assumes ok: "hub_ok h" and s: "s \<le> next_subscriber h"
  shows "follows i s op h (hub_step op h)"
proof (cases op)
  case (Publish j k t to_all)
  show ?thesis
  proof (cases "length t \<le> MAX_EVENT_BYTES")
    case True
    from publish_ok [OF ok this, of j k to_all] publish_follows [OF ok s True, of j k to_all] Publish show ?thesis by auto
  qed (simp add: Publish publish_def follows_def)
next
  case (Subscribe j at t)
  from subscribe_ok [OF ok, of j at t] subscribe_follows [OF ok s, of j at t] Subscribe show ?thesis by auto
next
  case (DropSubscription j r)
  then show ?thesis
    by (auto simp: follows_def drop_subscription_def Let_def unsubscribe_def unread_def history_of_def unwrap_or_def oget_oput split: option.splits if_splits)
next
  case (CloseInstance j)
  have "ordered (histories h)" using ok counts_okD(1) by (simp add: hub_ok_def)
  with CloseInstance show ?thesis
    by (auto simp: follows_def close_instance_def unread_def history_of_def unwrap_or_def oget_odel empty_history_def split: option.splits if_splits)
next
  case (Poll j r)
  then show ?thesis
    by (cases "backlog (channels h r)"; cases "queue (channels h r)") (auto simp: follows_def poll_stream_def Let_def unread_def)
qed

lemma run_stays_out: "hub_ok h \<Longrightarrow> s \<le> next_subscriber h \<Longrightarrow> subscribed i s (hub_run ops h) \<Longrightarrow> subscribed i s h"
proof (induction ops h rule: hub_run.induct)
  case (2 op ops h)
  have f: "follows i s op h (hub_step op h)" by (rule step_follows [OF "2.prems"(1,2)])
  then have "subscribed i s (hub_step op h)" using "2.IH" hub_step_ok [OF "2.prems"(1)] "2.prems" by (simp add: follows_def)
  with f show ?case by (simp add: follows_def)
qed simp

text \<open>
  C40: A subscriber loses nothing and gets nothing twice: over any operations, as long as it is still subscribed at the
  end, what it has read followed by what it has still to read is what it had to read at the beginning followed by every
  record published to its instance since, in that order.
\<close>

theorem subscriber_gets_every_record:
  assumes "hub_ok h" and "subscribed i s h" and "subscribed i s (hub_run ops h)"
  shows "all_given s ops h @ unread s (hub_run ops h) = unread s h @ all_sent i ops h"
  using assms
proof (induction ops h rule: hub_run.induct)
  case (2 op ops h)
  have old: "s \<le> next_subscriber h" by (rule subscribed_old [OF "2.prems"(1,2)])
  have f: "follows i s op h (hub_step op h)" by (rule step_follows [OF "2.prems"(1) old])
  have ok: "hub_ok (hub_step op h)" by (rule hub_step_ok [OF "2.prems"(1)])
  have sub: "subscribed i s (hub_step op h)"
    by (rule run_stays_out [OF ok _]) (use f old "2.prems"(3) in \<open>auto simp: follows_def\<close>)
  have "all_given s ops (hub_step op h) @ unread s (hub_run ops (hub_step op h)) = unread s (hub_step op h) @ all_sent i ops (hub_step op h)"
    using "2.IH" [OF ok sub] "2.prems"(3) by simp
  moreover have "given s op h @ unread s (hub_step op h) = unread s h @ sent i op h" using f sub by (simp add: follows_def)
  ultimately show ?case by (metis all_given.simps(2) all_sent.simps(2) append.assoc hub_run.simps(2))
qed simp

section \<open>Cursors\<close>

lemma show_nat_no_colon: "CHR '':'' \<notin> set (show_nat n)"
  using show_nat_digits [of n] by (auto simp: list_all_iff is_ascii_digit_def)

text \<open>
  The identifier of a record is a cursor for it: a client that sends it back is understood as having seen exactly
  that record of that instance and of this generation of the hub.
\<close>

theorem event_id_reads_back:
  assumes "id_valid i" and "length gen = 32" "list_all is_ascii_hexdigit gen" and "0 < n" "int n < 2 ^ 64"
  shows "parse_cursor (event_id i gen n) = Some \<lparr>cursor_instance = i, cursor_generation = gen, cursor_sequence = n\<rparr>"
proof -
  have "CHR '':'' \<notin> set i" using assms(1) by (auto simp: id_valid_def list_all_iff id_byte_ok_def chars_simps)
  moreover have "CHR '':'' \<notin> set gen"
    using assms(3) by (auto simp: list_all_iff is_ascii_hexdigit_def is_ascii_digit_def)
  ultimately have "split_on (CHR '':'') (event_id i gen n) = [i, gen, show_nat n]"
    by (simp add: event_id_def split_on_append split_on_none show_nat_no_colon)
  then show ?thesis
    using assms show_nat_digits [of n] parse_show_nat [OF assms(5)] by (simp add: parse_cursor_def)
qed

theorem event_id_reads_back_witness:
  "parse_cursor (event_id ''lab01'' (replicate 32 CHR ''0'') 42)
   = Some \<lparr>cursor_instance = ''lab01'', cursor_generation = replicate 32 CHR ''0'', cursor_sequence = 42\<rparr>"
proof (rule event_id_reads_back)
  show "id_valid ''lab01''" by code_simp
  show "list_all is_ascii_hexdigit (replicate 32 CHR ''0'')" by code_simp
qed simp_all

section \<open>Examples\<close>

definition sample_hub :: event_hub where "sample_hub = hub_step (Subscribe ''a'' None ''{}'') (new_hub [])"

lemmas hub_defs = subscribe_def no_room_def replay_from_def publish_def new_record_def add_subscriber_def last_records_def Let_def
  history_of_def put_history_def unwrap_or_def subscriber_total_def broadcast_def can_send_def event_id_def record_bytes_def trim_hub.simps
  empty_history_def new_hub_def hex_bytes_def show_nat.simps poll_stream_def
  MAX_EVENT_BYTES_def INSTANCE_HISTORY_BYTES_def GLOBAL_HISTORY_BYTES_def HISTORY_EVENTS_def INSTANCE_SUBSCRIBERS_def
  GLOBAL_SUBSCRIBERS_def CHANNEL_EVENTS_def

lemma sample_hub_ok: "hub_ok sample_hub"
  unfolding sample_hub_def by (rule hub_step_ok [OF new_hub_ok])

lemma sample_hub_explicit: "sample_hub = \<lparr>generation = [], histories = [(''a'', \<lparr>next_sequence = 1, history_bytes = 38,
    history_records = [\<lparr>ev_sequence = 1, ev_order = 1, ev_kind = ''snapshot'', ev_id = ''a::1'', ev_data = ''{}''\<rparr>], subscribers = [1]\<rparr>)],
    hub_bytes = 38, next_order = 1, next_subscriber = 1,
    channels = (\<lambda>_. \<lparr>backlog = [], queue = [], receiver_open = False\<rparr>)(1 := \<lparr>backlog =
      [\<lparr>ev_sequence = 1, ev_order = 1, ev_kind = ''snapshot'', ev_id = ''a::1'', ev_data = ''{}''\<rparr>], queue = [], receiver_open = True\<rparr>)\<rparr>"
proof -
  have one: "char_of (49 :: nat) = CHR ''1''" by code_simp
  show ?thesis by (simp add: sample_hub_def hub_defs one)
qed

lemma sample_subscribed: "subscribed ''a'' 1 sample_hub"
  by (simp add: sample_hub_explicit history_of_def unwrap_or_def)

theorem subscription_starts_complete_witness:
  "\<exists>s h'. subscribe ''a'' None ''{}'' (new_hub []) = Some (Inr s, h') \<and> map ev_kind (backlog (channels h' s)) = [''snapshot'']"
proof -
  obtain s h' where h': "subscribe ''a'' None ''{}'' (new_hub []) = Some (Inr s, h')"
    using subscribe_snapshot [OF new_hub_ok, of "''a''" "[]" None "''{}''"] by (auto simp: hub_defs)
  moreover have "record_bytes (new_record ''a'' ''snapshot'' ''{}'' (new_hub [])) \<le> INSTANCE_HISTORY_BYTES" by (simp add: hub_defs)
  ultimately show ?thesis
    using subscription_starts_complete [OF new_hub_ok h'] by (auto simp: replay_from_def)
qed

theorem subscriber_gets_every_record_witness:
  "map ev_kind (all_given 1 [Publish ''a'' ''state'' ''1'' True, Poll ''a'' 1] sample_hub
     @ unread 1 (hub_run [Publish ''a'' ''state'' ''1'' True, Poll ''a'' 1] sample_hub)) = [''snapshot'', ''state'']"
proof -
  let ?ops = "[Publish ''a'' ''state'' ''1'' True, Poll ''a'' 1]"
  have "subscribed ''a'' 1 (hub_run ?ops sample_hub)" by (simp add: sample_hub_explicit hub_defs)
  from subscriber_gets_every_record [OF sample_hub_ok sample_subscribed this]
  show ?thesis by (simp only: map_append) (simp add: sample_hub_explicit unread_def MAX_EVENT_BYTES_def)
qed

text \<open>
  An instance that is removed and made again gets a new history, but the generation is that of the hub and the numbers
  start again: a client of the old instance whose cursor is not beyond the new history is replayed the new one from its
  old number on, without a snapshot, and never sees the records before.
\<close>

lemma old_cursor_fits_new_instance:
  "\<exists>h. h = hub_run [CloseInstance ''a'', Publish ''a'' ''state'' ''new'' True] sample_hub
     \<and> replay_from ''a'' (Some \<lparr>cursor_instance = ''a'', cursor_generation = [], cursor_sequence = 1\<rparr>) h
        = Some \<lparr>cursor_instance = ''a'', cursor_generation = [], cursor_sequence = 1\<rparr>
     \<and> filter (\<lambda>r. 1 < ev_sequence r) (history_records (history_of ''a'' h)) = []
     \<and> map ev_data (history_records (history_of ''a'' h)) = [''new'']"
  by (simp add: sample_hub_explicit hub_defs close_instance_def replayable_def first_sequence_def)

end
