(* ===== verification/Spec2Isabelle.thy ===== *)
theory Spec2Isabelle
  imports ViewerSession InstanceProperties ResolveProperties LaunchChecks CaptureProperties Snapshots
    ConfigurationProperties QmpProperties DeviceProperties ProcessProperties LifecycleProperties
    CapabilityProperties ImageProperties
    LockProperties EventProperties
begin

text \<open>
  MachineEmu.
\<close>

end
